(* ===== verification/Prelude.thy ===== *)
theory Prelude
  imports Main "HOL-Library.Word" "HOL-Library.State_Monad"
begin

text \<open>
  What every component of the development shares: the machine integers of the 32-bit ARM target,
  the readers and writers of the state monad in which the drivers are written, loops with an early
  return, and a small weakest-precondition calculus (\<open>wp\<close>) with its simplification rules in
  the collection \<open>wp_simps\<close>. Facts about words that several drivers need are at the end.
\<close>

unbundle bit_operations_syntax

named_theorems wp_simps \<open>rules that compute the weakest precondition of a driver step\<close>

section \<open>Machine integers\<close>

type_synonym u8 = "8 word"
type_synonym u16 = "16 word"
type_synonym u32 = "32 word"
type_synonym u64 = "64 word"

section \<open>Reading and writing the state\<close>

abbreviation ret :: "'a \<Rightarrow> ('s, 'a) state" where
  "ret x \<equiv> State_Monad.return x"

abbreviation skip :: "('s, unit) state" where
  "skip \<equiv> ret ()"

definition rd :: "('s \<Rightarrow> 'a) \<Rightarrow> ('s, 'a) state" where
  "rd f = State (\<lambda>s. (f s, s))"

definition wr :: "('s \<Rightarrow> 's) \<Rightarrow> ('s, unit) state" where
  "wr f = State (\<lambda>s. ((), f s))"

lemma run_state_rd [simp]: "run_state (rd f) s = (f s, s)"
  by (simp add: rd_def)

lemma run_state_wr [simp]: "run_state (wr f) s = ((), f s)"
  by (simp add: wr_def)

section \<open>Loops with an early return\<close>

text \<open>
  \<open>for_each is body\<close> is a C \<open>for\<close> loop over the indices \<open>is\<close> whose body may \<open>return\<close>:
  \<open>None\<close> goes on with the next index, \<open>Some r\<close> leaves the loop with the value \<open>r\<close>.
\<close>

fun for_each :: "'i list \<Rightarrow> ('i \<Rightarrow> ('s, 'r option) state) \<Rightarrow> ('s, 'r option) state" where
  "for_each [] body = ret None"
| "for_each (i # is) body =
     do { r \<leftarrow> body i;
          case r of None \<Rightarrow> for_each is body | Some x \<Rightarrow> ret (Some x) }"

text \<open>\<open>do_each\<close> is the same loop without a \<open>return\<close> in its body.\<close>

fun do_each :: "'i list \<Rightarrow> ('i \<Rightarrow> ('s, unit) state) \<Rightarrow> ('s, unit) state" where
  "do_each [] body = skip"
| "do_each (i # is) body = do { body i; do_each is body }"

section \<open>Weakest preconditions\<close>

definition wp :: "('s, 'a) state \<Rightarrow> ('a \<Rightarrow> 's \<Rightarrow> bool) \<Rightarrow> 's \<Rightarrow> bool" where
  "wp m Q s = (case run_state m s of (r, s') \<Rightarrow> Q r s')"

lemma wp_return [wp_simps]: "wp (ret x) Q s = Q x s"
  by (simp add: wp_def)

lemma wp_bind [wp_simps]: "wp (m \<bind> f) Q s = wp m (\<lambda>r. wp (f r) Q) s"
  by (simp add: wp_def split: prod.split)

lemma wp_rd [wp_simps]: "wp (rd f) Q s = Q (f s) s"
  by (simp add: wp_def)

lemma wp_wr [wp_simps]: "wp (wr f) Q s = Q () (f s)"
  by (simp add: wp_def)

lemma wp_if [wp_simps]:
  "wp (if b then m else n) Q s = ((b \<longrightarrow> wp m Q s) \<and> (\<not> b \<longrightarrow> wp n Q s))"
  by simp

lemma wp_case_option [wp_simps]:
  "wp (case x of None \<Rightarrow> m | Some y \<Rightarrow> f y) Q s =
     ((x = None \<longrightarrow> wp m Q s) \<and> (\<forall>y. x = Some y \<longrightarrow> wp (f y) Q s))"
  by (cases x) simp_all

lemma wp_ifI:
  "(b \<Longrightarrow> wp m Q s) \<Longrightarrow> (\<not> b \<Longrightarrow> wp n Q s) \<Longrightarrow> wp (if b then m else n) Q s"
  by simp

lemma wp_run: "wp m Q s \<Longrightarrow> run_state m s = (r, s') \<Longrightarrow> Q r s'"
  by (simp add: wp_def)

lemma wpI: "(\<And>r s'. run_state m s = (r, s') \<Longrightarrow> Q r s') \<Longrightarrow> wp m Q s"
  by (simp add: wp_def split: prod.split)

lemma wp_mono: "wp m P s \<Longrightarrow> (\<And>r s'. P r s' \<Longrightarrow> Q r s') \<Longrightarrow> wp m Q s"
  by (simp add: wp_def split: prod.splits)

lemma wp_conj: "wp m P s \<Longrightarrow> wp m Q s \<Longrightarrow> wp m (\<lambda>r s'. P r s' \<and> Q r s') s"
  by (simp add: wp_def split: prod.splits)

lemma wp_fst_snd: "wp m Q s = Q (fst (run_state m s)) (snd (run_state m s))"
  by (simp add: wp_def split: prod.split)

text \<open>Loops: an invariant over the indices that are left.\<close>

lemma wp_for_each:
  assumes "I is s"
    and "\<And>i is s. I (i # is) s \<Longrightarrow>
           wp (body i) (\<lambda>r s'. case r of None \<Rightarrow> I is s' | Some x \<Rightarrow> Q (Some x) s') s"
    and "\<And>s. I [] s \<Longrightarrow> Q None s"
  shows "wp (for_each is body) Q s"
  using assms(1)
proof (induction "is" arbitrary: s)
  case Nil
  then show ?case by (simp add: wp_simps assms(3))
next
  case (Cons i "is")
  from assms(2) [OF Cons.prems] show ?case
    unfolding for_each.simps wp_bind
    by (rule wp_mono) (auto simp: wp_simps Cons.IH split: option.splits)
qed

lemma wp_do_each:
  assumes "I is s"
    and "\<And>i is s. I (i # is) s \<Longrightarrow> wp (body i) (\<lambda>_. I is) s"
    and "\<And>s. I [] s \<Longrightarrow> Q () s"
  shows "wp (do_each is body) Q s"
  using assms(1)
proof (induction "is" arbitrary: s)
  case Nil
  then show ?case by (simp add: wp_simps assms(3))
next
  case (Cons i "is")
  from assms(2) [OF Cons.prems] show ?case
    unfolding do_each.simps wp_bind by (rule wp_mono) (rule Cons.IH)
qed

section \<open>Invariants of single steps\<close>

text \<open>
  \<open>keeps I m\<close>: the step \<open>m\<close> leads from \<open>I\<close> to \<open>I\<close>. The rules in \<open>keeps_intros\<close> follow the
  structure of a step, down to its calls and assignments.
\<close>

named_theorems keeps_intros \<open>rules that push an invariant through a driver step\<close>

definition keeps :: "('s \<Rightarrow> bool) \<Rightarrow> ('s, 'a) state \<Rightarrow> bool" where
  "keeps I m \<longleftrightarrow> (\<forall>s. I s \<longrightarrow> wp m (\<lambda>_. I) s)"

lemma keepsI: "(\<And>s. I s \<Longrightarrow> wp m (\<lambda>_. I) s) \<Longrightarrow> keeps I m"
  by (simp add: keeps_def)

lemma keepsD: "keeps I m \<Longrightarrow> I s \<Longrightarrow> wp m (\<lambda>_. I) s"
  by (simp add: keeps_def)

lemma keeps_run: "keeps I m \<Longrightarrow> I s \<Longrightarrow> run_state m s = (r, s') \<Longrightarrow> I s'"
  by (drule (1) keepsD) (rule wp_run)

lemma keeps_snd: "keeps I m \<Longrightarrow> I s \<Longrightarrow> I (snd (run_state m s))"
  by (simp add: keeps_def wp_fst_snd)

lemma keeps_return [keeps_intros]: "keeps I (ret x)"
  by (simp add: keeps_def wp_return)

lemma keeps_rd [keeps_intros]: "keeps I (rd f)"
  by (simp add: keeps_def wp_rd)

lemma keeps_wr [keeps_intros]: "(\<And>s. I s \<Longrightarrow> I (f s)) \<Longrightarrow> keeps I (wr f)"
  by (simp add: keeps_def wp_wr)

lemma keeps_bind [keeps_intros]:
  assumes "keeps I m" "\<And>r. keeps I (f r)"
  shows "keeps I (m \<bind> f)"
proof (rule keepsI)
  fix s assume "I s"
  then have "wp m (\<lambda>_. I) s" by (rule keepsD [OF assms(1)])
  then show "wp (m \<bind> f) (\<lambda>_. I) s"
    unfolding wp_bind by (rule wp_mono) (rule keepsD [OF assms(2)])
qed

lemma keeps_if [keeps_intros]:
  "(b \<Longrightarrow> keeps I m) \<Longrightarrow> (\<not> b \<Longrightarrow> keeps I n) \<Longrightarrow> keeps I (if b then m else n)"
  by simp

lemma keeps_case_option [keeps_intros]:
  "keeps I m \<Longrightarrow> (\<And>y. x = Some y \<Longrightarrow> keeps I (f y)) \<Longrightarrow>
     keeps I (case x of None \<Rightarrow> m | Some y \<Rightarrow> f y)"
  by (cases x) simp_all

lemma keeps_let [keeps_intros]: "(\<And>x. keeps I (f x)) \<Longrightarrow> keeps I (let x = v in f x)"
  by simp

lemma keeps_for_each [keeps_intros]:
  "(\<And>i. i \<in> set is \<Longrightarrow> keeps I (body i)) \<Longrightarrow> keeps I (for_each is body)"
  by (induction "is") (auto intro!: keeps_intros)

lemma keeps_do_each [keeps_intros]:
  "(\<And>i. i \<in> set is \<Longrightarrow> keeps I (body i)) \<Longrightarrow> keeps I (do_each is body)"
  by (induction "is") (auto intro!: keeps_intros)

lemma wp_keeps_bind:
  assumes "keeps I m" "I s" "\<And>r s'. I s' \<Longrightarrow> wp (f r) Q s'"
  shows "wp (m \<bind> f) Q s"
  unfolding wp_bind by (rule wp_mono [OF keepsD [OF assms(1,2)]]) (rule assms(3))

section \<open>Transition systems\<close>

inductive reach :: "('s \<Rightarrow> bool) \<Rightarrow> ('s \<Rightarrow> 'v \<Rightarrow> 's \<Rightarrow> bool) \<Rightarrow> 's \<Rightarrow> bool"
  for start :: "'s \<Rightarrow> bool" and step :: "'s \<Rightarrow> 'v \<Rightarrow> 's \<Rightarrow> bool" where
  reach_start: "start s \<Longrightarrow> reach start step s"
| reach_step: "reach start step s \<Longrightarrow> step s v s' \<Longrightarrow> reach start step s'"

text \<open>The states after a list of events.\<close>

inductive runs :: "('s \<Rightarrow> 'v \<Rightarrow> 's \<Rightarrow> bool) \<Rightarrow> 's \<Rightarrow> 'v list \<Rightarrow> 's \<Rightarrow> bool"
  for step :: "'s \<Rightarrow> 'v \<Rightarrow> 's \<Rightarrow> bool" where
  runs_Nil: "runs step s [] s"
| runs_Cons: "step s v s' \<Longrightarrow> runs step s' vs s'' \<Longrightarrow> runs step s (v # vs) s''"

inductive_cases runs_ConsE: "runs step s (v # vs) s''"
inductive_cases runs_NilE: "runs step s [] s'"

locale step_system =
  fixes start :: "'s \<Rightarrow> bool"
    and step :: "'s \<Rightarrow> 'v \<Rightarrow> 's \<Rightarrow> bool"
    and inv :: "'s \<Rightarrow> bool"
  assumes inv_start: "start s \<Longrightarrow> inv s"
    and inv_step: "inv s \<Longrightarrow> step s v s' \<Longrightarrow> inv s'"
begin

lemma reach_inv: "reach start step s \<Longrightarrow> inv s"
  by (induction rule: reach.induct) (blast intro: inv_start inv_step)+

lemma runs_inv: "runs step s vs s' \<Longrightarrow> inv s \<Longrightarrow> inv s'"
  by (induction rule: runs.induct) (blast intro: inv_step)+

lemma runs_reach: "runs step s vs s' \<Longrightarrow> reach start step s \<Longrightarrow> reach start step s'"
  by (induction rule: runs.induct) (blast intro: reach_step)+

text \<open>What every step from an invariant state keeps is kept along every run.\<close>

lemma runs_stable:
  assumes "runs step s vs s'" "inv s" "P s"
    and "\<And>s v s'. inv s \<Longrightarrow> P s \<Longrightarrow> step s v s' \<Longrightarrow> P s'"
  shows "P s'"
  using assms(1-3) by (induction rule: runs.induct) (blast intro: inv_step assms(4))+

end

section \<open>Words\<close>

lemma unat_u32_less: "unat (a :: u32) < 2 ^ 32"
  by (rule order_less_le_trans [OF unsigned_less]) simp

lemma unat_sub_wrap:
  "unat (a - b :: u32) = (unat a + 2 ^ 32 - unat b) mod 2 ^ 32"
proof (cases "unat b \<le> unat a")
  case True
  then have eq: "unat a + 2 ^ 32 - unat b = (unat a - unat b) + 2 ^ 32" by simp
  have "unat a - unat b < 2 ^ 32" using unat_u32_less [of a] by simp
  then show ?thesis unfolding eq mod_add_self2 using True by (simp add: unat_sub_if_size)
next
  case False
  then have "unat a + 2 ^ 32 - unat b < 2 ^ 32" using unat_u32_less [of b] by simp
  then show ?thesis using False by (simp add: unat_sub_if_size word_size)
qed

lemma unat_word_of_nat_u32: "n < 2 ^ 32 \<Longrightarrow> unat (word_of_nat n :: u32) = n"
  by (simp add: unat_of_nat)

lemma sint_u32_small:
  assumes "unat (i :: u32) < 2 ^ 31"
  shows "sint i = int (unat i)"
proof -
  have "int (unat i) < int (2 ^ 31)" using assms by (simp only: of_nat_less_iff)
  then have "uint i < 2 ^ 31" by simp
  moreover have "- (2 ^ 31) \<le> uint i" by (rule order_trans [of _ 0]) simp_all
  ultimately show ?thesis by (simp add: sint_uint signed_take_bit_int_eq_self)
qed

lemma udiv_le: "unat (a div b :: u32) \<le> unat a"
  by (simp add: unat_div)

lemma word_of_nat_nonzero: "0 < n \<Longrightarrow> n < 2 ^ 32 \<Longrightarrow> (word_of_nat n :: u32) \<noteq> 0"
  using unat_word_of_nat_u32 [of n] by auto

lemma div_word_of_nat:
  "a < 2 ^ 32 \<Longrightarrow> b < 2 ^ 32 \<Longrightarrow> (word_of_nat a :: u32) div word_of_nat b = word_of_nat (a div b)"
  by (simp only: word_arith_nat_div unat_word_of_nat_u32)

lemma mod_if_less_double: "b \<le> a \<Longrightarrow> a < 2 * b \<Longrightarrow> a mod b = a - (b :: nat)"
  by (simp add: le_mod_geq)

lemma sum_list_ints: "sum_list (map word_of_int xs) = (word_of_int (sum_list xs) :: u32)"
  by (induction xs) simp_all

lemma uint_word_of_int_u32:
  "\<bar>x\<bar> < 2 ^ 31 \<Longrightarrow> uint (word_of_int x :: u32) = (if 0 \<le> x then x else 2 ^ 32 + x)"
proof -
  assume x: "\<bar>x\<bar> < 2 ^ 31"
  have "uint (word_of_int x :: u32) = x mod 2 ^ 32" by (simp add: unsigned_of_int take_bit_eq_mod)
  also have "\<dots> = (if 0 \<le> x then x else 2 ^ 32 + x)"
  proof (cases "0 \<le> x")
    case False
    have "x mod 2 ^ 32 = (x + 2 ^ 32) mod 2 ^ 32" by simp
    also have "\<dots> = x + 2 ^ 32" using x False by (intro mod_pos_pos_trivial) simp_all
    finally show ?thesis using False by simp
  qed (use x in simp)
  finally show ?thesis .
qed

lemma sint_word_of_nat_small: "n < 2 ^ 31 \<Longrightarrow> sint (word_of_nat n :: u32) = int n"
  using sint_u32_small [of "word_of_nat n"] unat_word_of_nat_u32 [of n] by simp

lemma sint_diff_small:
  assumes "a < 2 ^ 30" "b < 2 ^ 30"
  shows "sint (word_of_nat a - word_of_nat b :: u32) = int a - int b"
proof -
  have "(word_of_nat a - word_of_nat b :: u32) = word_of_int (int a - int b)" by simp
  then show ?thesis using assms by (simp only: signed_of_int) (simp add: signed_take_bit_int_eq_self)
qed

lemma unat_diff_small: "b \<le> a \<Longrightarrow> a < 2 ^ 32 \<Longrightarrow> unat (word_of_nat a - word_of_nat b :: u32) = a - b"
  by (simp add: unat_sub_if_size unat_word_of_nat_u32)
end
