(* ===== verification/Headers.thy ===== *)
theory Headers
  imports Prelude
begin

text \<open>
  The headers the drivers share. From the repository: the records of
  \<open>ifsttar-synchronization-drv.h\<close>, the error numbers of \<open>drivers_errors.h\<close> and the ioctl
  numbers of \<open>asm-generic/ioctl.h\<close> with the commands the three headers build from it. A C
  \<open>int\<close> or \<open>unsigned int\<close> is a 32-bit word, read with \<open>sint\<close> where the code reads it signed; a
  \<open>double\<close> is the 64-bit pattern the code copies around; \<open>time_t\<close> is the 32-bit \<open>long\<close> of the
  target. The structure sizes are those of the ARM EABI, where a \<open>double\<close> is 8-aligned.
\<close>

section \<open>The geo-dating records\<close>

record GpsData =
  oTimeTTimeInSeconds :: u32
  dLatitude :: u64
  dLongitude :: u64
  cLatitudeRef :: u8
  cLongitudeRef :: u8
  iQuality :: u32
  uiNbSat :: u32

record GeoDatationData =
  oData :: GpsData
  uiMicroSecond :: u32
  iQuartzError :: u32
  iDriverMode :: u32

definition GpsData_zero :: GpsData where
  "GpsData_zero = \<lparr>oTimeTTimeInSeconds = 0, dLatitude = 0, dLongitude = 0,
     cLatitudeRef = 0, cLongitudeRef = 0, iQuality = 0, uiNbSat = 0\<rparr>"

definition GeoDatationData_zero :: GeoDatationData where
  "GeoDatationData_zero = \<lparr>oData = GpsData_zero, uiMicroSecond = 0, iQuartzError = 0,
     iDriverMode = 0\<rparr>"

text \<open>\<open>sizeof\<close> of both, in bytes.\<close>

abbreviation sizeof_GpsData :: u32 where "sizeof_GpsData \<equiv> 40"
abbreviation sizeof_GeoDatationData :: u32 where "sizeof_GeoDatationData \<equiv> 56"

section \<open>Error numbers\<close>

text \<open>The errors of \<open>drivers_errors.h\<close>; a function
  that fails returns \<open>sync_err e\<close> or \<open>gpio_err e\<close>, the negated number.\<close>

datatype sync_error =
    ERR_SYNCHRONIZATION_COMPUTEMICROSECOND_SPECIFIED_TIMER
  | ERR_SYNCHRONIZATION_SETGPSSTATUS_SPECIFIED_STATUS
  | ERR_SYNCHRONIZATION_IOCTL_COPY_OFFICIAL_GDDATA_TO_USER
  | ERR_SYNCHRONIZATION_IOCTL_COPY_TEMPORARY_GPSDATA_FROM_USER
  | ERR_SYNCHRONIZATION_IOCTL_SPECIFIED_MODE
  | ERR_SYNCHRONIZATION_IOCTL_SPECIFIED_GPS_OFF_TIME
  | ERR_SYNCHRONIZATION_IOCTL_SPECIFIED_IOCTL_COMMAND
  | ERR_SYNCHRONIZATION_PPSTIMERCONFIGURATION_MUX_REQUEST
  | ERR_SYNCHRONIZATION_PPSTIMERCONFIGURATION_TIMER_REQUEST
  | ERR_SYNCHRONIZATION_PPSTIMERCONFIGURATION_TIMER_SET_SRC_CLK
  | ERR_SYNCHRONIZATION_PPSTIMERCONFIGURATION_TIMER_GET_SRC_CLK
  | ERR_SYNCHRONIZATION_PPSTIMERCONFIGURATION_TIMER_SET_CAPTURE
  | ERR_SYNCHRONIZATION_PPSTIMERCONFIGURATION_TIMER_SET_LOAD
  | ERR_SYNCHRONIZATION_PPSTIMERCONFIGURATION_TIMER_CLEAR_INT
  | ERR_SYNCHRONIZATION_PPSTIMERCONFIGURATION_REQUEST_IRQ
  | ERR_SYNCHRONIZATION_PPSTIMERCONFIGURATION_TIMER_SET_INT
  | ERR_SYNCHRONIZATION_RELAYTIMERCONFIGURATION_TIMER_REQUEST
  | ERR_SYNCHRONIZATION_RELAYTIMERCONFIGURATION_TIMER_SET_SRC_CLK
  | ERR_SYNCHRONIZATION_RELAYTIMERCONFIGURATION_TIMER_GET_SRC_CLK
  | ERR_SYNCHRONIZATION_RELAYTIMERCONFIGURATION_TIMER_CLEAR_INT
  | ERR_SYNCHRONIZATION_RELAYTIMERCONFIGURATION_REQUEST_IRQ
  | ERR_SYNCHRONIZATION_RELAYTIMERCONFIGURATION_TIMER_SET_INT
  | ERR_SYNCHRONIZATION_GPSSHUTDOWNGPIOCONFIGURATION_MUX_REQUEST
  | ERR_SYNCHRONIZATION_GPSSHUTDOWNGPIOCONFIGURATION_GPIO_REQUEST
  | ERR_SYNCHRONIZATION_GPSSHUTDOWNGPIOCONFIGURATION_GPIO_SET_DIRECTION
  | ERR_SYNCHRONIZATION_INIT_ALLOC_CHRDEV_REGION
  | ERR_SYNCHRONIZATION_INIT_CDEV_ADD
  | ERR_SYNCHRONIZATION_INIT_CLASS_CREATE
  | ERR_SYNCHRONIZATION_INIT_DEVICE_CREATE
  | ERR_SYNCHRONIZATION_INIT_CREATE_PROC_ENTRY

primrec sync_err_code :: "sync_error \<Rightarrow> u32" where
    "sync_err_code ERR_SYNCHRONIZATION_COMPUTEMICROSECOND_SPECIFIED_TIMER = 1001"
  | "sync_err_code ERR_SYNCHRONIZATION_SETGPSSTATUS_SPECIFIED_STATUS = 1021"
  | "sync_err_code ERR_SYNCHRONIZATION_IOCTL_COPY_OFFICIAL_GDDATA_TO_USER = 1041"
  | "sync_err_code ERR_SYNCHRONIZATION_IOCTL_COPY_TEMPORARY_GPSDATA_FROM_USER = 1042"
  | "sync_err_code ERR_SYNCHRONIZATION_IOCTL_SPECIFIED_MODE = 1043"
  | "sync_err_code ERR_SYNCHRONIZATION_IOCTL_SPECIFIED_GPS_OFF_TIME = 1044"
  | "sync_err_code ERR_SYNCHRONIZATION_IOCTL_SPECIFIED_IOCTL_COMMAND = 1045"
  | "sync_err_code ERR_SYNCHRONIZATION_PPSTIMERCONFIGURATION_MUX_REQUEST = 1061"
  | "sync_err_code ERR_SYNCHRONIZATION_PPSTIMERCONFIGURATION_TIMER_REQUEST = 1062"
  | "sync_err_code ERR_SYNCHRONIZATION_PPSTIMERCONFIGURATION_TIMER_SET_SRC_CLK = 1063"
  | "sync_err_code ERR_SYNCHRONIZATION_PPSTIMERCONFIGURATION_TIMER_GET_SRC_CLK = 1064"
  | "sync_err_code ERR_SYNCHRONIZATION_PPSTIMERCONFIGURATION_TIMER_SET_CAPTURE = 1065"
  | "sync_err_code ERR_SYNCHRONIZATION_PPSTIMERCONFIGURATION_TIMER_SET_LOAD = 1066"
  | "sync_err_code ERR_SYNCHRONIZATION_PPSTIMERCONFIGURATION_TIMER_CLEAR_INT = 1067"
  | "sync_err_code ERR_SYNCHRONIZATION_PPSTIMERCONFIGURATION_REQUEST_IRQ = 1068"
  | "sync_err_code ERR_SYNCHRONIZATION_PPSTIMERCONFIGURATION_TIMER_SET_INT = 1069"
  | "sync_err_code ERR_SYNCHRONIZATION_RELAYTIMERCONFIGURATION_TIMER_REQUEST = 1081"
  | "sync_err_code ERR_SYNCHRONIZATION_RELAYTIMERCONFIGURATION_TIMER_SET_SRC_CLK = 1082"
  | "sync_err_code ERR_SYNCHRONIZATION_RELAYTIMERCONFIGURATION_TIMER_GET_SRC_CLK = 1083"
  | "sync_err_code ERR_SYNCHRONIZATION_RELAYTIMERCONFIGURATION_TIMER_CLEAR_INT = 1084"
  | "sync_err_code ERR_SYNCHRONIZATION_RELAYTIMERCONFIGURATION_REQUEST_IRQ = 1085"
  | "sync_err_code ERR_SYNCHRONIZATION_RELAYTIMERCONFIGURATION_TIMER_SET_INT = 1086"
  | "sync_err_code ERR_SYNCHRONIZATION_GPSSHUTDOWNGPIOCONFIGURATION_MUX_REQUEST = 1101"
  | "sync_err_code ERR_SYNCHRONIZATION_GPSSHUTDOWNGPIOCONFIGURATION_GPIO_REQUEST = 1102"
  | "sync_err_code ERR_SYNCHRONIZATION_GPSSHUTDOWNGPIOCONFIGURATION_GPIO_SET_DIRECTION = 1103"
  | "sync_err_code ERR_SYNCHRONIZATION_INIT_ALLOC_CHRDEV_REGION = 1121"
  | "sync_err_code ERR_SYNCHRONIZATION_INIT_CDEV_ADD = 1122"
  | "sync_err_code ERR_SYNCHRONIZATION_INIT_CLASS_CREATE = 1123"
  | "sync_err_code ERR_SYNCHRONIZATION_INIT_DEVICE_CREATE = 1124"
  | "sync_err_code ERR_SYNCHRONIZATION_INIT_CREATE_PROC_ENTRY = 1125"

datatype gpio_error =
    ERR_GPIO_SAVEDEFAULTMODE_MUX_REQUEST
  | ERR_GPIO_FORCEGPIOMODE_MUX_UNAVAILABLE
  | ERR_GPIO_FORCEGPIOMODE_MUX_REQUEST
  | ERR_GPIO_RESTOREPREVIOUSGPIOMODE_MUX_REQUEST
  | ERR_GPIO_RESTOREALLCHANGEDMUX_MUX_REQUEST
  | ERR_GPIO_OPEN_WRONG_MINOR
  | ERR_GPIO_OPEN_GPIO_BUSY_IN_DRIVER
  | ERR_GPIO_OPEN_GPIO_BUSY_OUT_DRIVER
  | ERR_GPIO_OPEN_GPIO_SET_DIRECTION_INPUT
  | ERR_GPIO_OPEN_GPIO_SET_DIRECTION_OUTPUT
  | ERR_GPIO_CLOSE_WRONG_MINOR
  | ERR_GPIO_READ_WRONG_MINOR
  | ERR_GPIO_READ_SPECIFIED_SIZE
  | ERR_GPIO_READ_WRONG_GPIO_DIRECTION
  | ERR_GPIO_READ_WRONG_GPIO_MODE
  | ERR_GPIO_READ_WRONG_READED_BYTES
  | ERR_GPIO_WRITE_WRONG_MINOR
  | ERR_GPIO_WRITE_SPECIFIED_SIZE
  | ERR_GPIO_WRITE_SPECIFIED_BUFFER
  | ERR_GPIO_WRITE_WRONG_GPIO_MODE
  | ERR_GPIO_WRITE_WRONG_GPIO_DIRECTION
  | ERR_GPIO_IOCTL_WRONG_GPIO_MODE
  | ERR_GPIO_IOCTL_WRONG_GPIO_DIRECTION
  | ERR_GPIO_IOCTL_INTERRUPTION_REQUEST
  | ERR_GPIO_IOCTL_SPECIFIED_DIRECTION
  | ERR_GPIO_IOCTL_SPECIFIED_OUTPUT_VALUE
  | ERR_GPIO_IOCTL_SPECIFIED_EVENT
  | ERR_GPIO_IOCTL_SPECIFIED_DEBOUNCE_VALUE
  | ERR_GPIO_IOCTL_SPECIFIED_IOCTL_COMMAND
  | ERR_GPIO_IOCTL_COPY_GDDATA_TO_USER
  | ERR_GPIO_INIT_ALLOC_CHRDEV_REGION
  | ERR_GPIO_INIT_CDEV_ADD
  | ERR_GPIO_INIT_CLASS_CREATE
  | ERR_GPIO_INIT_DEVICE_CREATE

primrec gpio_err_code :: "gpio_error \<Rightarrow> u32" where
    "gpio_err_code ERR_GPIO_SAVEDEFAULTMODE_MUX_REQUEST = 1201"
  | "gpio_err_code ERR_GPIO_FORCEGPIOMODE_MUX_UNAVAILABLE = 1221"
  | "gpio_err_code ERR_GPIO_FORCEGPIOMODE_MUX_REQUEST = 1222"
  | "gpio_err_code ERR_GPIO_RESTOREPREVIOUSGPIOMODE_MUX_REQUEST = 1241"
  | "gpio_err_code ERR_GPIO_RESTOREALLCHANGEDMUX_MUX_REQUEST = 1261"
  | "gpio_err_code ERR_GPIO_OPEN_WRONG_MINOR = 1281"
  | "gpio_err_code ERR_GPIO_OPEN_GPIO_BUSY_IN_DRIVER = 1282"
  | "gpio_err_code ERR_GPIO_OPEN_GPIO_BUSY_OUT_DRIVER = 1283"
  | "gpio_err_code ERR_GPIO_OPEN_GPIO_SET_DIRECTION_INPUT = 1284"
  | "gpio_err_code ERR_GPIO_OPEN_GPIO_SET_DIRECTION_OUTPUT = 1285"
  | "gpio_err_code ERR_GPIO_CLOSE_WRONG_MINOR = 1301"
  | "gpio_err_code ERR_GPIO_READ_WRONG_MINOR = 1321"
  | "gpio_err_code ERR_GPIO_READ_SPECIFIED_SIZE = 1322"
  | "gpio_err_code ERR_GPIO_READ_WRONG_GPIO_DIRECTION = 1323"
  | "gpio_err_code ERR_GPIO_READ_WRONG_GPIO_MODE = 1324"
  | "gpio_err_code ERR_GPIO_READ_WRONG_READED_BYTES = 1325"
  | "gpio_err_code ERR_GPIO_WRITE_WRONG_MINOR = 1341"
  | "gpio_err_code ERR_GPIO_WRITE_SPECIFIED_SIZE = 1342"
  | "gpio_err_code ERR_GPIO_WRITE_SPECIFIED_BUFFER = 1343"
  | "gpio_err_code ERR_GPIO_WRITE_WRONG_GPIO_MODE = 1344"
  | "gpio_err_code ERR_GPIO_WRITE_WRONG_GPIO_DIRECTION = 1345"
  | "gpio_err_code ERR_GPIO_IOCTL_WRONG_GPIO_MODE = 1361"
  | "gpio_err_code ERR_GPIO_IOCTL_WRONG_GPIO_DIRECTION = 1362"
  | "gpio_err_code ERR_GPIO_IOCTL_INTERRUPTION_REQUEST = 1363"
  | "gpio_err_code ERR_GPIO_IOCTL_SPECIFIED_DIRECTION = 1364"
  | "gpio_err_code ERR_GPIO_IOCTL_SPECIFIED_OUTPUT_VALUE = 1365"
  | "gpio_err_code ERR_GPIO_IOCTL_SPECIFIED_EVENT = 1366"
  | "gpio_err_code ERR_GPIO_IOCTL_SPECIFIED_DEBOUNCE_VALUE = 1367"
  | "gpio_err_code ERR_GPIO_IOCTL_SPECIFIED_IOCTL_COMMAND = 1368"
  | "gpio_err_code ERR_GPIO_IOCTL_COPY_GDDATA_TO_USER = 1369"
  | "gpio_err_code ERR_GPIO_INIT_ALLOC_CHRDEV_REGION = 1381"
  | "gpio_err_code ERR_GPIO_INIT_CDEV_ADD = 1382"
  | "gpio_err_code ERR_GPIO_INIT_CLASS_CREATE = 1383"
  | "gpio_err_code ERR_GPIO_INIT_DEVICE_CREATE = 1381"

definition sync_err :: "sync_error \<Rightarrow> u32" where
  "sync_err e = - sync_err_code e"

definition gpio_err :: "gpio_error \<Rightarrow> u32" where
  "gpio_err e = - gpio_err_code e"

text \<open>Both are negative as C reads them, so a caller that tests \<open>< 0\<close> sees every error.\<close>

lemma sync_err_negative [simp]: "sync_err x <s 0"
  by (cases x) (simp_all add: sync_err_def word_sless_alt)

lemma gpio_err_negative [simp]: "gpio_err x <s 0"
  by (cases x) (simp_all add: gpio_err_def word_sless_alt)

lemma sync_err_nonzero [simp]: "sync_err x \<noteq> 0"
  by (cases x) (simp_all add: sync_err_def)

lemma gpio_err_nonzero [simp]: "gpio_err x \<noteq> 0"
  by (cases x) (simp_all add: gpio_err_def)

text \<open>The \<open>errno\<close> numbers the drivers return.\<close>

abbreviation EINTR :: u32 where "EINTR \<equiv> 4"
abbreviation EIO :: u32 where "EIO \<equiv> 5"
abbreviation EAGAIN :: u32 where "EAGAIN \<equiv> 11"
abbreviation ENOMEM :: u32 where "ENOMEM \<equiv> 12"
abbreviation EFAULT :: u32 where "EFAULT \<equiv> 14"
abbreviation EBUSY :: u32 where "EBUSY \<equiv> 16"
abbreviation ENODEV :: u32 where "ENODEV \<equiv> 19"
abbreviation EINVAL :: u32 where "EINVAL \<equiv> 22"
abbreviation ENOTTY :: u32 where "ENOTTY \<equiv> 25"

abbreviation POLLIN :: u32 where "POLLIN \<equiv> 0x1"
abbreviation POLLRDNORM :: u32 where "POLLRDNORM \<equiv> 0x40"

section \<open>ioctl numbers\<close>

definition IOC :: "u32 \<Rightarrow> u32 \<Rightarrow> u32 \<Rightarrow> u32 \<Rightarrow> u32" where
  "IOC dir ty nr sz =
     push_bit 30 dir OR push_bit 8 ty OR nr OR push_bit 16 sz"

definition IO :: "u32 \<Rightarrow> u32 \<Rightarrow> u32" where
  "IO ty nr = IOC 0 ty nr 0"

definition IOW :: "u32 \<Rightarrow> u32 \<Rightarrow> u32 \<Rightarrow> u32" where
  "IOW ty nr sz = IOC 1 ty nr sz"

definition IOWR :: "u32 \<Rightarrow> u32 \<Rightarrow> u32 \<Rightarrow> u32" where
  "IOWR ty nr sz = IOC (2 OR 1) ty nr sz"

lemmas ioc_defs = IOC_def IO_def IOW_def IOWR_def

abbreviation SYNC_MAGIC :: u32 where "SYNC_MAGIC \<equiv> 0x53"
abbreviation GPIO_MAGIC :: u32 where "GPIO_MAGIC \<equiv> 0x47"
abbreviation SPI_IO_MAGIC :: u32 where "SPI_IO_MAGIC \<equiv> 0x47"
abbreviation LM74_IOCTL_MAGIC :: u32 where "LM74_IOCTL_MAGIC \<equiv> 0x4C"

definition SYNC_IOCTL_GET_OFFICIAL_GD_DATA :: u32 where
  "SYNC_IOCTL_GET_OFFICIAL_GD_DATA = IOWR SYNC_MAGIC 0x41 sizeof_GeoDatationData"

definition SYNC_IOCTL_GET_DRIVER_MODE :: u32 where
  "SYNC_IOCTL_GET_DRIVER_MODE = IO SYNC_MAGIC 0x42"

definition SYNC_IOCTL_GET_DRIVER_STATE :: u32 where
  "SYNC_IOCTL_GET_DRIVER_STATE = IO SYNC_MAGIC 0x43"

definition SYNC_IOCTL_GET_GPS_STATUS :: u32 where
  "SYNC_IOCTL_GET_GPS_STATUS = IO SYNC_MAGIC 0x44"

definition SYNC_IOCTL_GET_TIME_SINCE_GPS_OFF :: u32 where
  "SYNC_IOCTL_GET_TIME_SINCE_GPS_OFF = IO SYNC_MAGIC 0x45"

definition SYNC_IOCTL_GET_GPS_OFF_TIME :: u32 where
  "SYNC_IOCTL_GET_GPS_OFF_TIME = IO SYNC_MAGIC 0x46"

definition SYNC_IOCTL_GET_TEMPERATURE :: u32 where
  "SYNC_IOCTL_GET_TEMPERATURE = IO SYNC_MAGIC 0x47"

definition SYNC_IOCTL_GET_CAPTURE_TIMER_CLOCK :: u32 where
  "SYNC_IOCTL_GET_CAPTURE_TIMER_CLOCK = IO SYNC_MAGIC 0x48"

definition SYNC_IOCTL_GET_RELAY_TIMER_CLOCK :: u32 where
  "SYNC_IOCTL_GET_RELAY_TIMER_CLOCK = IO SYNC_MAGIC 0x49"

definition SYNC_IOCTL_SET_TEMPORARY_GPS_DATA :: u32 where
  "SYNC_IOCTL_SET_TEMPORARY_GPS_DATA = IOW SYNC_MAGIC 0x51 sizeof_GpsData"

definition SYNC_IOCTL_SET_DRIVER_MODE :: u32 where
  "SYNC_IOCTL_SET_DRIVER_MODE = IO SYNC_MAGIC 0x52"

definition SYNC_IOCTL_SET_GPS_OFF_TIME :: u32 where
  "SYNC_IOCTL_SET_GPS_OFF_TIME = IO SYNC_MAGIC 0x56"

definition GPIO_IOCTL_GET_INPUT_VALUE :: u32 where
  "GPIO_IOCTL_GET_INPUT_VALUE = IO GPIO_MAGIC 0x51"

definition GPIO_IOCTL_GET_LAST_IT_GD_DATA :: u32 where
  "GPIO_IOCTL_GET_LAST_IT_GD_DATA = IOWR GPIO_MAGIC 0x52 sizeof_GeoDatationData"

definition GPIO_IOCTL_SET_DIRECTION :: u32 where
  "GPIO_IOCTL_SET_DIRECTION = IO GPIO_MAGIC 0x53"

definition GPIO_IOCTL_SET_OUTPUT_VALUE :: u32 where
  "GPIO_IOCTL_SET_OUTPUT_VALUE = IO GPIO_MAGIC 0x54"

definition GPIO_IOCTL_SET_INTERRUPT :: u32 where
  "GPIO_IOCTL_SET_INTERRUPT = IO GPIO_MAGIC 0x55"

definition GPIO_IOCTL_SET_DEBOUNCE_DELAY :: u32 where
  "GPIO_IOCTL_SET_DEBOUNCE_DELAY = IO GPIO_MAGIC 0x56"

definition GPIO_IOCTL_FREE_INTERRUPT :: u32 where
  "GPIO_IOCTL_FREE_INTERRUPT = IO GPIO_MAGIC 0x57"

definition CMD_SPI_START :: u32 where
  "CMD_SPI_START = IO SPI_IO_MAGIC 0x80"

definition CMD_SPI_STOP :: u32 where
  "CMD_SPI_STOP = IO SPI_IO_MAGIC 0x81"

definition CMD_SPI_FREQUENCY :: u32 where
  "CMD_SPI_FREQUENCY = IOW SPI_IO_MAGIC 0x82 4"

definition CMD_SPI_BUS_SPEED :: u32 where
  "CMD_SPI_BUS_SPEED = IOW SPI_IO_MAGIC 0x83 4"

definition CMD_SPI_BITS_PER_WORD :: u32 where
  "CMD_SPI_BITS_PER_WORD = IOW SPI_IO_MAGIC 0x84 4"

definition CMD_SPI_NB_ECH :: u32 where
  "CMD_SPI_NB_ECH = IOW SPI_IO_MAGIC 0x85 4"

definition CMD_TEST :: u32 where
  "CMD_TEST = IOW SPI_IO_MAGIC 0x86 4"

definition LM74_IOCTL_SET_MODE :: u32 where
  "LM74_IOCTL_SET_MODE = IOW LM74_IOCTL_MAGIC 0x50 4"

text \<open>The numbers themselves, as the compiler sees them in the \<open>case\<close> labels.\<close>

lemma ioctl_numbers [simp]:
  "SYNC_IOCTL_GET_OFFICIAL_GD_DATA = 0xC0385341"
  "SYNC_IOCTL_GET_DRIVER_MODE = 0x5342"
  "SYNC_IOCTL_GET_DRIVER_STATE = 0x5343"
  "SYNC_IOCTL_GET_GPS_STATUS = 0x5344"
  "SYNC_IOCTL_GET_TIME_SINCE_GPS_OFF = 0x5345"
  "SYNC_IOCTL_GET_GPS_OFF_TIME = 0x5346"
  "SYNC_IOCTL_GET_TEMPERATURE = 0x5347"
  "SYNC_IOCTL_GET_CAPTURE_TIMER_CLOCK = 0x5348"
  "SYNC_IOCTL_GET_RELAY_TIMER_CLOCK = 0x5349"
  "SYNC_IOCTL_SET_TEMPORARY_GPS_DATA = 0x40285351"
  "SYNC_IOCTL_SET_DRIVER_MODE = 0x5352"
  "SYNC_IOCTL_SET_GPS_OFF_TIME = 0x5356"
  "GPIO_IOCTL_GET_INPUT_VALUE = 0x4751"
  "GPIO_IOCTL_GET_LAST_IT_GD_DATA = 0xC0384752"
  "GPIO_IOCTL_SET_DIRECTION = 0x4753"
  "GPIO_IOCTL_SET_OUTPUT_VALUE = 0x4754"
  "GPIO_IOCTL_SET_INTERRUPT = 0x4755"
  "GPIO_IOCTL_SET_DEBOUNCE_DELAY = 0x4756"
  "GPIO_IOCTL_FREE_INTERRUPT = 0x4757"
  "CMD_SPI_START = 0x4780"
  "CMD_SPI_STOP = 0x4781"
  "CMD_SPI_FREQUENCY = 0x40044782"
  "CMD_SPI_BUS_SPEED = 0x40044783"
  "CMD_SPI_BITS_PER_WORD = 0x40044784"
  "CMD_SPI_NB_ECH = 0x40044785"
  "CMD_TEST = 0x40044786"
  "LM74_IOCTL_SET_MODE = 0x40044C50"
  by (simp_all add: SYNC_IOCTL_GET_OFFICIAL_GD_DATA_def SYNC_IOCTL_GET_DRIVER_MODE_def SYNC_IOCTL_GET_DRIVER_STATE_def SYNC_IOCTL_GET_GPS_STATUS_def SYNC_IOCTL_GET_TIME_SINCE_GPS_OFF_def SYNC_IOCTL_GET_GPS_OFF_TIME_def SYNC_IOCTL_GET_TEMPERATURE_def SYNC_IOCTL_GET_CAPTURE_TIMER_CLOCK_def SYNC_IOCTL_GET_RELAY_TIMER_CLOCK_def SYNC_IOCTL_SET_TEMPORARY_GPS_DATA_def SYNC_IOCTL_SET_DRIVER_MODE_def SYNC_IOCTL_SET_GPS_OFF_TIME_def GPIO_IOCTL_GET_INPUT_VALUE_def GPIO_IOCTL_GET_LAST_IT_GD_DATA_def GPIO_IOCTL_SET_DIRECTION_def GPIO_IOCTL_SET_OUTPUT_VALUE_def GPIO_IOCTL_SET_INTERRUPT_def GPIO_IOCTL_SET_DEBOUNCE_DELAY_def GPIO_IOCTL_FREE_INTERRUPT_def CMD_SPI_START_def CMD_SPI_STOP_def CMD_SPI_FREQUENCY_def CMD_SPI_BUS_SPEED_def CMD_SPI_BITS_PER_WORD_def CMD_SPI_NB_ECH_def CMD_TEST_def LM74_IOCTL_SET_MODE_def ioc_defs push_bit_eq_mult)

end
