(* ===== verification/Kernel.thy ===== *)
theory Kernel
  imports Headers
begin

text \<open>
  The interface to the code that is not in the repository: the Linux kernel and the OMAP platform
  code. Nothing is assumed of that code here. A driver's call into it is an event: it is appended,
  with the value it returned, to the log of the kernel state, and the value comes from the
  parameter \<open>e\<close> of every driver function, whose field \<open>answer\<close> may depend on the whole log. A
  statement about a driver therefore holds for every behaviour of the kernel, and where the
  drivers rely on a documented behaviour (a register keeps what was written into it, an address
  can be mapped) it is a named hypothesis on \<open>answer\<close>.

  \<open>held\<close> reads off a log which resources (gpio lines, interrupts, timers, device numbers, memory)
  are held at its end, and \<open>bad_releases\<close> which releases gave back something that was not held.
  \<open>UB\<close> events mark the places where C leaves the behaviour undefined (a division by zero, an array
  access out of bounds, a \<open>kfree\<close> of what is not allocated, the use of an error pointer as an
  address): \<open>faults\<close> are those of a log, and a driver is safe when there are none.
\<close>

section \<open>Calls\<close>

datatype payload = Text string | GdData GeoDatationData | Raw "u8 list"

datatype io_call =
    Ioremap u32 u32 | Ioread16 u32 | Iowrite16 u16 u32 | Iounmap u32

datatype gpiolib_call =
    Gpio_request u32 string | Gpio_free u32 | Gpio_direction_input u32
  | Gpio_direction_output u32 u32 | Gpio_get_value u32 | Gpio_set_value u32 u32
  | Gpio_to_irq u32

datatype irq_handler = PpsTimer_irq | RelayTimer_irq | Gpio_irq

datatype irq_call = Request_irq u32 irq_handler u32 u32 | Free_irq u32 u32

datatype waitq = Sync_Read_wait | Gpio_Read_wait | Spi_Read_wait

datatype sched_call =
    Wake_up_interruptible waitq | Interruptible_sleep_on waitq | Signal_pending
  | Poll_wait waitq | Init_waitqueue_head waitq | Mdelay u32 | Msleep u32
  | Kthread_create string | Wake_up_process u32 | Kthread_stop u32 | Kthread_should_stop

datatype timer_src = OMAP_TIMER_SRC_SYS_CLK
datatype timer_trigger = OMAP_TIMER_TRIGGER_OVERFLOW
datatype timer_int = OMAP_TIMER_INT_NONE | OMAP_TIMER_INT_CAPTURE | OMAP_TIMER_INT_OVERFLOW
datatype timer_reg = OMAP_TIMER_CTRL_REG | OMAP_TIMER_CAPTURE_REG | OMAP_TIMER_CAPTURE2_REG

datatype timer_call =
    Dm_request_specific u32 | Dm_free u32 | Dm_set_source u32 timer_src | Dm_get_fclk u32
  | Clk_get_rate u32 | Dm_set_load u32 u32 u32 | Dm_set_load_start u32 u32 u32
  | Dm_set_int_enable u32 timer_int | Dm_get_irq u32 | Dm_start u32 | Dm_stop u32
  | Dm_read_counter u32 | Dm_write_counter u32 u32 | Dm_write_status u32 timer_int
  | Dm_read_status u32 | Dm_set_pwm u32 u32 u32 timer_trigger | Dm_enable u32 | Dm_disable u32
  | Dm_posted u32 | Dm_read u32 timer_reg u32 | Dm_write u32 timer_reg u32 u32
  | Dm_save_tclr u32 u32 | Warn_on timer_reg

datatype dev_call =
    Alloc_chrdev_region u32 string | Allocated_dev | Unregister_chrdev_region u32 u32
  | Cdev_init | Cdev_add u32 u32 | Cdev_del
  | Class_create string | Class_unregister u32 | Class_destroy u32
  | Device_create u32 u32 string | Device_destroy u32 u32
  | Create_proc_read_entry string | Remove_proc_entry string
  | Printk_synchronization_error u32 u32

datatype user_call = Copy_to_user u32 payload u32 | Copy_from_user u32 u32 | Put_user u32 u32

datatype mem_call = Kmalloc u32 | Kfree u32

datatype semaphore = Fop_sem | Spi_sem

datatype lock_call =
    Down_interruptible semaphore | Up semaphore | Sema_init semaphore
  | Spin_lock_init | Spin_lock_irqsave | Spin_unlock_irqrestore

text \<open>
  \<open>Spi_add_device d hz m b\<close> adds the device \<open>d\<close> with a maximal speed of \<open>hz\<close>, mode \<open>m\<close> and \<open>b\<close> bits per
  word. \<open>Other_driver p n\<close>: does the device \<open>p\<close> have a driver with a name other than \<open>n\<close>. The bytes that
  the controller received in a transfer are answers to \<open>Spi_rx_byte\<close>, and how many came in a
  transfer that failed to \<open>Spi_received\<close>.
\<close>

datatype spi_call =
    Spi_busnum_to_master u32 | Put_device u32 | Spi_alloc_device u32 | Spi_dev_put u32
  | Bus_find_device_by_name u32 | Other_driver u32 string | Spi_add_device u32 u32 u32 u32
  | Spi_register_driver string | Spi_unregister_driver string | Spi_unregister_device u32
  | Spi_setup u32 u32 u32 | Spi_async u32 u32 | Spi_sync u32 "u8 list" u32 | Spi_received
  | Spi_rx_byte nat | Spi_msg_status

text \<open>The registers of the SPI controller; \<open>Writel v a\<close> writes \<open>v\<close> to the address \<open>a\<close>.\<close>

datatype reg_call = Readl u32 | Writel u32 u32

text \<open>
  DMA. A requested channel is the answer to \<open>Requested_channel\<close>. The last argument of the mapping
  calls and of \<open>Wait_for_completion\<close> is \<open>True\<close> for the direction from the device.
\<close>

datatype dma_data_type = DATA_TYPE_S8 | DATA_TYPE_S16 | DATA_TYPE_S32
datatype dma_amode = AMODE_CONSTANT | AMODE_POST_INC

datatype dma_call =
    Request_dma u32 bool | Requested_channel | Free_dma u32
  | Set_transfer_params u32 dma_data_type u32 u32 bool | Set_src_params u32 dma_amode u32
  | Set_dest_params u32 dma_amode u32 | Start_dma u32 | Wait_for_completion bool
  | Dma_map_single u32 u32 bool | Dma_mapping_error u32 | Dma_unmap_single u32 u32 bool

text \<open>Clocks, time, platform devices and the SPI core. \<open>Jiffies_left n\<close>: see the loop that asks for it.\<close>

datatype plat_call =
    Pm_get_sync | Pm_mark_last_busy | Pm_put_autosuspend | Pm_use_autosuspend
  | Pm_set_autosuspend_delay u32 | Pm_enable | Pm_disable | Jiffies_left u32 | Udelay u32
  | Finalize_current_message | Of_match_device | Of_num_cs | Pdata_num_cs | Pdev_id | Regs_offset
  | Set_drvdata u32 | Get_mem_resource | Get_dma_resource string | Resource_start u32
  | Devm_request_and_ioremap u32 | Spi_register_master u32 | Spi_master_put u32
  | Spi_unregister_master u32

datatype ub = Division_by_zero | Out_of_bounds | Bad_free | Bad_pointer

datatype kcall =
    KIo io_call | KGpio gpiolib_call | KIrq irq_call | KSched sched_call | KTimer timer_call
  | KDev dev_call | KUser user_call | KMem mem_call | KLock lock_call | KSpi spi_call
  | KReg reg_call | KDma dma_call | KPlat plat_call | UB ub

type_synonym event = "kcall \<times> u32"

section \<open>The kernel as a parameter\<close>

text \<open>
  The constants and the pure macros of kernel headers that are not in the repository are fields
  of the parameter too.
\<close>

record kernel =
  answer :: "event list \<Rightarrow> kcall \<Rightarrow> u32"
  k_MAJOR :: "u32 \<Rightarrow> u32"
  k_MINOR :: "u32 \<Rightarrow> u32"
  k_MKDEV :: "u32 \<Rightarrow> u32 \<Rightarrow> u32"
  k_IS_ERR :: "u32 \<Rightarrow> bool"
  k_ERESTARTSYS :: u32
  k_IRQF_DISABLED :: u32
  k_IRQF_TIMER :: u32
  k_TIMER_WAKEUP_EN_OFFSET :: u32
  k_TIMER_REG_OFFSET :: "timer_reg \<Rightarrow> u32"
  k_CTRL_CAPTMODE :: u32
  k_CTRL_GPOCFG :: u32
  k_CTRL_TCM_LOWTOHIGH :: u32
  k_CTRL_TCM_HIGHTOLOW :: u32
  k_CTRL_TCM_BOTHEDGES :: u32

record kstate =
  klog :: "event list"

definition kcall :: "kernel \<Rightarrow> kcall \<Rightarrow> ('a kstate_scheme, u32) state" where
  "kcall e c = State (\<lambda>s. (answer e (klog s) c, s\<lparr>klog := klog s @ [(c, answer e (klog s) c)]\<rparr>))"

definition kdo :: "kernel \<Rightarrow> kcall \<Rightarrow> ('a kstate_scheme, unit) state" where
  "kdo e c = do { kcall e c; skip }"

definition resp :: "kernel \<Rightarrow> event list \<Rightarrow> kcall \<Rightarrow> u32 \<Rightarrow> bool" where
  "resp e l c r \<longleftrightarrow> r = answer e l c"

lemma run_state_kcall [simp]:
  "run_state (kcall e c) s =
     (answer e (klog s) c, s\<lparr>klog := klog s @ [(c, answer e (klog s) c)]\<rparr>)"
  by (simp add: kcall_def)

lemma run_state_kdo [simp]:
  "run_state (kdo e c) s = ((), s\<lparr>klog := klog s @ [(c, answer e (klog s) c)]\<rparr>)"
  by (simp add: kdo_def)

lemma wp_kcall [wp_simps]:
  "wp (kcall e c) Q s =
     (\<forall>r. resp e (klog s) c r \<longrightarrow> Q r (s\<lparr>klog := klog s @ [(c, r)]\<rparr>))"
  by (simp add: wp_def resp_def)

lemma wp_kdo [wp_simps]:
  "wp (kdo e c) Q s =
     (\<forall>r. resp e (klog s) c r \<longrightarrow> Q () (s\<lparr>klog := klog s @ [(c, r)]\<rparr>))"
  by (simp add: wp_def resp_def)

lemma keeps_kcall [keeps_intros]:
  "(\<And>s r. I s \<Longrightarrow> I (s\<lparr>klog := klog s @ [(c, r)]\<rparr>)) \<Longrightarrow> keeps I (kcall e c)"
  by (simp add: keeps_def wp_kcall)

lemma keeps_kdo [keeps_intros]:
  "(\<And>s r. I s \<Longrightarrow> I (s\<lparr>klog := klog s @ [(c, r)]\<rparr>)) \<Longrightarrow> keeps I (kdo e c)"
  by (simp add: keeps_def wp_kdo)

text \<open>The same with what the kernel answered.\<close>

lemma keeps_kcall_bind:
  assumes "\<And>s r. I s \<Longrightarrow> I (s\<lparr>klog := klog s @ [(c, r)]\<rparr>)"
    and "\<And>l r. resp e l c r \<Longrightarrow> keeps I (f r)"
  shows "keeps I (kcall e c \<bind> f)"
  using assms by (auto simp: keeps_def wp_bind wp_kcall)

text \<open>Steps that only call the kernel.\<close>

definition log_of :: "'a kstate_scheme \<Rightarrow> 'a kstate_scheme \<Rightarrow> bool" where
  "log_of s0 s \<longleftrightarrow> (\<exists>l. s = s0\<lparr>klog := l\<rparr>)"

lemma log_of_refl [simp]: "log_of s s"
  unfolding log_of_def by (rule exI [of _ "klog s"]) simp

lemma log_of_log [simp]: "log_of s0 s \<Longrightarrow> log_of s0 (s\<lparr>klog := l\<rparr>)"
  by (auto simp: log_of_def)

lemma wp_log_only:
  assumes "keeps (log_of s) m" "\<And>r l. Q r (s\<lparr>klog := l\<rparr>)"
  shows "wp m Q s"
  by (rule wp_mono [OF keepsD [OF assms(1) log_of_refl]]) (use assms(2) in \<open>auto simp: log_of_def\<close>)

text \<open>
  Unsigned division as the C code writes it: by zero it is undefined behaviour, so the event is
  logged and the value is whatever the kernel's trap leaves.
\<close>

definition kdiv :: "kernel \<Rightarrow> u32 \<Rightarrow> u32 \<Rightarrow> ('a kstate_scheme, u32) state" where
  "kdiv e a b = (if b = 0 then kcall e (UB Division_by_zero) else ret (a div b))"

lemma wp_kdiv [wp_simps]:
  "wp (kdiv e a b) Q s = ((b = 0 \<longrightarrow> wp (kcall e (UB Division_by_zero)) Q s) \<and>
                          (b \<noteq> 0 \<longrightarrow> Q (a div b) s))"
  by (simp add: kdiv_def wp_simps)

lemma keeps_kdiv:
  "b \<noteq> 0 \<Longrightarrow> keeps I (kdiv e a b)"
  by (simp add: kdiv_def keeps_return)

lemma log_of_kcall: "keeps (log_of s) (kcall e c)"
  by (rule keeps_kcall) simp

lemma log_of_kdo: "keeps (log_of s) (kdo e c)"
  by (rule keeps_kdo) simp

lemma log_of_kdiv: "keeps (log_of s) (kdiv e a b)"
  unfolding kdiv_def by (intro keeps_if keeps_return log_of_kcall)

lemmas log_rules = keeps_return keeps_rd keeps_if keeps_case_option keeps_let keeps_for_each
  keeps_do_each log_of_kcall log_of_kdo log_of_kdiv keeps_bind

definition out_of_bounds :: "kernel \<Rightarrow> ('a kstate_scheme, unit) state" where
  "out_of_bounds e = kdo e (UB Out_of_bounds)"

lemma wp_out_of_bounds [wp_simps]:
  "wp (out_of_bounds e) Q s =
     (\<forall>r. resp e (klog s) (UB Out_of_bounds) r \<longrightarrow>
        Q () (s\<lparr>klog := klog s @ [(UB Out_of_bounds, r)]\<rparr>))"
  by (simp add: out_of_bounds_def wp_simps)

text \<open>A call that uses the pointer \<open>p\<close> as an address: undefined when it is an error pointer.\<close>

definition use_pointer :: "kernel \<Rightarrow> u32 \<Rightarrow> kcall \<Rightarrow> ('a kstate_scheme, unit) state" where
  "use_pointer e p c = do { (if k_IS_ERR e p then kdo e (UB Bad_pointer) else skip); kdo e c }"

lemma log_of_use_pointer: "keeps (log_of s) (use_pointer e p c)"
  unfolding use_pointer_def by (intro log_rules)

lemma wp_use_pointer [wp_simps]:
  "wp (use_pointer e p c) Q s =
     (if k_IS_ERR e p
      then \<forall>r r'. resp e (klog s) (UB Bad_pointer) r \<longrightarrow>
        resp e (klog s @ [(UB Bad_pointer, r)]) c r' \<longrightarrow>
        Q () (s\<lparr>klog := klog s @ [(UB Bad_pointer, r), (c, r')]\<rparr>)
      else \<forall>r. resp e (klog s) c r \<longrightarrow> Q () (s\<lparr>klog := klog s @ [(c, r)]\<rparr>))"
  by (auto simp: use_pointer_def wp_simps)

subsection \<open>Safety of a log\<close>

definition is_ub :: "event \<Rightarrow> bool" where
  "is_ub ev = (case fst ev of UB u \<Rightarrow> True | _ \<Rightarrow> False)"

lemma is_ub_pair [simp]: "is_ub (c, r) = (case c of UB u \<Rightarrow> True | _ \<Rightarrow> False)"
  unfolding is_ub_def fst_conv by (rule refl)

definition safe_log :: "event list \<Rightarrow> bool" where
  "safe_log l \<longleftrightarrow> (\<forall>ev \<in> set l. \<not> is_ub ev)"

lemma safe_log_Nil [simp]: "safe_log []"
  by (simp add: safe_log_def)

lemma safe_log_append [simp]: "safe_log (l @ l') \<longleftrightarrow> safe_log l \<and> safe_log l'"
  by (auto simp: safe_log_def)

lemma safe_log_Cons [simp]: "safe_log (ev # l) \<longleftrightarrow> \<not> is_ub ev \<and> safe_log l"
  by (auto simp: safe_log_def)

text \<open>The kinds of undefined behaviour a log contains.\<close>

definition faults :: "event list \<Rightarrow> ub set" where
  "faults l = {u. UB u \<in> fst ` set l}"

lemma faults_simps [simp]:
  "faults [] = {}"
  "faults (ev # l) = (case fst ev of UB u \<Rightarrow> {u} | _ \<Rightarrow> {}) \<union> faults l"
  "faults (l @ l') = faults l \<union> faults l'"
  by (auto simp: faults_def split: kcall.splits)

lemma safe_log_faults: "safe_log l \<longleftrightarrow> faults l = {}"
  by (induction l) (auto simp: is_ub_def split: kcall.splits)

section \<open>Resources\<close>

datatype resource =
    Gpio_line u32 | Irq_line u32 u32 | Dm_timer u32 | Dev_numbers | Char_dev | Sys_class u32
  | Dev_node u32 | Proc_entry string | Mapping u32 | Thread u32 | Memory u32 | Semaphore semaphore
  | Dev_ref u32 | Spi_dev u32 | Spi_driver string | Dma_channel u32 | Dma_mapping u32 | Spi_master u32

text \<open>
  What a call gives the driver, judged by its documented success values, and what it takes back.
  Both \<open>class_unregister\<close> and \<open>class_destroy\<close> take a class back: the second is the first with a check
  for error pointers.
\<close>

definition acquired :: "kernel \<Rightarrow> event \<Rightarrow> resource option" where
  "acquired e ev = (let r = snd ev in case fst ev of
     KGpio (Gpio_request n l) \<Rightarrow> (if r = 0 then Some (Gpio_line n) else None)
   | KIrq (Request_irq i h f d) \<Rightarrow> (if r = 0 then Some (Irq_line i d) else None)
   | KTimer (Dm_request_specific n) \<Rightarrow> (if r \<noteq> 0 then Some (Dm_timer r) else None)
   | KDev (Alloc_chrdev_region n l) \<Rightarrow> (if r <s 0 then None else Some Dev_numbers)
   | KDev (Cdev_add d n) \<Rightarrow> (if r = 0 then Some Char_dev else None)
   | KDev (Class_create l) \<Rightarrow> (if k_IS_ERR e r then None else Some (Sys_class r))
   | KDev (Device_create c d l) \<Rightarrow> (if k_IS_ERR e r then None else Some (Dev_node d))
   | KDev (Create_proc_read_entry l) \<Rightarrow> (if k_IS_ERR e r then None else Some (Proc_entry l))
   | KSched (Kthread_create l) \<Rightarrow> (if k_IS_ERR e r then None else Some (Thread r))
   | KIo (Ioremap a n) \<Rightarrow> (if r \<noteq> 0 then Some (Mapping r) else None)
   | KMem (Kmalloc n) \<Rightarrow> (if r \<noteq> 0 then Some (Memory r) else None)
   | KLock (Down_interruptible x) \<Rightarrow> (if r = 0 then Some (Semaphore x) else None)
   | KSpi (Spi_busnum_to_master n) \<Rightarrow> (if r \<noteq> 0 then Some (Dev_ref r) else None)
   | KSpi (Bus_find_device_by_name d) \<Rightarrow> (if r \<noteq> 0 then Some (Dev_ref r) else None)
   | KSpi (Spi_alloc_device m) \<Rightarrow> (if r \<noteq> 0 then Some (Spi_dev r) else None)
   | KSpi (Spi_register_driver n) \<Rightarrow> (if r <s 0 then None else Some (Spi_driver n))
   | KDma Requested_channel \<Rightarrow> Some (Dma_channel r)
   | KDma (Dma_mapping_error d) \<Rightarrow> (if r = 0 then Some (Dma_mapping d) else None)
   | KPlat (Spi_register_master m) \<Rightarrow> (if r <s 0 then None else Some (Spi_master m))
   | _ \<Rightarrow> None)"

definition released :: "event \<Rightarrow> resource option" where
  "released ev = (case fst ev of
     KGpio (Gpio_free n) \<Rightarrow> Some (Gpio_line n)
   | KIrq (Free_irq i d) \<Rightarrow> Some (Irq_line i d)
   | KTimer (Dm_free t) \<Rightarrow> Some (Dm_timer t)
   | KDev (Unregister_chrdev_region d n) \<Rightarrow> Some Dev_numbers
   | KDev Cdev_del \<Rightarrow> Some Char_dev
   | KDev (Class_unregister c) \<Rightarrow> Some (Sys_class c)
   | KDev (Class_destroy c) \<Rightarrow> Some (Sys_class c)
   | KDev (Device_destroy c d) \<Rightarrow> Some (Dev_node d)
   | KDev (Remove_proc_entry l) \<Rightarrow> Some (Proc_entry l)
   | KSched (Kthread_stop t) \<Rightarrow> Some (Thread t)
   | KIo (Iounmap v) \<Rightarrow> Some (Mapping v)
   | KMem (Kfree p) \<Rightarrow> Some (Memory p)
   | KLock (Up x) \<Rightarrow> Some (Semaphore x)
   | KSpi (Put_device p) \<Rightarrow> Some (Dev_ref p)
   | KSpi (Spi_dev_put p) \<Rightarrow> Some (Spi_dev p)
   | KSpi (Spi_unregister_device p) \<Rightarrow> Some (Spi_dev p)
   | KSpi (Spi_unregister_driver n) \<Rightarrow> Some (Spi_driver n)
   | KDma (Free_dma c) \<Rightarrow> Some (Dma_channel c)
   | KDma (Dma_unmap_single d n r) \<Rightarrow> Some (Dma_mapping d)
   | KPlat (Spi_unregister_master m) \<Rightarrow> Some (Spi_master m)
   | _ \<Rightarrow> None)"

lemma acquired_pair [simp]: "acquired e (c, r) = (case c of
     KGpio (Gpio_request n l) \<Rightarrow> (if r = 0 then Some (Gpio_line n) else None)
   | KIrq (Request_irq i h f d) \<Rightarrow> (if r = 0 then Some (Irq_line i d) else None)
   | KTimer (Dm_request_specific n) \<Rightarrow> (if r \<noteq> 0 then Some (Dm_timer r) else None)
   | KDev (Alloc_chrdev_region n l) \<Rightarrow> (if r <s 0 then None else Some Dev_numbers)
   | KDev (Cdev_add d n) \<Rightarrow> (if r = 0 then Some Char_dev else None)
   | KDev (Class_create l) \<Rightarrow> (if k_IS_ERR e r then None else Some (Sys_class r))
   | KDev (Device_create c d l) \<Rightarrow> (if k_IS_ERR e r then None else Some (Dev_node d))
   | KDev (Create_proc_read_entry l) \<Rightarrow> (if k_IS_ERR e r then None else Some (Proc_entry l))
   | KSched (Kthread_create l) \<Rightarrow> (if k_IS_ERR e r then None else Some (Thread r))
   | KIo (Ioremap a n) \<Rightarrow> (if r \<noteq> 0 then Some (Mapping r) else None)
   | KMem (Kmalloc n) \<Rightarrow> (if r \<noteq> 0 then Some (Memory r) else None)
   | KLock (Down_interruptible x) \<Rightarrow> (if r = 0 then Some (Semaphore x) else None)
   | KSpi (Spi_busnum_to_master n) \<Rightarrow> (if r \<noteq> 0 then Some (Dev_ref r) else None)
   | KSpi (Bus_find_device_by_name d) \<Rightarrow> (if r \<noteq> 0 then Some (Dev_ref r) else None)
   | KSpi (Spi_alloc_device m) \<Rightarrow> (if r \<noteq> 0 then Some (Spi_dev r) else None)
   | KSpi (Spi_register_driver n) \<Rightarrow> (if r <s 0 then None else Some (Spi_driver n))
   | KDma Requested_channel \<Rightarrow> Some (Dma_channel r)
   | KDma (Dma_mapping_error d) \<Rightarrow> (if r = 0 then Some (Dma_mapping d) else None)
   | KPlat (Spi_register_master m) \<Rightarrow> (if r <s 0 then None else Some (Spi_master m))
   | _ \<Rightarrow> None)"
  unfolding acquired_def Let_def fst_conv snd_conv by (rule refl)

lemma released_pair [simp]: "released (c, r) = (case c of
     KGpio (Gpio_free n) \<Rightarrow> Some (Gpio_line n)
   | KIrq (Free_irq i d) \<Rightarrow> Some (Irq_line i d)
   | KTimer (Dm_free t) \<Rightarrow> Some (Dm_timer t)
   | KDev (Unregister_chrdev_region d n) \<Rightarrow> Some Dev_numbers
   | KDev Cdev_del \<Rightarrow> Some Char_dev
   | KDev (Class_unregister c) \<Rightarrow> Some (Sys_class c)
   | KDev (Class_destroy c) \<Rightarrow> Some (Sys_class c)
   | KDev (Device_destroy c d) \<Rightarrow> Some (Dev_node d)
   | KDev (Remove_proc_entry l) \<Rightarrow> Some (Proc_entry l)
   | KSched (Kthread_stop t) \<Rightarrow> Some (Thread t)
   | KIo (Iounmap v) \<Rightarrow> Some (Mapping v)
   | KMem (Kfree p) \<Rightarrow> Some (Memory p)
   | KLock (Up x) \<Rightarrow> Some (Semaphore x)
   | KSpi (Put_device p) \<Rightarrow> Some (Dev_ref p)
   | KSpi (Spi_dev_put p) \<Rightarrow> Some (Spi_dev p)
   | KSpi (Spi_unregister_device p) \<Rightarrow> Some (Spi_dev p)
   | KSpi (Spi_unregister_driver n) \<Rightarrow> Some (Spi_driver n)
   | KDma (Free_dma c) \<Rightarrow> Some (Dma_channel c)
   | KDma (Dma_unmap_single d n r) \<Rightarrow> Some (Dma_mapping d)
   | KPlat (Spi_unregister_master m) \<Rightarrow> Some (Spi_master m)
   | _ \<Rightarrow> None)"
  unfolding released_def fst_conv by (rule refl)

definition held_step :: "kernel \<Rightarrow> resource set \<Rightarrow> event \<Rightarrow> resource set" where
  "held_step e R ev =
     (case released ev of Some x \<Rightarrow> R - {x} | None \<Rightarrow>
        (case acquired e ev of Some x \<Rightarrow> insert x R | None \<Rightarrow> R))"

definition held_from :: "kernel \<Rightarrow> resource set \<Rightarrow> event list \<Rightarrow> resource set" where
  "held_from e R l = foldl (held_step e) R l"

abbreviation held :: "kernel \<Rightarrow> event list \<Rightarrow> resource set" where
  "held e l \<equiv> held_from e {} l"

lemma held_from_simps [simp]:
  "held_from e R [] = R"
  "held_from e R (ev # l) = held_from e (held_step e R ev) l"
  "held_from e R (l @ l') = held_from e (held_from e R l) l'"
  by (simp_all add: held_from_def)

text \<open>The releases of resources that were not held when they were given back.\<close>

fun bad_releases_from :: "kernel \<Rightarrow> resource set \<Rightarrow> event list \<Rightarrow> resource list" where
  "bad_releases_from e R [] = []"
| "bad_releases_from e R (ev # l) =
     (case released ev of
        Some x \<Rightarrow> (if x \<in> R then [] else [x]) | None \<Rightarrow> []) @
     bad_releases_from e (held_step e R ev) l"

abbreviation bad_releases :: "kernel \<Rightarrow> event list \<Rightarrow> resource list" where
  "bad_releases e l \<equiv> bad_releases_from e {} l"

lemma bad_releases_from_append [simp]:
  "bad_releases_from e R (l @ l') =
     bad_releases_from e R l @ bad_releases_from e (held_from e R l) l'"
  by (induction l arbitrary: R) simp_all

section \<open>Registers behind \<open>ioremap\<close>\<close>

text \<open>
  The content of the 16-bit register at virtual address \<open>v\<close> after a log: the last value written
  there, or its first content \<open>reg0 v\<close>.
\<close>

definition reg_step :: "u32 \<Rightarrow> u16 \<Rightarrow> event \<Rightarrow> u16" where
  "reg_step v x ev = (case fst ev of
      KIo (Iowrite16 w a) \<Rightarrow> if a = v then w else x
    | _ \<Rightarrow> x)"

definition reg_value :: "(u32 \<Rightarrow> u16) \<Rightarrow> event list \<Rightarrow> u32 \<Rightarrow> u16" where
  "reg_value reg0 l v = foldl (reg_step v) (reg0 v) l"

lemma reg_value_simps [simp]:
  "reg_value reg0 [] v = reg0 v"
  "reg_value reg0 (l @ [ev]) v = reg_step v (reg_value reg0 l v) ev"
  by (simp_all add: reg_value_def)

text \<open>
  The documented behaviour the drivers rely on for the registers at the physical addresses \<open>A\<close>:
  each of them can be mapped, different ones to different places, and a register reads as what
  was last written into it.
\<close>

definition register_file ::
    "kernel \<Rightarrow> u32 set \<Rightarrow> (u32 \<Rightarrow> u32) \<Rightarrow> (u32 \<Rightarrow> u16) \<Rightarrow> bool" where
  "register_file e A vmap reg0 \<longleftrightarrow>
     inj_on vmap A \<and> (\<forall>a \<in> A. vmap a \<noteq> 0) \<and>
     (\<forall>l n. \<forall>a \<in> A. answer e l (KIo (Ioremap a n)) = vmap a) \<and>
     (\<forall>l v. answer e l (KIo (Ioread16 v)) = ucast (reg_value reg0 l v))"

end
