(* ===== verification/Sync_State.thy ===== *)
theory Sync_State
  imports Kernel
begin

text \<open>
  The synchronization driver, \<open>ifsttar-synchronization-drv.c\<close>: its global variables (lines 65 to
  144) as a record that extends the kernel log, and the circular buffer both of its tables are.
  The globals that no function assigns are constants. \<open>relay_irq_count\<close> is the function-local
  \<open>static int i\<close> of \<open>RelayTimerIrqHandler\<close>; the other function-local statics are assigned
  before they are read and are ordinary bound variables of the model. The variables that only
  steer debug prints are left out with the prints.
\<close>

datatype driver_state =
    STATE_Initialization
  | STATE_Wait_for_Gps_Fixed
  | STATE_Gps_Fixed
  | STATE_Switch_Gps_to_Off
  | STATE_Gps_Off
  | STATE_Unknown u32 \<comment> \<open>a value the enumeration does not name, for the \<open>default\<close> branch\<close>

fun state_code :: "driver_state \<Rightarrow> u32" where
  "state_code STATE_Initialization = 0"
| "state_code STATE_Wait_for_Gps_Fixed = 1"
| "state_code STATE_Gps_Fixed = 2"
| "state_code STATE_Switch_Gps_to_Off = 3"
| "state_code STATE_Gps_Off = 4"
| "state_code (STATE_Unknown n) = n"

abbreviation TIMER_MUX_PINS_NB :: nat where "TIMER_MUX_PINS_NB \<equiv> 3"
abbreviation QUARTZ_DRIFT_NUMBER :: nat where "QUARTZ_DRIFT_NUMBER \<equiv> 16"
abbreviation PREEMPTION_TIME_VALUE_NUMBER :: nat where "PREEMPTION_TIME_VALUE_NUMBER \<equiv> 32"
abbreviation GPS_MAXIMUM_OFF_TIME :: u32 where "GPS_MAXIMUM_OFF_TIME \<equiv> 60"

abbreviation IRQF_TRIGGER_RISING :: u32 where "IRQF_TRIGGER_RISING \<equiv> 1"
abbreviation IRQF_TRIGGER_FALLING :: u32 where "IRQF_TRIGGER_FALLING \<equiv> 2"

abbreviation MODE1 :: u32 where "MODE1 \<equiv> 901"
abbreviation MODE2 :: u32 where "MODE2 \<equiv> 902"
abbreviation MODE3 :: u32 where "MODE3 \<equiv> 903"

abbreviation CAPTURE_TIMER_ID :: u32 where "CAPTURE_TIMER_ID \<equiv> 911"
abbreviation RELAY_TIMER_ID :: u32 where "RELAY_TIMER_ID \<equiv> 912"

definition m_uiPpsTimerNumber :: u32 where
  "m_uiPpsTimerNumber = 8"

definition m_uiPpsTimerRegisterAddress :: "u32 list" where
  "m_uiPpsTimerRegisterAddress = [0x4800217A, 0x480020BC, 0x480021DE]"

definition m_uiRelayTimerNumber :: u32 where
  "m_uiRelayTimerNumber = 11"

definition m_uiGpsShutdownGpioNumber :: u32 where
  "m_uiGpsShutdownGpioNumber = 67"

definition m_uiGpsShutdownGpioRegisterAddress :: u32 where
  "m_uiGpsShutdownGpioRegisterAddress = 0x480020D6"

record sync_state = kstate +
  m_uiSynchronizationMajor :: u32
  m_uiSynchronizationMinor :: u32
  m_oSynchronizationDev :: u32
  m_pSynchronizationClass :: u32
  m_pDeviceEntry :: u32
  m_pPreemptProcEntry :: u32
  m_oGpsOfficialData :: GpsData
  m_oGpsTemporaryData :: GpsData
  m_bDataSupplied :: u32
  m_uiDriverRunningMode :: u32
  m_DriverCurrentState :: driver_state
  m_uiPpsTimerPreviousMode :: "u32 list"
  m_uiPpsTimerInputClock :: u32
  m_uiLastTimerValue :: u32
  m_uioldLastTimerValue :: u32
  m_iPpsTimerErrorValueTable :: "u32 list"
  m_uiLastUsedTimerErrorValueTableCase :: u32
  m_iAverageTimerErrorValue :: u32
  m_uiTimerDriftCounter :: u32
  m_pPpsTimerStruct :: u32
  m_uiRelayTimerInputClock :: u32
  m_uiRelayTimerLeftTime :: u32
  m_uiTimerReloadValue :: u32
  m_pRelayTimerStruct :: u32
  m_uiGpsShutdownGpioPreviousMode :: u32
  m_uiGpsTimeToOff :: u32
  m_bGpsStatus :: u32
  m_iPreemptTimeValueTable :: "u32 list"
  m_uiLastUsedPreemptTimeValueTableCase :: u32
  m_bReadDone :: u32
  m_uiReadKind :: u32
  SecondsIncrementsVerificationThread :: u32
  m_bThreadLaunching :: u32
  relay_irq_count :: u32

text \<open>The globals as the module's data section initialises them.\<close>

definition sync_globals :: sync_state where
  "sync_globals = \<lparr>klog = [],
     m_uiSynchronizationMajor = 0, m_uiSynchronizationMinor = 0, m_oSynchronizationDev = 0,
     m_pSynchronizationClass = 0, m_pDeviceEntry = 0, m_pPreemptProcEntry = 0,
     m_oGpsOfficialData = GpsData_zero, m_oGpsTemporaryData = GpsData_zero,
     m_bDataSupplied = 0, m_uiDriverRunningMode = MODE1,
     m_DriverCurrentState = STATE_Initialization,
     m_uiPpsTimerPreviousMode = [0x010F, 0x010F, 0x010F],
     m_uiPpsTimerInputClock = 0, m_uiLastTimerValue = 0, m_uioldLastTimerValue = 0,
     m_iPpsTimerErrorValueTable = replicate QUARTZ_DRIFT_NUMBER 0,
     m_uiLastUsedTimerErrorValueTableCase = 0, m_iAverageTimerErrorValue = 0,
     m_uiTimerDriftCounter = 0, m_pPpsTimerStruct = 0,
     m_uiRelayTimerInputClock = 0, m_uiRelayTimerLeftTime = 0, m_uiTimerReloadValue = 0,
     m_pRelayTimerStruct = 0, m_uiGpsShutdownGpioPreviousMode = 0x010F,
     m_uiGpsTimeToOff = 0, m_bGpsStatus = 0,
     m_iPreemptTimeValueTable = replicate PREEMPTION_TIME_VALUE_NUMBER 0,
     m_uiLastUsedPreemptTimeValueTableCase = 0, m_bReadDone = 0, m_uiReadKind = 0,
     SecondsIncrementsVerificationThread = 0, m_bThreadLaunching = 1,
     relay_irq_count = 0\<rparr>"

text \<open>
  The globals when the initialisation starts: \<open>insmod\<close> may have set the module parameter
  \<open>m_bThreadLaunching\<close> to any number.
\<close>

definition sync_loaded :: "u32 \<Rightarrow> sync_state" where
  "sync_loaded launch = sync_globals\<lparr>m_bThreadLaunching := launch\<rparr>"

lemma sync_loaded_default: "sync_loaded 1 = sync_globals"
  by (simp add: sync_loaded_def sync_globals_def)

end
