(* ===== verification/Ring_Buffer.thy ===== *)
theory Ring_Buffer
  imports Prelude
begin

text \<open>
  The circular buffer of the synchronization driver. Both its tables (quartz errors, preemption
  times) are written by the same three lines: reset the index when it has reached the size, store
  at the index, increment it. \<open>ring_push\<close> is that code, with \<open>None\<close> for a store outside the
  array; the locale \<open>ring\<close> is the contract its users rely on, and its lemmas say what the buffer
  holds: the last values written, newest first.
\<close>

section \<open>The code\<close>

definition ring_push :: "nat \<Rightarrow> u32 list \<times> u32 \<Rightarrow> u32 \<Rightarrow> (u32 list \<times> u32) option" where
  "ring_push N b v =
     (let i = (if word_of_nat N <=s snd b then 0 else snd b)
      in if 0 <=s i \<and> unat i < length (fst b) then Some ((fst b)[unat i := v], i + 1) else None)"

definition ring_ok :: "nat \<Rightarrow> u32 list \<times> u32 \<Rightarrow> bool" where
  "ring_ok N b \<longleftrightarrow> length (fst b) = N \<and> unat (snd b) \<le> N"

lemma ring_push_ok:
  assumes "ring_ok N b" "0 < N" "N < 2 ^ 30"
  shows "ring_push N b v =
    Some ((fst b)[unat (snd b) mod N := v], word_of_nat (Suc (unat (snd b) mod N)))"
proof -
  obtain xs i where b: "b = (xs, i)" by (cases b)
  from assms have len: "length xs = N" and i: "unat i \<le> N" by (simp_all add: ring_ok_def b)
  have uN: "unat (word_of_nat N :: u32) = N" using assms(3) by (simp add: unat_of_nat)
  have le: "word_of_nat N <=s i \<longleftrightarrow> unat i = N"
  proof -
    have "unat i < 2 ^ 31" using i assms(3) by simp
    moreover have "unat (word_of_nat N :: u32) < 2 ^ 31" using uN assms(3) by simp
    ultimately have "word_of_nat N <=s i \<longleftrightarrow> N \<le> unat i"
      by (simp only: word_sle_eq sint_u32_small uN of_nat_le_iff)
    then show ?thesis using i by auto
  qed
  show ?thesis
  proof (cases "unat i = N")
    case True
    then show ?thesis using assms(2) len by (simp add: ring_push_def b le)
  next
    case False
    with i have lt: "unat i < N" by simp
    then have "0 <=s i" using assms(3) by (simp add: word_sle_eq sint_u32_small)
    moreover have "i + 1 = word_of_nat (Suc (unat i))" by (simp add: add.commute)
    ultimately show ?thesis using False lt len by (simp add: ring_push_def b le)
  qed
qed

lemma ring_ok_push:
  assumes "ring_ok N b" "0 < N" "N < 2 ^ 30" "ring_push N b v = Some b'"
  shows "ring_ok N b'"
proof -
  from assms(2) have le: "Suc (unat (snd b) mod N) \<le> N" by (simp add: Suc_leI)
  then have "unat (word_of_nat (Suc (unat (snd b) mod N)) :: u32) = Suc (unat (snd b) mod N)"
    using assms(3) by (intro unat_word_of_nat_u32) simp
  then show ?thesis
    using assms le by (auto simp: ring_push_ok ring_ok_def simp del: of_nat_Suc)
qed

section \<open>The contract\<close>

locale ring =
  fixes N :: nat
    and push :: "'b \<Rightarrow> 'v \<Rightarrow> 'b"
    and cells :: "'b \<Rightarrow> 'v list"
    and pos :: "'b \<Rightarrow> nat"
    and inv :: "'b \<Rightarrow> bool"
  assumes size_pos: "0 < N"
    and length_cells: "inv b \<Longrightarrow> length (cells b) = N"
    and pos_le: "inv b \<Longrightarrow> pos b \<le> N"
    and inv_push: "inv b \<Longrightarrow> inv (push b v)"
    and cells_push: "inv b \<Longrightarrow> cells (push b v) = (cells b)[pos b mod N := v]"
    and pos_push: "inv b \<Longrightarrow> pos (push b v) = Suc (pos b mod N)"
begin

text \<open>The \<open>k\<close>-th newest value, found by walking back from the index.\<close>

definition newest :: "'b \<Rightarrow> nat \<Rightarrow> 'v" where
  "newest b k = cells b ! ((pos b + N - 1 - k) mod N)"

definition history :: "'b \<Rightarrow> 'v list" where
  "history b = map (newest b) [0..<N]"

lemma length_history: "length (history b) = N"
  by (simp add: history_def)

lemma newest_push_0: "inv b \<Longrightarrow> newest (push b v) 0 = v"
  using size_pos by (simp add: newest_def cells_push pos_push length_cells)

lemma newest_push_Suc:
  assumes "inv b" "Suc k < N"
  shows "newest (push b v) (Suc k) = newest b k"
proof -
  define p where "p = pos b mod N"
  have p: "p < N" using size_pos by (simp add: p_def)
  have eq: "(pos b + N - Suc k) mod N = (p + N - Suc k) mod N"
  proof -
    have "pos b + N - Suc k = pos b + (N - Suc k)" "p + N - Suc k = p + (N - Suc k)"
      using assms(2) by simp_all
    then show ?thesis by (simp only: p_def mod_add_left_eq)
  qed
  have ne: "(p + N - Suc k) mod N \<noteq> p"
  proof (cases "Suc k \<le> p")
    case True
    then have "p + N - Suc k = (p - Suc k) + N" by simp
    moreover have "(p - Suc k) mod N = p - Suc k" using p by simp
    ultimately have "(p + N - Suc k) mod N = p - Suc k" by (simp only: mod_add_self2)
    then show ?thesis using True by simp
  next
    case False
    then have "p + N - Suc k < N" using assms(2) by simp
    then show ?thesis using assms(2) by simp
  qed
  have idx: "Suc p + N - 1 - Suc k = p + N - Suc k" using assms(2) by simp
  show ?thesis
    using ne assms(1)
    by (simp add: newest_def cells_push pos_push p_def [symmetric] idx eq)
qed

lemma history_push:
  assumes "inv b"
  shows "history (push b v) = take N (v # history b)"
proof (rule nth_equalityI)
  show "length (history (push b v)) = length (take N (v # history b))"
    by (simp add: length_history)
next
  fix k assume "k < length (history (push b v))"
  then have k: "k < N" by (simp add: length_history)
  show "history (push b v) ! k = take N (v # history b) ! k"
  proof (cases k)
    case 0
    then show ?thesis using k assms by (simp add: history_def newest_push_0)
  next
    case (Suc j)
    then show ?thesis using k assms by (simp add: history_def newest_push_Suc)
  qed
qed

lemma inv_pushes: "inv b \<Longrightarrow> inv (foldl push b vs)"
  by (induction vs arbitrary: b) (simp_all add: inv_push)

text \<open>After any number of stores the buffer holds the last \<open>N\<close> values, newest first.\<close>

lemma history_pushes:
  "inv b \<Longrightarrow> history (foldl push b vs) = take N (rev vs @ history b)"
proof (induction vs rule: rev_induct)
  case Nil
  then show ?case by (simp add: length_history)
next
  case (snoc v vs)
  then have "history (foldl push b (vs @ [v])) = take N (v # take N (rev vs @ history b))"
    by (simp add: history_push inv_pushes)
  also have "\<dots> = take N (v # rev vs @ history b)"
    by (cases N) (simp_all add: min_def)
  finally show ?case by simp
qed

text \<open>Walking the array downwards, first below the index and then above it, is the history.\<close>

lemma walk_history:
  assumes "inv b"
  shows "map ((!) (cells b)) (rev [0..<pos b] @ rev [pos b..<N]) = history b"
proof (rule nth_equalityI)
  have le: "pos b \<le> N" using assms by (rule pos_le)
  then show "length (map ((!) (cells b)) (rev [0..<pos b] @ rev [pos b..<N])) =
             length (history b)"
    by (simp add: length_history)
next
  fix k
  assume "k < length (map ((!) (cells b)) (rev [0..<pos b] @ rev [pos b..<N]))"
  then have k: "k < N" using pos_le [OF assms] by simp
  have le: "pos b \<le> N" using assms by (rule pos_le)
  show "map ((!) (cells b)) (rev [0..<pos b] @ rev [pos b..<N]) ! k = history b ! k"
  proof (cases "k < pos b")
    case True
    then have "pos b + N - 1 - k = (pos b - Suc k) + N" using k by simp
    moreover have "(pos b - Suc k) mod N = pos b - Suc k" using True le by simp
    ultimately have "(pos b + N - 1 - k) mod N = pos b - Suc k" by (simp only: mod_add_self2)
    then show ?thesis
      using True k by (simp add: history_def newest_def nth_append rev_nth)
  next
    case False
    then have "pos b + N - 1 - k = N - 1 - (k - pos b)" using k le by simp
    moreover have "(N - 1 - (k - pos b)) mod N = N - 1 - (k - pos b)" using k by simp
    moreover have "rev [pos b..<N] ! (k - pos b) = N - 1 - (k - pos b)"
      using False k le by (simp add: rev_nth)
    ultimately show ?thesis
      using False k by (simp add: history_def newest_def nth_append)
  qed
qed

end

section \<open>The code keeps the contract\<close>

definition push32 :: "nat \<Rightarrow> u32 list \<times> u32 \<Rightarrow> u32 \<Rightarrow> u32 list \<times> u32" where
  "push32 N b v = the (ring_push N b v)"

lemma ring_push_push32:
  "ring_ok N b \<Longrightarrow> 0 < N \<Longrightarrow> N < 2 ^ 30 \<Longrightarrow> ring_push N b v = Some (push32 N b v)"
  by (simp add: push32_def ring_push_ok)

lemma ring_ok_push32:
  "ring_ok N b \<Longrightarrow> 0 < N \<Longrightarrow> N < 2 ^ 30 \<Longrightarrow> ring_ok N (push32 N b v)"
  by (rule ring_ok_push [of N b v]) (simp_all add: ring_push_push32)

lemma ring_push32:
  assumes "0 < N" "N < 2 ^ 30"
  shows "ring N (push32 N) fst (\<lambda>b. unat (snd b)) (ring_ok N)"
proof
  show "0 < N" by (rule assms)
next
  fix b :: "u32 list \<times> u32" and v
  assume ok: "ring_ok N b"
  then show "length (fst b) = N" and "unat (snd b) \<le> N" by (simp_all add: ring_ok_def)
  note push = ring_push_ok [OF ok assms, of v]
  show "ring_ok N (push32 N b v)"
    using ring_ok_push [OF ok assms push] push by (simp add: push32_def)
  show "fst (push32 N b v) = (fst b)[unat (snd b) mod N := v]"
    by (simp add: push32_def push)
  have "Suc (unat (snd b) mod N) \<le> N" using assms(1) by (simp add: Suc_leI)
  then have "unat (word_of_nat (Suc (unat (snd b) mod N)) :: u32) = Suc (unat (snd b) mod N)"
    using assms(2) by (intro unat_word_of_nat_u32) simp
  then show "unat (snd (push32 N b v)) = Suc (unat (snd b) mod N)"
    by (simp add: push32_def push del: of_nat_Suc)
qed

interpretation quartz_ring: ring 16 "push32 16" fst "\<lambda>b. unat (snd b)" "ring_ok 16"
  by (rule ring_push32) simp_all

interpretation preempt_ring: ring 32 "push32 32" fst "\<lambda>b. unat (snd b)" "ring_ok 32"
  by (rule ring_push32) simp_all

end
