(* ===== verification/Sync_Timers.thy ===== *)
theory Sync_Timers
  imports Sync_State Ring_Buffer
begin

text \<open>
  Time keeping in \<open>ifsttar-synchronization-drv.c\<close>: the accessors of the OMAP timers (lines 158 to
  266), the official time, the table of quartz errors and its average, the microseconds since the
  last pulse and the GPS switch (lines 366 to 515). Signed products wrap around, as in every
  kernel build (\<open>-fno-strict-overflow\<close>).
\<close>

section \<open>The OMAP timer registers\<close>

definition omap_dm_timer_read_reg ::
    "kernel \<Rightarrow> u32 \<Rightarrow> timer_reg \<Rightarrow> ('a sync_state_scheme, u32) state" where
  "omap_dm_timer_read_reg e timer reg = do {
     (if k_TIMER_REG_OFFSET e reg AND 0xff < k_TIMER_WAKEUP_EN_OFFSET e
      then kdo e (KTimer (Warn_on reg)) else skip);
     posted \<leftarrow> kcall e (KTimer (Dm_posted timer));
     kcall e (KTimer (Dm_read timer reg posted)) }"

definition omap_dm_timer_write_reg ::
    "kernel \<Rightarrow> u32 \<Rightarrow> timer_reg \<Rightarrow> u32 \<Rightarrow> ('a sync_state_scheme, unit) state" where
  "omap_dm_timer_write_reg e timer reg value = do {
     (if k_TIMER_REG_OFFSET e reg AND 0xff < k_TIMER_WAKEUP_EN_OFFSET e
      then kdo e (KTimer (Warn_on reg)) else skip);
     posted \<leftarrow> kcall e (KTimer (Dm_posted timer));
     kdo e (KTimer (Dm_write timer reg value posted)) }"

definition capture_ctrl :: "kernel \<Rightarrow> u32 \<Rightarrow> u32 \<Rightarrow> u32 \<Rightarrow> u32" where
  "capture_ctrl e bEventCaptureMode uiEventToCapture l =
     (let l = l AND NOT (k_CTRL_CAPTMODE e OR k_CTRL_TCM_BOTHEDGES e OR push_bit 10 0x02);
          l = l OR k_CTRL_GPOCFG e;
          l = (if bEventCaptureMode \<noteq> 0 then l OR k_CTRL_CAPTMODE e else l)
      in if uiEventToCapture = IRQF_TRIGGER_RISING then l OR k_CTRL_TCM_LOWTOHIGH e
         else if uiEventToCapture = IRQF_TRIGGER_FALLING then l OR k_CTRL_TCM_HIGHTOLOW e
         else l OR k_CTRL_TCM_BOTHEDGES e)"

definition omap_dm_timer_set_capture ::
    "kernel \<Rightarrow> u32 \<Rightarrow> u32 \<Rightarrow> u32 \<Rightarrow> ('a sync_state_scheme, u32) state" where
  "omap_dm_timer_set_capture e timer bEventCaptureMode uiEventToCapture =
     (if timer = 0 then ret (- EINVAL)
      else do {
        kdo e (KTimer (Dm_enable timer));
        l \<leftarrow> omap_dm_timer_read_reg e timer OMAP_TIMER_CTRL_REG;
        let l = capture_ctrl e bEventCaptureMode uiEventToCapture l;
        omap_dm_timer_write_reg e timer OMAP_TIMER_CTRL_REG l;
        kdo e (KTimer (Dm_save_tclr timer l));
        kdo e (KTimer (Dm_disable timer));
        ret 0 })"

definition omap_dm_timer_read_capture ::
    "kernel \<Rightarrow> u32 \<Rightarrow> u32 \<Rightarrow> u32 \<Rightarrow> ('a sync_state_scheme, u32) state" where
  "omap_dm_timer_read_capture e timer bCaptureRegister bReaded =
     (if timer = 0 then ret (- EINVAL)
      else do {
        l \<leftarrow> (if bCaptureRegister = 0 then omap_dm_timer_read_reg e timer OMAP_TIMER_CAPTURE_REG
              else omap_dm_timer_read_reg e timer OMAP_TIMER_CAPTURE2_REG);
        (if bReaded \<noteq> 0 then do {
           pps \<leftarrow> rd m_pPpsTimerStruct;
           kdo e (KTimer (Dm_write_status pps OMAP_TIMER_INT_CAPTURE));
           kdo e (KTimer (Dm_read_status pps)) }
         else skip);
        ret l })"

section \<open>The official time\<close>

definition SecondIncrements :: "u32 \<Rightarrow> ('a sync_state_scheme, unit) state" where
  "SecondIncrements iIncrementsSecondNumber =
     wr (\<lambda>s. s\<lparr>m_oGpsOfficialData := (m_oGpsOfficialData s)
       \<lparr>oTimeTTimeInSeconds :=
          oTimeTTimeInSeconds (m_oGpsOfficialData s) + iIncrementsSecondNumber\<rparr>\<rparr>)"

section \<open>Quartz errors\<close>

definition valid_quality :: "GpsData \<Rightarrow> bool" where
  "valid_quality g \<longleftrightarrow> iQuality g = 1 \<or> iQuality g = 2"

definition valid_pulse :: "'a sync_state_scheme \<Rightarrow> bool" where
  "valid_pulse s \<longleftrightarrow> m_bDataSupplied s = 1 \<and> valid_quality (m_oGpsTemporaryData s) \<and>
     valid_quality (m_oGpsOfficialData s)"

text \<open>The number stored: the ticks since the last pulse less those of a second, with the
  \<open>0xFFFFFFFF\<close> of the code where the counter has wrapped.\<close>

definition quartz_error :: "u32 \<Rightarrow> u32 \<Rightarrow> u32 \<Rightarrow> u32" where
  "quartz_error uiCaptureTimerValue uiLast uiClock =
     (if uiCaptureTimerValue < uiLast then 0xFFFFFFFF - uiLast + uiCaptureTimerValue - uiClock
      else uiCaptureTimerValue - uiLast - uiClock)"

definition ComputeAndAddQuartzError :: "kernel \<Rightarrow> u32 \<Rightarrow> ('a sync_state_scheme, unit) state" where
  "ComputeAndAddQuartzError e uiCaptureTimerValue = do {
     s \<leftarrow> rd id;
     if valid_pulse s then do {
       (case ring_push QUARTZ_DRIFT_NUMBER
               (m_iPpsTimerErrorValueTable s, m_uiLastUsedTimerErrorValueTableCase s)
               (quartz_error uiCaptureTimerValue (m_uiLastTimerValue s)
                  (m_uiPpsTimerInputClock s)) of
          None \<Rightarrow> out_of_bounds e
        | Some (t, i) \<Rightarrow> wr (\<lambda>s. s\<lparr>m_iPpsTimerErrorValueTable := t,
                                     m_uiLastUsedTimerErrorValueTableCase := i\<rparr>));
       wr (\<lambda>s. s\<lparr>m_uiTimerDriftCounter := m_uiTimerDriftCounter s + 1\<rparr>) }
     else if 0 < m_uiTimerDriftCounter s
     then wr (\<lambda>s. s\<lparr>m_uiTimerDriftCounter := m_uiTimerDriftCounter s - 1\<rparr>)
     else skip }"

definition average_quartz_error :: "u32 list \<Rightarrow> u32" where
  "average_quartz_error tab = sum_list (take QUARTZ_DRIFT_NUMBER tab) div 16"

definition GetAverageQuartzError :: "('a sync_state_scheme, u32) state" where
  "GetAverageQuartzError = do {
     tab \<leftarrow> rd m_iPpsTimerErrorValueTable;
     ret (average_quartz_error tab) }"

section \<open>Microseconds\<close>

definition ComputeMicroSecond :: "kernel \<Rightarrow> u32 \<Rightarrow> ('a sync_state_scheme, u32) state" where
  "ComputeMicroSecond e bSelectedTimer = do {
     s \<leftarrow> rd id;
     if bSelectedTimer = CAPTURE_TIMER_ID then do {
       counter \<leftarrow> kcall e (KTimer (Dm_read_counter (m_pPpsTimerStruct s)));
       let uiTimerValue = counter - m_uiLastTimerValue s;
       kdiv e uiTimerValue (m_uiPpsTimerInputClock s div 1000000) }
     else if bSelectedTimer = RELAY_TIMER_ID then do {
       uiTimerValue \<leftarrow> kcall e (KTimer (Dm_read_counter (m_pRelayTimerStruct s)));
       kdiv e (uiTimerValue - m_uiTimerReloadValue s) (m_uiRelayTimerInputClock s div 1000000) }
     else ret (sync_err ERR_SYNCHRONIZATION_COMPUTEMICROSECOND_SPECIFIED_TIMER) }"

section \<open>The GPS switch\<close>

definition SetGpsStatus :: "kernel \<Rightarrow> u32 \<Rightarrow> ('a sync_state_scheme, u32) state" where
  "SetGpsStatus e bGpsDriverStatus =
     (if bGpsDriverStatus = 0 then do {
        wr (\<lambda>s. s\<lparr>m_bGpsStatus := 0\<rparr>);
        ret 0 }
      else if bGpsDriverStatus = 1 then do {
        kdo e (KGpio (Gpio_set_value m_uiGpsShutdownGpioNumber 1));
        wr (\<lambda>s. s\<lparr>m_bGpsStatus := 1\<rparr>);
        ret 0 }
      else ret (sync_err ERR_SYNCHRONIZATION_SETGPSSTATUS_SPECIFIED_STATUS))"

section \<open>Facts\<close>

subsection \<open>Wrap-around\<close>

text \<open>
  Word subtraction already gives the ticks modulo \<open>2 ^ 32\<close>, so the second branch alone would be
  right; the branch for a wrapped counter is short by one tick.
\<close>

lemma quartz_error_exact:
  "quartz_error cap prev clock =
     cap - prev - clock - (if cap < prev then 1 else 0)"
  by (simp add: quartz_error_def)

lemma elapsed_ticks:
  assumes "n < 2 ^ 32"
  shows "unat (start + word_of_nat n - start :: u32) = n"
  using assms by (simp add: unat_word_of_nat_u32)

subsection \<open>The average\<close>

lemma sum_list_words: "sum_list (map word_of_nat ns) = (word_of_nat (sum_list ns) :: u32)"
  by (induction ns) simp_all

lemma average_nonnegative:
  assumes "length ns = 16" "sum_list ns < 2 ^ 32"
  shows "average_quartz_error (map word_of_nat ns) = word_of_nat (sum_list ns div 16)"
  using assms
  by (simp add: average_quartz_error_def sum_list_words word_arith_nat_div unat_word_of_nat_u32)

subsection \<open>The table of quartz errors\<close>

abbreviation quartz_table :: "'a sync_state_scheme \<Rightarrow> u32 list \<times> u32" where
  "quartz_table s \<equiv> (m_iPpsTimerErrorValueTable s, m_uiLastUsedTimerErrorValueTableCase s)"

definition add_quartz_error :: "u32 \<Rightarrow> 'a sync_state_scheme \<Rightarrow> 'a sync_state_scheme" where
  "add_quartz_error v s =
     (if valid_pulse s
      then let b = push32 16 (quartz_table s)
                     (quartz_error v (m_uiLastTimerValue s) (m_uiPpsTimerInputClock s))
           in s\<lparr>m_iPpsTimerErrorValueTable := fst b,
                m_uiLastUsedTimerErrorValueTableCase := snd b,
                m_uiTimerDriftCounter := m_uiTimerDriftCounter s + 1\<rparr>
      else if 0 < m_uiTimerDriftCounter s
      then s\<lparr>m_uiTimerDriftCounter := m_uiTimerDriftCounter s - 1\<rparr>
      else s)"

lemma run_ComputeAndAddQuartzError:
  assumes "ring_ok 16 (quartz_table s)"
  shows "run_state (ComputeAndAddQuartzError e v) s = ((), add_quartz_error v s)"
  using assms
  by (simp add: ComputeAndAddQuartzError_def add_quartz_error_def ring_push_push32 case_prod_beta
      Let_def)

lemma wp_ComputeAndAddQuartzError_exact:
  "ring_ok 16 (quartz_table s) \<Longrightarrow>
     wp (ComputeAndAddQuartzError e v) Q s = Q () (add_quartz_error v s)"
  by (simp add: wp_def run_ComputeAndAddQuartzError)

lemma add_quartz_error_counter:
  "m_uiTimerDriftCounter (add_quartz_error v s) =
     (if valid_pulse s then m_uiTimerDriftCounter s + 1
      else if 0 < m_uiTimerDriftCounter s then m_uiTimerDriftCounter s - 1 else 0)"
  by (auto simp: add_quartz_error_def Let_def word_gt_0)

lemma add_quartz_error_frame [simp]:
  "klog (add_quartz_error v s) = klog s"
  "m_DriverCurrentState (add_quartz_error v s) = m_DriverCurrentState s"
  "m_uiDriverRunningMode (add_quartz_error v s) = m_uiDriverRunningMode s"
  "m_uiPpsTimerInputClock (add_quartz_error v s) = m_uiPpsTimerInputClock s"
  "m_uiRelayTimerInputClock (add_quartz_error v s) = m_uiRelayTimerInputClock s"
  "m_oGpsOfficialData (add_quartz_error v s) = m_oGpsOfficialData s"
  "m_uiLastTimerValue (add_quartz_error v s) = m_uiLastTimerValue s"
  "m_uiGpsTimeToOff (add_quartz_error v s) = m_uiGpsTimeToOff s"
  by (simp_all add: add_quartz_error_def Let_def)

subsection \<open>Frames\<close>

lemma run_SecondIncrements [simp]:
  "run_state (SecondIncrements n) s =
     ((), s\<lparr>m_oGpsOfficialData := (m_oGpsOfficialData s)
       \<lparr>oTimeTTimeInSeconds := oTimeTTimeInSeconds (m_oGpsOfficialData s) + n\<rparr>\<rparr>)"
  by (simp add: SecondIncrements_def)

lemma wp_SecondIncrements [wp_simps]:
  "wp (SecondIncrements n) Q s =
     Q () (s\<lparr>m_oGpsOfficialData := (m_oGpsOfficialData s)
       \<lparr>oTimeTTimeInSeconds := oTimeTTimeInSeconds (m_oGpsOfficialData s) + n\<rparr>\<rparr>)"
  by (simp add: wp_def)

end
