(* ===== verification/Sync_Irq.thy ===== *)
theory Sync_Irq
  imports Sync_Timers
begin

text \<open>
  The two interrupt handlers of \<open>ifsttar-synchronization-drv.c\<close> (lines 578 to 931). The pulse of
  the GPS drives the state machine; each \<open>case\<close> of its \<open>switch\<close> is a definition. The relay
  timer stands in for the GPS while that is off.
\<close>

section \<open>What both handlers do\<close>

definition read_pps_counter :: "kernel \<Rightarrow> ('a sync_state_scheme, u32) state" where
  "read_pps_counter e = do {
     t \<leftarrow> rd m_pPpsTimerStruct;
     kcall e (KTimer (Dm_read_counter t)) }"

definition read_relay_counter :: "kernel \<Rightarrow> ('a sync_state_scheme, u32) state" where
  "read_relay_counter e = do {
     t \<leftarrow> rd m_pRelayTimerStruct;
     kcall e (KTimer (Dm_read_counter t)) }"

text \<open>Unlock the blocking read, saying which pulse did it.\<close>

definition unlock_read :: "kernel \<Rightarrow> u32 \<Rightarrow> ('a sync_state_scheme, unit) state" where
  "unlock_read e kind = do {
     wr (\<lambda>s. s\<lparr>m_uiReadKind := kind, m_bReadDone := 1\<rparr>);
     kdo e (KSched (Wake_up_interruptible Sync_Read_wait)) }"

definition store_preemption_time :: "kernel \<Rightarrow> u32 \<Rightarrow> ('a sync_state_scheme, unit) state" where
  "store_preemption_time e uiPreemptMicroSeconds = do {
     s \<leftarrow> rd id;
     (case ring_push PREEMPTION_TIME_VALUE_NUMBER
             (m_iPreemptTimeValueTable s, m_uiLastUsedPreemptTimeValueTableCase s)
             uiPreemptMicroSeconds of
        None \<Rightarrow> out_of_bounds e
      | Some (t, i) \<Rightarrow> wr (\<lambda>s. s\<lparr>m_iPreemptTimeValueTable := t,
                                   m_uiLastUsedPreemptTimeValueTableCase := i\<rparr>)) }"

definition go_to :: "driver_state \<Rightarrow> ('a sync_state_scheme, unit) state" where
  "go_to st = wr (\<lambda>s. s\<lparr>m_DriverCurrentState := st\<rparr>)"

section \<open>The relay timer\<close>

definition relay_second :: "kernel \<Rightarrow> ('a sync_state_scheme, unit) state" where
  "relay_second e = do {
     st \<leftarrow> rd m_DriverCurrentState;
     (if st = STATE_Gps_Off then do {
        SecondIncrements 1;
        wr (\<lambda>s. s\<lparr>m_uiRelayTimerLeftTime := m_uiRelayTimerLeftTime s - 1\<rparr>);
        left \<leftarrow> rd m_uiRelayTimerLeftTime;
        (if 0 < left then go_to STATE_Gps_Off else do { SetGpsStatus e 1; skip });
        unlock_read e 2 }
      else skip) }"

definition relay_diff_pps :: "kernel \<Rightarrow> u32 \<Rightarrow> u32 \<Rightarrow> ('a sync_state_scheme, unit) state" where
  "relay_diff_pps e PPSTimer_val_when_Relay_Trig PPS_Capture_val = do {
     s \<leftarrow> rd id;
     let ReloadValue = 0xFFFFFFFF - m_uiTimerReloadValue s;
     (if PPSTimer_val_when_Relay_Trig < PPS_Capture_val \<and>
         PPS_Capture_val - PPSTimer_val_when_Relay_Trig < ReloadValue div 2
      then do {
        kdiv e (PPS_Capture_val - PPSTimer_val_when_Relay_Trig)
          (m_uiRelayTimerInputClock s div 1000000);
        skip }
      else skip);
     (if PPSTimer_val_when_Relay_Trig > PPS_Capture_val \<and>
         PPSTimer_val_when_Relay_Trig - PPS_Capture_val < ReloadValue div 2
      then do {
        kdiv e (PPSTimer_val_when_Relay_Trig - PPS_Capture_val)
          (m_uiRelayTimerInputClock s div 1000000);
        skip }
      else skip);
     (if relay_irq_count s = 10 then do {
        let uidiffpps = (PPSTimer_val_when_Relay_Trig - PPS_Capture_val) +
                        (m_uiRelayTimerInputClock s div 1000000) * 3;
        tmp \<leftarrow> read_relay_counter e;
        kdo e (KTimer (Dm_write_counter (m_pRelayTimerStruct s) (tmp + uidiffpps))) }
      else skip) }"

definition RelayTimerIrqHandler :: "kernel \<Rightarrow> ('a sync_state_scheme, unit) state" where
  "RelayTimerIrqHandler e = do {
     uiPreemptTimerValue \<leftarrow> read_relay_counter e;
     PPS_timer_val \<leftarrow> read_pps_counter e;
     pps \<leftarrow> rd m_pPpsTimerStruct;
     PPS_Capture_val \<leftarrow> omap_dm_timer_read_capture e pps 0 0;
     relay \<leftarrow> rd m_pRelayTimerStruct;
     kdo e (KTimer (Dm_write_status relay OMAP_TIMER_INT_OVERFLOW));
     kdo e (KTimer (Dm_read_status relay));
     relay_second e;
     s \<leftarrow> rd id;
     relay_diff_pps e (PPS_timer_val - (uiPreemptTimerValue - m_uiTimerReloadValue s))
       PPS_Capture_val;
     wr (\<lambda>s. s\<lparr>m_bDataSupplied := 0\<rparr>);
     uiPreemptMicroSeconds \<leftarrow> kdiv e (uiPreemptTimerValue - m_uiTimerReloadValue s)
       (m_uiRelayTimerInputClock s div 1000000);
     store_preemption_time e uiPreemptMicroSeconds;
     wr (\<lambda>s. s\<lparr>relay_irq_count := relay_irq_count s + 1\<rparr>) }"

section \<open>The pulse of the GPS\<close>

text \<open>The position the driver starts from, with the two \<open>double\<close> constants 4709.37471 and
  138.29279 as bit patterns.\<close>

definition initial_official_data :: GpsData where
  "initial_official_data = \<lparr>oTimeTTimeInSeconds = 1340982288,
     dLatitude = 0x40B2655FECFE9B7C, dLongitude = 0x4061495E89225311,
     cLatitudeRef = 0x4E, cLongitudeRef = 0x57, iQuality = 0, uiNbSat = 0\<rparr>"

definition pps_initialization :: "kernel \<Rightarrow> ('a sync_state_scheme, unit) state" where
  "pps_initialization e = do {
     SetGpsStatus e 1;
     wr (\<lambda>s. s\<lparr>m_uiRelayTimerLeftTime := m_uiGpsTimeToOff s,
               m_uiTimerDriftCounter := 0,
               m_uiLastUsedTimerErrorValueTableCase := 0,
               m_oGpsOfficialData := GpsData_zero,
               m_oGpsTemporaryData := GpsData_zero,
               m_iPpsTimerErrorValueTable := replicate QUARTZ_DRIFT_NUMBER 0\<rparr>);
     wr (\<lambda>s. s\<lparr>m_oGpsOfficialData := initial_official_data\<rparr>);
     go_to STATE_Wait_for_Gps_Fixed }"

definition upload_supplied_data :: "('a sync_state_scheme, unit) state" where
  "upload_supplied_data = wr (\<lambda>s.
     if m_bDataSupplied s = 1 then s\<lparr>m_oGpsOfficialData := m_oGpsTemporaryData s\<rparr> else s)"

definition pps_wait_for_gps_fixed :: "kernel \<Rightarrow> u32 \<Rightarrow> ('a sync_state_scheme, unit) state" where
  "pps_wait_for_gps_fixed e uiCaptureTimerValue = do {
     upload_supplied_data;
     ComputeAndAddQuartzError e uiCaptureTimerValue;
     n \<leftarrow> rd m_uiTimerDriftCounter;
     (if 16 \<le> n then go_to STATE_Gps_Fixed else go_to STATE_Wait_for_Gps_Fixed) }"

definition arm_relay_timer :: "kernel \<Rightarrow> u32 \<Rightarrow> ('a sync_state_scheme, unit) state" where
  "arm_relay_timer e uiCaptureTimerValue = do {
     relay \<leftarrow> rd m_pRelayTimerStruct;
     kdo e (KTimer (Dm_set_pwm relay 1 1 OMAP_TIMER_TRIGGER_OVERFLOW));
     read_pps_counter e;
     wr (\<lambda>s. s\<lparr>m_uiTimerReloadValue :=
                 0xFFFFFFFF - ((uiCaptureTimerValue - m_uiLastTimerValue s) - 1)\<rparr>);
     reload \<leftarrow> rd m_uiTimerReloadValue;
     kdo e (KTimer (Dm_set_load_start relay 1 reload));
     wr (\<lambda>s. s\<lparr>m_uiRelayTimerLeftTime := m_uiGpsTimeToOff s\<rparr>);
     go_to STATE_Switch_Gps_to_Off }"

definition pps_gps_fixed :: "kernel \<Rightarrow> u32 \<Rightarrow> ('a sync_state_scheme, unit) state" where
  "pps_gps_fixed e uiCaptureTimerValue = do {
     upload_supplied_data;
     ComputeAndAddQuartzError e uiCaptureTimerValue;
     average \<leftarrow> GetAverageQuartzError;
     clock \<leftarrow> rd m_uiPpsTimerInputClock;
     ppm \<leftarrow> kdiv e (average * 1000000) clock;
     wr (\<lambda>s. s\<lparr>m_iAverageTimerErrorValue := ppm\<rparr>);
     s \<leftarrow> rd id;
     (if m_uiTimerDriftCounter s < 16 then go_to STATE_Wait_for_Gps_Fixed
      else if m_uiDriverRunningMode s = MODE3 \<and>
              m_uiPpsTimerInputClock s = m_uiRelayTimerInputClock s
      then arm_relay_timer e uiCaptureTimerValue
      else go_to STATE_Gps_Fixed) }"

definition pps_switch_gps_to_off :: "kernel \<Rightarrow> ('a sync_state_scheme, unit) state" where
  "pps_switch_gps_to_off e = do {
     SetGpsStatus e 0;
     SecondIncrements 1;
     wr (\<lambda>s. s\<lparr>m_bDataSupplied := 0\<rparr>);
     unlock_read e 1;
     go_to STATE_Gps_Off }"

definition pps_state_machine :: "kernel \<Rightarrow> u32 \<Rightarrow> ('a sync_state_scheme, unit) state" where
  "pps_state_machine e uiCaptureTimerValue = do {
     st \<leftarrow> rd m_DriverCurrentState;
     (case st of
        STATE_Initialization \<Rightarrow> pps_initialization e
      | STATE_Wait_for_Gps_Fixed \<Rightarrow> pps_wait_for_gps_fixed e uiCaptureTimerValue
      | STATE_Gps_Fixed \<Rightarrow> pps_gps_fixed e uiCaptureTimerValue
      | STATE_Switch_Gps_to_Off \<Rightarrow> pps_switch_gps_to_off e
      | STATE_Gps_Off \<Rightarrow> go_to STATE_Gps_Off
      | STATE_Unknown n \<Rightarrow> go_to STATE_Initialization) }"

definition pps_epilogue :: "kernel \<Rightarrow> u32 \<Rightarrow> u32 \<Rightarrow> ('a sync_state_scheme, unit) state" where
  "pps_epilogue e uiCaptureTimerValue uiPreemptTimerValue = do {
     wr (\<lambda>s. s\<lparr>m_uiLastTimerValue := uiCaptureTimerValue\<rparr>);
     wr (\<lambda>s. s\<lparr>m_uioldLastTimerValue := m_uiLastTimerValue s\<rparr>);
     wr (\<lambda>s. s\<lparr>m_bDataSupplied := 0\<rparr>);
     unlock_read e 1;
     s \<leftarrow> rd id;
     uiPreemptMicroSeconds \<leftarrow> kdiv e (uiPreemptTimerValue - m_uiLastTimerValue s)
       (m_uiPpsTimerInputClock s div 1000000);
     store_preemption_time e uiPreemptMicroSeconds }"

definition PpsTimerIrqHandler :: "kernel \<Rightarrow> ('a sync_state_scheme, unit) state" where
  "PpsTimerIrqHandler e = do {
     uiPreemptTimerValue \<leftarrow> read_pps_counter e;
     pps \<leftarrow> rd m_pPpsTimerStruct;
     uiCaptureTimerValue \<leftarrow> omap_dm_timer_read_capture e pps 0 1;
     pps_state_machine e uiCaptureTimerValue;
     pps_epilogue e uiCaptureTimerValue uiPreemptTimerValue }"

section \<open>Facts\<close>

abbreviation preempt_table :: "'a sync_state_scheme \<Rightarrow> u32 list \<times> u32" where
  "preempt_table s \<equiv> (m_iPreemptTimeValueTable s, m_uiLastUsedPreemptTimeValueTableCase s)"

lemma run_store_preemption_time:
  assumes "ring_ok 32 (preempt_table s)"
  shows "run_state (store_preemption_time e v) s =
    ((), let b = push32 32 (preempt_table s) v
         in s\<lparr>m_iPreemptTimeValueTable := fst b,
              m_uiLastUsedPreemptTimeValueTableCase := snd b\<rparr>)"
  using assms by (simp add: store_preemption_time_def ring_push_push32 case_prod_beta Let_def)

end
