(* ===== verification/Sync_Fops.thy ===== *)
theory Sync_Fops
  imports Sync_Irq
begin

text \<open>
  What user space and the other drivers see of the synchronization driver (lines 280 to 351, 527
  to 563 and 944 to 1290 of \<open>ifsttar-synchronization-drv.c\<close>): the page in \<open>/proc\<close>, the thread that
  watches the seconds, the exported date, and the file operations. A blocking read is two
  definitions, up to the place where it sleeps and after it; \<open>copy_from_user\<close> leaves what the
  caller of the model passes as \<open>user_gps\<close>, even when it reports a failure.
\<close>

section \<open>Formatting\<close>

fun dec :: "nat \<Rightarrow> string" where
  "dec n = (if n < 10 then [char_of (48 + n)] else dec (n div 10) @ [char_of (48 + n mod 10)])"

declare dec.simps [simp del]

definition pad :: "nat \<Rightarrow> string \<Rightarrow> string" where
  "pad w s = replicate (w - length s) CHR '' '' @ s"

text \<open>\<open>%wd\<close> of a signed integer.\<close>

definition percent_d :: "nat \<Rightarrow> int \<Rightarrow> string" where
  "percent_d w i = pad w (if i < 0 then CHR ''-'' # dec (nat (- i)) else dec (nat i))"

section \<open>The page in \<open>/proc\<close>\<close>

definition preempt_line :: "u32 list \<Rightarrow> int \<Rightarrow> string option" where
  "preempt_line tab i =
     (if 0 \<le> i \<and> nat i < length tab
      then Some (CHR 0x09 # ''Value '' @ percent_d 3 (i + 1) @ '' : '' @
                 percent_d 4 (sint (tab ! nat i)) @ '' micro-seconds'' @ [CHR 0x0A])
      else None)"

fun preempt_lines :: "u32 list \<Rightarrow> int list \<Rightarrow> string option" where
  "preempt_lines tab [] = Some []"
| "preempt_lines tab (i # is) =
     (case preempt_line tab i of None \<Rightarrow> None
      | Some l \<Rightarrow> (case preempt_lines tab is of None \<Rightarrow> None | Some ls \<Rightarrow> Some (l @ ls)))"

text \<open>The indices in the order of the two loops; \<open>i\<close> is a \<open>short\<close>.\<close>

definition preempt_indices :: "u32 \<Rightarrow> int list" where
  "preempt_indices c = rev [0..sint (ucast (c - 1) :: 16 word)] @ rev [sint c..31]"

definition SynchronizationPreemptionTimeOutput :: "'a sync_state_scheme \<Rightarrow> string option" where
  "SynchronizationPreemptionTimeOutput s =
     (case preempt_lines (m_iPreemptTimeValueTable s)
             (preempt_indices (m_uiLastUsedPreemptTimeValueTableCase s)) of
        None \<Rightarrow> None
      | Some ls \<Rightarrow>
          Some (CHR 0x0A # ''Preemption Time array : ('' @ dec PREEMPTION_TIME_VALUE_NUMBER @
                '' values, last value on the top)'' @ [CHR 0x0A, CHR 0x0A] @ ls @
                [CHR 0x0A, CHR 0x0A]))"

record proc_answer =
  pa_page :: string
  pa_start :: u32
  pa_eof :: u32
  pa_len :: u32

definition SynchronizationPreemptionTimeRead ::
    "'a sync_state_scheme \<Rightarrow> u32 \<Rightarrow> u32 \<Rightarrow> u32 \<Rightarrow> proc_answer option" where
  "SynchronizationPreemptionTimeRead s off count eof =
     (case SynchronizationPreemptionTimeOutput s of
        None \<Rightarrow> None
      | Some page \<Rightarrow>
          let len = word_of_nat (length page);
              eof' = (if len <=s off + count then 1 else eof);
              len = len - off;
              len = (if count <s len then count else len);
              len = (if len <s 0 then 0 else len)
          in Some \<lparr>pa_page = page, pa_start = off, pa_eof = eof', pa_len = len\<rparr>)"

section \<open>The thread that watches the seconds\<close>

text \<open>Where the thread sleeps; \<open>Watching p\<close> is the sleep of 800 ms with \<open>p\<close> the second seen
  before.\<close>

datatype check_thread = Awaiting_data | Watching u32 | Stopped

definition check_loop :: "kernel \<Rightarrow> u32 \<Rightarrow> ('a sync_state_scheme, check_thread) state" where
  "check_loop e uiPreviousSecond = do {
     stop \<leftarrow> kcall e (KSched Kthread_should_stop);
     (if stop = 0
      then do { kdo e (KSched (Msleep 800)); ret (Watching uiPreviousSecond) }
      else ret Stopped) }"

definition check_data_supplied :: "kernel \<Rightarrow> ('a sync_state_scheme, check_thread) state" where
  "check_data_supplied e = do {
     kdo e (KSched Kthread_should_stop);
     check_loop e 0 }"

definition SecondsIncrementsVerificationFunction ::
    "kernel \<Rightarrow> check_thread \<Rightarrow> ('a sync_state_scheme, check_thread) state" where
  "SecondsIncrementsVerificationFunction e pc = (case pc of
     Awaiting_data \<Rightarrow> do {
       supplied \<leftarrow> rd m_bDataSupplied;
       (if supplied = 0 then do {
          stop \<leftarrow> kcall e (KSched Kthread_should_stop);
          (if stop = 0
           then do { kdo e (KSched (Msleep 50)); ret Awaiting_data }
           else check_data_supplied e) }
        else check_data_supplied e) }
   | Watching uiPreviousSecond \<Rightarrow> do {
       g \<leftarrow> rd m_oGpsOfficialData;
       let uiCurrentSecond = oTimeTTimeInSeconds g;
       (if uiCurrentSecond < uiPreviousSecond \<and> uiCurrentSecond - uiPreviousSecond < 1
        then kdo e (KDev (Printk_synchronization_error uiPreviousSecond uiCurrentSecond))
        else skip);
       check_loop e uiCurrentSecond }
   | Stopped \<Rightarrow> ret Stopped)"

section \<open>The exported date\<close>

definition EXPORT_GD_DATA_FROM_SYNCHONIZATION_DRIVER ::
    "kernel \<Rightarrow> ('a sync_state_scheme, GeoDatationData) state" where
  "EXPORT_GD_DATA_FROM_SYNCHONIZATION_DRIVER e = do {
     mode \<leftarrow> rd m_uiDriverRunningMode;
     st \<leftarrow> rd m_DriverCurrentState;
     uiCurrentMicroSeconds \<leftarrow>
       (if mode = MODE1 then ComputeMicroSecond e CAPTURE_TIMER_ID
        else if mode = MODE2 then ComputeMicroSecond e CAPTURE_TIMER_ID
        else if mode = MODE3 then
          (if st = STATE_Gps_Off then ComputeMicroSecond e RELAY_TIMER_ID
           else ComputeMicroSecond e CAPTURE_TIMER_ID)
        else ret 0);
     s \<leftarrow> rd id;
     ret (GeoDatationData_zero\<lparr>
       oData := m_oGpsOfficialData s,
       uiMicroSecond := uiCurrentMicroSeconds,
       iQuartzError := m_iAverageTimerErrorValue s,
       iDriverMode := m_uiDriverRunningMode s\<rparr>) }"

section \<open>File operations\<close>

definition Synchronization_open :: "('a sync_state_scheme, u32) state" where
  "Synchronization_open = ret 0"

definition Synchronization_close :: "('a sync_state_scheme, u32) state" where
  "Synchronization_close = ret 0"

definition Synchronization_write :: "u32 \<Rightarrow> ('a sync_state_scheme, u32) state" where
  "Synchronization_write sz = ret 0"

definition sPpsDetected :: string where
  "sPpsDetected = ''Pps detected''"

definition sPpsSimulated :: string where
  "sPpsSimulated = ''Pps simulated''"

datatype read_result = Sleeping | Returned u32

definition sync_send :: "kernel \<Rightarrow> u32 \<Rightarrow> string \<Rightarrow> ('a sync_state_scheme, u32) state" where
  "sync_send e buf str = do {
     kcall e (KUser (Copy_to_user buf (Text str) (word_of_nat (length str + 1))));
     wr (\<lambda>s. s\<lparr>m_uiReadKind := 0\<rparr>);
     ret (word_of_nat (length str + 1)) }"

definition sync_read_unlocked ::
    "kernel \<Rightarrow> u32 \<Rightarrow> ('a sync_state_scheme, read_result) state" where
  "sync_read_unlocked e buf = do {
     wr (\<lambda>s. if m_bReadDone s = 1 then s\<lparr>m_bReadDone := 0\<rparr> else s);
     kind \<leftarrow> rd m_uiReadKind;
     n \<leftarrow> (if kind = 1 then sync_send e buf sPpsDetected
          else if kind = 2 then sync_send e buf sPpsSimulated
          else ret 0);
     ret (Returned n) }"

definition Synchronization_read ::
    "kernel \<Rightarrow> u32 \<Rightarrow> u32 \<Rightarrow> ('a sync_state_scheme, read_result) state" where
  "Synchronization_read e buf sz = do {
     done \<leftarrow> rd m_bReadDone;
     (if done = 0
      then do { kdo e (KSched (Interruptible_sleep_on Sync_Read_wait)); ret Sleeping }
      else sync_read_unlocked e buf) }"

definition Synchronization_read_woken ::
    "kernel \<Rightarrow> u32 \<Rightarrow> ('a sync_state_scheme, read_result) state" where
  "Synchronization_read_woken e buf = do {
     pending \<leftarrow> kcall e (KSched Signal_pending);
     (if pending \<noteq> 0 then ret (Returned (- EINTR)) else sync_read_unlocked e buf) }"

definition Synchronization_poll :: "kernel \<Rightarrow> ('a sync_state_scheme, u32) state" where
  "Synchronization_poll e = do {
     kdo e (KSched (Poll_wait Sync_Read_wait));
     done \<leftarrow> rd m_bReadDone;
     ret (if done = 1 then POLLIN OR POLLRDNORM else 0) }"

text \<open>\<open>*((unsigned int *)arg) = v\<close>, then the \<open>return 0\<close> after the \<open>switch\<close>.\<close>

definition put_user :: "kernel \<Rightarrow> u32 \<Rightarrow> u32 \<Rightarrow> ('a kstate_scheme, u32) state" where
  "put_user e arg v = do { kdo e (KUser (Put_user arg v)); ret 0 }"

definition sync_ioctl_get_official ::
    "kernel \<Rightarrow> u32 \<Rightarrow> ('a sync_state_scheme, u32) state" where
  "sync_ioctl_get_official e arg = do {
     gd \<leftarrow> EXPORT_GD_DATA_FROM_SYNCHONIZATION_DRIVER e;
     iRet \<leftarrow> kcall e (KUser (Copy_to_user arg (GdData gd) sizeof_GeoDatationData));
     ret (if iRet \<noteq> 0 then sync_err ERR_SYNCHRONIZATION_IOCTL_COPY_OFFICIAL_GDDATA_TO_USER
          else 0) }"

definition sync_ioctl_set_temporary ::
    "kernel \<Rightarrow> u32 \<Rightarrow> GpsData \<Rightarrow> ('a sync_state_scheme, u32) state" where
  "sync_ioctl_set_temporary e arg user_gps = do {
     iRet \<leftarrow> kcall e (KUser (Copy_from_user arg sizeof_GpsData));
     wr (\<lambda>s. s\<lparr>m_oGpsTemporaryData := user_gps\<rparr>);
     (if iRet \<noteq> 0
      then ret (sync_err ERR_SYNCHRONIZATION_IOCTL_COPY_TEMPORARY_GPSDATA_FROM_USER)
      else do { wr (\<lambda>s. s\<lparr>m_bDataSupplied := 1\<rparr>); ret 0 }) }"

definition sync_ioctl_set_mode :: "u32 \<Rightarrow> ('a sync_state_scheme, u32) state" where
  "sync_ioctl_set_mode arg =
     (if arg < MODE1 \<and> arg > MODE3 then ret (sync_err ERR_SYNCHRONIZATION_IOCTL_SPECIFIED_MODE)
      else do { wr (\<lambda>s. s\<lparr>m_uiDriverRunningMode := arg\<rparr>); ret 0 })"

definition sync_ioctl_set_off_time :: "u32 \<Rightarrow> ('a sync_state_scheme, u32) state" where
  "sync_ioctl_set_off_time arg =
     (if arg > GPS_MAXIMUM_OFF_TIME
      then ret (sync_err ERR_SYNCHRONIZATION_IOCTL_SPECIFIED_GPS_OFF_TIME)
      else do { wr (\<lambda>s. s\<lparr>m_uiGpsTimeToOff := arg * 60\<rparr>); ret 0 })"

definition Synchronization_ioctl ::
    "kernel \<Rightarrow> u32 \<Rightarrow> u32 \<Rightarrow> GpsData \<Rightarrow> ('a sync_state_scheme, u32) state" where
  "Synchronization_ioctl e cmd arg user_gps = do {
     s \<leftarrow> rd id;
     (if cmd = SYNC_IOCTL_GET_OFFICIAL_GD_DATA then sync_ioctl_get_official e arg
      else if cmd = SYNC_IOCTL_GET_DRIVER_MODE then put_user e arg (m_uiDriverRunningMode s)
      else if cmd = SYNC_IOCTL_GET_DRIVER_STATE
        then put_user e arg (state_code (m_DriverCurrentState s))
      else if cmd = SYNC_IOCTL_GET_GPS_STATUS then put_user e arg (m_bGpsStatus s)
      else if cmd = SYNC_IOCTL_GET_TIME_SINCE_GPS_OFF
        then put_user e arg (if m_bGpsStatus s = 0
               then m_uiGpsTimeToOff s - m_uiRelayTimerLeftTime s else 0)
      else if cmd = SYNC_IOCTL_GET_GPS_OFF_TIME then put_user e arg (m_uiGpsTimeToOff s div 60)
      else if cmd = SYNC_IOCTL_GET_TEMPERATURE then put_user e arg 32
      else if cmd = SYNC_IOCTL_GET_CAPTURE_TIMER_CLOCK
        then put_user e arg (m_uiPpsTimerInputClock s)
      else if cmd = SYNC_IOCTL_GET_RELAY_TIMER_CLOCK
        then put_user e arg (m_uiRelayTimerInputClock s)
      else if cmd = SYNC_IOCTL_SET_TEMPORARY_GPS_DATA
        then sync_ioctl_set_temporary e arg user_gps
      else if cmd = SYNC_IOCTL_SET_DRIVER_MODE then sync_ioctl_set_mode arg
      else if cmd = SYNC_IOCTL_SET_GPS_OFF_TIME then sync_ioctl_set_off_time arg
      else ret (sync_err ERR_SYNCHRONIZATION_IOCTL_SPECIFIED_IOCTL_COMMAND)) }"

end
