(* ===== verification/Sync_Setup.thy ===== *)
theory Sync_Setup
  imports Sync_Fops
begin

text \<open>
  Insertion and removal of the synchronization driver (lines 1320 to 1839 of
  \<open>ifsttar-synchronization-drv.c\<close>). A \<open>goto\<close> label of the exit shortcuts is a definition that does
  what follows the label. The thread's pointer is never checked: waking or stopping a thread that
  could not be created uses an error pointer.
\<close>

section \<open>Pin multiplexing\<close>

definition restore_register :: "kernel \<Rightarrow> u32 \<Rightarrow> u32 \<Rightarrow> ('a kstate_scheme, unit) state" where
  "restore_register e regaddr previous = do {
     addr \<leftarrow> kcall e (KIo (Ioremap regaddr 2));
     (if addr \<noteq> 0 then do {
        v \<leftarrow> kcall e (KIo (Ioread16 addr));
        (if v \<noteq> previous then kdo e (KIo (Iowrite16 (ucast previous) addr)) else skip);
        kdo e (KIo (Iounmap addr)) }
      else skip) }"

definition mux_pps_pin :: "kernel \<Rightarrow> nat \<Rightarrow> ('a sync_state_scheme, u32 option) state" where
  "mux_pps_pin e iCpt = do {
     addr \<leftarrow> kcall e (KIo (Ioremap (m_uiPpsTimerRegisterAddress ! iCpt) 2));
     (if addr = 0
      then ret (Some (sync_err ERR_SYNCHRONIZATION_PPSTIMERCONFIGURATION_MUX_REQUEST))
      else do {
        v \<leftarrow> kcall e (KIo (Ioread16 addr));
        wr (\<lambda>s. s\<lparr>m_uiPpsTimerPreviousMode := (m_uiPpsTimerPreviousMode s)[iCpt := v]\<rparr>);
        kdo e (KIo (Iowrite16 (if iCpt = 0 then 0xC102 else 0x010F) addr));
        kdo e (KIo (Iounmap addr));
        ret None }) }"

definition restore_pps_pin :: "kernel \<Rightarrow> nat \<Rightarrow> ('a sync_state_scheme, unit) state" where
  "restore_pps_pin e iCpt = do {
     previous \<leftarrow> rd m_uiPpsTimerPreviousMode;
     restore_register e (m_uiPpsTimerRegisterAddress ! iCpt) (previous ! iCpt) }"

section \<open>The capture timer\<close>

definition out_pps_timer_unmux :: "kernel \<Rightarrow> u32 \<Rightarrow> ('a sync_state_scheme, u32) state" where
  "out_pps_timer_unmux e iRet = do {
     do_each [0..<TIMER_MUX_PINS_NB] (restore_pps_pin e);
     ret iRet }"

definition out_pps_timer_free :: "kernel \<Rightarrow> u32 \<Rightarrow> ('a sync_state_scheme, u32) state" where
  "out_pps_timer_free e iRet = do {
     pps \<leftarrow> rd m_pPpsTimerStruct;
     kdo e (KTimer (Dm_free pps));
     out_pps_timer_unmux e iRet }"

definition out_pps_timer_unconfigure :: "kernel \<Rightarrow> u32 \<Rightarrow> ('a sync_state_scheme, u32) state" where
  "out_pps_timer_unconfigure e iRet = do {
     pps \<leftarrow> rd m_pPpsTimerStruct;
     kdo e (KTimer (Dm_set_int_enable pps OMAP_TIMER_INT_NONE));
     out_pps_timer_free e iRet }"

definition pps_timer_interrupt :: "kernel \<Rightarrow> u32 \<Rightarrow> ('a sync_state_scheme, u32) state" where
  "pps_timer_interrupt e pps = do {
     iRet \<leftarrow> kcall e (KTimer (Dm_set_int_enable pps OMAP_TIMER_INT_NONE));
     (if iRet <s 0 then out_pps_timer_unconfigure e
        (sync_err ERR_SYNCHRONIZATION_PPSTIMERCONFIGURATION_TIMER_CLEAR_INT)
      else do {
        irq \<leftarrow> kcall e (KTimer (Dm_get_irq pps));
        iRet \<leftarrow> kcall e (KIrq (Request_irq irq PpsTimer_irq
                 (k_IRQF_DISABLED e OR k_IRQF_TIMER e) m_uiPpsTimerNumber));
        (if iRet \<noteq> 0 then out_pps_timer_unconfigure e
           (sync_err ERR_SYNCHRONIZATION_PPSTIMERCONFIGURATION_REQUEST_IRQ)
         else do {
           kdo e (KTimer (Dm_set_int_enable pps OMAP_TIMER_INT_CAPTURE));
           (if iRet <s 0 then out_pps_timer_unconfigure e
              (sync_err ERR_SYNCHRONIZATION_PPSTIMERCONFIGURATION_TIMER_SET_INT)
            else ret iRet) }) }) }"

definition pps_timer_setup :: "kernel \<Rightarrow> ('a sync_state_scheme, u32) state" where
  "pps_timer_setup e = do {
     pps \<leftarrow> rd m_pPpsTimerStruct;
     bad \<leftarrow> kcall e (KTimer (Dm_set_source pps OMAP_TIMER_SRC_SYS_CLK));
     (if bad \<noteq> 0 then out_pps_timer_free e
        (sync_err ERR_SYNCHRONIZATION_PPSTIMERCONFIGURATION_TIMER_SET_SRC_CLK)
      else do {
        fclk \<leftarrow> kcall e (KTimer (Dm_get_fclk pps));
        (if fclk = 0 then out_pps_timer_free e
           (sync_err ERR_SYNCHRONIZATION_PPSTIMERCONFIGURATION_TIMER_GET_SRC_CLK)
         else do {
           rate \<leftarrow> kcall e (KTimer (Clk_get_rate fclk));
           wr (\<lambda>s. s\<lparr>m_uiPpsTimerInputClock := rate\<rparr>);
           iRet \<leftarrow> omap_dm_timer_set_capture e pps 0 IRQF_TRIGGER_RISING;
           (if iRet <s 0 then out_pps_timer_free e
              (sync_err ERR_SYNCHRONIZATION_PPSTIMERCONFIGURATION_TIMER_SET_CAPTURE)
            else do {
              iRet \<leftarrow> kcall e (KTimer (Dm_set_load pps 1 0));
              (if iRet <s 0 then out_pps_timer_free e
                 (sync_err ERR_SYNCHRONIZATION_PPSTIMERCONFIGURATION_TIMER_SET_LOAD)
               else pps_timer_interrupt e pps) }) }) }) }"

definition PpsTimerConfiguration :: "kernel \<Rightarrow> ('a sync_state_scheme, u32) state" where
  "PpsTimerConfiguration e = do {
     failed \<leftarrow> for_each [0..<TIMER_MUX_PINS_NB] (mux_pps_pin e);
     (case failed of
        Some iRet \<Rightarrow> ret iRet
      | None \<Rightarrow> do {
          pps \<leftarrow> kcall e (KTimer (Dm_request_specific m_uiPpsTimerNumber));
          wr (\<lambda>s. s\<lparr>m_pPpsTimerStruct := pps\<rparr>);
          (if pps = 0 then out_pps_timer_unmux e
             (sync_err ERR_SYNCHRONIZATION_PPSTIMERCONFIGURATION_TIMER_REQUEST)
           else pps_timer_setup e) }) }"

section \<open>The relay timer\<close>

definition out_relay_timer_free :: "kernel \<Rightarrow> u32 \<Rightarrow> ('a sync_state_scheme, u32) state" where
  "out_relay_timer_free e iRet = do {
     relay \<leftarrow> rd m_pRelayTimerStruct;
     kdo e (KTimer (Dm_free relay));
     ret iRet }"

definition out_relay_timer_unconfigure ::
    "kernel \<Rightarrow> u32 \<Rightarrow> ('a sync_state_scheme, u32) state" where
  "out_relay_timer_unconfigure e iRet = do {
     relay \<leftarrow> rd m_pRelayTimerStruct;
     kdo e (KTimer (Dm_set_int_enable relay OMAP_TIMER_INT_NONE));
     out_relay_timer_free e iRet }"

definition relay_timer_interrupt :: "kernel \<Rightarrow> u32 \<Rightarrow> ('a sync_state_scheme, u32) state" where
  "relay_timer_interrupt e relay = do {
     iRet \<leftarrow> kcall e (KTimer (Dm_set_int_enable relay OMAP_TIMER_INT_NONE));
     (if iRet <s 0 then out_relay_timer_unconfigure e
        (sync_err ERR_SYNCHRONIZATION_RELAYTIMERCONFIGURATION_TIMER_CLEAR_INT)
      else do {
        irq \<leftarrow> kcall e (KTimer (Dm_get_irq relay));
        iRet \<leftarrow> kcall e (KIrq (Request_irq irq RelayTimer_irq
                 (k_IRQF_DISABLED e OR k_IRQF_TIMER e) m_uiRelayTimerNumber));
        (if iRet \<noteq> 0 then out_relay_timer_unconfigure e
           (sync_err ERR_SYNCHRONIZATION_RELAYTIMERCONFIGURATION_REQUEST_IRQ)
         else do {
           iRet \<leftarrow> kcall e (KTimer (Dm_set_int_enable relay OMAP_TIMER_INT_OVERFLOW));
           (if iRet <s 0 then out_relay_timer_unconfigure e
              (sync_err ERR_SYNCHRONIZATION_RELAYTIMERCONFIGURATION_TIMER_SET_INT)
            else ret iRet) }) }) }"

definition relay_timer_setup :: "kernel \<Rightarrow> ('a sync_state_scheme, u32) state" where
  "relay_timer_setup e = do {
     relay \<leftarrow> rd m_pRelayTimerStruct;
     bad \<leftarrow> kcall e (KTimer (Dm_set_source relay OMAP_TIMER_SRC_SYS_CLK));
     (if bad \<noteq> 0 then out_relay_timer_free e
        (sync_err ERR_SYNCHRONIZATION_RELAYTIMERCONFIGURATION_TIMER_SET_SRC_CLK)
      else do {
        fclk \<leftarrow> kcall e (KTimer (Dm_get_fclk relay));
        (if fclk = 0 then out_relay_timer_free e
           (sync_err ERR_SYNCHRONIZATION_RELAYTIMERCONFIGURATION_TIMER_GET_SRC_CLK)
         else do {
           rate \<leftarrow> kcall e (KTimer (Clk_get_rate fclk));
           wr (\<lambda>s. s\<lparr>m_uiRelayTimerInputClock := rate\<rparr>);
           relay_timer_interrupt e relay }) }) }"

definition RelayTimerConfiguration :: "kernel \<Rightarrow> ('a sync_state_scheme, u32) state" where
  "RelayTimerConfiguration e = do {
     addr \<leftarrow> kcall e (KIo (Ioremap 0x48002178 2));
     (if addr = 0 then ret (sync_err ERR_SYNCHRONIZATION_PPSTIMERCONFIGURATION_MUX_REQUEST)
      else do {
        kdo e (KIo (Iowrite16 0x0002 addr));
        kdo e (KIo (Iounmap addr));
        relay \<leftarrow> kcall e (KTimer (Dm_request_specific m_uiRelayTimerNumber));
        wr (\<lambda>s. s\<lparr>m_pRelayTimerStruct := relay\<rparr>);
        (if relay = 0
         then ret (sync_err ERR_SYNCHRONIZATION_RELAYTIMERCONFIGURATION_TIMER_REQUEST)
         else relay_timer_setup e) }) }"

section \<open>The line that switches the GPS\<close>

definition restore_shutdown_pin :: "kernel \<Rightarrow> ('a sync_state_scheme, unit) state" where
  "restore_shutdown_pin e = do {
     previous \<leftarrow> rd m_uiGpsShutdownGpioPreviousMode;
     restore_register e m_uiGpsShutdownGpioRegisterAddress previous }"

definition out_gpio_unmux :: "kernel \<Rightarrow> u32 \<Rightarrow> ('a sync_state_scheme, u32) state" where
  "out_gpio_unmux e iRet = do { restore_shutdown_pin e; ret iRet }"

definition out_gpio_free :: "kernel \<Rightarrow> u32 \<Rightarrow> ('a sync_state_scheme, u32) state" where
  "out_gpio_free e iRet = do {
     kdo e (KGpio (Gpio_free m_uiGpsShutdownGpioNumber));
     out_gpio_unmux e iRet }"

definition GpsSoftwareShutdownGpioConfiguration ::
    "kernel \<Rightarrow> ('a sync_state_scheme, u32) state" where
  "GpsSoftwareShutdownGpioConfiguration e = do {
     addr \<leftarrow> kcall e (KIo (Ioremap m_uiGpsShutdownGpioRegisterAddress 2));
     (if addr = 0
      then ret (sync_err ERR_SYNCHRONIZATION_GPSSHUTDOWNGPIOCONFIGURATION_MUX_REQUEST)
      else do {
        v \<leftarrow> kcall e (KIo (Ioread16 addr));
        wr (\<lambda>s. s\<lparr>m_uiGpsShutdownGpioPreviousMode := v\<rparr>);
        kdo e (KIo (Iowrite16 0x010C addr));
        kdo e (KIo (Iounmap addr));
        iRet \<leftarrow> kcall e (KGpio (Gpio_request m_uiGpsShutdownGpioNumber
                 ''Gps Software Shutdown Gpio''));
        (if iRet <s 0 then out_gpio_unmux e
           (sync_err ERR_SYNCHRONIZATION_GPSSHUTDOWNGPIOCONFIGURATION_GPIO_REQUEST)
         else do {
           iRet \<leftarrow> kcall e (KGpio (Gpio_direction_output m_uiGpsShutdownGpioNumber 1));
           (if iRet <s 0 then out_gpio_free e
              (sync_err ERR_SYNCHRONIZATION_GPSSHUTDOWNGPIOCONFIGURATION_GPIO_SET_DIRECTION)
            else ret iRet) }) }) }"

section \<open>Insertion\<close>

definition DRV_PROC_PREEMPT_ENTRY :: string where
  "DRV_PROC_PREEMPT_ENTRY = ''ifsttar-synchronization-drv-preemption-time''"

definition DRV_SYS_NAME :: string where
  "DRV_SYS_NAME = ''ifsttar-synchronization-drv''"

definition DRV_DEV_NAME :: string where
  "DRV_DEV_NAME = ''synchronization''"

definition out_unregister :: "kernel \<Rightarrow> u32 \<Rightarrow> ('a sync_state_scheme, u32) state" where
  "out_unregister e iRet = do {
     dev \<leftarrow> rd m_oSynchronizationDev;
     kdo e (KDev (Unregister_chrdev_region dev 1));
     ret iRet }"

definition out_cdev_del :: "kernel \<Rightarrow> u32 \<Rightarrow> ('a sync_state_scheme, u32) state" where
  "out_cdev_del e iRet = do {
     kdo e (KDev Cdev_del);
     out_unregister e iRet }"

definition synchronization_node :: "kernel \<Rightarrow> ('a sync_state_scheme, u32) state" where
  "synchronization_node e =
     rd (\<lambda>s. k_MKDEV e (m_uiSynchronizationMajor s) (m_uiSynchronizationMinor s))"

definition out_device_del :: "kernel \<Rightarrow> u32 \<Rightarrow> ('a sync_state_scheme, u32) state" where
  "out_device_del e iRet = do {
     class \<leftarrow> rd m_pSynchronizationClass;
     node \<leftarrow> synchronization_node e;
     kdo e (KDev (Device_destroy class node));
     out_cdev_del e iRet }"

definition out_proc_del :: "kernel \<Rightarrow> u32 \<Rightarrow> ('a sync_state_scheme, u32) state" where
  "out_proc_del e iRet = do {
     kdo e (KDev (Remove_proc_entry DRV_PROC_PREEMPT_ENTRY));
     out_device_del e iRet }"

definition sync_start :: "kernel \<Rightarrow> ('a sync_state_scheme, unit) state" where
  "sync_start e = do {
     pps \<leftarrow> rd m_pPpsTimerStruct;
     kdo e (KTimer (Dm_start pps));
     wr (\<lambda>s. s\<lparr>m_DriverCurrentState := STATE_Initialization\<rparr>);
     thread \<leftarrow> kcall e (KSched (Kthread_create ''SecondsIncrementsVerificationThread''));
     wr (\<lambda>s. s\<lparr>SecondsIncrementsVerificationThread := thread\<rparr>);
     launch \<leftarrow> rd m_bThreadLaunching;
     (if launch = 1 then use_pointer e thread (KSched (Wake_up_process thread)) else skip);
     wr (\<lambda>s. s\<lparr>m_uiGpsTimeToOff := 5 * 60\<rparr>);
     wr (\<lambda>s. s\<lparr>m_iPreemptTimeValueTable := replicate PREEMPTION_TIME_VALUE_NUMBER 0\<rparr>);
     SetGpsStatus e 1;
     skip }"

definition sync_configure :: "kernel \<Rightarrow> ('a sync_state_scheme, u32) state" where
  "sync_configure e = do {
     iRet \<leftarrow> RelayTimerConfiguration e;
     (if iRet <s 0 then out_proc_del e iRet
      else do {
        iRet \<leftarrow> GpsSoftwareShutdownGpioConfiguration e;
        (if iRet <s 0 then out_proc_del e iRet
         else do {
           iRet \<leftarrow> PpsTimerConfiguration e;
           (if iRet <s 0 then out_proc_del e iRet
            else do { sync_start e; ret iRet }) }) }) }"

definition sync_create_device :: "kernel \<Rightarrow> ('a sync_state_scheme, u32) state" where
  "sync_create_device e = do {
     class \<leftarrow> kcall e (KDev (Class_create DRV_SYS_NAME));
     wr (\<lambda>s. s\<lparr>m_pSynchronizationClass := class\<rparr>);
     (if k_IS_ERR e class then out_cdev_del e (sync_err ERR_SYNCHRONIZATION_INIT_CLASS_CREATE)
      else do {
        node \<leftarrow> synchronization_node e;
        entry \<leftarrow> kcall e (KDev (Device_create class node DRV_DEV_NAME));
        wr (\<lambda>s. s\<lparr>m_pDeviceEntry := entry\<rparr>);
        (if k_IS_ERR e entry
         then out_cdev_del e (sync_err ERR_SYNCHRONIZATION_INIT_DEVICE_CREATE)
         else do {
           proc \<leftarrow> kcall e (KDev (Create_proc_read_entry DRV_PROC_PREEMPT_ENTRY));
           wr (\<lambda>s. s\<lparr>m_pPreemptProcEntry := proc\<rparr>);
           (if k_IS_ERR e proc
            then out_device_del e (sync_err ERR_SYNCHRONIZATION_INIT_CREATE_PROC_ENTRY)
            else sync_configure e) }) }) }"

definition Synchronization_initialize :: "kernel \<Rightarrow> ('a sync_state_scheme, u32) state" where
  "Synchronization_initialize e = do {
     iRet \<leftarrow> kcall e (KDev (Alloc_chrdev_region 1 DRV_DEV_NAME));
     dev \<leftarrow> kcall e (KDev Allocated_dev);
     wr (\<lambda>s. s\<lparr>m_oSynchronizationDev := dev\<rparr>);
     (if iRet <s 0 then ret (sync_err ERR_SYNCHRONIZATION_INIT_ALLOC_CHRDEV_REGION)
      else do {
        wr (\<lambda>s. s\<lparr>m_uiSynchronizationMajor := k_MAJOR e dev,
                  m_uiSynchronizationMinor := k_MINOR e dev\<rparr>);
        kdo e (KDev Cdev_init);
        iRet \<leftarrow> kcall e (KDev (Cdev_add dev 1));
        (if iRet \<noteq> 0 then out_unregister e (sync_err ERR_SYNCHRONIZATION_INIT_CDEV_ADD)
         else sync_create_device e) }) }"

section \<open>Removal\<close>

definition sync_release_timers :: "kernel \<Rightarrow> ('a sync_state_scheme, unit) state" where
  "sync_release_timers e = do {
     pps \<leftarrow> rd m_pPpsTimerStruct;
     kdo e (KTimer (Dm_stop pps));
     kdo e (KTimer (Dm_free pps));
     irq \<leftarrow> kcall e (KTimer (Dm_get_irq pps));
     kdo e (KIrq (Free_irq irq m_uiPpsTimerNumber));
     do_each [0..<TIMER_MUX_PINS_NB] (restore_pps_pin e);
     st \<leftarrow> rd m_DriverCurrentState;
     relay \<leftarrow> rd m_pRelayTimerStruct;
     (if st = STATE_Gps_Off then kdo e (KTimer (Dm_stop relay)) else skip);
     kdo e (KTimer (Dm_free relay));
     irq \<leftarrow> kcall e (KTimer (Dm_get_irq relay));
     kdo e (KIrq (Free_irq irq m_uiRelayTimerNumber)) }"

definition sync_release_device :: "kernel \<Rightarrow> ('a sync_state_scheme, unit) state" where
  "sync_release_device e = do {
     kdo e (KDev (Remove_proc_entry DRV_PROC_PREEMPT_ENTRY));
     class \<leftarrow> rd m_pSynchronizationClass;
     node \<leftarrow> synchronization_node e;
     kdo e (KDev (Device_destroy class node));
     kdo e (KDev (Class_unregister class));
     kdo e (KDev (Class_destroy class));
     kdo e (KDev Cdev_del);
     dev \<leftarrow> rd m_oSynchronizationDev;
     kdo e (KDev (Unregister_chrdev_region dev 1)) }"

definition Synchronization_cleanup :: "kernel \<Rightarrow> ('a sync_state_scheme, unit) state" where
  "Synchronization_cleanup e = do {
     launch \<leftarrow> rd m_bThreadLaunching;
     thread \<leftarrow> rd SecondsIncrementsVerificationThread;
     (if launch = 1 then use_pointer e thread (KSched (Kthread_stop thread)) else skip);
     sync_release_timers e;
     kdo e (KGpio (Gpio_free m_uiGpsShutdownGpioNumber));
     restore_shutdown_pin e;
     sync_release_device e }"

end
