(* ===== verification/Sync_Inv.thy ===== *)
theory Sync_Inv
  imports Sync_Setup
begin

text \<open>
  The invariant of the synchronization driver's globals, and that every handler of the driver
  keeps it. \<open>sync_ok F\<close> adds that \<open>F\<close> covers the undefined behaviour of the log, and that both timer
  clocks run at 1 MHz at least unless \<open>F\<close> allows divisions by zero, so that one proof gives the
  invariant and the safety of a handler.
\<close>

definition known_state :: "driver_state \<Rightarrow> bool" where
  "known_state st \<longleftrightarrow> st \<in> {STATE_Initialization, STATE_Wait_for_Gps_Fixed, STATE_Gps_Fixed,
     STATE_Switch_Gps_to_Off, STATE_Gps_Off}"

definition sync_inv :: "'a sync_state_scheme \<Rightarrow> bool" where
  "sync_inv s \<longleftrightarrow>
     ring_ok 16 (quartz_table s) \<and> ring_ok 32 (preempt_table s) \<and>
     length (m_uiPpsTimerPreviousMode s) = 3 \<and>
     m_bDataSupplied s \<in> {0, 1} \<and> m_bGpsStatus s \<in> {0, 1} \<and>
     (m_bReadDone s = 1 \<and> m_uiReadKind s \<in> {1, 2} \<or> m_bReadDone s = 0 \<and> m_uiReadKind s = 0) \<and>
     m_uiGpsTimeToOff s \<le> 3600 \<and>
     known_state (m_DriverCurrentState s) \<and>
     (m_bGpsStatus s = 0 \<longrightarrow> m_DriverCurrentState s = STATE_Gps_Off) \<and>
     (m_DriverCurrentState s = STATE_Wait_for_Gps_Fixed \<longrightarrow> m_uiTimerDriftCounter s < 16) \<and>
     (m_DriverCurrentState s \<in> {STATE_Gps_Fixed, STATE_Switch_Gps_to_Off, STATE_Gps_Off} \<longrightarrow>
        16 \<le> m_uiTimerDriftCounter s)"

definition clocked :: "'a sync_state_scheme \<Rightarrow> bool" where
  "clocked s \<longleftrightarrow> 1000000 \<le> m_uiPpsTimerInputClock s \<and> 1000000 \<le> m_uiRelayTimerInputClock s"

definition sync_ok :: "ub set \<Rightarrow> 'a sync_state_scheme \<Rightarrow> bool" where
  "sync_ok F s \<longleftrightarrow> sync_inv s \<and> (Division_by_zero \<notin> F \<longrightarrow> clocked s) \<and> faults (klog s) \<subseteq> F"

lemmas sync_ok_defs = sync_ok_def sync_inv_def clocked_def known_state_def

section \<open>Rules\<close>

lemma mhz_nonzero:
  assumes "1000000 \<le> (x :: u32)"
  shows "x div 1000000 \<noteq> 0" "x \<noteq> 0"
proof -
  have "1000000 \<le> unat x" using assms by (simp add: word_le_nat_alt)
  then have "0 < unat x div 1000000" by (simp add: div_greater_zero_iff)
  then show "x div 1000000 \<noteq> 0" by (auto simp: unat_div dest: arg_cong [where f = unat])
  show "x \<noteq> 0" using assms by auto
qed

lemma clocked_nonzero:
  assumes "sync_ok F s" "Division_by_zero \<notin> F"
  shows "m_uiPpsTimerInputClock s div 1000000 \<noteq> 0" "m_uiRelayTimerInputClock s div 1000000 \<noteq> 0"
    "m_uiPpsTimerInputClock s \<noteq> 0" "m_uiRelayTimerInputClock s \<noteq> 0"
  using assms mhz_nonzero by (auto simp: sync_ok_defs)

lemma keeps_rd_bind:
  "(\<And>s. I s \<Longrightarrow> keeps I (f (g s))) \<Longrightarrow> keeps I (rd g \<bind> f)"
  by (simp add: keeps_def wp_bind wp_rd)

lemma faults_call: "\<not> is_ub (k, 0) \<Longrightarrow> faults (l @ [(k, r)]) = faults l"
  by (cases k) simp_all

lemma sync_inv_log [simp]: "sync_inv (s\<lparr>klog := l\<rparr>) = sync_inv s"
  by (simp add: sync_inv_def)

lemma clocked_log [simp]: "clocked (s\<lparr>klog := l\<rparr>) = clocked s"
  by (simp add: clocked_def)

lemma sync_ok_log [simp]:
  assumes "\<not> is_ub (k, 0)" "sync_ok F s"
  shows "sync_ok F (s\<lparr>klog := klog s @ [(k, r)]\<rparr>)"
proof -
  have "faults (klog s @ [(k, r)]) = faults (klog s)" by (rule faults_call [OF assms(1)])
  then show ?thesis using assms(2) by (simp add: sync_ok_def del: faults_simps)
qed

lemma keeps_sync_kcall: "\<not> is_ub (k, 0) \<Longrightarrow> keeps (sync_ok F) (kcall e k)"
  by (rule keeps_kcall) simp

lemma keeps_sync_kdo: "\<not> is_ub (k, 0) \<Longrightarrow> keeps (sync_ok F) (kdo e k)"
  by (rule keeps_kdo) simp

lemma keeps_sync_kdiv: "(Division_by_zero \<notin> F \<Longrightarrow> b \<noteq> 0) \<Longrightarrow> keeps (sync_ok F) (kdiv e a b)"
  unfolding kdiv_def
  by (intro keeps_if keeps_return keeps_kcall) (auto simp: sync_ok_def)

named_theorems sync_keeps \<open>the parts of the driver that keep its invariant\<close>

lemmas sync_rules = keeps_rd_bind keeps_return keeps_if keeps_case_option keeps_let keeps_for_each
  keeps_do_each keeps_sync_kcall keeps_sync_kdo keeps_sync_kdiv

section \<open>The handlers\<close>

lemma keeps_read_counters [sync_keeps]:
  "keeps (sync_ok F) (read_pps_counter e)" "keeps (sync_ok F) (read_relay_counter e)"
  by (auto simp: read_pps_counter_def read_relay_counter_def intro!: sync_rules)

lemma keeps_read_reg [sync_keeps]:
  "keeps (sync_ok F) (omap_dm_timer_read_reg e t reg)"
  by (auto simp: omap_dm_timer_read_reg_def intro!: sync_rules keeps_bind)

lemma keeps_write_reg [sync_keeps]:
  "keeps (sync_ok F) (omap_dm_timer_write_reg e t reg v)"
  by (auto simp: omap_dm_timer_write_reg_def intro!: sync_rules keeps_bind)

lemma keeps_read_capture [sync_keeps]:
  "keeps (sync_ok F) (omap_dm_timer_read_capture e t r b)"
  by (auto simp: omap_dm_timer_read_capture_def intro!: sync_rules sync_keeps keeps_bind)

lemma keeps_unlock_read [sync_keeps]:
  "kind \<in> {1, 2} \<Longrightarrow> keeps (sync_ok F) (unlock_read e kind)"
  by (rule keepsI) (auto simp: unlock_read_def wp_simps sync_ok_defs)

lemma keeps_store_preemption_time [sync_keeps]:
  "keeps (sync_ok F) (store_preemption_time e v)"
proof (rule keepsI)
  fix s :: "'a sync_state_scheme" assume ok: "sync_ok F s"
  then have ring: "ring_ok 32 (preempt_table s)" by (simp add: sync_ok_defs)
  show "wp (store_preemption_time e v) (\<lambda>_. sync_ok F) s"
    using ok ring_ok_push32 [OF ring, of v]
    by (simp add: wp_def run_store_preemption_time [OF ring] Let_def sync_ok_defs)
qed

lemma wp_ComputeAndAddQuartzError:
  assumes "ring_ok 16 (quartz_table s)"
    and "\<And>t i n. ring_ok 16 (t, i) \<Longrightarrow>
           Q () (s\<lparr>m_iPpsTimerErrorValueTable := t, m_uiLastUsedTimerErrorValueTableCase := i,
                   m_uiTimerDriftCounter := n\<rparr>)"
  shows "wp (ComputeAndAddQuartzError e v) Q s"
proof -
  have "ring_ok 16 (push32 16 (quartz_table s) x)" for x
    using ring_ok_push32 [OF assms(1)] by simp
  moreover have "Q () s"
    using assms(2) [of "m_iPpsTimerErrorValueTable s" "m_uiLastUsedTimerErrorValueTableCase s"
        "m_uiTimerDriftCounter s"] assms(1) by simp
  ultimately show ?thesis
    using assms(2) [of "fst (push32 16 (quartz_table s) x)" "snd (push32 16 (quartz_table s) x)" for x]
      assms(2) [of "m_iPpsTimerErrorValueTable s" "m_uiLastUsedTimerErrorValueTableCase s"]
      assms(1)
    unfolding wp_def run_ComputeAndAddQuartzError [OF assms(1)] add_quartz_error_def
    by (simp add: Let_def)
qed

lemma keeps_relay_second [sync_keeps]: "keeps (sync_ok F) (relay_second e)"
  by (rule keepsI)
    (auto simp: relay_second_def SetGpsStatus_def unlock_read_def go_to_def wp_simps sync_ok_defs)

lemma keeps_relay_diff_pps [sync_keeps]: "keeps (sync_ok F) (relay_diff_pps e a b)"
  unfolding relay_diff_pps_def
  by (auto simp: clocked_nonzero intro!: sync_rules sync_keeps keeps_bind)

lemma keeps_RelayTimerIrqHandler [sync_keeps]: "keeps (sync_ok F) (RelayTimerIrqHandler e)"
proof -
  have "keeps (sync_ok F) (wr (\<lambda>s. s\<lparr>m_bDataSupplied := 0\<rparr>))"
    "keeps (sync_ok F) (wr (\<lambda>s. s\<lparr>relay_irq_count := relay_irq_count s + 1\<rparr>))"
    by (rule keeps_wr, auto simp: sync_ok_defs)+
  note wrs = this
  show ?thesis unfolding RelayTimerIrqHandler_def
    by (intro wrs sync_rules sync_keeps keeps_bind) (simp_all add: clocked_nonzero)
qed

subsection \<open>The state machine\<close>

lemma wp_pps_initialization:
  "sync_ok F s \<Longrightarrow> wp (pps_initialization e) (\<lambda>_. sync_ok F) s"
  by (auto simp: pps_initialization_def SetGpsStatus_def go_to_def wp_simps sync_ok_defs ring_ok_def)

lemma wp_pps_wait_for_gps_fixed:
  assumes "sync_ok F s" "m_DriverCurrentState s = STATE_Wait_for_Gps_Fixed"
  shows "wp (pps_wait_for_gps_fixed e v) (\<lambda>_. sync_ok F) s"
  unfolding pps_wait_for_gps_fixed_def upload_supplied_data_def go_to_def wp_bind wp_wr
  by (rule wp_ComputeAndAddQuartzError) (use assms in \<open>auto simp: wp_simps sync_ok_defs\<close>)

lemma wp_pps_gps_fixed:
  assumes "sync_ok F s" "m_DriverCurrentState s = STATE_Gps_Fixed"
  shows "wp (pps_gps_fixed e v) (\<lambda>_. sync_ok F) s"
  unfolding pps_gps_fixed_def upload_supplied_data_def go_to_def wp_bind wp_wr
    GetAverageQuartzError_def arm_relay_timer_def read_pps_counter_def
  by (rule wp_ComputeAndAddQuartzError)
    (use assms in \<open>auto simp: wp_simps sync_ok_defs Let_def\<close>)

lemma wp_pps_switch_gps_to_off:
  assumes "sync_ok F s" "m_DriverCurrentState s = STATE_Switch_Gps_to_Off"
  shows "wp (pps_switch_gps_to_off e) (\<lambda>_. sync_ok F) s"
  using assms
  by (auto simp: pps_switch_gps_to_off_def SetGpsStatus_def unlock_read_def go_to_def wp_simps
      sync_ok_defs)

lemma wp_go_to_same:
  "sync_ok F s \<Longrightarrow> m_DriverCurrentState s = st \<Longrightarrow> wp (go_to st) (\<lambda>_. sync_ok F) s"
  by (simp add: go_to_def wp_wr sync_ok_defs)

lemma sync_ok_known: "sync_ok F s \<Longrightarrow> m_DriverCurrentState s \<noteq> STATE_Unknown n"
proof -
  assume "sync_ok F s"
  then have "known_state (m_DriverCurrentState s)" by (simp add: sync_ok_def sync_inv_def)
  then show ?thesis by (auto simp: known_state_def)
qed

lemma keeps_pps_state_machine [sync_keeps]: "keeps (sync_ok F) (pps_state_machine e v)"
proof (rule keepsI)
  fix s :: "'a sync_state_scheme" assume ok: "sync_ok F s"
  show "wp (pps_state_machine e v) (\<lambda>_. sync_ok F) s"
    unfolding pps_state_machine_def wp_bind wp_rd
    using ok by (cases "m_DriverCurrentState s")
      (simp_all add: wp_pps_initialization wp_pps_wait_for_gps_fixed wp_pps_gps_fixed
        wp_pps_switch_gps_to_off wp_go_to_same sync_ok_known)
qed

lemma keeps_pps_epilogue [sync_keeps]: "keeps (sync_ok F) (pps_epilogue e a b)"
proof -
  have "keeps (sync_ok F) (wr (\<lambda>s. s\<lparr>m_uiLastTimerValue := a\<rparr>))"
    "keeps (sync_ok F) (wr (\<lambda>s. s\<lparr>m_uioldLastTimerValue := m_uiLastTimerValue s\<rparr>))"
    "keeps (sync_ok F) (wr (\<lambda>s. s\<lparr>m_bDataSupplied := 0\<rparr>))"
    by (rule keeps_wr, auto simp: sync_ok_defs)+
  note wrs = this
  show ?thesis unfolding pps_epilogue_def
    by (intro wrs sync_rules sync_keeps keeps_bind) (simp_all add: clocked_nonzero)
qed

lemma keeps_PpsTimerIrqHandler [sync_keeps]: "keeps (sync_ok F) (PpsTimerIrqHandler e)"
  unfolding PpsTimerIrqHandler_def by (intro sync_rules sync_keeps keeps_bind)

section \<open>The file operations\<close>

lemma keeps_ComputeMicroSecond [sync_keeps]: "keeps (sync_ok F) (ComputeMicroSecond e t)"
  unfolding ComputeMicroSecond_def
  by (intro sync_rules sync_keeps keeps_bind) (simp_all add: clocked_nonzero)

lemma keeps_EXPORT [sync_keeps]:
  "keeps (sync_ok F) (EXPORT_GD_DATA_FROM_SYNCHONIZATION_DRIVER e)"
  unfolding EXPORT_GD_DATA_FROM_SYNCHONIZATION_DRIVER_def
  by (intro sync_rules sync_keeps keeps_bind)

lemma keeps_check_loop [sync_keeps]: "keeps (sync_ok F) (check_loop e p)"
  unfolding check_loop_def by (intro sync_rules keeps_bind) simp_all

lemma keeps_check_data_supplied [sync_keeps]: "keeps (sync_ok F) (check_data_supplied e)"
  unfolding check_data_supplied_def by (intro sync_rules sync_keeps keeps_bind) simp_all

lemma keeps_SecondsIncrementsVerificationFunction [sync_keeps]:
  "keeps (sync_ok F) (SecondsIncrementsVerificationFunction e pc)"
  unfolding SecondsIncrementsVerificationFunction_def
  by (cases pc) (simp_all, (intro sync_rules sync_keeps keeps_bind; simp)+)

lemma wp_sync_read_unlocked: "sync_ok F s \<Longrightarrow> wp (sync_read_unlocked e buf) (\<lambda>_. sync_ok F) s"
  by (auto simp: sync_read_unlocked_def sync_send_def wp_simps sync_ok_defs)

lemma keeps_Synchronization_read [sync_keeps]: "keeps (sync_ok F) (Synchronization_read e buf n)"
  unfolding Synchronization_read_def
  by (intro sync_rules keeps_bind keepsI [OF wp_sync_read_unlocked]) simp_all

lemma keeps_Synchronization_read_woken [sync_keeps]:
  "keeps (sync_ok F) (Synchronization_read_woken e buf)"
  unfolding Synchronization_read_woken_def
  by (intro sync_rules keeps_bind keepsI [OF wp_sync_read_unlocked]) simp_all

lemma keeps_Synchronization_poll [sync_keeps]: "keeps (sync_ok F) (Synchronization_poll e)"
  unfolding Synchronization_poll_def by (intro sync_rules keeps_bind) simp_all

lemma keeps_put_user [sync_keeps]: "keeps (sync_ok F) (put_user e a v)"
  unfolding put_user_def by (intro sync_rules keeps_bind) simp_all

lemma keeps_sync_ioctl_get_official [sync_keeps]:
  "keeps (sync_ok F) (sync_ioctl_get_official e a)"
  unfolding sync_ioctl_get_official_def by (intro sync_rules sync_keeps keeps_bind) simp_all

lemma keeps_sync_ioctl_set_temporary [sync_keeps]:
  "keeps (sync_ok F) (sync_ioctl_set_temporary e a g)"
  by (rule keepsI) (auto simp: sync_ioctl_set_temporary_def wp_simps sync_ok_defs)

lemma keeps_sync_ioctl_set_mode [sync_keeps]: "keeps (sync_ok F) (sync_ioctl_set_mode a)"
  by (rule keepsI) (auto simp: sync_ioctl_set_mode_def wp_simps sync_ok_defs)

lemma off_time_bound: "a \<le> 60 \<Longrightarrow> a * 60 \<le> (3600 :: u32)"
proof -
  assume "a \<le> 60"
  then have "unat a \<le> 60" by (simp add: word_le_nat_alt)
  then have "unat (a * 60) = unat a * 60" using unat_mult_lem [of a 60] by simp
  with \<open>unat a \<le> 60\<close> show ?thesis by (simp add: word_le_nat_alt)
qed

lemma keeps_sync_ioctl_set_off_time [sync_keeps]: "keeps (sync_ok F) (sync_ioctl_set_off_time a)"
  by (rule keepsI)
    (auto simp: sync_ioctl_set_off_time_def wp_simps sync_ok_defs off_time_bound not_less)

lemma keeps_Synchronization_ioctl [sync_keeps]:
  "keeps (sync_ok F) (Synchronization_ioctl e cmd a g)"
  unfolding Synchronization_ioctl_def by (intro sync_rules sync_keeps keeps_bind)

lemma keeps_case_driver_state [keeps_intros]:
  "keeps I a \<Longrightarrow> keeps I b \<Longrightarrow> keeps I c \<Longrightarrow> keeps I d \<Longrightarrow> keeps I f \<Longrightarrow> (\<And>n. keeps I (g n)) \<Longrightarrow>
     keeps I (case st of STATE_Initialization \<Rightarrow> a | STATE_Wait_for_Gps_Fixed \<Rightarrow> b
       | STATE_Gps_Fixed \<Rightarrow> c | STATE_Switch_Gps_to_Off \<Rightarrow> d | STATE_Gps_Off \<Rightarrow> f
       | STATE_Unknown n \<Rightarrow> g n)"
  by (cases st) simp_all

end
