(* ===== verification/Sync_Machine.thy ===== *)
theory Sync_Machine
  imports Sync_Inv
begin

text \<open>
  The synchronization driver as a whole: the states it can be in after a successful insertion,
  when its interrupts, its thread and the system calls come in any order. Each of them runs to its
  end before the next one starts, except that a blocked read and the thread give way where they
  sleep; \<open>sleepers\<close> counts the reads that are asleep.
\<close>

section \<open>The machine\<close>

record 'a sync_system =
  drv :: "'a sync_state_scheme"
  checker :: check_thread
  sleepers :: nat

type_synonym sync_machine = "unit sync_system"

datatype sync_event =
    Pps_pulse
  | Relay_overflow
  | Check_seconds
  | Open_sync | Close_sync
  | Read_sync u32 u32
  | Read_sync_woken u32
  | Write_sync u32
  | Poll_sync
  | Ioctl_sync u32 u32 GpsData
  | Proc_read u32 u32 u32

definition after :: "('a sync_state_scheme, 'r) state \<Rightarrow> 'a sync_system \<Rightarrow> 'a sync_system" where
  "after f m = m\<lparr>drv := snd (run_state f (drv m))\<rparr>"

definition sync_exec :: "kernel \<Rightarrow> sync_event \<Rightarrow> 'a sync_system \<Rightarrow> 'a sync_system option" where
  "sync_exec e ev m = (case ev of
     Pps_pulse \<Rightarrow> Some (after (PpsTimerIrqHandler e) m)
   | Relay_overflow \<Rightarrow> Some (after (RelayTimerIrqHandler e) m)
   | Check_seconds \<Rightarrow>
       (if m_bThreadLaunching (drv m) = 1
        then (case run_state (SecondsIncrementsVerificationFunction e (checker m)) (drv m) of
                (pc, s) \<Rightarrow> Some (m\<lparr>drv := s, checker := pc\<rparr>))
        else None)
   | Open_sync \<Rightarrow> Some (after Synchronization_open m)
   | Close_sync \<Rightarrow> Some (after Synchronization_close m)
   | Read_sync buf n \<Rightarrow>
       (case run_state (Synchronization_read e buf n) (drv m) of
          (Sleeping, s) \<Rightarrow> Some (m\<lparr>drv := s, sleepers := sleepers m + 1\<rparr>)
        | (Returned r, s) \<Rightarrow> Some (m\<lparr>drv := s\<rparr>))
   | Read_sync_woken buf \<Rightarrow>
       (if 0 < sleepers m
        then Some (after (Synchronization_read_woken e buf) (m\<lparr>sleepers := sleepers m - 1\<rparr>))
        else None)
   | Write_sync n \<Rightarrow> Some (after (Synchronization_write n) m)
   | Poll_sync \<Rightarrow> Some (after (Synchronization_poll e) m)
   | Ioctl_sync cmd arg g \<Rightarrow> Some (after (Synchronization_ioctl e cmd arg g) m)
   | Proc_read off n eof \<Rightarrow>
       (case SynchronizationPreemptionTimeRead (drv m) off n eof of
          None \<Rightarrow> Some (after (out_of_bounds e) m)
        | Some page \<Rightarrow> Some m))"

definition sync_step :: "kernel \<Rightarrow> sync_machine \<Rightarrow> sync_event \<Rightarrow> sync_machine \<Rightarrow> bool" where
  "sync_step e m ev m' \<longleftrightarrow> sync_exec e ev m = Some m'"

text \<open>What every handler keeps, every event keeps; the driver's state may be part of a larger one.\<close>

lemma sync_exec_keeps:
  assumes "sync_exec e ev m = Some m'" "I (drv m)"
    and "keeps I (PpsTimerIrqHandler e)" "keeps I (RelayTimerIrqHandler e)"
    and "\<And>pc. keeps I (SecondsIncrementsVerificationFunction e pc)"
    and "\<And>buf n. keeps I (Synchronization_read e buf n)"
    and "\<And>buf. keeps I (Synchronization_read_woken e buf)"
    and "keeps I (Synchronization_poll e)"
    and "\<And>cmd arg g. keeps I (Synchronization_ioctl e cmd arg g)"
    and page: "\<And>off n eof. ev = Proc_read off n eof \<Longrightarrow>
      SynchronizationPreemptionTimeRead (drv m) off n eof = None \<Longrightarrow> keeps I (out_of_bounds e)"
  shows "I (drv m')"
proof -
  have step: "keeps I f \<Longrightarrow> I (snd (run_state f (drv m)))" for f :: "('a sync_state_scheme, 'r) state"
    by (rule keeps_snd [where I = I, OF _ assms(2)])
  have pair: "I s" if "run_state f (drv m) = (r, s)" "keeps I f"
    for f :: "('a sync_state_scheme, 'r) state" and r s
    by (rule keeps_run [where I = I, OF that(2) assms(2) that(1)])
  have same: "keeps I Synchronization_open" "keeps I Synchronization_close"
    "keeps I (Synchronization_write n)" for n
    by (simp_all add: Synchronization_open_def Synchronization_close_def
        Synchronization_write_def keeps_return)
  show ?thesis
    using assms(1,2)
    by (cases ev)
      (auto simp: sync_exec_def after_def
        split: prod.splits read_result.splits if_splits option.splits
        intro!: step assms(2-9) same page dest!: pair [OF _ assms(6)] pair [OF _ assms(5)])
qed

text \<open>
  The module has been inserted, with any value of its parameter \<open>m_bThreadLaunching\<close>: its
  initialisation has returned 0.
\<close>

definition sync_inserted :: "kernel \<Rightarrow> sync_machine \<Rightarrow> bool" where
  "sync_inserted e m \<longleftrightarrow> (\<exists>launch.
     fst (run_state (Synchronization_initialize e) (sync_loaded launch)) = 0 \<and>
     m = \<lparr>drv = snd (run_state (Synchronization_initialize e) (sync_loaded launch)),
          checker = Awaiting_data, sleepers = 0\<rparr>)"

abbreviation sync_reach :: "kernel \<Rightarrow> sync_machine \<Rightarrow> bool" where
  "sync_reach e \<equiv> reach (sync_inserted e) (sync_step e)"

abbreviation sync_runs ::
    "kernel \<Rightarrow> sync_machine \<Rightarrow> sync_event list \<Rightarrow> sync_machine \<Rightarrow> bool" where
  "sync_runs e \<equiv> runs (sync_step e)"

section \<open>Insertion establishes the invariant\<close>

text \<open>What the configuration of the timers and of the pins leaves alone.\<close>

definition sync_fresh :: "u32 \<Rightarrow> 'a sync_state_scheme \<Rightarrow> bool" where
  "sync_fresh launch s \<longleftrightarrow>
     quartz_table s = (replicate 16 0, 0) \<and>
     length (m_iPreemptTimeValueTable s) = 32 \<and> m_uiLastUsedPreemptTimeValueTableCase s = 0 \<and>
     length (m_uiPpsTimerPreviousMode s) = 3 \<and>
     m_bDataSupplied s = 0 \<and> m_bGpsStatus s = 0 \<and> m_bReadDone s = 0 \<and> m_uiReadKind s = 0 \<and>
     m_uiTimerDriftCounter s = 0 \<and> m_bThreadLaunching s = launch \<and>
     m_uiDriverRunningMode s = MODE1 \<and> safe_log (klog s)"

lemma sync_fresh_loaded: "sync_fresh n (sync_loaded n)"
  by (simp add: sync_fresh_def sync_loaded_def sync_globals_def)

lemma keeps_fresh_kcall: "\<not> is_ub (k, 0) \<Longrightarrow> keeps (sync_fresh n) (kcall e k)"
  by (rule keeps_kcall) (simp add: sync_fresh_def)

lemma keeps_fresh_kdo: "\<not> is_ub (k, 0) \<Longrightarrow> keeps (sync_fresh n) (kdo e k)"
  by (rule keeps_kdo) (simp add: sync_fresh_def)

lemma keeps_fresh_wr:
  "(\<And>s. sync_fresh n s \<Longrightarrow> sync_fresh n (f s)) \<Longrightarrow> keeps (sync_fresh n) (wr f)"
  by (rule keeps_wr)

named_theorems fresh_keeps \<open>configuration steps that leave the tables and flags alone\<close>

lemmas fresh_rules = keeps_return keeps_rd keeps_if keeps_case_option keeps_let keeps_for_each
  keeps_do_each keeps_fresh_kcall keeps_fresh_kdo keeps_bind keeps_fresh_wr

lemma keeps_fresh_regs [fresh_keeps]:
  "keeps (sync_fresh n) (omap_dm_timer_read_reg e t reg)"
  "keeps (sync_fresh n) (omap_dm_timer_write_reg e t reg v)"
  unfolding omap_dm_timer_read_reg_def omap_dm_timer_write_reg_def
  by (intro fresh_rules; simp)+

lemma keeps_fresh_set_capture [fresh_keeps]:
  "keeps (sync_fresh n) (omap_dm_timer_set_capture e t b u)"
  unfolding omap_dm_timer_set_capture_def by (intro fresh_keeps fresh_rules) simp_all

lemma keeps_fresh_restore_pps_pin [fresh_keeps]: "keeps (sync_fresh n) (restore_pps_pin e i)"
  unfolding restore_pps_pin_def restore_register_def by (intro fresh_rules) simp_all

lemma keeps_fresh_mux_pps_pin [fresh_keeps]: "keeps (sync_fresh n) (mux_pps_pin e i)"
  unfolding mux_pps_pin_def by (intro fresh_rules) (simp_all add: sync_fresh_def)

lemma keeps_fresh_out_pps [fresh_keeps]:
  "keeps (sync_fresh n) (out_pps_timer_unmux e r)"
  "keeps (sync_fresh n) (out_pps_timer_free e r)"
  "keeps (sync_fresh n) (out_pps_timer_unconfigure e r)"
  unfolding out_pps_timer_unmux_def out_pps_timer_free_def out_pps_timer_unconfigure_def
  by (intro fresh_keeps fresh_rules; simp)+

lemma keeps_fresh_pps_timer_interrupt [fresh_keeps]:
  "keeps (sync_fresh n) (pps_timer_interrupt e t)"
  unfolding pps_timer_interrupt_def by (intro fresh_keeps fresh_rules) simp_all

lemma keeps_fresh_pps_timer_setup [fresh_keeps]: "keeps (sync_fresh n) (pps_timer_setup e)"
  unfolding pps_timer_setup_def by (intro fresh_keeps fresh_rules) (simp_all add: sync_fresh_def)

lemma keeps_fresh_PpsTimerConfiguration [fresh_keeps]:
  "keeps (sync_fresh n) (PpsTimerConfiguration e)"
  unfolding PpsTimerConfiguration_def
  by (intro fresh_keeps fresh_rules) (simp_all add: sync_fresh_def)

lemma keeps_fresh_out_relay [fresh_keeps]:
  "keeps (sync_fresh n) (out_relay_timer_free e r)"
  "keeps (sync_fresh n) (out_relay_timer_unconfigure e r)"
  unfolding out_relay_timer_free_def out_relay_timer_unconfigure_def
  by (intro fresh_rules; simp)+

lemma keeps_fresh_relay_timer_interrupt [fresh_keeps]:
  "keeps (sync_fresh n) (relay_timer_interrupt e t)"
  unfolding relay_timer_interrupt_def by (intro fresh_keeps fresh_rules) simp_all

lemma keeps_fresh_relay_timer_setup [fresh_keeps]: "keeps (sync_fresh n) (relay_timer_setup e)"
  unfolding relay_timer_setup_def by (intro fresh_keeps fresh_rules) (simp_all add: sync_fresh_def)

lemma keeps_fresh_RelayTimerConfiguration [fresh_keeps]:
  "keeps (sync_fresh n) (RelayTimerConfiguration e)"
  unfolding RelayTimerConfiguration_def
  by (intro fresh_keeps fresh_rules) (simp_all add: sync_fresh_def)

lemma keeps_fresh_out_gpio [fresh_keeps]:
  "keeps (sync_fresh n) (out_gpio_unmux e r)" "keeps (sync_fresh n) (out_gpio_free e r)"
  unfolding out_gpio_unmux_def out_gpio_free_def restore_shutdown_pin_def restore_register_def
  by (intro fresh_rules; simp)+

lemma keeps_fresh_GpsSoftwareShutdownGpioConfiguration [fresh_keeps]:
  "keeps (sync_fresh n) (GpsSoftwareShutdownGpioConfiguration e)"
  unfolding GpsSoftwareShutdownGpioConfiguration_def
  by (intro fresh_keeps fresh_rules) (simp_all add: sync_fresh_def)

lemma keeps_fresh_out_device [fresh_keeps]:
  "keeps (sync_fresh n) (out_unregister e r)" "keeps (sync_fresh n) (out_cdev_del e r)"
  "keeps (sync_fresh n) (out_device_del e r)" "keeps (sync_fresh n) (out_proc_del e r)"
  unfolding out_unregister_def out_cdev_del_def out_device_del_def out_proc_del_def
    synchronization_node_def
  by (intro fresh_rules; simp)+

subsection \<open>Results\<close>

definition sync_result :: "u32 \<Rightarrow> bool" where
  "sync_result r \<longleftrightarrow> r = 0 \<or> r \<in> range sync_err"

text \<open>The exit shortcuts return what they are given.\<close>

lemma wp_out_labels:
  assumes "\<And>s'. Q r s'"
  shows "wp (out_pps_timer_unmux e r) Q s" "wp (out_pps_timer_free e r) Q s"
    "wp (out_pps_timer_unconfigure e r) Q s" "wp (out_relay_timer_free e r) Q s"
    "wp (out_relay_timer_unconfigure e r) Q s" "wp (out_gpio_unmux e r) Q s"
    "wp (out_gpio_free e r) Q s" "wp (out_unregister e r) Q s" "wp (out_cdev_del e r) Q s"
    "wp (out_device_del e r) Q s" "wp (out_proc_del e r) Q s"
  using assms
  by (simp_all add: wp_fst_snd out_pps_timer_unmux_def out_pps_timer_free_def
      out_pps_timer_unconfigure_def out_relay_timer_free_def out_relay_timer_unconfigure_def
      out_gpio_unmux_def out_gpio_free_def out_unregister_def out_cdev_del_def
      out_device_del_def out_proc_del_def split_beta)

lemma wp_trivial: "(\<And>r s'. Q r s') \<Longrightarrow> wp m Q s"
  by (rule wpI)

lemma sync_result_err [simp]: "sync_result (sync_err x)"
  by (simp add: sync_result_def)

lemma PpsTimerConfiguration_result: "sync_result (fst (run_state (PpsTimerConfiguration e) s))"
proof -
  have interrupt: "wp (pps_timer_interrupt e t) (\<lambda>r _. sync_result r) s" for t s
    unfolding pps_timer_interrupt_def
    by (auto simp: wp_simps intro!: wp_out_labels) (simp add: sync_result_def)
  have capture: "wp (omap_dm_timer_set_capture e t b u) (\<lambda>_ _. True) s" for t b u s
    by (rule wp_trivial) simp
  have timer: "wp (pps_timer_setup e) (\<lambda>r _. sync_result r) s" for s
    unfolding pps_timer_setup_def
    by (auto simp: wp_simps interrupt intro!: wp_out_labels wp_mono [OF capture])
  have mux: "wp (for_each is (mux_pps_pin e)) (\<lambda>r _. case r of None \<Rightarrow> True | Some x \<Rightarrow> sync_result x) s" for "is" s
    by (rule wp_for_each [where I = "\<lambda>_ _. True"]) (simp_all add: mux_pps_pin_def wp_simps)
  have "wp (PpsTimerConfiguration e) (\<lambda>r _. sync_result r) s"
    unfolding PpsTimerConfiguration_def wp_bind
    by (rule wp_mono [OF mux]) (auto simp: wp_simps timer intro!: wp_out_labels)
  then show ?thesis by (simp add: wp_fst_snd)
qed

lemma wp_RelayTimerConfiguration_result:
  "wp (RelayTimerConfiguration e) (\<lambda>r _. r <s 0 \<longrightarrow> r \<in> range sync_err) s"
proof -
  have interrupt: "wp (relay_timer_interrupt e t) (\<lambda>r _. r <s 0 \<longrightarrow> r \<in> range sync_err) s" for t s
    unfolding relay_timer_interrupt_def by (auto simp: wp_simps intro!: wp_out_labels)
  have timer: "wp (relay_timer_setup e) (\<lambda>r _. r <s 0 \<longrightarrow> r \<in> range sync_err) s" for s
    unfolding relay_timer_setup_def by (auto simp: wp_simps interrupt intro!: wp_out_labels)
  show ?thesis
    unfolding RelayTimerConfiguration_def by (auto simp: wp_simps timer)
qed

lemma wp_GpsSoftwareShutdownGpioConfiguration_result:
  "wp (GpsSoftwareShutdownGpioConfiguration e) (\<lambda>r _. r <s 0 \<longrightarrow> r \<in> range sync_err) s"
  unfolding GpsSoftwareShutdownGpioConfiguration_def
  by (auto simp: wp_simps intro!: wp_out_labels)

section \<open>Insertion establishes the invariant\<close>

text \<open>What insertion may have run into: it wakes a thread that could not be created.\<close>

definition threads_start :: "kernel \<Rightarrow> bool" where
  "threads_start e \<longleftrightarrow> (\<forall>l n. \<not> k_IS_ERR e (answer e l (KSched (Kthread_create n))))"

definition thread_faults :: "kernel \<Rightarrow> 'a sync_state_scheme \<Rightarrow> ub set" where
  "thread_faults e s = (if m_bThreadLaunching s = 1 \<and>
     k_IS_ERR e (SecondsIncrementsVerificationThread s) then {Bad_pointer} else {})"

definition inserted_ok :: "kernel \<Rightarrow> u32 \<Rightarrow> u32 \<Rightarrow> sync_state \<Rightarrow> bool" where
  "inserted_ok e launch r s \<longleftrightarrow>
     (if r = 0 then sync_inv s \<and> m_bThreadLaunching s = launch \<and> faults (klog s) = thread_faults e s \<and>
        (KSched (Kthread_create ''SecondsIncrementsVerificationThread''),
          SecondsIncrementsVerificationThread s) \<in> set (klog s) \<and>
        (threads_start e \<longrightarrow> \<not> k_IS_ERR e (SecondsIncrementsVerificationThread s))
      else r \<in> range sync_err \<and> safe_log (klog s))"

lemma wp_sync_start:
  assumes "sync_fresh n s"
  shows "wp (sync_start e \<bind> (\<lambda>_. ret 0)) (inserted_ok e n) s"
proof -
  have "faults (klog s) = {}" using assms by (simp add: sync_fresh_def safe_log_faults)
  then show ?thesis
    using assms
    by (simp add: sync_start_def SetGpsStatus_def wp_simps sync_fresh_def sync_inv_def ring_ok_def
        known_state_def inserted_ok_def thread_faults_def threads_start_def resp_def)
qed

lemma wp_out_fails:
  assumes "sync_fresh n s" "r \<in> range sync_err"
  shows "wp (out_unregister e r) (inserted_ok e' n) s" "wp (out_cdev_del e r) (inserted_ok e' n) s"
    "wp (out_device_del e r) (inserted_ok e' n) s" "wp (out_proc_del e r) (inserted_ok e' n) s"
proof -
  have fail: "wp m (inserted_ok e' n) s" if "keeps (sync_fresh n) m" "wp m (\<lambda>x _. x = r) s"
    for m :: "(sync_state, u32) state"
    using assms(2)
    by (intro wp_mono [OF wp_conj [OF keepsD [OF that(1) assms(1)] that(2)]])
      (auto simp: inserted_ok_def sync_fresh_def)
  show "wp (out_unregister e r) (inserted_ok e' n) s" "wp (out_cdev_del e r) (inserted_ok e' n) s"
    "wp (out_device_del e r) (inserted_ok e' n) s" "wp (out_proc_del e r) (inserted_ok e' n) s"
    by (intro fail keeps_fresh_out_device wp_out_labels refl)+
qed

lemma wp_sync_configure:
  assumes "sync_fresh n s"
  shows "wp (sync_configure e) (inserted_ok e n) s"
proof -
  have fail: "wp (out_proc_del e r) (inserted_ok e n) s"
    if "r <s 0" "r <s 0 \<longrightarrow> r \<in> range sync_err" "sync_fresh n s" for r s
    using that by (intro wp_out_fails) auto
  have pps: "wp (PpsTimerConfiguration e) (\<lambda>r s'. sync_result r \<and> sync_fresh n s') s"
    if "sync_fresh n s" for s :: sync_state
    using keepsD [OF keeps_fresh_PpsTimerConfiguration that] PpsTimerConfiguration_result
    by (simp add: wp_fst_snd)
  have step3: "wp (PpsTimerConfiguration e \<bind> (\<lambda>iRet. if iRet <s 0 then out_proc_del e iRet
      else sync_start e \<bind> (\<lambda>_. ret iRet))) (inserted_ok e n) s" if "sync_fresh n s" for s
    unfolding wp_bind [of "PpsTimerConfiguration e"]
    by (rule wp_mono [OF pps [OF that]])
      (auto simp: sync_result_def intro: fail wp_sync_start)
  have step2: "wp (GpsSoftwareShutdownGpioConfiguration e \<bind> (\<lambda>iRet. if iRet <s 0
      then out_proc_del e iRet else PpsTimerConfiguration e \<bind> (\<lambda>iRet. if iRet <s 0
        then out_proc_del e iRet else sync_start e \<bind> (\<lambda>_. ret iRet)))) (inserted_ok e n) s"
    if "sync_fresh n s" for s
    unfolding wp_bind [of "GpsSoftwareShutdownGpioConfiguration e"]
    by (rule wp_mono [OF wp_conj [OF wp_GpsSoftwareShutdownGpioConfiguration_result
          keepsD [OF keeps_fresh_GpsSoftwareShutdownGpioConfiguration that]]])
      (simp add: fail step3)
  show ?thesis
    unfolding sync_configure_def wp_bind [of "RelayTimerConfiguration e"]
    by (rule wp_mono [OF wp_conj [OF wp_RelayTimerConfiguration_result
          keepsD [OF keeps_fresh_RelayTimerConfiguration assms]]])
      (simp add: fail step2)
qed

lemma wp_sync_create_device:
  assumes "sync_fresh n s"
  shows "wp (sync_create_device e) (inserted_ok e n) s"
  unfolding sync_create_device_def synchronization_node_def
  using assms
  by (auto simp: wp_simps sync_fresh_def intro!: wp_out_fails wp_sync_configure)

lemma wp_Synchronization_initialize:
  "wp (Synchronization_initialize e) (inserted_ok e n) (sync_loaded n)"
  using sync_fresh_loaded [of n] unfolding Synchronization_initialize_def
  by (auto simp: wp_simps sync_fresh_def inserted_ok_def [of e n "sync_err x" for x]
      intro!: wp_out_fails wp_sync_create_device)

subsection \<open>The clocks\<close>

text \<open>
  The timers run from the system clock, which is 13 MHz at least on the board; the driver relies
  on 1 MHz when it divides by the clock in MHz.
\<close>

definition fast_clocks :: "kernel \<Rightarrow> bool" where
  "fast_clocks e \<longleftrightarrow> (\<forall>l t. 1000000 \<le> answer e l (KTimer (Clk_get_rate t)))"

abbreviation relay_fast :: "'a sync_state_scheme \<Rightarrow> bool" where
  "relay_fast s \<equiv> 1000000 \<le> m_uiRelayTimerInputClock s"

abbreviation pps_fast :: "'a sync_state_scheme \<Rightarrow> bool" where
  "pps_fast s \<equiv> 1000000 \<le> m_uiPpsTimerInputClock s"

lemmas clock_rules = keeps_return keeps_rd keeps_if keeps_case_option keeps_let keeps_for_each
  keeps_do_each keeps_kcall keeps_kdo keeps_bind keeps_wr

lemma keeps_pps_fast:
  "keeps pps_fast (omap_dm_timer_set_capture e t b u)"
  "keeps pps_fast (pps_timer_interrupt e t)"
  unfolding omap_dm_timer_set_capture_def omap_dm_timer_read_reg_def omap_dm_timer_write_reg_def
    pps_timer_interrupt_def out_pps_timer_unconfigure_def out_pps_timer_free_def
    out_pps_timer_unmux_def restore_pps_pin_def restore_register_def
  by (intro clock_rules; simp)+

lemma keeps_relay_fast:
  "keeps relay_fast (relay_timer_interrupt e t)"
  "keeps relay_fast (GpsSoftwareShutdownGpioConfiguration e)"
  "keeps relay_fast (PpsTimerConfiguration e)"
  unfolding relay_timer_interrupt_def out_relay_timer_unconfigure_def out_relay_timer_free_def
    GpsSoftwareShutdownGpioConfiguration_def out_gpio_free_def out_gpio_unmux_def
    restore_shutdown_pin_def PpsTimerConfiguration_def mux_pps_pin_def pps_timer_setup_def
    omap_dm_timer_set_capture_def omap_dm_timer_read_reg_def omap_dm_timer_write_reg_def
    pps_timer_interrupt_def out_pps_timer_unconfigure_def out_pps_timer_free_def
    out_pps_timer_unmux_def restore_pps_pin_def restore_register_def
  by (intro clock_rules; simp)+

lemma wp_RelayTimerConfiguration_fast:
  assumes "fast_clocks e"
  shows "wp (RelayTimerConfiguration e) (\<lambda>r s'. \<not> r <s 0 \<longrightarrow> relay_fast s') s"
proof -
  have rate: "1000000 \<le> r" if "resp e l (KTimer (Clk_get_rate t)) r" for l t r
    using that assms by (simp add: resp_def fast_clocks_def)
  have timer: "wp (relay_timer_setup e) (\<lambda>r s'. \<not> r <s 0 \<longrightarrow> relay_fast s') s" for s
    unfolding relay_timer_setup_def
    by (auto simp: wp_simps intro!: wp_out_labels
        wp_mono [OF keepsD [OF keeps_relay_fast(1)]] dest: rate)
  show ?thesis
    unfolding RelayTimerConfiguration_def by (auto simp: wp_simps timer)
qed

lemma wp_PpsTimerConfiguration_fast:
  assumes "fast_clocks e"
  shows "wp (PpsTimerConfiguration e) (\<lambda>r s'. \<not> r <s 0 \<longrightarrow> pps_fast s') s"
proof -
  have rate: "1000000 \<le> r" if "resp e l (KTimer (Clk_get_rate t)) r" for l t r
    using that assms by (simp add: resp_def fast_clocks_def)
  have timer: "wp (pps_timer_setup e) (\<lambda>r s'. \<not> r <s 0 \<longrightarrow> pps_fast s') s" for s
    unfolding pps_timer_setup_def
    by (auto simp: wp_simps intro!: wp_out_labels
        wp_mono [OF keepsD [OF keeps_pps_fast(1)]] wp_mono [OF keepsD [OF keeps_pps_fast(2)]]
        dest: rate)
  have mux: "wp (for_each is (mux_pps_pin e))
      (\<lambda>r _. case r of None \<Rightarrow> True | Some x \<Rightarrow> x <s 0) s" for "is" s
    by (rule wp_for_each [where I = "\<lambda>_ _. True"]) (simp_all add: mux_pps_pin_def wp_simps)
  show ?thesis
    unfolding PpsTimerConfiguration_def wp_bind
    by (rule wp_mono [OF mux]) (auto simp: wp_simps timer intro!: wp_out_labels)
qed

lemma keeps_clocked_start: "keeps clocked (sync_start e)"
  unfolding sync_start_def SetGpsStatus_def use_pointer_def
  by (intro clock_rules) (simp_all add: clocked_def)

definition fast_result :: "u32 \<Rightarrow> 'a sync_state_scheme \<Rightarrow> bool" where
  "fast_result r s \<longleftrightarrow> (\<not> r <s 0 \<longrightarrow> clocked s)"

lemma fast_result_err: "r <s 0 \<Longrightarrow> fast_result r s"
  by (simp add: fast_result_def)

lemma wp_sync_configure_fast:
  assumes "fast_clocks e"
  shows "wp (sync_configure e) fast_result s"
proof -
  have step3: "wp (PpsTimerConfiguration e \<bind> (\<lambda>iRet. if iRet <s 0 then out_proc_del e iRet
      else sync_start e \<bind> (\<lambda>_. ret iRet))) fast_result s" if "relay_fast s" for s :: "'a sync_state_scheme"
    unfolding wp_bind [of "PpsTimerConfiguration e"]
    by (rule wp_mono [OF wp_conj [OF wp_PpsTimerConfiguration_fast [OF assms]
          keepsD [OF keeps_relay_fast(3) that]]])
      (auto simp: wp_simps clocked_def fast_result_def
        intro!: wp_out_labels wp_mono [OF keepsD [OF keeps_clocked_start]])
  have step2: "wp (GpsSoftwareShutdownGpioConfiguration e \<bind> (\<lambda>iRet. if iRet <s 0
      then out_proc_del e iRet else PpsTimerConfiguration e \<bind> (\<lambda>iRet. if iRet <s 0
        then out_proc_del e iRet else sync_start e \<bind> (\<lambda>_. ret iRet)))) fast_result s"
    if "relay_fast s" for s :: "'a sync_state_scheme"
    unfolding wp_bind [of "GpsSoftwareShutdownGpioConfiguration e"]
    by (rule wp_mono [OF keepsD [OF keeps_relay_fast(2) that]])
      (auto simp: step3 intro!: wp_out_labels fast_result_err)
  show ?thesis
    unfolding sync_configure_def wp_bind [of "RelayTimerConfiguration e"]
    by (rule wp_mono [OF wp_RelayTimerConfiguration_fast [OF assms]])
      (auto simp: step2 intro!: wp_out_labels fast_result_err)
qed

lemma wp_Synchronization_initialize_fast:
  assumes "fast_clocks e"
  shows "wp (Synchronization_initialize e) fast_result s"
proof -
  have create: "wp (sync_create_device e) fast_result s" for s :: "'a sync_state_scheme"
    unfolding sync_create_device_def synchronization_node_def
    by (auto simp: wp_simps intro!: wp_out_labels wp_sync_configure_fast [OF assms] fast_result_err)
  show ?thesis
    unfolding Synchronization_initialize_def
    by (auto simp: wp_simps intro!: wp_out_labels create fast_result_err)
qed

section \<open>The invariant of the machine\<close>

text \<open>The undefined behaviour the driver may run into on a kernel: none when clocks and threads work.\<close>

definition sync_faults :: "kernel \<Rightarrow> ub set" where
  "sync_faults e = (if fast_clocks e then {} else {Division_by_zero}) \<union>
     (if threads_start e then {} else {Bad_pointer})"

lemma sync_faults_clocks: "Division_by_zero \<notin> sync_faults e \<longleftrightarrow> fast_clocks e"
  "Out_of_bounds \<notin> sync_faults e"
  by (simp_all add: sync_faults_def)

lemma sync_inserted_ok:
  assumes "sync_inserted e m"
  shows "sync_ok (sync_faults e) (drv m)"
proof -
  from assms obtain launch where
    r: "fst (run_state (Synchronization_initialize e) (sync_loaded launch)) = 0" and
    m: "drv m = snd (run_state (Synchronization_initialize e) (sync_loaded launch))"
    by (auto simp: sync_inserted_def)
  have "inserted_ok e launch 0 (drv m)"
    using wp_Synchronization_initialize [of e launch] r m by (simp add: wp_fst_snd)
  moreover have "fast_clocks e \<Longrightarrow> fast_result 0 (drv m)"
    using wp_Synchronization_initialize_fast [of e "sync_loaded launch"] r m by (simp add: wp_fst_snd)
  ultimately show ?thesis
    by (auto simp: inserted_ok_def fast_result_def sync_ok_def thread_faults_def sync_faults_def)
qed

lemma preempt_lines_total:
  "(\<And>i. i \<in> set is \<Longrightarrow> 0 \<le> i \<and> nat i < length tab) \<Longrightarrow> preempt_lines tab is \<noteq> None"
proof (induction "is")
  case (Cons i "is")
  from Cons.prems [of i] obtain l where "preempt_line tab i = Some l"
    by (auto simp: preempt_line_def)
  moreover from Cons.IH Cons.prems obtain ls where "preempt_lines tab is = Some ls" by auto
  ultimately show ?case by simp
qed simp

lemma preempt_indices_small:
  assumes c: "unat c = n" and n: "n \<le> 32"
  shows "preempt_indices c = rev [0..int n - 1] @ rev [int n..31]"
proof -
  have "sint (ucast (c - 1) :: 16 word) = int n - 1"
  proof (cases n)
    case 0
    have "sint (ucast (- 1 :: u32) :: 16 word) = - 1" by code_simp
    then show ?thesis using 0 c by (simp add: unat_eq_0)
  next
    case (Suc k)
    have "c = word_of_nat n" using c by auto
    then have "c - 1 = word_of_nat k" using Suc by simp
    moreover have "sint (ucast (word_of_nat k :: u32) :: 16 word) = int k"
      using n Suc by (simp add: signed_ucast_eq signed_take_bit_int_eq_self uint_nat unat_word_of_nat_u32)
    ultimately show ?thesis using Suc by simp
  qed
  moreover have "sint c = int n" using c n sint_u32_small [of c] by simp
  ultimately show ?thesis by (simp add: preempt_indices_def)
qed

lemma SynchronizationPreemptionTimeOutput_total:
  assumes "sync_inv s"
  shows "SynchronizationPreemptionTimeOutput s \<noteq> None"
proof -
  define n where "n = unat (m_uiLastUsedPreemptTimeValueTableCase s)"
  from assms have len: "length (m_iPreemptTimeValueTable s) = 32" and n: "n \<le> 32"
    by (simp_all add: sync_inv_def ring_ok_def n_def)
  have "preempt_lines (m_iPreemptTimeValueTable s) (rev [0..int n - 1] @ rev [int n..31]) \<noteq> None"
    by (rule preempt_lines_total) (use len n in auto)
  then show ?thesis
    using preempt_indices_small [OF n_def [symmetric] n]
    by (auto simp: SynchronizationPreemptionTimeOutput_def)
qed

lemma page_total: "sync_ok F s \<Longrightarrow> SynchronizationPreemptionTimeRead s a b d \<noteq> None"
  using SynchronizationPreemptionTimeOutput_total
  by (auto simp: SynchronizationPreemptionTimeRead_def sync_ok_def Let_def split: option.splits)

lemma sync_exec_ok:
  assumes "sync_ok F (drv m)" "sync_exec e ev m = Some m'"
  shows "sync_ok F (drv m')"
  by (rule sync_exec_keeps [OF assms(2), of "sync_ok F", OF assms(1)])
    (use page_total [OF assms(1)] in \<open>blast intro: sync_keeps\<close>)+

interpretation sync: step_system "sync_inserted e" "sync_step e" "\<lambda>m. sync_ok (sync_faults e) (drv m)"
  for e
  by unfold_locales (blast intro: sync_inserted_ok, simp add: sync_step_def sync_exec_ok)

end
