(* ===== verification/Board.thy ===== *)
theory Board
  imports Kernel
begin

text \<open>
  A concrete kernel for the witnesses of the properties: a board on which every call succeeds.
  Timers run at 13 MHz and their counters and capture registers advance by one second from one
  call to the next, registers behind \<open>ioremap\<close> keep what is written into them, and a handle is
  a number made from what was asked for.
\<close>

definition board_answer :: "event list \<Rightarrow> kcall \<Rightarrow> u32" where
  "board_answer l c = (case c of
     KTimer (Dm_request_specific n) \<Rightarrow> 0x1000 + n
   | KTimer (Dm_get_fclk t) \<Rightarrow> 1
   | KTimer (Clk_get_rate f) \<Rightarrow> 13000000
   | KTimer (Dm_get_irq t) \<Rightarrow> t
   | KTimer (Dm_read_counter t) \<Rightarrow> 13000000 * word_of_nat (length l)
   | KTimer (Dm_read t r p) \<Rightarrow> 13000000 * word_of_nat (length l)
   | KIo (Ioremap a n) \<Rightarrow> a
   | KIo (Ioread16 v) \<Rightarrow> ucast (reg_value (\<lambda>_. 0x010F) l v)
   | KDev Allocated_dev \<Rightarrow> 0x00F00000
   | KDev (Class_create n) \<Rightarrow> 0x2000
   | KDev (Device_create cl d n) \<Rightarrow> 0x3000
   | KDev (Create_proc_read_entry n) \<Rightarrow> 0x4000
   | KSched (Kthread_create n) \<Rightarrow> 0x5000
   | _ \<Rightarrow> 0)"

definition board :: kernel where
  "board = \<lparr>answer = board_answer,
     k_MAJOR = (\<lambda>d. d div 0x100000), k_MINOR = (\<lambda>d. d AND 0xFFFFF),
     k_MKDEV = (\<lambda>ma mi. ma * 0x100000 OR mi), k_IS_ERR = (\<lambda>p. 0xFFFFF001 \<le> p),
     k_ERESTARTSYS = 512, k_IRQF_DISABLED = 0x20, k_IRQF_TIMER = 0x200,
     k_TIMER_WAKEUP_EN_OFFSET = 0x20, k_TIMER_REG_OFFSET = (\<lambda>r. 0x24),
     k_CTRL_CAPTMODE = 0x2000, k_CTRL_GPOCFG = 0x4000, k_CTRL_TCM_LOWTOHIGH = 0x100,
     k_CTRL_TCM_HIGHTOLOW = 0x200, k_CTRL_TCM_BOTHEDGES = 0x300\<rparr>"

lemma board_simps [simp]:
  "answer board = board_answer"
  "k_MAJOR board d = d div 0x100000"
  "k_MINOR board d = d AND 0xFFFFF"
  "k_MKDEV board ma mi = (ma * 0x100000 OR mi)"
  "k_IS_ERR board p = (0xFFFFF001 \<le> p)"
  "k_ERESTARTSYS board = 512"
  by (simp_all add: board_def)

lemma board_register_file:
  "0 \<notin> A \<Longrightarrow> register_file board A id (\<lambda>_. 0x010F)"
  by (auto simp: register_file_def board_answer_def)

end
