(* ===== verification/Sync_Spec.thy ===== *)
theory Sync_Spec
  imports Sync_Machine Board
begin

text \<open>
  What the synchronization driver promises, above the code: the automaton its pulses step through,
  the holdover while the GPS is off, and the facts about the runs of the machine on which the
  properties in \<open>Sync_Props\<close> rest. \<open>board_machine\<close> is the driver as it is inserted on the board
  of the witnesses.
\<close>

section \<open>The automaton of the pulses\<close>

text \<open>
  A pulse is valid when the data supplied since the last one has a GPS fix; the automaton counts
  them up and down, and looks at nothing else of the data.
\<close>

definition count_pulse :: "bool \<Rightarrow> nat \<Rightarrow> nat" where
  "count_pulse ok n = (if ok then Suc n mod 2 ^ 32 else n - 1)"

fun pps_spec :: "bool \<Rightarrow> bool \<Rightarrow> driver_state \<times> nat \<Rightarrow> driver_state \<times> nat" where
  "pps_spec ok holdover (STATE_Initialization, n) = (STATE_Wait_for_Gps_Fixed, 0)"
| "pps_spec ok holdover (STATE_Wait_for_Gps_Fixed, n) =
     (if 16 \<le> count_pulse ok n then STATE_Gps_Fixed else STATE_Wait_for_Gps_Fixed,
      count_pulse ok n)"
| "pps_spec ok holdover (STATE_Gps_Fixed, n) =
     (if count_pulse ok n < 16 then STATE_Wait_for_Gps_Fixed
      else if holdover then STATE_Switch_Gps_to_Off else STATE_Gps_Fixed,
      count_pulse ok n)"
| "pps_spec ok holdover (STATE_Switch_Gps_to_Off, n) = (STATE_Gps_Off, n)"
| "pps_spec ok holdover (STATE_Gps_Off, n) = (STATE_Gps_Off, n)"
| "pps_spec ok holdover (STATE_Unknown k, n) = (STATE_Initialization, n)"

definition sync_abs :: "'a sync_state_scheme \<Rightarrow> driver_state \<times> nat" where
  "sync_abs s = (m_DriverCurrentState s, unat (m_uiTimerDriftCounter s))"

definition pulse_ok :: "'a sync_state_scheme \<Rightarrow> bool" where
  "pulse_ok s \<longleftrightarrow> m_bDataSupplied s = 1 \<and> valid_quality (m_oGpsTemporaryData s)"

definition holdover_ready :: "'a sync_state_scheme \<Rightarrow> bool" where
  "holdover_ready s \<longleftrightarrow> m_uiDriverRunningMode s = MODE3 \<and>
     m_uiPpsTimerInputClock s = m_uiRelayTimerInputClock s"

lemma sync_abs_log [simp]: "sync_abs (s\<lparr>klog := l\<rparr>) = sync_abs s"
  by (simp add: sync_abs_def)

lemma log_of_read_pps_counter: "keeps (log_of s) (read_pps_counter e)"
  unfolding read_pps_counter_def by (intro log_rules)

lemma log_of_read_relay_counter: "keeps (log_of s) (read_relay_counter e)"
  unfolding read_relay_counter_def by (intro log_rules)

lemma log_of_read_capture: "keeps (log_of s) (omap_dm_timer_read_capture e t r b)"
  unfolding omap_dm_timer_read_capture_def omap_dm_timer_read_reg_def by (intro log_rules)

lemma log_of_ComputeMicroSecond: "keeps (log_of s) (ComputeMicroSecond e t)"
  unfolding ComputeMicroSecond_def by (intro log_rules)

subsection \<open>Counting\<close>

lemma count_pulse_word:
  "unat (if ok then n + 1 else if 0 < n then n - 1 else 0) = count_pulse ok (unat (n :: u32))"
proof -
  have "unat (n + 1) = Suc (unat n) mod 2 ^ 32"
    using unat_word_ariths(1) [of n 1] by simp
  moreover have "0 < n \<Longrightarrow> unat (n - 1) = unat n - 1"
    by (simp add: unat_sub word_less_nat_alt word_le_nat_alt Suc_leI)
  moreover have "\<not> 0 < n \<Longrightarrow> unat n = 0"
    by (simp add: word_gt_0)
  ultimately show ?thesis by (simp add: count_pulse_def)
qed

lemma word_16_le: "(16 :: u32) \<le> n \<longleftrightarrow> 16 \<le> unat n"
  by (simp add: word_le_nat_alt)

lemma word_less_16: "n < (16 :: u32) \<longleftrightarrow> unat n < 16"
  by (simp add: word_less_nat_alt)

subsection \<open>The handler follows the automaton\<close>

text \<open>After the upload, supplied data is valid exactly when the official data is too.\<close>

definition uploaded :: "'a sync_state_scheme \<Rightarrow> 'a sync_state_scheme" where
  "uploaded s = (if m_bDataSupplied s = 1
     then s\<lparr>m_oGpsOfficialData := m_oGpsTemporaryData s\<rparr> else s)"

lemma upload_supplied_data_wp: "wp upload_supplied_data Q s = Q () (uploaded s)"
  by (simp add: upload_supplied_data_def uploaded_def wp_wr)

lemma valid_pulse_uploaded: "valid_pulse (uploaded s) = pulse_ok s"
  by (auto simp: valid_pulse_def uploaded_def pulse_ok_def)

lemma uploaded_frame [simp]:
  "m_uiTimerDriftCounter (uploaded s) = m_uiTimerDriftCounter s"
  "m_iPpsTimerErrorValueTable (uploaded s) = m_iPpsTimerErrorValueTable s"
  "m_uiLastUsedTimerErrorValueTableCase (uploaded s) = m_uiLastUsedTimerErrorValueTableCase s"
  "m_uiDriverRunningMode (uploaded s) = m_uiDriverRunningMode s"
  "m_uiPpsTimerInputClock (uploaded s) = m_uiPpsTimerInputClock s"
  "m_uiRelayTimerInputClock (uploaded s) = m_uiRelayTimerInputClock s"
  by (simp_all add: uploaded_def)

lemma counter_uploaded:
  "unat (m_uiTimerDriftCounter (add_quartz_error v (uploaded s))) =
     count_pulse (pulse_ok s) (unat (m_uiTimerDriftCounter s))"
  unfolding add_quartz_error_counter valid_pulse_uploaded uploaded_frame by (rule count_pulse_word)

lemma wp_pps_wait_abs:
  assumes "ring_ok 16 (quartz_table s)" "m_DriverCurrentState s = STATE_Wait_for_Gps_Fixed"
  shows "wp (pps_wait_for_gps_fixed e v)
    (\<lambda>_ s'. sync_abs s' = pps_spec (pulse_ok s) h (sync_abs s)) s"
  using assms
  by (simp add: pps_wait_for_gps_fixed_def upload_supplied_data_wp wp_bind
      wp_ComputeAndAddQuartzError_exact go_to_def wp_simps sync_abs_def word_16_le counter_uploaded)

lemma wp_pps_fixed_abs:
  assumes "ring_ok 16 (quartz_table s)" "m_DriverCurrentState s = STATE_Gps_Fixed"
  shows "wp (pps_gps_fixed e v)
    (\<lambda>_ s'. sync_abs s' = pps_spec (pulse_ok s) (holdover_ready s) (sync_abs s)) s"
  using assms
  by (simp add: pps_gps_fixed_def upload_supplied_data_wp wp_bind GetAverageQuartzError_def
      wp_ComputeAndAddQuartzError_exact go_to_def arm_relay_timer_def read_pps_counter_def
      wp_simps sync_abs_def word_less_16 counter_uploaded holdover_ready_def)

lemma wp_pps_state_machine_abs:
  assumes "sync_inv s"
  shows "wp (pps_state_machine e v)
    (\<lambda>_ s'. sync_abs s' = pps_spec (pulse_ok s) (holdover_ready s) (sync_abs s)) s"
proof -
  have ring: "ring_ok 16 (quartz_table s)" using assms by (simp add: sync_inv_def)
  show ?thesis
    unfolding pps_state_machine_def wp_bind wp_rd
    using wp_pps_wait_abs [OF ring] wp_pps_fixed_abs [OF ring]
    by (cases "m_DriverCurrentState s")
      (simp_all add: pps_initialization_def pps_switch_gps_to_off_def SetGpsStatus_def
        unlock_read_def go_to_def wp_simps sync_abs_def)
qed

lemma keeps_abs_epilogue: "keeps (\<lambda>s. sync_abs s = a) (pps_epilogue e v w)"
  unfolding pps_epilogue_def unlock_read_def store_preemption_time_def kdiv_def out_of_bounds_def
    case_prod_beta
  by (intro keeps_intros) (simp_all add: sync_abs_def)

lemma pulse_ok_log [simp]: "pulse_ok (s\<lparr>klog := l\<rparr>) = pulse_ok s"
  by (simp add: pulse_ok_def)

lemma holdover_ready_log [simp]: "holdover_ready (s\<lparr>klog := l\<rparr>) = holdover_ready s"
  by (simp add: holdover_ready_def)

lemma PpsTimerIrqHandler_abs:
  assumes "sync_inv s"
  shows "sync_abs (snd (run_state (PpsTimerIrqHandler e) s)) =
    pps_spec (pulse_ok s) (holdover_ready s) (sync_abs s)"
proof -
  let ?Q = "\<lambda>s'. sync_abs s' = pps_spec (pulse_ok s) (holdover_ready s) (sync_abs s)"
  have "wp (PpsTimerIrqHandler e) (\<lambda>_. ?Q) s"
    unfolding PpsTimerIrqHandler_def wp_bind
    apply (rule wp_log_only [OF log_of_read_pps_counter])
    apply (simp only: wp_rd)
    apply (rule wp_log_only [OF log_of_read_capture])
    apply (rule wp_mono)
     apply (rule wp_pps_state_machine_abs)
     apply (simp add: assms)
    apply (simp add: keepsD [OF keeps_abs_epilogue])
    done
  then show ?thesis by (simp add: wp_fst_snd)
qed

text \<open>Pulses change neither the mode nor the clocks, nor the off time.\<close>

lemma keeps_holdover_ready:
  "keeps (\<lambda>s. holdover_ready s = b \<and> m_uiGpsTimeToOff s = t) (PpsTimerIrqHandler e)"
  unfolding PpsTimerIrqHandler_def read_pps_counter_def omap_dm_timer_read_capture_def
    omap_dm_timer_read_reg_def pps_state_machine_def
    pps_initialization_def pps_wait_for_gps_fixed_def pps_gps_fixed_def pps_switch_gps_to_off_def
    upload_supplied_data_def ComputeAndAddQuartzError_def GetAverageQuartzError_def
    arm_relay_timer_def SetGpsStatus_def SecondIncrements_def unlock_read_def go_to_def
    pps_epilogue_def store_preemption_time_def kdiv_def out_of_bounds_def case_prod_beta
  by (intro keeps_intros) (simp_all add: holdover_ready_def)

section \<open>Supplying data\<close>

lemma pulse_uploads:
  assumes "sync_inv s" "m_bDataSupplied s = 1"
    and "m_DriverCurrentState s \<in> {STATE_Wait_for_Gps_Fixed, STATE_Gps_Fixed}"
  shows "m_oGpsOfficialData (snd (run_state (PpsTimerIrqHandler e) s)) = m_oGpsTemporaryData s \<and>
    m_bDataSupplied (snd (run_state (PpsTimerIrqHandler e) s)) = 0"
proof -
  have ring: "ring_ok 16 (quartz_table s)" using assms(1) by (simp add: sync_inv_def)
  have machine: "wp (pps_state_machine e v)
      (\<lambda>_ s'. m_oGpsOfficialData s' = m_oGpsTemporaryData s) (s\<lparr>klog := l\<rparr>)" for v l
    using assms(2,3) ring
    by (auto simp: pps_state_machine_def pps_wait_for_gps_fixed_def pps_gps_fixed_def wp_bind wp_rd
        upload_supplied_data_wp wp_ComputeAndAddQuartzError_exact go_to_def arm_relay_timer_def
        read_pps_counter_def GetAverageQuartzError_def wp_simps uploaded_def)
  have epilogue: "wp (pps_epilogue e v w)
      (\<lambda>_ s'. m_oGpsOfficialData s' = g \<and> m_bDataSupplied s' = 0) s"
    if "m_oGpsOfficialData s = g" for v w g and s :: "'a sync_state_scheme"
    using that
    by (auto simp: pps_epilogue_def unlock_read_def store_preemption_time_def wp_simps
        split: option.splits)
  have "wp (PpsTimerIrqHandler e)
      (\<lambda>_ s'. m_oGpsOfficialData s' = m_oGpsTemporaryData s \<and> m_bDataSupplied s' = 0) s"
    unfolding PpsTimerIrqHandler_def wp_bind
    apply (rule wp_log_only [OF log_of_read_pps_counter])
    apply (simp only: wp_rd)
    apply (rule wp_log_only [OF log_of_read_capture])
    apply simp
    apply (rule wp_mono [OF machine])
    apply (rule epilogue)
    apply assumption
    done
  then show ?thesis by (simp add: wp_fst_snd)
qed

text \<open>Documented behaviour of \<open>copy_from_user\<close> on a readable address: nothing is left uncopied.\<close>

definition copies_work :: "kernel \<Rightarrow> bool" where
  "copies_work e \<longleftrightarrow> (\<forall>l a n. answer e l (KUser (Copy_from_user a n)) = 0)"

definition supply_data :: "u32 \<Rightarrow> GpsData \<Rightarrow> sync_event" where
  "supply_data arg g = Ioctl_sync SYNC_IOCTL_SET_TEMPORARY_GPS_DATA arg g"

lemma run_supply_data:
  assumes "copies_work e"
  shows "\<exists>l. sync_exec e (supply_data arg g) m =
    Some (m\<lparr>drv := (drv m)\<lparr>klog := l, m_oGpsTemporaryData := g, m_bDataSupplied := 1\<rparr>\<rparr>)"
  using assms
  by (auto simp: supply_data_def sync_exec_def after_def Synchronization_ioctl_def copies_work_def
      sync_ioctl_set_temporary_def)

lemma exec_pulse: "sync_exec e Pps_pulse m = Some (after (PpsTimerIrqHandler e) m)"
  by (simp add: sync_exec_def)

lemma pulse_abs:
  "sync_inv (drv m) \<Longrightarrow> sync_abs (drv (after (PpsTimerIrqHandler e) m)) =
     pps_spec (pulse_ok (drv m)) (holdover_ready (drv m)) (sync_abs (drv m))"
  by (simp add: after_def PpsTimerIrqHandler_abs)

lemma sync_exec_inv: "sync_inv (drv m) \<Longrightarrow> sync_exec e ev m = Some m' \<Longrightarrow> sync_inv (drv m')"
  using sync_exec_ok [of UNIV m e ev m'] by (simp add: sync_ok_def)

lemma sync_reach_inv: "sync_reach e m \<Longrightarrow> sync_inv (drv m)"
  using sync.reach_inv [of e m] by (simp add: sync_ok_def)

text \<open>A second with valid data: the data arrives, then the pulse.\<close>

definition valid_second :: "u32 \<Rightarrow> GpsData \<Rightarrow> sync_event list" where
  "valid_second arg g = [supply_data arg g, Pps_pulse]"

lemma run_valid_second:
  assumes "copies_work e" "sync_inv (drv m)" "valid_quality g"
  shows "\<exists>m'. sync_runs e m (valid_second arg g) m' \<and> sync_inv (drv m') \<and>
    sync_abs (drv m') = pps_spec True (holdover_ready (drv m)) (sync_abs (drv m)) \<and>
    holdover_ready (drv m') = holdover_ready (drv m)"
proof -
  obtain m1 where m1: "sync_exec e (supply_data arg g) m = Some m1"
    and ok: "pulse_ok (drv m1)" and same: "sync_abs (drv m1) = sync_abs (drv m)"
      "holdover_ready (drv m1) = holdover_ready (drv m)"
    using run_supply_data [OF assms(1), of arg g m] assms(3)
    by (auto simp: pulse_ok_def sync_abs_def holdover_ready_def)
  have inv1: "sync_inv (drv m1)" using sync_exec_inv [OF assms(2) m1] .
  define m2 where "m2 = after (PpsTimerIrqHandler e) m1"
  have "sync_runs e m (valid_second arg g) m2"
    using m1 by (auto simp: valid_second_def sync_step_def exec_pulse m2_def intro!: runs.intros)
  moreover have "sync_inv (drv m2)" using sync_exec_inv [OF inv1 exec_pulse] by (simp add: m2_def)
  moreover have "sync_abs (drv m2) = pps_spec True (holdover_ready (drv m)) (sync_abs (drv m))"
    using pulse_abs [OF inv1, of e] ok same by (simp add: m2_def)
  moreover have "holdover_ready (drv m2) = holdover_ready (drv m)"
    using keeps_snd [OF keeps_holdover_ready, of "drv m1" "holdover_ready (drv m1)"
        "m_uiGpsTimeToOff (drv m1)" e] same
    by (simp add: m2_def after_def)
  ultimately show ?thesis by blast
qed

lemma runs_append: "runs st s vs s' \<Longrightarrow> runs st s' ws s'' \<Longrightarrow> runs st s (vs @ ws) s''"
  by (induction rule: runs.induct) (auto intro: runs.intros)

lemma run_valid_seconds:
  assumes "copies_work e" "\<forall>g \<in> set gs. valid_quality g"
  shows "sync_inv (drv m) \<Longrightarrow> sync_abs (drv m) = (STATE_Wait_for_Gps_Fixed, k) \<Longrightarrow> k < 16 \<Longrightarrow>
    k + length gs \<le> 16 \<Longrightarrow>
    \<exists>m'. sync_runs e m (concat (map (valid_second arg) gs)) m' \<and> sync_inv (drv m') \<and>
      sync_abs (drv m') = (if k + length gs < 16 then STATE_Wait_for_Gps_Fixed
                           else STATE_Gps_Fixed, k + length gs) \<and>
      holdover_ready (drv m') = holdover_ready (drv m)"
  using assms(2)
proof (induction gs arbitrary: m k)
  case Nil
  then show ?case by (auto intro!: exI [of _ m] runs.intros)
next
  case (Cons g gs)
  obtain m1 where m1: "sync_runs e m (valid_second arg g) m1" "sync_inv (drv m1)"
    and abs1: "sync_abs (drv m1) = pps_spec True (holdover_ready (drv m)) (sync_abs (drv m))"
    and ready1: "holdover_ready (drv m1) = holdover_ready (drv m)"
    using run_valid_second [OF assms(1) Cons.prems(1), of g arg] Cons.prems(5) by auto
  have count: "count_pulse True k = Suc k" using Cons.prems(3) by (simp add: count_pulse_def)
  show ?case
  proof (cases "Suc k < 16")
    case True
    then have "sync_abs (drv m1) = (STATE_Wait_for_Gps_Fixed, Suc k)"
      using abs1 Cons.prems(2) count by simp
    from Cons.IH [OF m1(2) this True] Cons.prems(4,5) obtain m' where
      "sync_runs e m1 (concat (map (valid_second arg) gs)) m'" "sync_inv (drv m')"
      "sync_abs (drv m') = (if Suc k + length gs < 16 then STATE_Wait_for_Gps_Fixed
                            else STATE_Gps_Fixed, Suc k + length gs)"
      "holdover_ready (drv m') = holdover_ready (drv m1)" by auto
    then show ?thesis using runs_append [OF m1(1)] ready1 by (auto intro!: exI [of _ m'])
  next
    case False
    then have k: "Suc k = 16" and gs: "gs = []"
      using Cons.prems(3,4) by (simp, cases gs) simp_all
    then have "sync_abs (drv m1) = (STATE_Gps_Fixed, 16)"
      using abs1 Cons.prems(2) count by simp
    then show ?thesis using m1 k gs ready1 by (auto intro!: exI [of _ m1])
  qed
qed

lemma run_to_gps_off:
  assumes "copies_work e" "valid_quality g" "sync_inv (drv m)"
    "sync_abs (drv m) = (STATE_Wait_for_Gps_Fixed, 0)" "holdover_ready (drv m)"
  shows "\<exists>m'. sync_runs e m (concat (map (valid_second arg) (replicate 17 g)) @ [Pps_pulse]) m' \<and>
    sync_inv (drv m') \<and> m_DriverCurrentState (drv m') = STATE_Gps_Off"
proof -
  obtain m1 where m1: "sync_runs e m (concat (map (valid_second arg) (replicate 16 g))) m1"
      "sync_inv (drv m1)" "sync_abs (drv m1) = (STATE_Gps_Fixed, 16)" "holdover_ready (drv m1)"
    using run_valid_seconds [OF assms(1) _ assms(3,4), of "replicate 16 g" arg] assms(2,5) by auto
  obtain m2 where m2: "sync_runs e m1 (valid_second arg g) m2" "sync_inv (drv m2)"
      "sync_abs (drv m2) = (STATE_Switch_Gps_to_Off, 17)"
    using run_valid_second [OF assms(1) m1(2) assms(2), of arg] m1(3,4)
    by (auto simp: count_pulse_def)
  let ?m3 = "after (PpsTimerIrqHandler e) m2"
  have step: "sync_runs e m2 [Pps_pulse] ?m3"
    by (auto simp: sync_step_def exec_pulse intro!: runs.intros)
  have "concat (map (valid_second arg) (replicate 17 g)) =
      concat (map (valid_second arg) (replicate 16 g)) @ valid_second arg g"
    using replicate_append_same [of 16 g]
    by (simp only: numeral_eq_Suc pred_numeral_simps BitM.simps replicate_Suc list.map
        concat.simps append_assoc append_Nil2 replicate_0 append_Nil)
  then have "sync_runs e m (concat (map (valid_second arg) (replicate 17 g)) @ [Pps_pulse]) ?m3"
    using runs_append [OF runs_append [OF m1(1) m2(1)] step] by simp
  moreover have "sync_inv (drv ?m3)" by (rule sync_exec_inv [OF m2(2) exec_pulse])
  moreover have "m_DriverCurrentState (drv ?m3) = STATE_Gps_Off"
    using pulse_abs [OF m2(2), of e] m2(3) by (simp add: sync_abs_def)
  ultimately show ?thesis by blast
qed

section \<open>Holdover\<close>

text \<open>
  What one overflow of the relay timer does while the GPS is off: a second more, one less of the
  time left, and the GPS on when nothing is left.
\<close>

definition holdover_abs :: "'a sync_state_scheme \<Rightarrow> u32 \<times> u32 \<times> u32" where
  "holdover_abs s = (oTimeTTimeInSeconds (m_oGpsOfficialData s), m_uiRelayTimerLeftTime s,
     m_bGpsStatus s)"

fun holdover_spec :: "u32 \<times> u32 \<times> u32 \<Rightarrow> u32 \<times> u32 \<times> u32" where
  "holdover_spec (t, l, g) = (t + 1, l - 1, if l - 1 = 0 then 1 else g)"

lemma holdover_abs_log [simp]: "holdover_abs (s\<lparr>klog := l\<rparr>) = holdover_abs s"
  by (simp add: holdover_abs_def)

lemma wp_relay_second_off:
  assumes "m_DriverCurrentState s = STATE_Gps_Off"
  shows "wp (relay_second e) (\<lambda>_ s'. holdover_abs s' = holdover_spec (holdover_abs s) \<and>
    m_DriverCurrentState s' = STATE_Gps_Off) s"
  using assms
  by (simp add: relay_second_def SetGpsStatus_def unlock_read_def go_to_def wp_simps
      holdover_abs_def word_gt_0)

lemma keeps_relay_rest:
  "keeps (\<lambda>s. holdover_abs s = a \<and> m_DriverCurrentState s = st) (relay_diff_pps e x y)"
  "keeps (\<lambda>s. holdover_abs s = a \<and> m_DriverCurrentState s = st) (store_preemption_time e x)"
  "keeps (\<lambda>s. holdover_abs s = a \<and> m_DriverCurrentState s = st) (kdiv e x y)"
  unfolding relay_diff_pps_def read_relay_counter_def store_preemption_time_def kdiv_def
    out_of_bounds_def case_prod_beta
  by (intro keeps_intros; simp add: holdover_abs_def)+

lemma RelayTimerIrqHandler_off:
  assumes "m_DriverCurrentState s = STATE_Gps_Off"
  shows "wp (RelayTimerIrqHandler e) (\<lambda>_ s'. holdover_abs s' = holdover_spec (holdover_abs s) \<and>
    m_DriverCurrentState s' = STATE_Gps_Off) s"
    (is "wp _ (\<lambda>_. ?Q) s")
proof -
  have rest: "keeps ?Q (do { s \<leftarrow> rd id;
      relay_diff_pps e (p - (v - m_uiTimerReloadValue s)) c;
      wr (\<lambda>s. s\<lparr>m_bDataSupplied := 0\<rparr>);
      ms \<leftarrow> kdiv e (v - m_uiTimerReloadValue s) (m_uiRelayTimerInputClock s div 1000000);
      store_preemption_time e ms;
      wr (\<lambda>s. s\<lparr>relay_irq_count := relay_irq_count s + 1\<rparr>) })" for p v c
    by (intro keeps_relay_rest keeps_bind keeps_rd keeps_wr) (simp_all add: holdover_abs_def)
  show ?thesis
    unfolding RelayTimerIrqHandler_def wp_bind
    apply (rule wp_log_only [OF log_of_read_relay_counter])
    apply (rule wp_log_only [OF log_of_read_pps_counter])
    apply (simp only: wp_rd)
    apply (rule wp_log_only [OF log_of_read_capture])
    apply (simp only: wp_rd)
    apply (rule wp_log_only [OF log_of_kdo])
    apply (rule wp_log_only [OF log_of_kdo])
    apply (rule wp_mono)
     apply (rule wp_relay_second_off)
     apply (simp add: assms)
    apply (rule keepsD [OF rest, unfolded wp_bind])
    apply simp
    done
qed

text \<open>The overflows it takes to switch the GPS on again; 0 seconds wrap to \<open>2 ^ 32\<close>.\<close>

definition overflows_left :: "u32 \<Rightarrow> nat" where
  "overflows_left l = (if l = 0 then 2 ^ 32 else unat l)"

lemma overflows_left_pos: "0 < overflows_left l"
  by (simp add: overflows_left_def unat_gt_0)

lemma holdover_last:
  assumes "n < overflows_left l"
  shows "l - word_of_nat n - 1 = 0 \<longleftrightarrow> Suc n = overflows_left l"
proof -
  have "l - word_of_nat n - 1 = 0 \<longleftrightarrow> l = word_of_nat (Suc n)"
    by (simp only: right_minus_eq diff_eq_eq of_nat_Suc add_0_left)
  also have "\<dots> \<longleftrightarrow> Suc n = overflows_left l"
  proof (cases "l = 0")
    case True
    have "(word_of_nat (Suc n) :: u32) = 0 \<longleftrightarrow> 2 ^ 32 dvd Suc n"
      by (simp only: word_of_nat_eq_0_iff) simp
    also have "\<dots> \<longleftrightarrow> Suc n = 2 ^ 32"
      using assms True by (auto simp: overflows_left_def dest: dvd_imp_le)
    finally show ?thesis using True by (auto simp: overflows_left_def)
  next
    case False
    then have n: "Suc n \<le> unat l" using assms by (simp add: overflows_left_def)
    then have "unat (word_of_nat (Suc n) :: u32) = Suc n"
      using unat_u32_less [of l] by (intro unat_word_of_nat_u32) simp
    then show ?thesis using False n by (auto simp: overflows_left_def simp del: of_nat_Suc)
  qed
  finally show ?thesis .
qed

lemma holdover_iterate:
  "(holdover_spec ^^ n) (t, l, g) =
     (t + word_of_nat n, l - word_of_nat n, if n < overflows_left l then g else 1)"
proof (induction n)
  case 0
  then show ?case using overflows_left_pos [of l] by simp
next
  case (Suc n)
  then show ?case
    using holdover_last [of n l] by (auto simp: algebra_simps)
qed

lemma run_overflows:
  "m_DriverCurrentState (drv m) = STATE_Gps_Off \<Longrightarrow>
   \<exists>m'. sync_runs e m (replicate n Relay_overflow) m' \<and>
     m_DriverCurrentState (drv m') = STATE_Gps_Off \<and>
     holdover_abs (drv m') = (holdover_spec ^^ n) (holdover_abs (drv m))"
proof (induction n arbitrary: m)
  case 0
  then show ?case by (auto intro!: exI [of _ m] runs.intros)
next
  case (Suc n)
  let ?m1 = "after (RelayTimerIrqHandler e) m"
  have step: "sync_step e m Relay_overflow ?m1" by (simp add: sync_step_def sync_exec_def)
  have "m_DriverCurrentState (drv ?m1) = STATE_Gps_Off"
    and eq: "holdover_abs (drv ?m1) = holdover_spec (holdover_abs (drv m))"
    using RelayTimerIrqHandler_off [OF Suc.prems, of e] by (simp_all add: wp_fst_snd after_def)
  from Suc.IH [OF this(1)] obtain m' where m': "sync_runs e ?m1 (replicate n Relay_overflow) m'"
      "m_DriverCurrentState (drv m') = STATE_Gps_Off"
      "holdover_abs (drv m') = (holdover_spec ^^ n) (holdover_abs (drv ?m1))" by blast
  have "sync_runs e m (replicate (Suc n) Relay_overflow) m'"
    unfolding replicate_Suc by (rule runs_Cons) (rule step, rule m')
  then show ?case using m' eq by (auto simp: funpow_swap1 intro!: exI [of _ m'])
qed

subsection \<open>The GPS stays off\<close>

abbreviation gps_off :: "'a sync_state_scheme \<Rightarrow> bool" where
  "gps_off s \<equiv> m_DriverCurrentState s = STATE_Gps_Off"

lemma keeps_gps_off_pulse: "sync_inv s \<Longrightarrow> gps_off s \<Longrightarrow>
    gps_off (snd (run_state (PpsTimerIrqHandler e) s))"
  using PpsTimerIrqHandler_abs [of s e] by (simp add: sync_abs_def)

lemma keeps_gps_off_read:
  "keeps gps_off (Synchronization_read e b n)"
  "keeps gps_off (Synchronization_read_woken e b)"
  "keeps gps_off (Synchronization_poll e)"
  unfolding Synchronization_read_def Synchronization_read_woken_def sync_read_unlocked_def
    sync_send_def Synchronization_poll_def
  by (intro keeps_intros; simp)+

lemma keeps_gps_off_ioctl: "keeps gps_off (Synchronization_ioctl e cmd arg g)"
  unfolding Synchronization_ioctl_def put_user_def
    sync_ioctl_get_official_def EXPORT_GD_DATA_FROM_SYNCHONIZATION_DRIVER_def
    ComputeMicroSecond_def kdiv_def sync_ioctl_set_temporary_def sync_ioctl_set_mode_def
    sync_ioctl_set_off_time_def
  by (intro keeps_intros) simp_all

lemma keeps_gps_off_check: "keeps gps_off (SecondsIncrementsVerificationFunction e pc)"
  unfolding SecondsIncrementsVerificationFunction_def check_data_supplied_def check_loop_def
  by (cases pc) (simp_all, (intro keeps_intros; simp)+)

lemma gps_off_step:
  assumes "sync_ok F (drv m)" "gps_off (drv m)" "sync_step e m ev m'"
  shows "gps_off (drv m')"
proof -
  have inv: "sync_inv (drv m)" using assms(1) by (simp add: sync_ok_def)
  have pair: "gps_off s" if "keeps gps_off f" "run_state f (drv m) = (r, s)"
    for f :: "(sync_state, 'r) state" and r s
    using keeps_run [OF that(1) assms(2) that(2)] .
  have fops: "gps_off (snd (run_state f (drv m)))" if "keeps gps_off f"
    for f :: "(sync_state, 'r) state"
    by (rule keeps_snd [OF that assms(2)])
  have relay: "gps_off (snd (run_state (RelayTimerIrqHandler e) (drv m)))"
    using RelayTimerIrqHandler_off [OF assms(2), of e] by (simp add: wp_fst_snd)
  show ?thesis
    using assms(2,3) keeps_gps_off_pulse [OF inv assms(2)] relay
    by (cases ev)
      (auto simp: sync_step_def sync_exec_def after_def out_of_bounds_def Synchronization_open_def
        Synchronization_close_def Synchronization_write_def fops [OF keeps_gps_off_read(2)]
        fops [OF keeps_gps_off_read(3)] fops [OF keeps_gps_off_ioctl]
        split: prod.splits read_result.splits if_splits option.splits
        dest: pair [OF keeps_gps_off_read(1)] pair [OF keeps_gps_off_check])
qed

section \<open>The page in \<open>/proc\<close>\<close>

definition page_line :: "u32 list \<Rightarrow> nat \<Rightarrow> string" where
  "page_line tab i = CHR 0x09 # ''Value '' @ percent_d 3 (int i + 1) @ '' : '' @
     percent_d 4 (sint (tab ! i)) @ '' micro-seconds'' @ [CHR 0x0A]"

definition page_header :: string where
  "page_header = CHR 0x0A # ''Preemption Time array : (32 values, last value on the top)'' @
     [CHR 0x0A, CHR 0x0A]"

text \<open>The cells of the buffer in the order of the page, the last one written first.\<close>

definition newest_first :: "nat \<Rightarrow> nat list" where
  "newest_first n = rev [0..<n] @ rev [n..<32]"

lemma map_int_upt: "map int [m..<n] = [int m..int n - 1]"
proof (induction n)
  case 0
  then show ?case by simp
next
  case (Suc n)
  then show ?case
    by (cases "m \<le> n") (simp_all add: upto_rec2 [of "int m" "int n"])
qed

lemma preempt_lines_page:
  "\<forall>i \<in> set is. i < length tab \<Longrightarrow>
     preempt_lines tab (map int is) = Some (concat (map (page_line tab) is))"
  by (induction "is") (auto simp: preempt_line_def page_line_def)

lemma dec_32: "dec 32 = ''32''"
  by code_simp

lemma SynchronizationPreemptionTimeOutput_page:
  assumes "sync_inv s"
  defines "n \<equiv> unat (m_uiLastUsedPreemptTimeValueTableCase s)"
  shows "SynchronizationPreemptionTimeOutput s =
    Some (page_header @
      concat (map (page_line (m_iPreemptTimeValueTable s)) (newest_first n)) @
      [CHR 0x0A, CHR 0x0A])"
proof -
  from assms have len: "length (m_iPreemptTimeValueTable s) = 32" and n: "n \<le> 32"
    by (simp_all add: sync_inv_def ring_ok_def)
  have "preempt_indices (m_uiLastUsedPreemptTimeValueTableCase s) = map int (newest_first n)"
    using preempt_indices_small [of "m_uiLastUsedPreemptTimeValueTableCase s" n] n map_int_upt [of 0 n] map_int_upt [of n 32]
    by (simp add: newest_first_def rev_map [symmetric] n_def)
  moreover have "\<forall>i \<in> set (newest_first n). i < length (m_iPreemptTimeValueTable s)"
    using len n by (auto simp: newest_first_def)
  ultimately show ?thesis
    by (simp add: SynchronizationPreemptionTimeOutput_def preempt_lines_page page_header_def dec_32)
qed

lemma length_dec: "n < 10 ^ Suc k \<Longrightarrow> length (dec n) \<le> Suc k"
proof (induction k arbitrary: n)
  case 0
  then show ?case by (simp add: dec.simps [of n])
next
  case (Suc k)
  show ?case
  proof (cases "n < 10")
    case True
    then show ?thesis by (simp add: dec.simps [of n])
  next
    case False
    have "n div 10 < 10 ^ Suc k" using Suc.prems by (simp add: less_mult_imp_div_less mult.commute)
    then have "length (dec (n div 10)) \<le> Suc k" by (rule Suc.IH)
    then show ?thesis using False by (simp add: dec.simps [of n])
  qed
qed

lemma length_page_line:
  assumes "i < 32"
  shows "length (page_line tab i) \<le> 39"
proof -
  have "length (dec (i + 1)) \<le> Suc 1" using assms by (intro length_dec) simp
  then have a: "length (percent_d 3 (int i + 1)) \<le> 3"
    by (simp add: percent_d_def pad_def nat_add_distrib)
  have "nat \<bar>sint (tab ! i)\<bar> < 10 ^ Suc 9"
    using sint_ge [of "tab ! i"] sint_lt [of "tab ! i"] by simp
  then have "length (dec (nat \<bar>sint (tab ! i)\<bar>)) \<le> Suc 9" by (rule length_dec)
  then have b: "length (percent_d 4 (sint (tab ! i))) \<le> 11"
    by (cases "sint (tab ! i) < 0") (auto simp: percent_d_def pad_def)
  show ?thesis using a b by (simp add: page_line_def)
qed

lemma page_fits:
  assumes "sync_inv s" "SynchronizationPreemptionTimeOutput s = Some page"
  shows "length page \<le> 1313"
proof -
  define n where "n = unat (m_uiLastUsedPreemptTimeValueTableCase s)"
  have n: "n \<le> 32" using assms(1) by (simp add: sync_inv_def ring_ok_def n_def)
  have "length (concat (map f is)) \<le> 39 * length is"
    if "\<forall>i \<in> set is. length (f i) \<le> 39" for f :: "nat \<Rightarrow> string" and "is"
    using that by (induction "is") auto
  from this [of "newest_first n" "page_line (m_iPreemptTimeValueTable s)"]
  have "length (concat (map (page_line (m_iPreemptTimeValueTable s)) (newest_first n))) \<le> 39 * 32"
    using length_page_line n by (simp add: newest_first_def ball_Un)
  then show ?thesis
    using assms(2) SynchronizationPreemptionTimeOutput_page [OF assms(1)]
    by (auto simp: n_def [symmetric] page_header_def)
qed

section \<open>Storing preemption times\<close>

lemma stores_history:
  assumes "ring_ok 32 (preempt_table s)"
  shows "preempt_ring.history (preempt_table (snd (run_state (do_each vs (store_preemption_time e)) s)))
      = take 32 (rev vs @ preempt_ring.history (preempt_table s))"
proof -
  have "preempt_table (snd (run_state (do_each vs (store_preemption_time e)) s)) =
      foldl (push32 32) (preempt_table s) vs"
    using assms
  proof (induction vs arbitrary: s)
    case (Cons v vs)
    let ?s = "snd (run_state (store_preemption_time e v) s)"
    have "preempt_table ?s = push32 32 (preempt_table s) v"
      by (simp add: run_store_preemption_time [OF Cons.prems] Let_def)
    moreover from this have "ring_ok 32 (preempt_table ?s)"
      using ring_ok_push32 [OF Cons.prems, of v] by simp
    ultimately show ?case using Cons.IH [of ?s] by (simp add: case_prod_beta)
  qed simp
  then show ?thesis using preempt_ring.history_pushes [OF assms] by simp
qed

end
