(* ===== verification/Sync_Resources.thy ===== *)
theory Sync_Resources
  imports Sync_Spec
begin

text \<open>
  What the synchronization driver takes from the kernel and gives back: insertion, any run of the
  inserted driver and removal balance, the failing insertions that do not, and the relay timer that
  removal forgets to stop.
\<close>

section \<open>What the driver relies on\<close>

text \<open>
  Documented behaviour of the timer and gpio calls: a timer's interrupt is a function of the timer,
  the two timers are different, and \<open>gpio_request\<close> returns 0 or a negative number.
\<close>

definition orderly :: "kernel \<Rightarrow> (u32 \<Rightarrow> u32) \<Rightarrow> bool" where
  "orderly e irq_of \<longleftrightarrow>
     (\<forall>l t. answer e l (KTimer (Dm_get_irq t)) = irq_of t) \<and>
     (\<forall>l l'. answer e l (KTimer (Dm_request_specific m_uiPpsTimerNumber)) \<noteq>
        answer e l' (KTimer (Dm_request_specific m_uiRelayTimerNumber))) \<and>
     (\<forall>l n name. \<not> answer e l (KGpio (Gpio_request n name)) <s 0 \<longrightarrow>
        answer e l (KGpio (Gpio_request n name)) = 0)"

lemma orderly_irq: "orderly e irq_of \<Longrightarrow> resp e l (KTimer (Dm_get_irq t)) r \<Longrightarrow> r = irq_of t"
  by (simp add: orderly_def resp_def)

lemma orderly_timers:
  "orderly e irq_of \<Longrightarrow> resp e l (KTimer (Dm_request_specific m_uiPpsTimerNumber)) r \<Longrightarrow>
     resp e l' (KTimer (Dm_request_specific m_uiRelayTimerNumber)) r' \<Longrightarrow> r \<noteq> r'"
  by (auto simp: orderly_def resp_def)

section \<open>Calls that move no resource\<close>

text \<open>\<open>holding e R B s\<close>: the resources held are \<open>R\<close> and the wrong releases so far \<open>B\<close>.\<close>

definition holding ::
    "kernel \<Rightarrow> resource set \<Rightarrow> resource list \<Rightarrow> 'a kstate_scheme \<Rightarrow> bool" where
  "holding e R B s \<longleftrightarrow> held e (klog s) = R \<and> bad_releases e (klog s) = B"

definition neutral :: "kcall \<Rightarrow> bool" where
  "neutral c \<longleftrightarrow> (case c of
     KGpio (Gpio_request n l) \<Rightarrow> False | KGpio (Gpio_free n) \<Rightarrow> False
   | KIrq i \<Rightarrow> False
   | KTimer (Dm_request_specific n) \<Rightarrow> False | KTimer (Dm_free t) \<Rightarrow> False
   | KDev d \<Rightarrow> (case d of Printk_synchronization_error a b \<Rightarrow> True | Cdev_init \<Rightarrow> True
               | Allocated_dev \<Rightarrow> True | _ \<Rightarrow> False)
   | KSched (Kthread_create n) \<Rightarrow> False | KSched (Kthread_stop n) \<Rightarrow> False
   | KIo (Ioremap a n) \<Rightarrow> False | KIo (Iounmap v) \<Rightarrow> False
   | KMem m \<Rightarrow> False | KLock x \<Rightarrow> False | KSpi x \<Rightarrow> False
   | KDma x \<Rightarrow> False | KPlat x \<Rightarrow> False
   | _ \<Rightarrow> True)"

lemma neutral_event:
  assumes "neutral c"
  shows "acquired e (c, r) = None" "released (c, r) = None"
  using assms
  by (auto simp: neutral_def split: kcall.splits io_call.splits gpiolib_call.splits
      sched_call.splits timer_call.splits dev_call.splits irq_call.splits
      mem_call.splits lock_call.splits spi_call.splits reg_call.splits dma_call.splits
      plat_call.splits)

lemma holding_neutral:
  "neutral c \<Longrightarrow> holding e R B s \<Longrightarrow> holding e R B (s\<lparr>klog := klog s @ [(c, r)]\<rparr>)"
  by (simp add: holding_def held_step_def neutral_event del: acquired_pair released_pair)

lemma keeps_holding_kcall: "neutral c \<Longrightarrow> keeps (holding e R B) (kcall e c)"
  by (rule keeps_kcall) (rule holding_neutral)

lemma keeps_holding_kdo: "neutral c \<Longrightarrow> keeps (holding e R B) (kdo e c)"
  by (rule keeps_kdo) (rule holding_neutral)

lemma orderly_gpio: "orderly e irq_of \<Longrightarrow> resp e l (KGpio (Gpio_request n x)) r \<Longrightarrow> \<not> r <s 0 \<Longrightarrow> r = 0"
  by (simp add: orderly_def resp_def)

section \<open>Insertion\<close>

lemma mux_pps_pin_result:
  "wp (mux_pps_pin e i) (\<lambda>r _. case r of None \<Rightarrow> True | Some x \<Rightarrow> x <s 0) s"
  by (simp add: mux_pps_pin_def wp_simps)

definition no_maps :: "resource set \<Rightarrow> bool" where
  "no_maps R \<longleftrightarrow> (\<forall>a. Mapping a \<notin> R)"

lemma no_maps_insert [simp]:
  "no_maps (insert x R) \<longleftrightarrow> (\<forall>a. x \<noteq> Mapping a) \<and> no_maps R" "no_maps {}"
  by (auto simp: no_maps_def)

lemma keeps_holding_restore_register:
  "no_maps R \<Longrightarrow> keeps (holding e R B) (restore_register e a v)"
  by (rule keepsI)
    (auto simp: restore_register_def wp_simps holding_def held_step_def no_maps_def)

lemma keeps_holding_mux_pps_pin: "no_maps R \<Longrightarrow> keeps (holding e R B) (mux_pps_pin e i)"
  by (rule keepsI)
    (auto simp: mux_pps_pin_def wp_simps holding_def held_step_def no_maps_def)

lemma keeps_holding_restore_pps_pin: "no_maps R \<Longrightarrow> keeps (holding e R B) (restore_pps_pin e i)"
  unfolding restore_pps_pin_def by (intro keeps_bind keeps_rd keeps_holding_restore_register)

text \<open>The handles the driver keeps besides the two timers.\<close>

definition device_handles :: "'a sync_state_scheme \<Rightarrow> u32 \<times> u32 \<times> u32 \<times> u32 \<times> u32" where
  "device_handles s = (m_oSynchronizationDev s, m_pSynchronizationClass s,
     m_uiSynchronizationMajor s, m_uiSynchronizationMinor s, m_bThreadLaunching s)"

lemma device_handles_log [simp]: "device_handles (s\<lparr>klog := l\<rparr>) = device_handles s"
  by (simp add: device_handles_def)

definition relay_hold where
  "relay_hold e B R t h s \<longleftrightarrow> holding e R B s \<and> m_pRelayTimerStruct s = t \<and> device_handles s = h"

definition pps_hold where
  "pps_hold e B R t u h s \<longleftrightarrow> relay_hold e B R u h s \<and> m_pPpsTimerStruct s = t"

lemmas hold_defs = pps_hold_def relay_hold_def device_handles_def

lemma keeps_hold_kcall:
  "neutral c \<Longrightarrow> keeps (relay_hold e B R u h) (kcall e c)"
  "neutral c \<Longrightarrow> keeps (pps_hold e B R t u h) (kcall e c)"
  by (rule keeps_kcall, simp add: hold_defs holding_neutral)+

lemma keeps_hold_kdo:
  "neutral c \<Longrightarrow> keeps (relay_hold e B R u h) (kdo e c)"
  "neutral c \<Longrightarrow> keeps (pps_hold e B R t u h) (kdo e c)"
  by (rule keeps_kdo, simp add: hold_defs holding_neutral)+

lemma keeps_hold_clocks:
  "keeps (pps_hold e B R t u h) (wr (\<lambda>s. s\<lparr>m_uiPpsTimerInputClock := x\<rparr>))"
  "keeps (relay_hold e B R u h) (wr (\<lambda>s. s\<lparr>m_uiRelayTimerInputClock := x\<rparr>))"
  by (rule keeps_wr, simp add: hold_defs holding_def)+

lemma keeps_pps_hold_set_capture:
  "keeps (pps_hold e B R t u h) (omap_dm_timer_set_capture e t' b v)"
  unfolding omap_dm_timer_set_capture_def omap_dm_timer_read_reg_def omap_dm_timer_write_reg_def
  by (intro keeps_return keeps_if keeps_let keeps_bind keeps_hold_kcall keeps_hold_kdo)
    (simp_all add: neutral_def)

lemma keeps_hold_mux_pps_pin: "no_maps R \<Longrightarrow> keeps (relay_hold e B R u h) (mux_pps_pin e i)"
  by (rule keepsI)
    (auto simp: mux_pps_pin_def wp_simps hold_defs holding_def held_step_def no_maps_def)

subsection \<open>The capture timer\<close>

definition pps_held where
  "pps_held e irq_of R u h r s \<longleftrightarrow> r <s 0 \<or>
     (\<exists>t. pps_hold e [] (insert (Irq_line (irq_of t) 8) (insert (Dm_timer t) R)) t u h s \<and>
        (\<exists>l. resp e l (KTimer (Dm_request_specific m_uiPpsTimerNumber)) t))"

lemma pps_held_err [simp]: "pps_held e irq_of R u h (sync_err x) s"
  by (simp add: pps_held_def)

lemma wp_pps_timer_interrupt_hold:
  assumes "orderly e irq_of" "pps_hold e [] (insert (Dm_timer t) R) t u h s"
    and "resp e l (KTimer (Dm_request_specific m_uiPpsTimerNumber)) t"
  shows "wp (pps_timer_interrupt e t) (pps_held e irq_of R u h) s"
  using assms(2,3) orderly_irq [OF assms(1)] unfolding pps_timer_interrupt_def
  by (auto simp: wp_simps hold_defs holding_def held_step_def m_uiPpsTimerNumber_def
      pps_held_def [of _ _ _ _ _ 0] intro!: wp_out_labels)

lemma wp_pps_timer_setup_hold:
  assumes "orderly e irq_of" "pps_hold e [] (insert (Dm_timer t) R) t u h s"
    and "resp e l (KTimer (Dm_request_specific m_uiPpsTimerNumber)) t"
  shows "wp (pps_timer_setup e) (pps_held e irq_of R u h) s"
proof -
  have start: "wp (rd m_pPpsTimerStruct) (\<lambda>r s'. r = t \<and> s' = s) s"
    using assms(2) by (simp add: wp_rd pps_hold_def)
  show ?thesis
    unfolding pps_timer_setup_def wp_bind [of "rd m_pPpsTimerStruct"]
    by (rule wp_mono [OF start], clarify)
      (intro wp_ifI wp_keeps_bind [where I = "pps_hold e [] (insert (Dm_timer t) R) t u h"]
        keeps_hold_kcall keeps_pps_hold_set_capture keeps_hold_clocks wp_out_labels
        wp_pps_timer_interrupt_hold [OF assms(1) _ assms(3)] assms(2); simp add: neutral_def)
qed

lemma wp_PpsTimerConfiguration_hold:
  assumes "orderly e irq_of" "no_maps R" "relay_hold e [] R u h s"
  shows "wp (PpsTimerConfiguration e) (pps_held e irq_of R u h) s"
proof -
  have mux: "wp (for_each is (mux_pps_pin e)) (\<lambda>r s. relay_hold e [] R u h s \<and>
      (case r of None \<Rightarrow> True | Some x \<Rightarrow> x <s 0)) s"
    if "relay_hold e [] R u h s" for "is" and s :: "'a sync_state_scheme"
    by (rule wp_for_each [where I = "\<lambda>_. relay_hold e [] R u h"], rule that,
        rule wp_mono [OF wp_conj [OF keepsD [OF keeps_hold_mux_pps_pin [OF assms(2)]]
          mux_pps_pin_result]])
      (auto split: option.splits)
  have request: "pps_hold e [] (insert (Dm_timer t) R) t u h (s\<lparr>klog := klog s @
      [(KTimer (Dm_request_specific m_uiPpsTimerNumber), t)], m_pPpsTimerStruct := t\<rparr>)"
    if "relay_hold e [] R u h s" "t \<noteq> 0" for t and s :: "'a sync_state_scheme"
    using that by (simp add: hold_defs holding_def held_step_def)
  show ?thesis
    unfolding PpsTimerConfiguration_def wp_bind [of "for_each _ _"]
    by (rule wp_mono [OF mux [OF assms(3)]])
      (auto simp: wp_bind wp_kcall wp_wr wp_return pps_held_def [of _ _ _ _ _ r for r] split: option.splits
        intro!: wp_ifI wp_out_labels wp_pps_timer_setup_hold [OF assms(1) request])
qed

subsection \<open>The relay timer and the shutdown line\<close>

definition relay_held where
  "relay_held e irq_of R h r s \<longleftrightarrow> r <s 0 \<or>
     (\<exists>u. relay_hold e [] (insert (Irq_line (irq_of u) 11) (insert (Dm_timer u) R)) u h s \<and>
        (\<exists>l. resp e l (KTimer (Dm_request_specific m_uiRelayTimerNumber)) u))"

lemma relay_held_err [simp]: "relay_held e irq_of R h (sync_err x) s"
  by (simp add: relay_held_def)

lemma wp_relay_timer_interrupt_hold:
  assumes "orderly e irq_of" "relay_hold e [] (insert (Dm_timer u) R) u h s"
    and "resp e l (KTimer (Dm_request_specific m_uiRelayTimerNumber)) u"
  shows "wp (relay_timer_interrupt e u) (relay_held e irq_of R h) s"
  using assms(2,3) orderly_irq [OF assms(1)] unfolding relay_timer_interrupt_def
  by (auto simp: wp_simps hold_defs holding_def held_step_def m_uiRelayTimerNumber_def
      relay_held_def [of _ _ _ _ r for r] intro!: wp_out_labels)

lemma wp_relay_timer_setup_hold:
  assumes "orderly e irq_of" "relay_hold e [] (insert (Dm_timer u) R) u h s"
    and "resp e l (KTimer (Dm_request_specific m_uiRelayTimerNumber)) u"
  shows "wp (relay_timer_setup e) (relay_held e irq_of R h) s"
proof -
  have start: "wp (rd m_pRelayTimerStruct) (\<lambda>r s'. r = u \<and> s' = s) s"
    using assms(2) by (simp add: wp_rd relay_hold_def)
  show ?thesis
    unfolding relay_timer_setup_def wp_bind [of "rd m_pRelayTimerStruct"]
    by (rule wp_mono [OF start], clarify)
      (intro wp_ifI wp_keeps_bind [where I = "relay_hold e [] (insert (Dm_timer u) R) u h"]
        keeps_hold_kcall keeps_hold_clocks wp_out_labels
        wp_relay_timer_interrupt_hold [OF assms(1) _ assms(3)] assms(2); simp add: neutral_def)
qed

lemma wp_RelayTimerConfiguration_hold:
  assumes "orderly e irq_of" "no_maps R" "holding e R [] s" "device_handles s = h"
  shows "wp (RelayTimerConfiguration e) (relay_held e irq_of R h) s"
proof -
  have request: "relay_hold e [] (insert (Dm_timer u) R) u h (s\<lparr>klog := klog s @
      [(KIo (Ioremap 0x48002178 2), a), (KIo (Iowrite16 2 a), b), (KIo (Iounmap a), c),
       (KTimer (Dm_request_specific m_uiRelayTimerNumber), u)], m_pRelayTimerStruct := u\<rparr>)"
    if "u \<noteq> 0" "a \<noteq> 0" for u a b c
    using that assms(2-4) by (auto simp: hold_defs holding_def held_step_def no_maps_def)
  show ?thesis
    unfolding RelayTimerConfiguration_def
    by (auto simp: wp_simps intro!: wp_relay_timer_setup_hold [OF assms(1) request])
qed

lemma wp_GpsSoftwareShutdownGpioConfiguration_hold:
  assumes "orderly e irq_of" "no_maps R" "relay_hold e [] R u h s"
  shows "wp (GpsSoftwareShutdownGpioConfiguration e)
    (\<lambda>r s. r <s 0 \<or> relay_hold e [] (insert (Gpio_line 67) R) u h s) s"
  using assms(2,3) orderly_gpio [OF assms(1)] unfolding GpsSoftwareShutdownGpioConfiguration_def
  by (auto simp: wp_simps hold_defs holding_def held_step_def no_maps_def
      m_uiGpsShutdownGpioNumber_def intro!: wp_out_labels)

subsection \<open>The whole driver\<close>

definition node_held where
  "node_held e h = (case h of (d, c, a, i, x) \<Rightarrow>
     {Proc_entry DRV_PROC_PREEMPT_ENTRY, Dev_node (k_MKDEV e a i), Sys_class c, Char_dev,
      Dev_numbers})"

definition thread_held :: "kernel \<Rightarrow> 'a sync_state_scheme \<Rightarrow> resource set" where
  "thread_held e s = (if k_IS_ERR e (SecondsIncrementsVerificationThread s) then {}
     else {Thread (SecondsIncrementsVerificationThread s)})"

definition all_held :: "kernel \<Rightarrow> (u32 \<Rightarrow> u32) \<Rightarrow> 'a sync_state_scheme \<Rightarrow> resource set" where
  "all_held e irq_of s =
     thread_held e s \<union>
     (insert (Irq_line (irq_of (m_pPpsTimerStruct s)) 8)
     (insert (Dm_timer (m_pPpsTimerStruct s))
     (insert (Gpio_line 67)
     (insert (Irq_line (irq_of (m_pRelayTimerStruct s)) 11)
     (insert (Dm_timer (m_pRelayTimerStruct s))
     (node_held e (device_handles s)))))))"

definition sync_holds :: "kernel \<Rightarrow> (u32 \<Rightarrow> u32) \<Rightarrow> 'a sync_state_scheme \<Rightarrow> bool" where
  "sync_holds e irq_of s \<longleftrightarrow> holding e (all_held e irq_of s) [] s \<and>
     m_pPpsTimerStruct s \<noteq> m_pRelayTimerStruct s"

definition sync_holds_if_ok where
  "sync_holds_if_ok e irq_of r s \<longleftrightarrow> r <s 0 \<or> sync_holds e irq_of s"

lemma sync_holds_if_err [simp]:
  "sync_holds_if_ok e irq_of (sync_err x) s"
  by (simp add: sync_holds_if_ok_def)

lemma wp_sync_start_hold:
  assumes "orderly e irq_of" "t \<noteq> u"
    and "pps_hold e [] (insert (Irq_line (irq_of t) 8) (insert (Dm_timer t) (insert (Gpio_line 67)
      (insert (Irq_line (irq_of u) 11) (insert (Dm_timer u) (node_held e h)))))) t u h s"
  shows "wp (sync_start e) (\<lambda>_. sync_holds e irq_of) s"
  using assms(2,3)
  by (auto simp: sync_start_def SetGpsStatus_def wp_simps sync_holds_def all_held_def hold_defs
      holding_def held_step_def node_held_def thread_held_def)

lemma wp_sync_configure_hold:
  assumes ok: "orderly e irq_of" and "holding e (node_held e h) [] s" "device_handles s = h"
  shows "wp (sync_configure e) (sync_holds_if_ok e irq_of) s"
proof -
  have fail: "wp (out_proc_del e r) (sync_holds_if_ok e irq_of) s" if "r <s 0"
    for r and s :: "'a sync_state_scheme"
    using that by (intro wp_out_labels) (simp add: sync_holds_if_ok_def)
  have maps: "no_maps (node_held e h)"
    by (cases h) (simp add: node_held_def)
  show ?thesis
    unfolding sync_configure_def wp_bind
    apply (rule wp_mono [OF wp_RelayTimerConfiguration_hold [OF ok maps assms(2,3)]])
    apply (rule wp_ifI, erule fail)
    apply (clarsimp simp: relay_held_def wp_bind)
    apply (rule wp_mono [OF wp_GpsSoftwareShutdownGpioConfiguration_hold [OF ok]])
      prefer 2 apply assumption
     apply (simp add: maps)
    apply (rule wp_ifI, erule fail)
    apply (clarsimp simp: wp_bind)
    apply (rule wp_mono [OF wp_PpsTimerConfiguration_hold [OF ok]])
      prefer 2 apply assumption
     apply (simp add: maps)
    apply (rule wp_ifI, erule fail)
    apply (clarsimp simp: pps_held_def wp_bind wp_return)
    apply (rule wp_mono [OF wp_sync_start_hold [OF ok]])
      prefer 2 apply assumption
     apply (erule (1) orderly_timers [OF ok])
    apply (simp add: sync_holds_if_ok_def wp_return)
    done
qed

lemma wp_sync_create_device_hold:
  assumes "orderly e irq_of" "holding e {Char_dev, Dev_numbers} [] s"
  shows "wp (sync_create_device e) (sync_holds_if_ok e irq_of) s"
  unfolding sync_create_device_def synchronization_node_def
  by (simp add: wp_simps, intro conjI allI impI; (rule wp_out_labels, simp)?)
    (rule wp_sync_configure_hold [OF assms(1) _ refl];
      use assms(2) in \<open>simp add: holding_def held_step_def node_held_def device_handles_def\<close>)

lemma wp_Synchronization_initialize_hold:
  assumes "orderly e irq_of" "holding e {} [] s"
  shows "wp (Synchronization_initialize e) (sync_holds_if_ok e irq_of) s"
  unfolding Synchronization_initialize_def
  by (simp add: wp_simps, intro conjI allI impI; (rule wp_out_labels, simp)?)
    (rule wp_sync_create_device_hold [OF assms(1)];
      use assms(2) in \<open>simp add: holding_def held_step_def\<close>)

section \<open>The running driver\<close>

lemma all_held_log [simp]: "all_held e irq_of (s\<lparr>klog := l\<rparr>) = all_held e irq_of s"
  by (simp add: all_held_def thread_held_def)

lemma keeps_sync_holds_kcall: "neutral c \<Longrightarrow> keeps (sync_holds e irq_of) (kcall e c)"
  by (rule keeps_kcall) (simp add: sync_holds_def holding_neutral)

lemma keeps_sync_holds_kdo: "neutral c \<Longrightarrow> keeps (sync_holds e irq_of) (kdo e c)"
  by (rule keeps_kdo) (simp add: sync_holds_def holding_neutral)

lemmas holds_rules = keeps_return keeps_rd keeps_if keeps_case_option keeps_let
  keeps_case_driver_state keeps_sync_holds_kcall keeps_sync_holds_kdo keeps_bind keeps_wr

lemmas holds_simps = sync_holds_def all_held_def thread_held_def holding_def neutral_def device_handles_def

lemma keeps_holds_time:
  "keeps (sync_holds e irq_of) (read_pps_counter e)"
  "keeps (sync_holds e irq_of) (read_relay_counter e)"
  "keeps (sync_holds e irq_of) (omap_dm_timer_read_capture e t r b)"
  "keeps (sync_holds e irq_of) (kdiv e x y)"
  "keeps (sync_holds e irq_of) (out_of_bounds e)"
  unfolding read_pps_counter_def read_relay_counter_def omap_dm_timer_read_capture_def
    omap_dm_timer_read_reg_def kdiv_def out_of_bounds_def
  by (intro holds_rules; simp add: holds_simps)+

lemma keeps_holds_unlock:
  "keeps (sync_holds e irq_of) (unlock_read e k)"
  "keeps (sync_holds e irq_of) (store_preemption_time e v)"
  "keeps (sync_holds e irq_of) (SetGpsStatus e b)"
  unfolding unlock_read_def store_preemption_time_def SetGpsStatus_def case_prod_beta
  by (intro holds_rules keeps_holds_time; simp add: holds_simps)+

lemma keeps_holds_RelayTimerIrqHandler: "keeps (sync_holds e irq_of) (RelayTimerIrqHandler e)"
  unfolding RelayTimerIrqHandler_def relay_second_def relay_diff_pps_def SecondIncrements_def
    go_to_def
  by (intro keeps_holds_time keeps_holds_unlock holds_rules) (simp_all add: holds_simps)

lemma keeps_holds_quartz: "keeps (sync_holds e irq_of) (ComputeAndAddQuartzError e v)"
  unfolding ComputeAndAddQuartzError_def case_prod_beta
  by (intro keeps_holds_time holds_rules) (simp_all add: holds_simps)

lemma keeps_holds_PpsTimerIrqHandler: "keeps (sync_holds e irq_of) (PpsTimerIrqHandler e)"
  unfolding PpsTimerIrqHandler_def pps_state_machine_def pps_initialization_def
    pps_wait_for_gps_fixed_def pps_gps_fixed_def arm_relay_timer_def pps_switch_gps_to_off_def
    pps_epilogue_def upload_supplied_data_def GetAverageQuartzError_def SecondIncrements_def
    go_to_def
  by (intro keeps_holds_time keeps_holds_unlock keeps_holds_quartz holds_rules)
    (simp_all add: holds_simps)

lemma keeps_holds_read:
  "keeps (sync_holds e irq_of) (Synchronization_read e b n)"
  "keeps (sync_holds e irq_of) (Synchronization_read_woken e b)"
  "keeps (sync_holds e irq_of) (Synchronization_poll e)"
  unfolding Synchronization_read_def Synchronization_read_woken_def sync_read_unlocked_def
    sync_send_def Synchronization_poll_def
  by (intro holds_rules; simp add: holds_simps)+

lemma keeps_holds_ioctl: "keeps (sync_holds e irq_of) (Synchronization_ioctl e cmd arg g)"
  unfolding Synchronization_ioctl_def put_user_def sync_ioctl_get_official_def
    EXPORT_GD_DATA_FROM_SYNCHONIZATION_DRIVER_def ComputeMicroSecond_def
    sync_ioctl_set_temporary_def sync_ioctl_set_mode_def sync_ioctl_set_off_time_def
  by (intro keeps_holds_time holds_rules) (simp_all add: holds_simps)

lemma keeps_holds_check: "keeps (sync_holds e irq_of) (SecondsIncrementsVerificationFunction e pc)"
  unfolding SecondsIncrementsVerificationFunction_def check_data_supplied_def check_loop_def
  by (cases pc) (simp_all, (intro holds_rules; simp add: holds_simps)+)

lemma sync_step_holds:
  assumes "sync_holds e irq_of (drv m)" "sync_step e m ev m'"
  shows "sync_holds e irq_of (drv m')"
proof (rule sync_exec_keeps [where I = "sync_holds e irq_of", OF _ assms(1)])
  show "sync_exec e ev m = Some m'" using assms(2) by (simp add: sync_step_def)
qed (intro keeps_holds_PpsTimerIrqHandler keeps_holds_RelayTimerIrqHandler keeps_holds_read
    keeps_holds_ioctl keeps_holds_check keeps_holds_time(5))+

lemma sync_runs_holds:
  "sync_runs e m evs m' \<Longrightarrow> sync_holds e irq_of (drv m) \<Longrightarrow> sync_holds e irq_of (drv m')"
  by (induction rule: runs.induct) (blast intro: sync_step_holds)+

section \<open>Removal\<close>

text \<open>What is held besides the timers and the shutdown line: the device, and perhaps the thread.\<close>

definition device_only :: "resource set \<Rightarrow> bool" where
  "device_only N \<longleftrightarrow> no_maps N \<and> (\<forall>t. Dm_timer t \<notin> N) \<and> (\<forall>i d. Irq_line i d \<notin> N) \<and>
     (\<forall>n. Gpio_line n \<notin> N)"

lemma keeps_hold_restore:
  "no_maps R \<Longrightarrow> keeps (pps_hold e B R t u h) (restore_pps_pin e i)"
  "no_maps R \<Longrightarrow> keeps (relay_hold e B R u h) (restore_shutdown_pin e)"
  by (rule keepsI, auto simp: restore_pps_pin_def restore_shutdown_pin_def restore_register_def
      wp_simps hold_defs holding_def held_step_def no_maps_def)+

lemma wp_sync_release_timers_hold:
  assumes "orderly e irq_of" "t \<noteq> u" "device_only N"
    and "pps_hold e B (insert (Irq_line (irq_of t) 8) (insert (Dm_timer t) (insert (Gpio_line 67)
      (insert (Irq_line (irq_of u) 11) (insert (Dm_timer u) N))))) t u h s"
  shows "wp (sync_release_timers e) (\<lambda>_. relay_hold e B (insert (Gpio_line 67) N) u h) s"
proof -
  let ?R = "insert (Gpio_line 67) (insert (Irq_line (irq_of u) 11) (insert (Dm_timer u) N))"
  have N: "Dm_timer x \<notin> N" "Irq_line i d \<notin> N" "no_maps N" for x i d
    using assms(3) by (simp_all add: device_only_def)
  have relay: "wp (do { st \<leftarrow> rd m_DriverCurrentState; relay \<leftarrow> rd m_pRelayTimerStruct;
      (if st = STATE_Gps_Off then kdo e (KTimer (Dm_stop relay)) else skip);
      kdo e (KTimer (Dm_free relay)); irq \<leftarrow> kcall e (KTimer (Dm_get_irq relay));
      kdo e (KIrq (Free_irq irq m_uiRelayTimerNumber)) })
      (\<lambda>_. relay_hold e B (insert (Gpio_line 67) N) u h) s"
    if "pps_hold e B ?R t u h s" for s :: "'a sync_state_scheme"
    using that orderly_irq [OF assms(1)] N
    by (auto simp: wp_simps hold_defs holding_def held_step_def m_uiRelayTimerNumber_def
        insert_Diff_if)
  have pins: "keeps (pps_hold e B ?R t u h) (do_each [0..<3] (restore_pps_pin e))"
    by (intro keeps_do_each keeps_hold_restore) (simp add: N)
  show ?thesis
    unfolding sync_release_timers_def wp_bind wp_rd wp_kdo wp_kcall
    apply (intro allI impI)
    apply (rule wp_mono [OF keepsD [OF pins]])
     apply (use assms(2,4) orderly_irq [OF assms(1)] N in
        \<open>auto simp: hold_defs holding_def held_step_def m_uiPpsTimerNumber_def insert_Diff_if\<close>)[1]
    apply (drule relay)
    apply (simp add: wp_simps)
    done
qed

text \<open>
  The device goes, but its class goes twice: \<open>class_destroy\<close> unregisters the class that the line
  before has unregistered.
\<close>

lemma wp_sync_release_device_hold:
  assumes "holding e (T \<union> node_held e (device_handles s)) B s" "T \<subseteq> range Thread"
  shows "wp (sync_release_device e)
    (\<lambda>_. holding e T (B @ [Sys_class (m_pSynchronizationClass s)])) s"
proof -
  have T: "T - {Proc_entry x} = T" "T - {Dev_node d} = T" "T - {Sys_class d} = T"
    "T - {Char_dev} = T" "T - {Dev_numbers} = T" "Sys_class d \<notin> T" "Proc_entry x \<notin> T"
    "Dev_node d \<notin> T" "Char_dev \<notin> T" "Dev_numbers \<notin> T" for x d
    using assms(2) by auto
  show ?thesis
    using assms(1)
    by (simp add: sync_release_device_def synchronization_node_def wp_simps holding_def held_step_def
        node_held_def device_handles_def insert_Diff_if T)
qed

text \<open>
  Removal stops the thread only if it has been launched, and does not ask whether it exists:
  \<open>thread_left\<close> is what stays, \<open>thread_wrong\<close> what is stopped without being there.
\<close>

definition thread_left :: "kernel \<Rightarrow> 'a sync_state_scheme \<Rightarrow> resource set" where
  "thread_left e s = (if m_bThreadLaunching s = 1 then {} else thread_held e s)"

definition thread_wrong :: "kernel \<Rightarrow> 'a sync_state_scheme \<Rightarrow> resource list" where
  "thread_wrong e s = (if m_bThreadLaunching s = 1 \<and> thread_held e s = {}
     then [Thread (SecondsIncrementsVerificationThread s)] else [])"

lemma wp_stop_thread:
  assumes "sync_holds e irq_of s" "t = m_pPpsTimerStruct s" "u = m_pRelayTimerStruct s"
    and "h = device_handles s" "R = insert (Irq_line (irq_of t) 8) (insert (Dm_timer t)
      (insert (Gpio_line 67) (insert (Irq_line (irq_of u) 11) (insert (Dm_timer u)
      (thread_left e s \<union> node_held e h)))))"
  shows "wp (if m_bThreadLaunching s = 1
      then use_pointer e (SecondsIncrementsVerificationThread s)
        (KSched (Kthread_stop (SecondsIncrementsVerificationThread s))) else skip)
    (\<lambda>_. pps_hold e (thread_wrong e s) R t u h) s"
proof -
  have "Thread x \<notin> node_held e h" for x by (cases h) (simp add: node_held_def)
  then show ?thesis
    using assms
    by (auto simp: wp_simps sync_holds_def all_held_def thread_left_def thread_wrong_def
        thread_held_def hold_defs holding_def held_step_def insert_Diff_if)
qed

lemma wp_Synchronization_cleanup_hold:
  assumes "orderly e irq_of" "sync_holds e irq_of s"
  shows "wp (Synchronization_cleanup e) (\<lambda>_. holding e (thread_left e s)
    (thread_wrong e s @ [Sys_class (m_pSynchronizationClass s)])) s"
proof -
  let ?t = "m_pPpsTimerStruct s" and ?u = "m_pRelayTimerStruct s" and ?h = "device_handles s"
  let ?B = "thread_wrong e s" and ?N = "thread_left e s \<union> node_held e (device_handles s)"
  have T: "thread_left e s \<subseteq> range Thread" by (simp add: thread_left_def thread_held_def)
  have N: "device_only ?N"
    by (cases ?h) (auto simp: device_only_def no_maps_def node_held_def thread_left_def thread_held_def)
  have gpio: "relay_hold e ?B ?N ?u ?h (s'\<lparr>klog := klog s' @
      [(KGpio (Gpio_free m_uiGpsShutdownGpioNumber), r)]\<rparr>)"
    if "relay_hold e ?B (insert (Gpio_line 67) ?N) ?u ?h s'"
    for r and s' :: "'a sync_state_scheme"
    using that N
    by (simp add: relay_hold_def holding_def held_step_def m_uiGpsShutdownGpioNumber_def
        device_only_def)
  have pin: "keeps (relay_hold e ?B ?N ?u ?h) (restore_shutdown_pin e)"
    by (rule keeps_hold_restore) (use N in \<open>simp add: device_only_def\<close>)
  have device: "wp (sync_release_device e) (\<lambda>_. holding e (thread_left e s)
      (?B @ [Sys_class (m_pSynchronizationClass s)])) s'"
    if "relay_hold e ?B ?N ?u ?h s'" for s' :: "'a sync_state_scheme"
  proof -
    have "m_pSynchronizationClass s' = m_pSynchronizationClass s" "device_handles s' = ?h"
      using that by (simp_all add: relay_hold_def device_handles_def)
    then show ?thesis
      using that wp_sync_release_device_hold [OF _ T, of e s' ?B] by (simp add: relay_hold_def)
  qed
  have ne: "?t \<noteq> ?u" using assms(2) by (simp add: sync_holds_def)
  show ?thesis
    unfolding Synchronization_cleanup_def wp_bind wp_rd wp_kdo
    apply (rule wp_mono [OF wp_stop_thread [OF assms(2) refl refl refl refl]])
    apply (rule wp_mono [OF wp_sync_release_timers_hold [OF assms(1) ne N]], assumption)
    apply (intro allI impI)
    apply (rule wp_mono [OF keepsD [OF pin gpio]])
     apply assumption
    apply (erule device)
    done
qed

section \<open>Insertions that fail late\<close>

text \<open>The errors of the two configuration steps after the relay timer's.\<close>

definition late_errors :: "sync_error set" where
  "late_errors = {ERR_SYNCHRONIZATION_GPSSHUTDOWNGPIOCONFIGURATION_MUX_REQUEST,
     ERR_SYNCHRONIZATION_GPSSHUTDOWNGPIOCONFIGURATION_GPIO_REQUEST,
     ERR_SYNCHRONIZATION_GPSSHUTDOWNGPIOCONFIGURATION_GPIO_SET_DIRECTION,
     ERR_SYNCHRONIZATION_PPSTIMERCONFIGURATION_TIMER_REQUEST,
     ERR_SYNCHRONIZATION_PPSTIMERCONFIGURATION_TIMER_SET_SRC_CLK,
     ERR_SYNCHRONIZATION_PPSTIMERCONFIGURATION_TIMER_GET_SRC_CLK,
     ERR_SYNCHRONIZATION_PPSTIMERCONFIGURATION_TIMER_SET_CAPTURE,
     ERR_SYNCHRONIZATION_PPSTIMERCONFIGURATION_TIMER_SET_LOAD,
     ERR_SYNCHRONIZATION_PPSTIMERCONFIGURATION_TIMER_CLEAR_INT,
     ERR_SYNCHRONIZATION_PPSTIMERCONFIGURATION_REQUEST_IRQ}"

definition relay_irq_held :: "kernel \<Rightarrow> 'a kstate_scheme \<Rightarrow> bool" where
  "relay_irq_held e s \<longleftrightarrow> (\<exists>i. Irq_line i m_uiRelayTimerNumber \<in> held e (klog s))"

definition frees_irq :: "kcall \<Rightarrow> bool" where
  "frees_irq c \<longleftrightarrow> (case c of KIrq (Free_irq i d) \<Rightarrow> True | _ \<Rightarrow> False)"

lemma frees_irq_simps [simp]:
  "\<not> frees_irq (KIo a)" "\<not> frees_irq (KGpio b)" "\<not> frees_irq (KSched c)" "\<not> frees_irq (KTimer d)"
  "\<not> frees_irq (KDev f)" "\<not> frees_irq (KUser g)" "\<not> frees_irq (UB h)"
  "\<not> frees_irq (KIrq (Request_irq i j k l))"
  by (simp_all add: frees_irq_def)

lemma relay_irq_log:
  assumes "relay_irq_held e s" "\<not> frees_irq c"
  shows "relay_irq_held e (s\<lparr>klog := klog s @ [(c, r)]\<rparr>)"
proof -
  have "released (c, r) \<noteq> Some (Irq_line i d)" for i d
    using assms(2)
    by (auto simp: frees_irq_def split: kcall.splits io_call.splits gpiolib_call.splits
        sched_call.splits timer_call.splits dev_call.splits irq_call.splits
      mem_call.splits lock_call.splits spi_call.splits reg_call.splits dma_call.splits
      plat_call.splits)
  then show ?thesis
    using assms(1)
    by (auto simp: relay_irq_held_def held_step_def simp del: released_pair acquired_pair
        split: option.splits)
qed

lemma keeps_relay_irq_kcall: "\<not> frees_irq c \<Longrightarrow> keeps (relay_irq_held e) (kcall e' c)"
  by (rule keeps_kcall) (rule relay_irq_log)

lemma keeps_relay_irq_kdo: "\<not> frees_irq c \<Longrightarrow> keeps (relay_irq_held e) (kdo e' c)"
  by (rule keeps_kdo) (rule relay_irq_log)

lemmas relay_irq_rules = keeps_return keeps_rd keeps_if keeps_case_option keeps_let
  keeps_for_each keeps_do_each keeps_relay_irq_kcall keeps_relay_irq_kdo keeps_bind keeps_wr

lemma keeps_relay_irq_config:
  "keeps (relay_irq_held e) (GpsSoftwareShutdownGpioConfiguration e')"
  "keeps (relay_irq_held e) (PpsTimerConfiguration e')"
  "keeps (relay_irq_held e) (out_proc_del e' r)"
  unfolding GpsSoftwareShutdownGpioConfiguration_def out_gpio_free_def out_gpio_unmux_def
    restore_shutdown_pin_def PpsTimerConfiguration_def mux_pps_pin_def pps_timer_setup_def
    omap_dm_timer_set_capture_def omap_dm_timer_read_reg_def omap_dm_timer_write_reg_def
    pps_timer_interrupt_def out_pps_timer_unconfigure_def out_pps_timer_free_def
    out_pps_timer_unmux_def restore_pps_pin_def restore_register_def
    out_proc_del_def out_device_del_def synchronization_node_def out_cdev_del_def out_unregister_def
  by (intro relay_irq_rules; simp add: relay_irq_held_def)+

definition leaks_if_late where
  "leaks_if_late e r s \<longleftrightarrow> (r \<in> sync_err ` late_errors \<longrightarrow> relay_irq_held e s)"

lemma leaks_if_early:
  "leaks_if_late e (sync_err ERR_SYNCHRONIZATION_INIT_ALLOC_CHRDEV_REGION) s"
  "leaks_if_late e (sync_err ERR_SYNCHRONIZATION_INIT_CDEV_ADD) s"
  "leaks_if_late e (sync_err ERR_SYNCHRONIZATION_INIT_CLASS_CREATE) s"
  "leaks_if_late e (sync_err ERR_SYNCHRONIZATION_INIT_DEVICE_CREATE) s"
  "leaks_if_late e (sync_err ERR_SYNCHRONIZATION_INIT_CREATE_PROC_ENTRY) s"
  by (simp_all add: leaks_if_late_def late_errors_def sync_err_def)

text \<open>What the relay timer's configuration leaves: its interrupt, or an error that is not late.\<close>

definition relay_outcome where
  "relay_outcome e r s \<longleftrightarrow>
     (if r <s 0 then r \<notin> sync_err ` late_errors else relay_irq_held e s)"

lemma relay_outcome_err [simp]:
  "relay_outcome e (sync_err x) s \<longleftrightarrow> sync_err x \<notin> sync_err ` late_errors"
  by (simp add: relay_outcome_def)

lemma not_late:
  "sync_err ERR_SYNCHRONIZATION_PPSTIMERCONFIGURATION_MUX_REQUEST \<notin> sync_err ` late_errors"
  "sync_err ERR_SYNCHRONIZATION_RELAYTIMERCONFIGURATION_TIMER_REQUEST \<notin> sync_err ` late_errors"
  "sync_err ERR_SYNCHRONIZATION_RELAYTIMERCONFIGURATION_TIMER_SET_SRC_CLK \<notin> sync_err ` late_errors"
  "sync_err ERR_SYNCHRONIZATION_RELAYTIMERCONFIGURATION_TIMER_GET_SRC_CLK \<notin> sync_err ` late_errors"
  "sync_err ERR_SYNCHRONIZATION_RELAYTIMERCONFIGURATION_TIMER_CLEAR_INT \<notin> sync_err ` late_errors"
  "sync_err ERR_SYNCHRONIZATION_RELAYTIMERCONFIGURATION_REQUEST_IRQ \<notin> sync_err ` late_errors"
  "sync_err ERR_SYNCHRONIZATION_RELAYTIMERCONFIGURATION_TIMER_SET_INT \<notin> sync_err ` late_errors"
  by (simp_all add: late_errors_def sync_err_def)

lemma wp_RelayTimerConfiguration_outcome:
  "wp (RelayTimerConfiguration e) (relay_outcome e) s"
proof -
  have interrupt: "wp (relay_timer_interrupt e t) (relay_outcome e) s" for t s
    unfolding relay_timer_interrupt_def
    by (auto simp: wp_simps not_late relay_irq_held_def held_step_def
        relay_outcome_def [of _ r for r] intro!: wp_out_labels)
  have timer: "wp (relay_timer_setup e) (relay_outcome e) s" for s
    unfolding relay_timer_setup_def
    by (auto simp: wp_simps interrupt not_late intro!: wp_out_labels)
  show ?thesis
    unfolding RelayTimerConfiguration_def by (auto simp: wp_simps timer not_late)
qed

lemma wp_sync_configure_leaks: "wp (sync_configure e) (leaks_if_late e) s"
proof -
  have early: "wp (out_proc_del e r) (leaks_if_late e) s"
    if "r \<notin> sync_err ` late_errors" for r and s :: "'a sync_state_scheme"
    using that by (intro wp_out_labels) (simp add: leaks_if_late_def)
  have late: "wp (out_proc_del e r) (leaks_if_late e) s" if "relay_irq_held e s"
    for r and s :: "'a sync_state_scheme"
    by (rule wp_mono [OF keepsD [OF keeps_relay_irq_config(3) that]]) (simp add: leaks_if_late_def)
  show ?thesis
    unfolding sync_configure_def wp_bind
    apply (rule wp_mono [OF wp_RelayTimerConfiguration_outcome])
    apply (rule wp_ifI, rule early, simp add: relay_outcome_def)
    apply (simp add: relay_outcome_def wp_bind)
    apply (rule wp_mono [OF keepsD [OF keeps_relay_irq_config(1)]], assumption)
    apply (rule wp_ifI, erule late, simp add: wp_bind)
    apply (rule wp_mono [OF keepsD [OF keeps_relay_irq_config(2)]], assumption)
    apply (rule wp_ifI, erule late)
    apply (simp only: wp_bind)
    apply (rule wp_trivial)
    apply (auto simp: wp_return leaks_if_late_def)
    done
qed

lemma wp_Synchronization_initialize_leaks: "wp (Synchronization_initialize e) (leaks_if_late e) s"
proof -
  have create: "wp (sync_create_device e) (leaks_if_late e) s" for s :: "'a sync_state_scheme"
    unfolding sync_create_device_def synchronization_node_def
    by (auto simp: wp_simps leaks_if_early intro!: wp_out_labels wp_sync_configure_leaks)
  show ?thesis
    unfolding Synchronization_initialize_def
    by (auto simp: wp_simps create leaks_if_early intro!: wp_out_labels)
qed

section \<open>The relay timer at removal\<close>

text \<open>Whether a log leaves the timer running.\<close>

definition timer_step :: "u32 \<Rightarrow> bool \<Rightarrow> event \<Rightarrow> bool" where
  "timer_step t b ev = (case fst ev of
     KTimer (Dm_set_load_start u a v) \<Rightarrow> if u = t then True else b
   | KTimer (Dm_start u) \<Rightarrow> if u = t then True else b
   | KTimer (Dm_stop u) \<Rightarrow> if u = t then False else b
   | _ \<Rightarrow> b)"

definition timer_running :: "u32 \<Rightarrow> event list \<Rightarrow> bool" where
  "timer_running t l = foldl (timer_step t) False l"

lemma timer_running_snoc [simp]:
  "timer_running t (l @ [ev]) = timer_step t (timer_running t l) ev"
  by (simp add: timer_running_def)

definition relay_runs :: "u32 \<Rightarrow> driver_state \<Rightarrow> u32 \<Rightarrow> 'a sync_state_scheme \<Rightarrow> bool" where
  "relay_runs u st t s \<longleftrightarrow> timer_running u (klog s) \<and> m_pRelayTimerStruct s = u \<and>
     m_DriverCurrentState s = st \<and> m_pPpsTimerStruct s = t"

lemma keeps_relay_runs_cleanup:
  assumes "st \<noteq> STATE_Gps_Off" "t \<noteq> u"
  shows "keeps (relay_runs u st t) (Synchronization_cleanup e)"
  unfolding Synchronization_cleanup_def sync_release_timers_def sync_release_device_def
    synchronization_node_def restore_shutdown_pin_def restore_pps_pin_def restore_register_def
    use_pointer_def
  by (intro keeps_rd_bind keeps_return keeps_rd keeps_if keeps_let keeps_do_each keeps_kcall
      keeps_kdo keeps_bind)
    (use assms in \<open>auto simp: relay_runs_def timer_step_def\<close>)

lemma keeps_relay_runs_epilogue: "keeps (relay_runs u st t) (pps_epilogue e v w)"
  unfolding pps_epilogue_def unlock_read_def store_preemption_time_def kdiv_def out_of_bounds_def
    case_prod_beta
  by (intro keeps_intros) (simp_all add: relay_runs_def timer_step_def)

lemma wp_pps_gps_fixed_arms:
  assumes "ring_ok 16 (quartz_table s)"
  shows "wp (pps_gps_fixed e v) (\<lambda>_ s'. m_DriverCurrentState s' = STATE_Switch_Gps_to_Off \<longrightarrow>
    relay_runs (m_pRelayTimerStruct s) STATE_Switch_Gps_to_Off (m_pPpsTimerStruct s) s') s"
proof -
  have same: "m_pRelayTimerStruct (add_quartz_error v (uploaded s)) = m_pRelayTimerStruct s"
    "m_pPpsTimerStruct (add_quartz_error v (uploaded s)) = m_pPpsTimerStruct s"
    by (simp_all add: add_quartz_error_def uploaded_def Let_def)
  show ?thesis
    using assms
    by (simp add: pps_gps_fixed_def upload_supplied_data_wp wp_bind GetAverageQuartzError_def
        wp_ComputeAndAddQuartzError_exact go_to_def arm_relay_timer_def read_pps_counter_def
        wp_simps relay_runs_def timer_step_def same timer_running_def)
qed

lemma relay_armed:
  assumes "sync_inv s" "m_DriverCurrentState s = STATE_Gps_Fixed"
  shows "wp (PpsTimerIrqHandler e) (\<lambda>_ s'. m_DriverCurrentState s' = STATE_Switch_Gps_to_Off \<longrightarrow>
    relay_runs (m_pRelayTimerStruct s) STATE_Switch_Gps_to_Off (m_pPpsTimerStruct s) s') s"
proof -
  have state: "keeps (\<lambda>s. m_DriverCurrentState s = st) (pps_epilogue e v w)" for st v w
    unfolding pps_epilogue_def unlock_read_def store_preemption_time_def kdiv_def
      out_of_bounds_def case_prod_beta
    by (intro keeps_intros) simp_all
  have epilogue: "wp (pps_epilogue e v w) (\<lambda>_ s'. m_DriverCurrentState s' = STATE_Switch_Gps_to_Off \<longrightarrow>
      relay_runs u STATE_Switch_Gps_to_Off t s') s'"
    if "m_DriverCurrentState s' = STATE_Switch_Gps_to_Off \<longrightarrow>
      relay_runs u STATE_Switch_Gps_to_Off t s'" for v w u t and s' :: "'a sync_state_scheme"
  proof (cases "m_DriverCurrentState s' = STATE_Switch_Gps_to_Off")
    case True
    then show ?thesis
      using that by (intro wp_mono [OF keepsD [OF keeps_relay_runs_epilogue]]) auto
  next
    case False
    then show ?thesis by (intro wp_mono [OF keepsD [OF state]]) auto
  qed
  have machine: "wp (pps_state_machine e v) (\<lambda>_ s'. m_DriverCurrentState s' = STATE_Switch_Gps_to_Off \<longrightarrow>
      relay_runs (m_pRelayTimerStruct s) STATE_Switch_Gps_to_Off (m_pPpsTimerStruct s) s')
      (s\<lparr>klog := l\<rparr>)" for v l
    using wp_pps_gps_fixed_arms [of "s\<lparr>klog := l\<rparr>" e v] assms
    by (simp add: pps_state_machine_def wp_bind wp_rd sync_inv_def)
  show ?thesis
    unfolding PpsTimerIrqHandler_def wp_bind
    apply (rule wp_log_only [OF log_of_read_pps_counter])
    apply (simp only: wp_rd)
    apply (rule wp_log_only [OF log_of_read_capture])
    apply simp
    apply (rule wp_mono [OF machine])
    apply (rule epilogue)
    apply assumption
    done
qed

end
