(* ===== verification/Sync_Props.thy ===== *)
theory Sync_Props
  imports Sync_Resources
begin

text \<open>
  The properties of the synchronization driver. \<open>board_machine\<close> and the lemmas before the
  properties give the reachable states their witnesses run from.
\<close>

section \<open>States for the witnesses\<close>

definition board_machine :: sync_machine where
  "board_machine = \<lparr>drv = snd (run_state (Synchronization_initialize board) sync_globals),
     checker = Awaiting_data, sleepers = 0\<rparr>"

lemmas board_run = Synchronization_initialize_def sync_create_device_def synchronization_node_def
  sync_configure_def RelayTimerConfiguration_def relay_timer_setup_def relay_timer_interrupt_def
  GpsSoftwareShutdownGpioConfiguration_def PpsTimerConfiguration_def mux_pps_pin_def
  pps_timer_setup_def pps_timer_interrupt_def omap_dm_timer_set_capture_def
  omap_dm_timer_read_reg_def omap_dm_timer_write_reg_def sync_start_def SetGpsStatus_def
  board_answer_def upt_rec word_sless_alt Let_def m_uiRelayTimerNumber_def m_uiPpsTimerNumber_def
  m_uiPpsTimerRegisterAddress_def m_uiGpsShutdownGpioRegisterAddress_def

lemma board_initialize:
  "case run_state (Synchronization_initialize board) sync_globals of (r, s) \<Rightarrow>
     r = 0 \<and> m_bThreadLaunching s = 1 \<and> SecondsIncrementsVerificationThread s = 0x5000 \<and>
     m_pSynchronizationClass s = 0x2000 \<and> m_DriverCurrentState s = STATE_Initialization \<and>
     m_uiPpsTimerInputClock s = 13000000 \<and> m_uiRelayTimerInputClock s = 13000000"
  by (simp add: board_run use_pointer_def sync_globals_def)

lemma board_machine_fields:
  "m_DriverCurrentState (drv board_machine) = STATE_Initialization"
  "m_uiPpsTimerInputClock (drv board_machine) = 13000000"
  "m_uiRelayTimerInputClock (drv board_machine) = 13000000"
  "m_bThreadLaunching (drv board_machine) = 1"
  "SecondsIncrementsVerificationThread (drv board_machine) = 0x5000"
  "m_pSynchronizationClass (drv board_machine) = 0x2000"
  using board_initialize by (simp_all add: board_machine_def case_prod_beta)

lemma board_inserted: "sync_inserted board board_machine"
  unfolding sync_inserted_def
  using board_initialize
  by (intro exI [of _ 1]) (simp add: sync_loaded_default board_machine_def case_prod_beta)

lemma board_reach: "sync_reach board board_machine"
  by (rule reach_start) (rule board_inserted)



lemma board_copies: "copies_work board"
  by (simp add: copies_work_def board_answer_def)

text \<open>The driver after user space has asked for mode 3 and the first pulse has come.\<close>

definition board_waiting :: sync_machine where
  "board_waiting = after (PpsTimerIrqHandler board)
     (after (Synchronization_ioctl board SYNC_IOCTL_SET_DRIVER_MODE MODE3 GpsData_zero)
       board_machine)"

lemma board_waiting_reach: "sync_reach board board_waiting"
  unfolding board_waiting_def
  by (rule reach_step [OF reach_step [OF board_reach,
        where v = "Ioctl_sync SYNC_IOCTL_SET_DRIVER_MODE MODE3 GpsData_zero"], where v = Pps_pulse])
    (simp_all add: sync_step_def sync_exec_def)

lemma board_waiting_abs:
  "sync_abs (drv board_waiting) = (STATE_Wait_for_Gps_Fixed, 0)"
  "holdover_ready (drv board_waiting)"
proof -
  let ?m = "after (Synchronization_ioctl board SYNC_IOCTL_SET_DRIVER_MODE MODE3 GpsData_zero)
    board_machine"
  have m: "drv ?m = (drv board_machine)\<lparr>m_uiDriverRunningMode := MODE3\<rparr>"
    by (simp add: after_def Synchronization_ioctl_def sync_ioctl_set_mode_def)
  have inv: "sync_inv (drv ?m)"
    unfolding m using sync_reach_inv [OF board_reach] by (simp add: sync_inv_def)
  have ready: "holdover_ready (drv ?m)"
    unfolding m by (simp add: holdover_ready_def board_machine_fields)
  have state: "sync_abs (drv ?m) = (STATE_Initialization, unat (m_uiTimerDriftCounter (drv ?m)))"
    unfolding m by (simp add: sync_abs_def board_machine_fields)
  show "sync_abs (drv board_waiting) = (STATE_Wait_for_Gps_Fixed, 0)"
    using pulse_abs [OF inv, of board] state by (simp add: board_waiting_def)
  show "holdover_ready (drv board_waiting)"
    using keeps_snd [OF keeps_holdover_ready, of "drv ?m" True "m_uiGpsTimeToOff (drv ?m)" board]
      ready by (simp add: board_waiting_def after_def)
qed

definition fixed_data :: GpsData where
  "fixed_data = GpsData_zero\<lparr>iQuality := 1, uiNbSat := 7\<rparr>"

lemma fixed_data_valid: "valid_quality fixed_data"
  by (simp add: valid_quality_def fixed_data_def GpsData_zero_def)

lemma runs_sync_reach: "sync_runs e m evs m' \<Longrightarrow> sync_reach e m \<Longrightarrow> sync_reach e m'"
  by (rule sync.runs_reach)

text \<open>A machine on the board with the GPS off.\<close>

lemma board_gps_off:
  "\<exists>m. sync_reach board m \<and> m_DriverCurrentState (drv m) = STATE_Gps_Off"
  using run_to_gps_off [OF board_copies fixed_data_valid sync_reach_inv [OF board_waiting_reach]
      board_waiting_abs, of 0] runs_sync_reach [OF _ board_waiting_reach]
  by blast

section \<open>The machine\<close>

text \<open>C1: In every state the inserted driver can reach, whatever the kernel answers and in
  whatever order pulses, relay overflows, the thread and system calls come, the invariant holds:
  both ring buffers are within their arrays, the flags have their values, a read is unlocked
  exactly when its kind is set, the off time is at most an hour, the state is one of the five, the
  GPS is only marked off in \<open>STATE_Gps_Off\<close>, and the drift counter is below 16 while waiting and
  at least 16 after the fix.\<close>

theorem sync_invariant:
  assumes "sync_reach e m"
  shows "sync_inv (drv m)"
  using assms by (rule sync_reach_inv)

theorem sync_invariant_witness:
  "sync_inv (drv board_waiting) \<and> sync_abs (drv board_waiting) = (STATE_Wait_for_Gps_Fixed, 0)"
  using sync_invariant [OF board_waiting_reach] board_waiting_abs(1) by simp



text \<open>C9: Whatever the kernel answers and whatever \<open>insmod\<close> sets the parameter \<open>m_bThreadLaunching\<close>
  to, inserting the module returns 0 or one of the negated error numbers of \<open>drivers_errors.h\<close>. An
  insertion that fails has not run into undefined behaviour. One that returns 0 leaves a state that
  satisfies the invariant, and has run into undefined behaviour exactly if the parameter is 1 and
  \<open>kthread_create\<close> has failed: its error pointer is then given to \<open>wake_up_process\<close> unchecked, and
  the insertion succeeds all the same.\<close>

theorem sync_initialize_result:
  "let (r, s) = run_state (Synchronization_initialize e) (sync_loaded launch);
     t = SecondsIncrementsVerificationThread s
   in (r = 0 \<and> sync_inv s \<and>
       (KSched (Kthread_create ''SecondsIncrementsVerificationThread''), t) \<in> set (klog s) \<and>
       faults (klog s) = (if launch = 1 \<and> k_IS_ERR e t then {Bad_pointer} else {})) \<or>
      ((\<exists>x. r = sync_err x) \<and> safe_log (klog s))"
  using wp_Synchronization_initialize [of e launch]
  by (auto simp: wp_def inserted_ok_def thread_faults_def Let_def split: prod.splits if_splits)

text \<open>A board that cannot create threads.\<close>

definition threadless_board :: kernel where
  "threadless_board = board\<lparr>answer := \<lambda>l c. case c of
     KSched (Kthread_create n) \<Rightarrow> - ENOMEM | _ \<Rightarrow> board_answer l c\<rparr>"

lemma threadless_board_initialize:
  "case run_state (Synchronization_initialize threadless_board) (sync_loaded 1) of (r, s) \<Rightarrow>
     r = 0 \<and> k_IS_ERR threadless_board (SecondsIncrementsVerificationThread s)"
  by (simp add: threadless_board_def board_run use_pointer_def sync_loaded_def)

theorem sync_initialize_result_witness:
  "case run_state (Synchronization_initialize threadless_board) (sync_loaded 1) of (r, s) \<Rightarrow>
     r = 0 \<and> faults (klog s) = {Bad_pointer}"
  using sync_initialize_result [of threadless_board 1] threadless_board_initialize
  by (auto simp: Let_def sync_err_nonzero [symmetric] split: prod.splits)

section \<open>Pulses\<close>

text \<open>C3: Refinement: on the state of the state machine and the drift counter, the PPS interrupt
  handler is the automaton \<open>pps_spec\<close>, which is told only whether the last second's data had a fix
  and whether holdover is possible (mode 3 and equal clocks).\<close>

theorem pps_refines_automaton:
  assumes "sync_inv s"
  shows "sync_abs (snd (run_state (PpsTimerIrqHandler e) s)) =
    pps_spec (pulse_ok s) (holdover_ready s) (sync_abs s)"
  using assms by (rule PpsTimerIrqHandler_abs)

theorem pps_refines_automaton_witness:
  "sync_abs (snd (run_state (PpsTimerIrqHandler board) (drv board_machine))) =
    pps_spec (pulse_ok (drv board_machine)) (holdover_ready (drv board_machine))
      (sync_abs (drv board_machine))"
  by (rule pps_refines_automaton [OF sync_reach_inv [OF board_reach]])

text \<open>C4: From the waiting state with an empty drift counter, each second with valid data
  counts one, the driver keeps waiting through the first fifteen of them, and the sixteenth makes
  it \<open>STATE_Gps_Fixed\<close>; none of these steps can fail.\<close>

theorem sixteen_valid_seconds:
  assumes "sync_reach e m" "sync_abs (drv m) = (STATE_Wait_for_Gps_Fixed, 0)"
    and "copies_work e" "\<forall>g \<in> set gs. valid_quality g" "length gs \<le> 16"
  shows "\<exists>m'. sync_runs e m (concat (map (valid_second arg) gs)) m' \<and>
    sync_abs (drv m') = (if length gs < 16 then STATE_Wait_for_Gps_Fixed else STATE_Gps_Fixed,
      length gs)"
  using run_valid_seconds [OF assms(3,4) sync_reach_inv [OF assms(1)] assms(2), of arg] assms(5)
  by auto

theorem sixteen_valid_seconds_witness:
  "\<exists>m'. sync_runs board board_waiting
      (concat (map (valid_second 0) (replicate 16 fixed_data))) m' \<and>
    sync_abs (drv m') = (STATE_Gps_Fixed, 16)"
  using sixteen_valid_seconds [OF board_waiting_reach board_waiting_abs(1) board_copies,
      of "replicate 16 fixed_data" 0] fixed_data_valid
  by simp

text \<open>C7: Once the state machine is in \<open>STATE_Gps_Off\<close> it stays there: no pulse, overflow, thread
  step or system call of any later run leaves the state, although the pulses of the GPS come back
  (the code that would leave it is commented out).\<close>

theorem gps_off_is_final:
  assumes "sync_reach e m" "m_DriverCurrentState (drv m) = STATE_Gps_Off" "sync_runs e m evs m'"
  shows "m_DriverCurrentState (drv m') = STATE_Gps_Off"
  using sync.runs_stable [of e m evs m' "\<lambda>m. m_DriverCurrentState (drv m) = STATE_Gps_Off"]
    sync.reach_inv [OF assms(1)] assms(2,3) gps_off_step
  by blast

theorem gps_off_is_final_witness:
  "\<exists>m m'. m_DriverCurrentState (drv m) = STATE_Gps_Off \<and>
     sync_runs board m [Relay_overflow, Open_sync] m' \<and>
     m_DriverCurrentState (drv m') = STATE_Gps_Off"
proof -
  obtain m where m: "sync_reach board m" "m_DriverCurrentState (drv m) = STATE_Gps_Off"
    using board_gps_off by blast
  have run: "sync_runs board m [Relay_overflow, Open_sync]
      (after Synchronization_open (after (RelayTimerIrqHandler board) m))"
    by (auto simp: sync_step_def sync_exec_def intro!: runs.intros)
  show ?thesis using m run gps_off_is_final [OF m run] by blast
qed

text \<open>C6: Holdover: with the GPS off, \<open>n\<close> overflows of the relay timer advance the official time
  by \<open>n\<close> seconds and take \<open>n\<close> off the time left, and the GPS is switched on exactly at the
  overflow that brings the time left to 0. An off time of 0 does not mean at once but wraps around
  to \<open>2 ^ 32\<close> seconds.\<close>

theorem holdover_keeps_time:
  assumes "m_DriverCurrentState (drv m) = STATE_Gps_Off"
  shows "\<exists>m'. sync_runs e m (replicate n Relay_overflow) m' \<and>
    oTimeTTimeInSeconds (m_oGpsOfficialData (drv m')) =
      oTimeTTimeInSeconds (m_oGpsOfficialData (drv m)) + word_of_nat n \<and>
    m_uiRelayTimerLeftTime (drv m') = m_uiRelayTimerLeftTime (drv m) - word_of_nat n \<and>
    m_bGpsStatus (drv m') = (if n < overflows_left (m_uiRelayTimerLeftTime (drv m))
                             then m_bGpsStatus (drv m) else 1)"
  using run_overflows [OF assms, of e n] by (auto simp: holdover_abs_def holdover_iterate)

theorem holdover_keeps_time_witness:
  "\<exists>m m'. m_DriverCurrentState (drv m) = STATE_Gps_Off \<and>
     sync_runs board m (replicate 300 Relay_overflow) m' \<and>
     oTimeTTimeInSeconds (m_oGpsOfficialData (drv m')) =
       oTimeTTimeInSeconds (m_oGpsOfficialData (drv m)) + 300"
proof -
  obtain m :: sync_machine where m: "m_DriverCurrentState (drv m) = STATE_Gps_Off"
    using board_gps_off by auto
  show ?thesis using m holdover_keeps_time [OF m, of board 300] by auto
qed

section \<open>Dates\<close>

text \<open>C8: The exported date is the official data with the microseconds since the last pulse, from
  the relay timer in mode 3 with the GPS off and from the capture timer otherwise: if that timer
  runs at \<open>f\<close> MHz and its counter has advanced by \<open>n\<close> ticks, less than a second, the field holds
  \<open>n div f\<close>, which is below a million, wrap-around of the counter included. Exporting changes
  nothing but the log.\<close>

theorem exported_date:
  assumes "m_uiDriverRunningMode s \<in> {MODE1, MODE2, MODE3}" "0 < f" "f * 1000000 < 2 ^ 32"
    and "n < f * 1000000"
    and relay: "relay \<longleftrightarrow> m_uiDriverRunningMode s = MODE3 \<and> m_DriverCurrentState s = STATE_Gps_Off"
    and "(if relay then m_uiRelayTimerInputClock s else m_uiPpsTimerInputClock s) =
      word_of_nat (f * 1000000)"
    and "answer e (klog s) (KTimer (Dm_read_counter
        (if relay then m_pRelayTimerStruct s else m_pPpsTimerStruct s))) =
      (if relay then m_uiTimerReloadValue s else m_uiLastTimerValue s) + word_of_nat n"
  shows "wp (EXPORT_GD_DATA_FROM_SYNCHONIZATION_DRIVER e) (\<lambda>gd s'.
    gd = \<lparr>oData = m_oGpsOfficialData s, uiMicroSecond = word_of_nat (n div f),
           iQuartzError = m_iAverageTimerErrorValue s, iDriverMode = m_uiDriverRunningMode s\<rparr> \<and>
    n div f < 1000000 \<and> (\<exists>l. s' = s\<lparr>klog := l\<rparr>)) s"
proof -
  have "word_of_nat (f * 1000000) div 1000000 = (word_of_nat f :: u32)"
    using div_word_of_nat [of "f * 1000000" 1000000] assms(3) by simp
  moreover have f: "(word_of_nat f :: u32) \<noteq> 0" and ms: "word_of_nat n div word_of_nat f = (word_of_nat (n div f) :: u32)"
    using assms(2-4) by (simp_all add: div_word_of_nat word_of_nat_nonzero)
  moreover have "n div f < 1000000" using assms(4) by (simp add: div_less_iff_less_mult mult.commute assms(2))
  ultimately show ?thesis
    using assms(1,6,7) relay
    by (cases relay)
      (auto simp: EXPORT_GD_DATA_FROM_SYNCHONIZATION_DRIVER_def ComputeMicroSecond_def wp_simps
        resp_def Let_def GeoDatationData_zero_def)
qed

theorem exported_date_witness:
  "uiMicroSecond (fst (run_state (EXPORT_GD_DATA_FROM_SYNCHONIZATION_DRIVER board)
     (sync_globals\<lparr>klog := [(KDev Cdev_init, 0)], m_uiPpsTimerInputClock := 13000000,
        m_uiLastTimerValue := 12999974\<rparr>))) = 2"
  using exported_date [of "sync_globals\<lparr>klog := [(KDev Cdev_init, 0)],
      m_uiPpsTimerInputClock := 13000000, m_uiLastTimerValue := 12999974\<rparr>" 13 26 False board]
  by (simp add: sync_globals_def board_answer_def wp_fst_snd)

text \<open>C16: The error stored for a pulse that comes \<open>n\<close> ticks after the last one is \<open>n\<close> less the
  ticks of a second when the counter has not wrapped, but one less than that when it has.\<close>

theorem quartz_error_of_interval:
  assumes "n < 2 ^ 32"
  shows "quartz_error (start + word_of_nat n) start clock =
    word_of_nat n - clock - (if unat start + n < 2 ^ 32 then 0 else 1)"
proof -
  have "start + word_of_nat n < start \<longleftrightarrow> \<not> unat start + n < 2 ^ 32"
  proof -
    have u: "unat (start + word_of_nat n) = (unat start + n) mod 2 ^ 32"
      using unat_word_ariths(1) [of start "word_of_nat n"] unat_word_of_nat_u32 [OF assms] by simp
    show ?thesis
    proof (cases "unat start + n < 2 ^ 32")
      case True
      then show ?thesis using u by (simp add: word_less_nat_alt)
    next
      case False
      then have "(unat start + n) mod 2 ^ 32 = unat start + n - 2 ^ 32"
        using assms unat_u32_less [of start]
        by (subst mod_if_less_double) simp_all
      then show ?thesis using u False assms by (simp add: word_less_nat_alt)
    qed
  qed
  then show ?thesis by (simp add: quartz_error_exact)
qed

theorem quartz_error_of_interval_witness:
  "quartz_error (0xFFFFFFF0 + 13000000) 0xFFFFFFF0 13000000 = (- 1 :: u32)"
  using quartz_error_of_interval [of 13000000 "0xFFFFFFF0" 13000000] by simp

text \<open>The average of sixteen signed errors with sum \<open>S\<close> is \<open>S div 16\<close> when the sum is not
  negative; a negative sum is divided as the unsigned number it looks like, so a slow quartz is
  reported as an error of about 268 million ticks.\<close>

theorem average_quartz_error_signed:
  assumes "length xs = 16" "\<bar>sum_list xs\<bar> < 2 ^ 31"
  shows "uint (average_quartz_error (map word_of_int xs)) =
    (if 0 \<le> sum_list xs then sum_list xs div 16 else (2 ^ 32 + sum_list xs) div 16)"
  using assms by (simp add: average_quartz_error_def sum_list_ints uint_div uint_word_of_int_u32)

theorem average_quartz_error_signed_witness:
  "uint (average_quartz_error (map word_of_int (replicate 16 (- 1)))) = 268435455"
  using average_quartz_error_signed [of "replicate 16 (- 1)"] by (simp add: sum_list_replicate)

section \<open>The page in \<open>/proc\<close>\<close>

text \<open>C11: Whatever was stored before, after storing the preemption times \<open>vs\<close> the circular buffer
  holds the last 32 values, newest first.\<close>

theorem preemption_times_kept:
  assumes "sync_inv s"
  shows "preempt_ring.history
      (preempt_table (snd (run_state (do_each vs (store_preemption_time e)) s))) =
    take 32 (rev vs @ preempt_ring.history (preempt_table s))"
  using assms by (intro stores_history) (simp add: sync_inv_def)

theorem preemption_times_kept_witness:
  "preempt_ring.history (preempt_table (snd (run_state
      (do_each [7, 9] (store_preemption_time board)) (drv board_machine)))) =
    take 32 (9 # 7 # preempt_ring.history (preempt_table (drv board_machine)))"
  using preemption_times_kept [OF sync_reach_inv [OF board_reach], of "[7, 9]"] by simp

text \<open>C10: The page in \<open>/proc\<close> is never built from cells outside the table: it is the header, one
  line for each of the 32 cells with the last value written first, and an empty line; its values
  read downwards are the history of the buffer, and it fits the 4096 bytes of a page.\<close>

theorem proc_page_newest_first:
  assumes "sync_inv s"
  shows "\<exists>cells page. SynchronizationPreemptionTimeOutput s = Some page \<and>
    page = page_header @ concat (map (page_line (m_iPreemptTimeValueTable s)) cells) @
      [CHR 0x0A, CHR 0x0A] \<and>
    map ((!) (m_iPreemptTimeValueTable s)) cells = preempt_ring.history (preempt_table s) \<and>
    length page < 4096"
proof -
  define n where "n = unat (m_uiLastUsedPreemptTimeValueTableCase s)"
  have "ring_ok 32 (preempt_table s)" using assms by (simp add: sync_inv_def)
  then have "map ((!) (m_iPreemptTimeValueTable s)) (newest_first n) =
      preempt_ring.history (preempt_table s)"
    using preempt_ring.walk_history [of "preempt_table s"] by (simp add: newest_first_def n_def)
  moreover note SynchronizationPreemptionTimeOutput_page [OF assms]
  ultimately show ?thesis
    using page_fits [OF assms] by (fastforce simp: n_def [symmetric])
qed

theorem proc_page_newest_first_witness:
  "\<exists>page. SynchronizationPreemptionTimeOutput (drv board_machine) = Some page \<and>
     length page < 4096"
  using proc_page_newest_first [OF sync_reach_inv [OF board_reach]] by blast

text \<open>C12: A read of \<open>count\<close> bytes at offset \<open>off\<close> of the page answers with the bytes from the offset
  on, as many as asked for and there, none beyond the end, and signals the end of the file when
  nothing is left after them; reading on from there gives the rest of the page. Offset and count are below
  \<open>2 ^ 20\<close>, far beyond the page, which has at most 1313 bytes.\<close>

theorem proc_read_window:
  assumes "sync_inv s" "off < 2 ^ 20" "count < 2 ^ 20"
  shows "\<exists>page a. SynchronizationPreemptionTimeOutput s = Some page \<and>
    SynchronizationPreemptionTimeRead s (word_of_nat off) (word_of_nat count) 0 = Some a \<and>
    pa_page a = page \<and> unat (pa_start a) = off \<and>
    unat (pa_len a) = length (take count (drop off page)) \<and>
    pa_eof a = (if length page \<le> off + count then 1 else 0)"
proof -
  obtain page where page: "SynchronizationPreemptionTimeOutput s = Some page"
    using SynchronizationPreemptionTimeOutput_total [OF assms(1)] by auto
  have len: "length page \<le> 1313" by (rule page_fits [OF assms(1) page])
  let ?len = "word_of_nat (length page) :: u32" and ?off = "word_of_nat off :: u32"
    and ?count = "word_of_nat count :: u32"
  have "sint (?off + ?count) = int (off + count)"
    using sint_word_of_nat_small [of "off + count"] assms(2,3) by simp
  then have eof: "?len <=s ?off + ?count \<longleftrightarrow> length page \<le> off + count"
    using len by (simp add: word_sle_eq sint_word_of_nat_small del: of_nat_add)
  have diff: "sint (?len - ?off) = int (length page) - int off"
    using len assms(2) by (intro sint_diff_small) simp_all
  then have cut: "?count <s ?len - ?off \<longleftrightarrow> off + count < length page"
    using assms(3) by (auto simp: word_sless_alt sint_word_of_nat_small)
  have neg: "?len - ?off <s 0 \<longleftrightarrow> length page < off" "\<not> ?count <s 0"
    using diff assms(3) by (auto simp: word_sless_alt sint_word_of_nat_small)
  have unats: "unat ?off = off" "unat ?count = count"
    "off \<le> length page \<Longrightarrow> unat (?len - ?off) = length page - off"
    using assms(2,3) len by (simp_all add: unat_word_of_nat_u32 unat_diff_small)
  have "SynchronizationPreemptionTimeRead s ?off ?count 0 = Some
      \<lparr>pa_page = page, pa_start = ?off, pa_eof = if length page \<le> off + count then 1 else 0,
        pa_len = if off + count < length page then ?count
                 else if length page < off then 0 else ?len - ?off\<rparr>"
    unfolding SynchronizationPreemptionTimeRead_def page option.case Let_def eof cut
    by (auto simp: neg)
  then show ?thesis using page unats by (auto simp: min_def)
qed

theorem proc_read_window_witness:
  "\<exists>a. SynchronizationPreemptionTimeRead (drv board_machine) 0 4096 0 = Some a \<and>
     pa_eof a = (if length (pa_page a) \<le> 4096 then 1 else 0)"
  using proc_read_window [OF sync_reach_inv [OF board_reach], of 0 4096] by auto

section \<open>File operations\<close>

text \<open>C15: \<open>poll\<close> reports data exactly when a read would not go to sleep, and changes nothing.\<close>

theorem poll_agrees_with_read:
  assumes "sync_inv s"
  shows "wp (Synchronization_poll e) (\<lambda>mask s'. log_of s s' \<and>
    (mask = 0 \<longleftrightarrow> fst (run_state (Synchronization_read e buf n) s) = Sleeping)) s"
proof (cases "m_bReadDone s = 1")
  case True
  then show ?thesis
    by (auto simp: Synchronization_poll_def Synchronization_read_def sync_read_unlocked_def
        sync_send_def wp_simps log_of_def)
next
  case False
  then have "m_bReadDone s = 0" using assms by (auto simp: sync_inv_def)
  then show ?thesis
    by (auto simp: Synchronization_poll_def Synchronization_read_def wp_simps log_of_def)
qed

theorem poll_agrees_with_read_witness:
  "fst (run_state (Synchronization_poll board) (drv board_machine)) = 0 \<longleftrightarrow>
     fst (run_state (Synchronization_read board 0 14) (drv board_machine)) = Sleeping"
  using poll_agrees_with_read [OF sync_reach_inv [OF board_reach], of board 0 14]
  by (simp add: wp_fst_snd)

text \<open>C14: A read of an unlocked device returns 13 after a real pulse and 14 after a simulated one,
  whatever the size asked for and even if the copy to user space fails, and consumes the pulse:
  the next read sleeps. A read woken up instead returns the same unless a signal is pending; then
  it returns \<open>-EINTR\<close> and leaves the pulse to the next read.\<close>

theorem read_consumes_pulse:
  assumes "sync_inv s" "m_bReadDone s = 1"
  shows "wp (Synchronization_read e buf n) (\<lambda>r s'.
      r = Returned (if m_uiReadKind s = 1 then 13 else 14) \<and>
      fst (run_state (Synchronization_read e buf n) s') = Sleeping) s \<and>
    wp (Synchronization_read_woken e buf) (\<lambda>r s'.
      if answer e (klog s) (KSched Signal_pending) \<noteq> 0
      then r = Returned (- EINTR) \<and> log_of s s'
      else r = Returned (if m_uiReadKind s = 1 then 13 else 14) \<and>
        fst (run_state (Synchronization_read e buf n) s') = Sleeping) s"
proof -
  have kind: "m_uiReadKind s = 1 \<or> m_uiReadKind s = 2" using assms by (auto simp: sync_inv_def)
  have direct: "wp (sync_read_unlocked e buf) (\<lambda>r s'.
      r = Returned (if m_uiReadKind s = 1 then 13 else 14) \<and>
      fst (run_state (Synchronization_read e buf n) s') = Sleeping) (s\<lparr>klog := l\<rparr>)" for l
    using kind assms(2)
    by (elim disjE) (simp_all add: sync_read_unlocked_def sync_send_def Synchronization_read_def
        sPpsDetected_def sPpsSimulated_def wp_simps)
  show ?thesis
    using direct [of "klog s"] direct [of "klog s @ [(KSched Signal_pending, 0)]"] assms(2)
    by (auto simp: Synchronization_read_def [of e buf n] Synchronization_read_woken_def wp_bind
        wp_rd wp_kcall wp_return resp_def log_of_def)
qed

theorem read_consumes_pulse_witness:
  "fst (run_state (Synchronization_read board 0 4)
     ((drv board_machine)\<lparr>m_bReadDone := 1, m_uiReadKind := 1\<rparr>)) = Returned 13"
proof -
  have "sync_inv ((drv board_machine)\<lparr>m_bReadDone := 1, m_uiReadKind := 1\<rparr>)"
    using sync_reach_inv [OF board_reach] by (simp add: sync_inv_def)
  from read_consumes_pulse [OF this, of board 0 4] show ?thesis by (simp add: wp_fst_snd)
qed

text \<open>C13: The data user space supplies during a second becomes the official data at the next pulse
  when the driver is waiting for the fix or fixed, and the flag that says so is used up.\<close>

theorem supplied_data_becomes_official:
  assumes "copies_work e" "sync_inv (drv m)"
    and "m_DriverCurrentState (drv m) \<in> {STATE_Wait_for_Gps_Fixed, STATE_Gps_Fixed}"
  shows "\<exists>m'. sync_runs e m [supply_data arg g, Pps_pulse] m' \<and>
    m_oGpsOfficialData (drv m') = g \<and> m_bDataSupplied (drv m') = 0"
proof -
  obtain m1 where m1: "sync_exec e (supply_data arg g) m = Some m1"
    and temp: "m_oGpsTemporaryData (drv m1) = g" "m_bDataSupplied (drv m1) = 1"
      "m_DriverCurrentState (drv m1) = m_DriverCurrentState (drv m)"
    using run_supply_data [OF assms(1), of arg g m] by auto
  let ?m2 = "after (PpsTimerIrqHandler e) m1"
  have "sync_runs e m [supply_data arg g, Pps_pulse] ?m2"
    using m1 by (auto simp: sync_step_def exec_pulse intro!: runs.intros)
  moreover have "m_oGpsOfficialData (drv ?m2) = g \<and> m_bDataSupplied (drv ?m2) = 0"
    using pulse_uploads [OF sync_exec_inv [OF assms(2) m1] temp(2), of e] temp assms(3)
    by (simp add: after_def)
  ultimately show ?thesis by blast
qed

theorem supplied_data_becomes_official_witness:
  "\<exists>m'. sync_runs board board_waiting [supply_data 0 fixed_data, Pps_pulse] m' \<and>
     m_oGpsOfficialData (drv m') = fixed_data"
proof -
  have "m_DriverCurrentState (drv board_waiting) = STATE_Wait_for_Gps_Fixed"
    using board_waiting_abs(1) by (simp add: sync_abs_def)
  from supplied_data_becomes_official [OF board_copies sync_reach_inv [OF board_waiting_reach],
      of 0 fixed_data] this
  show ?thesis by auto
qed

text \<open>The off time in minutes reads back as it was set when it is at most 60; a longer one is
  refused with its error number and changes nothing.\<close>

theorem off_time_round_trip:
  "wp (Synchronization_ioctl e SYNC_IOCTL_SET_GPS_OFF_TIME minutes g) (\<lambda>r s'.
     if minutes \<le> 60
     then r = 0 \<and> wp (Synchronization_ioctl e SYNC_IOCTL_GET_GPS_OFF_TIME arg g) (\<lambda>r2 s2.
        r2 = 0 \<and> (\<exists>v. klog s2 = klog s @ [(KUser (Put_user arg minutes), v)])) s'
     else r = sync_err ERR_SYNCHRONIZATION_IOCTL_SPECIFIED_GPS_OFF_TIME \<and> s' = s) s"
proof -
  have "minutes * 60 div 60 = minutes" if "minutes \<le> 60" for minutes :: u32
  proof -
    have m: "unat minutes \<le> 60" using that by (simp add: word_le_nat_alt)
    then have "unat (minutes * 60) = unat minutes * 60" using unat_mult_lem [of minutes 60] by simp
    then show ?thesis by (simp add: word_unat_eq_iff unat_div)
  qed
  then show ?thesis
    by (auto simp: Synchronization_ioctl_def sync_ioctl_set_off_time_def put_user_def wp_simps
        resp_def not_less)
qed

text \<open>The guard on the driver mode never rejects: every argument of \<open>SET_DRIVER_MODE\<close> becomes
  the mode, and with one that is not a mode the exported date has no microseconds.\<close>

theorem any_mode_is_accepted:
  "wp (Synchronization_ioctl e SYNC_IOCTL_SET_DRIVER_MODE arg g) (\<lambda>r s'.
     r = 0 \<and> s' = s\<lparr>m_uiDriverRunningMode := arg\<rparr> \<and>
     (arg \<in> {MODE1, MODE2, MODE3} \<or>
      uiMicroSecond (fst (run_state (EXPORT_GD_DATA_FROM_SYNCHONIZATION_DRIVER e) s')) = 0)) s"
proof -
  have "\<not> (arg < MODE1 \<and> arg > MODE3)"
    using order_less_trans [of "MODE3" arg "MODE1"] by auto
  then show ?thesis
    by (auto simp: Synchronization_ioctl_def sync_ioctl_set_mode_def wp_simps
        EXPORT_GD_DATA_FROM_SYNCHONIZATION_DRIVER_def GeoDatationData_zero_def)
qed

text \<open>The reports of the watching thread in a log.\<close>

definition second_errors :: "event list \<Rightarrow> event list" where
  "second_errors l = filter (\<lambda>ev. case fst ev of
     KDev (Printk_synchronization_error a b) \<Rightarrow> True | _ \<Rightarrow> False) l"

text \<open>The thread that watches the seconds never reports an error, whatever the seconds do: its
  condition asks for a difference that is negative and less than one as unsigned numbers.\<close>

theorem seconds_check_is_silent:
  "wp (SecondsIncrementsVerificationFunction e pc)
     (\<lambda>_ s'. second_errors (klog s') = second_errors (klog s)) s"
proof -
  have "x < 1 \<longleftrightarrow> x = 0" for x :: u32 by (simp add: word_less_nat_alt unat_eq_0)
  then have never: "\<not> (a < b \<and> a - b < 1)" for a b :: u32 by auto
  have "keeps (\<lambda>s'. second_errors (klog s') = second_errors (klog s))
      (SecondsIncrementsVerificationFunction e pc)"
    unfolding SecondsIncrementsVerificationFunction_def check_data_supplied_def check_loop_def never
    by (cases pc) (simp_all add: never, (intro keeps_intros; simp add: second_errors_def)+)
  then show ?thesis by (rule keepsD) simp
qed

section \<open>Resources\<close>


lemma board_orderly: "orderly board id"
  by (simp add: orderly_def board_answer_def m_uiPpsTimerNumber_def m_uiRelayTimerNumber_def)


text \<open>An insertion that fails after the relay timer has been configured leaves the interrupt of
  the relay timer requested although the module is gone: none of the exit shortcuts frees it.\<close>

theorem late_failure_leaks_relay_irq:
  assumes "fst (run_state (Synchronization_initialize e) s) \<in> sync_err ` late_errors"
  shows "relay_irq_held e (snd (run_state (Synchronization_initialize e) s))"
  using wp_Synchronization_initialize_leaks [of e s] assms
  by (simp add: wp_fst_snd leaks_if_late_def)

text \<open>A board on which the register of the shutdown line cannot be mapped.\<close>

definition busy_board :: kernel where
  "busy_board = board\<lparr>answer := \<lambda>l c.
     if c = KIo (Ioremap m_uiGpsShutdownGpioRegisterAddress 2) then 0 else board_answer l c\<rparr>"

lemma busy_board_initialize:
  "fst (run_state (Synchronization_initialize busy_board) sync_globals) =
     sync_err ERR_SYNCHRONIZATION_GPSSHUTDOWNGPIOCONFIGURATION_MUX_REQUEST"
  by (simp add: busy_board_def board_def Synchronization_initialize_def sync_create_device_def
      synchronization_node_def sync_configure_def RelayTimerConfiguration_def
      relay_timer_setup_def relay_timer_interrupt_def GpsSoftwareShutdownGpioConfiguration_def
      out_proc_del_def out_device_del_def out_cdev_del_def out_unregister_def board_answer_def
      word_sless_alt Let_def sync_err_def m_uiRelayTimerNumber_def
      m_uiGpsShutdownGpioRegisterAddress_def)

theorem late_failure_leaks_relay_irq_witness:
  "relay_irq_held busy_board (snd (run_state (Synchronization_initialize busy_board) sync_globals))"
  by (rule late_failure_leaks_relay_irq) (simp add: busy_board_initialize late_errors_def)

text \<open>When the driver is removed between the pulse that starts the relay timer and the next
  one, the relay timer is left running: removal stops it only in \<open>STATE_Gps_Off\<close>.\<close>

theorem removal_leaves_relay_running:
  assumes "sync_inv s" "m_DriverCurrentState s = STATE_Gps_Fixed"
    and "m_DriverCurrentState (snd (run_state (PpsTimerIrqHandler e) s)) = STATE_Switch_Gps_to_Off"
    and "m_pPpsTimerStruct s \<noteq> m_pRelayTimerStruct s"
  shows "timer_running (m_pRelayTimerStruct s) (klog (snd (run_state (Synchronization_cleanup e)
    (snd (run_state (PpsTimerIrqHandler e) s)))))"
proof -
  have "relay_runs (m_pRelayTimerStruct s) STATE_Switch_Gps_to_Off (m_pPpsTimerStruct s)
      (snd (run_state (PpsTimerIrqHandler e) s))"
    using relay_armed [OF assms(1,2), of e] assms(3) by (simp add: wp_fst_snd)
  from keeps_snd [OF keeps_relay_runs_cleanup [OF _ assms(4)] this, of e] show ?thesis
    by (simp add: relay_runs_def)
qed

theorem removal_leaves_relay_running_witness:
  "\<exists>s :: sync_state. m_DriverCurrentState s = STATE_Switch_Gps_to_Off \<and>
     timer_running (m_pRelayTimerStruct s) (klog (snd (run_state (Synchronization_cleanup board) s)))"
proof -
  let ?gs = "replicate 16 fixed_data"
  obtain m1 where m1: "sync_runs board board_waiting (concat (map (valid_second 0) ?gs)) m1"
      "sync_inv (drv m1)" "sync_abs (drv m1) = (STATE_Gps_Fixed, 16)" "holdover_ready (drv m1)"
    using run_valid_seconds [OF board_copies _ sync_reach_inv [OF board_waiting_reach]
        board_waiting_abs(1), of ?gs 0] fixed_data_valid board_waiting_abs(2) by auto
  obtain l where l: "sync_exec board (supply_data 0 fixed_data) m1 = Some (m1\<lparr>drv := (drv m1)
      \<lparr>klog := l, m_oGpsTemporaryData := fixed_data, m_bDataSupplied := 1\<rparr>\<rparr>)"
    using run_supply_data [OF board_copies] by blast
  let ?s = "(drv m1)\<lparr>klog := l, m_oGpsTemporaryData := fixed_data, m_bDataSupplied := 1\<rparr>"
  have inv: "sync_inv ?s" using sync_exec_inv [OF m1(2) l] by simp
  have fixed: "m_DriverCurrentState ?s = STATE_Gps_Fixed" using m1(3) by (simp add: sync_abs_def)
  have run: "sync_runs board board_waiting
      (concat (map (valid_second 0) ?gs) @ [supply_data 0 fixed_data]) (m1\<lparr>drv := ?s\<rparr>)"
    by (rule runs_append [OF m1(1)]) (auto simp: sync_step_def l intro!: runs.intros)
  have start: "sync_holds board id (drv board_machine)"
    using wp_Synchronization_initialize_hold [OF board_orderly, of sync_globals] board_initialize
    by (simp add: wp_fst_snd sync_holds_if_ok_def case_prod_beta board_machine_def holding_def
        sync_globals_def)
  have "sync_runs board board_machine
      [Ioctl_sync SYNC_IOCTL_SET_DRIVER_MODE MODE3 GpsData_zero, Pps_pulse] board_waiting"
    by (auto simp: sync_step_def sync_exec_def board_waiting_def intro!: runs.intros)
  from sync_runs_holds [OF run sync_runs_holds [OF this start]]
  have ne: "m_pPpsTimerStruct ?s \<noteq> m_pRelayTimerStruct ?s" by (simp add: sync_holds_def)
  have "sync_abs (snd (run_state (PpsTimerIrqHandler board) ?s)) = (STATE_Switch_Gps_to_Off, 17)"
    using PpsTimerIrqHandler_abs [OF inv, of board] m1(3,4) fixed_data_valid
    by (simp add: sync_abs_def pulse_ok_def holdover_ready_def count_pulse_def)
  then have switch: "m_DriverCurrentState (snd (run_state (PpsTimerIrqHandler board) ?s)) =
      STATE_Switch_Gps_to_Off" by (simp add: sync_abs_def)
  have same: "m_pRelayTimerStruct (snd (run_state (PpsTimerIrqHandler board) ?s)) =
      m_pRelayTimerStruct ?s"
    using relay_armed [OF inv fixed, of board] switch by (simp add: wp_fst_snd relay_runs_def)
  let ?s' = "snd (run_state (PpsTimerIrqHandler board) ?s)"
  have "timer_running (m_pRelayTimerStruct ?s')
      (klog (snd (run_state (Synchronization_cleanup board) ?s')))"
    unfolding same by (rule removal_leaves_relay_running [OF inv fixed switch ne])
  with switch show ?thesis by blast
qed

end
