(* ===== verification/Gpio_State.thy ===== *)
theory Gpio_State
  imports Sync_Fops
begin

text \<open>
  The GPIO driver, \<open>ifsttar-gpio-drv.c\<close>: its global variables (lines 59 to 78) and the structure
  it keeps for each of the 192 lines (\<open>GpioAttributes\<close> of the header). The driver links against
  the synchronization driver, whose exported function its interrupt handler calls, so the state
  extends that driver's. \<open>read_minor\<close> is the function-local \<open>static int minor\<close> of \<open>Gpio_read\<close>:
  it is shared by all the reads that sleep, and so part of the state; the other function-local
  statics are assigned before they are read by functions that do not sleep.
\<close>

abbreviation DRIVER_DEV_REGISTER_NB :: nat where "DRIVER_DEV_REGISTER_NB \<equiv> 192"
abbreviation MAX_MUX_NB :: nat where "MAX_MUX_NB \<equiv> 3"

abbreviation INPUT :: u32 where "INPUT \<equiv> 921"
abbreviation OUTPUT :: u32 where "OUTPUT \<equiv> 922"
abbreviation IO_MODE :: u32 where "IO_MODE \<equiv> 931"
abbreviation IT_MODE :: u32 where "IT_MODE \<equiv> 932"
abbreviation MAX_DEBOUNCE_VALUE :: u32 where "MAX_DEBOUNCE_VALUE \<equiv> 500"
abbreviation INIT_VALUE :: u32 where "INIT_VALUE \<equiv> 255"

abbreviation GPIO_PIN_MODE :: u16 where "GPIO_PIN_MODE \<equiv> 0x010C"
abbreviation SAFE_PIN_MODE :: u16 where "SAFE_PIN_MODE \<equiv> 0x010F"

record GpioAttributes =
  sLabel :: string \<comment> \<open>the eight bytes of the array\<close>
  bValue :: u32
  bMode :: u32
  bDirection :: u32
  bDone :: u32
  bIsOpened :: u32
  uiTriggerMode :: u32
  uiMsDebounceDelay :: u32
  uiPreviousMode :: "u32 list"
  uiDefaultMode :: "u32 list"
  uiNbMuxed :: u32
  uiRegisterAdress :: "u32 list"
  pDeviceEntry :: u32
  oLastItGDData :: GeoDatationData

definition GpioAttributes_zero :: GpioAttributes where
  "GpioAttributes_zero = \<lparr>sLabel = replicate 8 CHR 0x00, bValue = 0, bMode = 0, bDirection = 0,
     bDone = 0, bIsOpened = 0, uiTriggerMode = 0, uiMsDebounceDelay = 0,
     uiPreviousMode = replicate MAX_MUX_NB 0, uiDefaultMode = replicate MAX_MUX_NB 0,
     uiNbMuxed = 0, uiRegisterAdress = replicate MAX_MUX_NB 0, pDeviceEntry = 0,
     oLastItGDData = GeoDatationData_zero\<rparr>"

record gpio_state = sync_state +
  m_uiGpioMajor :: u32
  m_uiGpioMinor :: u32
  m_oGpioDev :: u32
  m_pGpioClass :: u32
  m_pGpioAttributesTab :: "GpioAttributes list"
  read_minor :: u32

text \<open>The data section of the module, beside a synchronization driver in the state \<open>s\<close>.\<close>

definition gpio_globals :: "sync_state \<Rightarrow> gpio_state" where
  "gpio_globals s = sync_state.extend s
     \<lparr>m_uiGpioMajor = 0, m_uiGpioMinor = 0, m_oGpioDev = 0, m_pGpioClass = 0,
      m_pGpioAttributesTab = replicate DRIVER_DEV_REGISTER_NB GpioAttributes_zero,
      read_minor = 0\<rparr>"

section \<open>Access to the table\<close>

abbreviation attrs :: "nat \<Rightarrow> 'a gpio_state_scheme \<Rightarrow> GpioAttributes" where
  "attrs n s \<equiv> m_pGpioAttributesTab s ! n"

definition put_attrs ::
    "nat \<Rightarrow> (GpioAttributes \<Rightarrow> GpioAttributes) \<Rightarrow> 'a gpio_state_scheme \<Rightarrow> 'a gpio_state_scheme" where
  "put_attrs n f s = s\<lparr>m_pGpioAttributesTab := (m_pGpioAttributesTab s)[n := f (attrs n s)]\<rparr>"

abbreviation set_attrs ::
    "nat \<Rightarrow> (GpioAttributes \<Rightarrow> GpioAttributes) \<Rightarrow> ('a gpio_state_scheme, unit) state" where
  "set_attrs n f \<equiv> wr (put_attrs n f)"

text \<open>A function that reaches the table with a minor outside it has left C.\<close>

definition with_line ::
    "kernel \<Rightarrow> u32 \<Rightarrow> ('a gpio_state_scheme, 'r) state \<Rightarrow> 'r \<Rightarrow> ('a gpio_state_scheme, 'r) state" where
  "with_line e minor m r =
     (if unat minor < DRIVER_DEV_REGISTER_NB then m else do { out_of_bounds e; ret r })"

text \<open>\<open>CheckMinor\<close>; the argument is the \<open>i_rdev\<close> of the inode.\<close>

definition CheckMinor :: "kernel \<Rightarrow> u32 \<Rightarrow> u32" where
  "CheckMinor e i_rdev = k_MINOR e i_rdev"

lemma put_attrs_simps [simp]:
  "klog (put_attrs n f s) = klog s"
  "length (m_pGpioAttributesTab (put_attrs n f s)) = length (m_pGpioAttributesTab s)"
  "k < length (m_pGpioAttributesTab s) \<Longrightarrow>
     attrs k (put_attrs n f s) = (if k = n then f (attrs n s) else attrs k s)"
  "m_uiGpioMajor (put_attrs n f s) = m_uiGpioMajor s"
  "m_uiGpioMinor (put_attrs n f s) = m_uiGpioMinor s"
  "m_oGpioDev (put_attrs n f s) = m_oGpioDev s"
  "m_pGpioClass (put_attrs n f s) = m_pGpioClass s"
  "read_minor (put_attrs n f s) = read_minor s"
  by (simp_all add: put_attrs_def nth_list_update)

lemma put_attrs_sync [simp]:
  "sync_state.truncate (put_attrs n f s) = sync_state.truncate s"
  by (simp add: put_attrs_def sync_state.truncate_def)

lemma wp_with_line [wp_simps]:
  "wp (with_line e minor m r) Q s =
     ((unat minor < DRIVER_DEV_REGISTER_NB \<longrightarrow> wp m Q s) \<and>
      (DRIVER_DEV_REGISTER_NB \<le> unat minor \<longrightarrow> wp (out_of_bounds e) (\<lambda>_. Q r) s))"
  by (auto simp: with_line_def wp_simps not_less)

end
