(* ===== verification/Gpio_Mux.thy ===== *)
theory Gpio_Mux
  imports Gpio_State
begin

text \<open>
  The pad multiplexing registers of the GPIO driver (lines 120 to 396 of \<open>ifsttar-gpio-drv.c\<close>):
  the table of their addresses, and the four functions that save, force and restore their modes.
\<close>

section \<open>The register addresses\<close>

definition set_register :: "nat \<Rightarrow> nat \<Rightarrow> u32 \<Rightarrow> ('a gpio_state_scheme, unit) state" where
  "set_register n i a =
     set_attrs n (\<lambda>g. g\<lparr>uiRegisterAdress := (uiRegisterAdress g)[i := a]\<rparr>)"

text \<open>The loops of \<open>SaveRegisterAddr\<close>: the lines \<open>first\<close> to \<open>final\<close> from \<open>base\<close> on, two bytes apart.\<close>

definition set_register_range :: "nat \<Rightarrow> nat \<Rightarrow> u32 \<Rightarrow> ('a gpio_state_scheme, unit) state" where
  "set_register_range first final base =
     do_each [0..<final - first + 1]
       (\<lambda>iCpt. set_register (first + iCpt) 0 (base + 2 * word_of_nat iCpt))"

definition add_second_register :: "nat \<Rightarrow> u32 \<Rightarrow> ('a gpio_state_scheme, unit) state" where
  "add_second_register n a = do {
     set_register n 1 a;
     set_attrs n (\<lambda>g. g\<lparr>uiNbMuxed := uiNbMuxed g + 1\<rparr>) }"

definition SaveRegisterAddr :: "('a gpio_state_scheme, u32) state" where
  "SaveRegisterAddr = do {
     set_register 0 0 0x480021E0;
     set_register 1 0 0x48002A06;
     set_register_range 2 10 0x48002A0A;
     set_register 11 0 0x48002A24;
     set_register_range 12 29 0x480025D8;
     set_register 30 0 0x48002A08;
     set_register 31 0 0x48002A26;
     set_register 32 0 0x4800223A;
     set_attrs 33 (\<lambda>g. g\<lparr>uiNbMuxed := 0\<rparr>);
     set_register_range 34 43 0x4800207A;
     set_register_range 44 51 0x4800209E;
     set_register_range 52 59 0x480020B0;
     set_register_range 60 62 0x480020C6;
     set_register_range 63 111 0x480020CE;
     set_register_range 112 166 0x48002134;
     set_register 167 0 0x48002130;
     set_register 168 0 0x480021BE;
     set_register 169 0 0x480021B0;
     set_register_range 170 182 0x480021C6;
     set_register_range 183 185 0x480021C0;
     set_register 186 0 0x480021E2;
     set_register 187 0 0x48002238;
     set_register_range 188 191 0x480021B2;
     add_second_register 120 0x480021A2;
     add_second_register 121 0x480021A4;
     add_second_register 122 0x480021A6;
     add_second_register 124 0x480021A8;
     add_second_register 125 0x480021AA;
     add_second_register 126 0x48002132;
     add_second_register 130 0x480021AC;
     add_second_register 131 0x480021AE;
     ret 0 }"

section \<open>Saving, forcing and restoring the modes\<close>

text \<open>Map the \<open>i\<close>-th register of line \<open>n\<close>.\<close>

definition map_register :: "kernel \<Rightarrow> nat \<Rightarrow> nat \<Rightarrow> ('a gpio_state_scheme, u32) state" where
  "map_register e n i = do {
     (if i < MAX_MUX_NB then skip else out_of_bounds e);
     g \<leftarrow> rd (attrs n);
     kcall e (KIo (Ioremap (uiRegisterAdress g ! i) 2)) }"

definition save_default_register ::
    "kernel \<Rightarrow> nat \<Rightarrow> nat \<Rightarrow> ('a gpio_state_scheme, u32 option) state" where
  "save_default_register e n i = do {
     addr \<leftarrow> map_register e n i;
     (if addr = 0 then ret (Some (gpio_err ERR_GPIO_SAVEDEFAULTMODE_MUX_REQUEST))
      else do {
        v \<leftarrow> kcall e (KIo (Ioread16 addr));
        set_attrs n (\<lambda>g. g\<lparr>uiDefaultMode := (uiDefaultMode g)[i := v]\<rparr>);
        kdo e (KIo (Iounmap addr));
        ret None }) }"

definition SaveDefaultMode :: "kernel \<Rightarrow> ('a gpio_state_scheme, u32) state" where
  "SaveDefaultMode e = do {
     failed \<leftarrow> for_each [0..<DRIVER_DEV_REGISTER_NB] (\<lambda>iCpt1. do {
       g \<leftarrow> rd (attrs iCpt1);
       for_each [0..<unat (uiNbMuxed g)] (save_default_register e iCpt1) });
     (case failed of Some r \<Rightarrow> ret r | None \<Rightarrow> ret 0) }"

definition force_register ::
    "kernel \<Rightarrow> nat \<Rightarrow> nat \<Rightarrow> nat \<Rightarrow> ('a gpio_state_scheme, u32 option) state" where
  "force_register e n k i = do {
     addr \<leftarrow> map_register e n i;
     (if addr = 0 then ret (Some (gpio_err ERR_GPIO_FORCEGPIOMODE_MUX_REQUEST))
      else do {
        v \<leftarrow> kcall e (KIo (Ioread16 addr));
        set_attrs n (\<lambda>g. g\<lparr>uiPreviousMode := (uiPreviousMode g)[i := v]\<rparr>);
        kdo e (KIo (Iowrite16 (if i = k then GPIO_PIN_MODE else SAFE_PIN_MODE) addr));
        kdo e (KIo (Iounmap addr));
        ret None }) }"

definition ForceGpioMode :: "kernel \<Rightarrow> nat \<Rightarrow> u32 \<Rightarrow> ('a gpio_state_scheme, u32) state" where
  "ForceGpioMode e n iRegisterToMux = do {
     g \<leftarrow> rd (attrs n);
     (if iRegisterToMux \<ge> uiNbMuxed g then ret (gpio_err ERR_GPIO_FORCEGPIOMODE_MUX_UNAVAILABLE)
      else do {
        failed \<leftarrow> for_each [0..<unat (uiNbMuxed g)] (force_register e n (unat iRegisterToMux));
        (case failed of Some r \<Rightarrow> ret r | None \<Rightarrow> ret 0) }) }"

text \<open>
  Write \<open>uiToRestoreMode\<close>, a \<open>u16\<close>, into the register mapped at \<open>addr\<close> when it differs from what
  is there, and remember what was there.
\<close>

definition restore_mode ::
    "kernel \<Rightarrow> nat \<Rightarrow> nat \<Rightarrow> u32 \<Rightarrow> u16 \<Rightarrow> ('a gpio_state_scheme, unit) state" where
  "restore_mode e n i addr uiToRestoreMode = do {
     v \<leftarrow> kcall e (KIo (Ioread16 addr));
     set_attrs n (\<lambda>g. g\<lparr>uiPreviousMode := (uiPreviousMode g)[i := v]\<rparr>);
     (if v \<noteq> ucast uiToRestoreMode then kdo e (KIo (Iowrite16 uiToRestoreMode addr)) else skip);
     kdo e (KIo (Iounmap addr)) }"

definition restore_previous_register ::
    "kernel \<Rightarrow> nat \<Rightarrow> nat \<Rightarrow> ('a gpio_state_scheme, u32 option) state" where
  "restore_previous_register e n i = do {
     addr \<leftarrow> map_register e n i;
     (if addr = 0 then ret (Some (gpio_err ERR_GPIO_RESTOREPREVIOUSGPIOMODE_MUX_REQUEST))
      else do {
        g \<leftarrow> rd (attrs n);
        restore_mode e n i addr (ucast (uiPreviousMode g ! i));
        ret None }) }"

definition RestorePreviousGpioMode :: "kernel \<Rightarrow> nat \<Rightarrow> ('a gpio_state_scheme, u32) state" where
  "RestorePreviousGpioMode e n = do {
     g \<leftarrow> rd (attrs n);
     failed \<leftarrow> for_each [0..<unat (uiNbMuxed g)] (restore_previous_register e n);
     (case failed of Some r \<Rightarrow> ret r | None \<Rightarrow> ret 0) }"

text \<open>The message about a register that cannot be mapped indexes the line's registers by the
  line's number.\<close>

definition restore_default_register ::
    "kernel \<Rightarrow> nat \<Rightarrow> nat \<Rightarrow> ('a gpio_state_scheme, u32 option) state" where
  "restore_default_register e n i = do {
     addr \<leftarrow> map_register e n i;
     (if addr = 0 then do {
        (if n < MAX_MUX_NB then skip else out_of_bounds e);
        ret (Some (gpio_err ERR_GPIO_RESTOREALLCHANGEDMUX_MUX_REQUEST)) }
      else do {
        g \<leftarrow> rd (attrs n);
        restore_mode e n i addr (ucast (uiDefaultMode g ! i));
        ret None }) }"

definition RestoreAllChangedMux :: "kernel \<Rightarrow> ('a gpio_state_scheme, u32) state" where
  "RestoreAllChangedMux e = do {
     failed \<leftarrow> for_each [0..<DRIVER_DEV_REGISTER_NB] (\<lambda>iCpt1. do {
       g \<leftarrow> rd (attrs iCpt1);
       for_each [0..<unat (uiNbMuxed g)] (restore_default_register e iCpt1) });
     (case failed of Some r \<Rightarrow> ret r | None \<Rightarrow> ret 0) }"

end
