(* ===== verification/Gpio_Fops.thy ===== *)
theory Gpio_Fops
  imports Gpio_Mux
begin

text \<open>
  The interrupt handler and the file operations of the GPIO driver (lines 412 to 956 of
  \<open>ifsttar-gpio-drv.c\<close>). A blocking read gives way where it sleeps: \<open>Gpio_read\<close> runs up to there,
  \<open>Gpio_read_woken\<close> from there on, and in between the static \<open>minor\<close> may have changed.
\<close>

section \<open>The interrupt\<close>

definition gpio_irq :: "kernel \<Rightarrow> u32 \<Rightarrow> ('a gpio_state_scheme, unit) state" where
  "gpio_irq e minor = do {
     oGDData \<leftarrow> EXPORT_GD_DATA_FROM_SYNCHONIZATION_DRIVER e;
     set_attrs (unat minor) (\<lambda>g. g\<lparr>oLastItGDData := oGDData\<rparr>);
     v \<leftarrow> kcall e (KGpio (Gpio_get_value minor));
     set_attrs (unat minor) (\<lambda>g. g\<lparr>bValue := v\<rparr>);
     g \<leftarrow> rd (attrs (unat minor));
     kdo e (KSched (Mdelay (uiMsDebounceDelay g)));
     set_attrs (unat minor) (\<lambda>g. g\<lparr>bDone := 1\<rparr>);
     kdo e (KSched (Wake_up_interruptible Gpio_Read_wait)) }"

definition GpioIrqHandler :: "kernel \<Rightarrow> u32 \<Rightarrow> ('a gpio_state_scheme, unit) state" where
  "GpioIrqHandler e dev_id = with_line e dev_id (gpio_irq e dev_id) ()"

section \<open>Open and close\<close>

text \<open>The line as an input or an output, in the structure and physically.\<close>

definition make_input :: "kernel \<Rightarrow> u32 \<Rightarrow> ('a gpio_state_scheme, u32) state" where
  "make_input e minor = do {
     set_attrs (unat minor) (\<lambda>g. g\<lparr>bDirection := INPUT\<rparr>);
     iRet \<leftarrow> kcall e (KGpio (Gpio_direction_input minor));
     v \<leftarrow> kcall e (KGpio (Gpio_get_value minor));
     set_attrs (unat minor) (\<lambda>g. g\<lparr>bValue := v\<rparr>);
     ret iRet }"

definition make_output :: "kernel \<Rightarrow> u32 \<Rightarrow> ('a gpio_state_scheme, u32) state" where
  "make_output e minor = do {
     set_attrs (unat minor) (\<lambda>g. g\<lparr>bValue := 0\<rparr>);
     set_attrs (unat minor) (\<lambda>g. g\<lparr>bDirection := OUTPUT\<rparr>);
     g \<leftarrow> rd (attrs (unat minor));
     kcall e (KGpio (Gpio_direction_output minor (bValue g))) }"

definition finish_open :: "u32 \<Rightarrow> ('a gpio_state_scheme, u32) state" where
  "finish_open minor = do {
     set_attrs (unat minor) (\<lambda>g. g\<lparr>bMode := IO_MODE, bDone := 0, bIsOpened := 1\<rparr>);
     ret 0 }"

text \<open>The label as \<open>gpio_request\<close> sees it: up to the first NUL.\<close>

definition c_string :: "string \<Rightarrow> string" where
  "c_string s = takeWhile (\<lambda>c. c \<noteq> CHR 0x00) s"

definition open_line :: "kernel \<Rightarrow> u32 \<Rightarrow> u32 \<Rightarrow> ('a gpio_state_scheme, u32) state" where
  "open_line e minor f_mode = do {
     g \<leftarrow> rd (attrs (unat minor));
     (if bIsOpened g \<noteq> 0 then ret (gpio_err ERR_GPIO_OPEN_GPIO_BUSY_IN_DRIVER)
      else do {
        ForceGpioMode e (unat minor) 0;
        busy \<leftarrow> kcall e (KGpio (Gpio_request minor (c_string (sLabel g))));
        (if busy \<noteq> 0 then do {
           set_attrs (unat minor) (\<lambda>g. g\<lparr>bIsOpened := 0\<rparr>);
           ret (gpio_err ERR_GPIO_OPEN_GPIO_BUSY_OUT_DRIVER) }
         else if f_mode AND 1 \<noteq> 0 then do {
           iRet \<leftarrow> make_input e minor;
           (if iRet <s 0 then ret (gpio_err ERR_GPIO_OPEN_GPIO_SET_DIRECTION_INPUT)
            else finish_open minor) }
         else do {
           iRet \<leftarrow> make_output e minor;
           (if iRet <s 0 then ret (gpio_err ERR_GPIO_OPEN_GPIO_SET_DIRECTION_OUTPUT)
            else finish_open minor) }) }) }"

definition Gpio_open :: "kernel \<Rightarrow> u32 \<Rightarrow> u32 \<Rightarrow> ('a gpio_state_scheme, u32) state" where
  "Gpio_open e i_rdev f_mode = (let minor = CheckMinor e i_rdev in
     if minor <s 0 then ret (gpio_err ERR_GPIO_OPEN_WRONG_MINOR)
     else with_line e minor (open_line e minor f_mode) 0)"

definition free_line_irq :: "kernel \<Rightarrow> u32 \<Rightarrow> ('a gpio_state_scheme, unit) state" where
  "free_line_irq e minor = do {
     irq \<leftarrow> kcall e (KGpio (Gpio_to_irq minor));
     kdo e (KIrq (Free_irq irq minor)) }"

definition close_line :: "kernel \<Rightarrow> u32 \<Rightarrow> ('a gpio_state_scheme, u32) state" where
  "close_line e minor = do {
     g \<leftarrow> rd (attrs (unat minor));
     (if bMode g = IO_MODE then kdo e (KGpio (Gpio_free minor))
      else if bMode g = IT_MODE then free_line_irq e minor
      else skip);
     set_attrs (unat minor) (\<lambda>g. g\<lparr>bIsOpened := 0\<rparr>);
     RestorePreviousGpioMode e (unat minor);
     ret 0 }"

definition Gpio_close :: "kernel \<Rightarrow> u32 \<Rightarrow> ('a gpio_state_scheme, u32) state" where
  "Gpio_close e i_rdev = (let minor = CheckMinor e i_rdev in
     if minor <s 0 then ret (gpio_err ERR_GPIO_CLOSE_WRONG_MINOR)
     else with_line e minor (close_line e minor) 0)"

section \<open>Read, write and poll\<close>

text \<open>Send the value of the line whose number is in the static.\<close>

definition read_finish :: "kernel \<Rightarrow> u32 \<Rightarrow> ('a gpio_state_scheme, read_result) state" where
  "read_finish e buf = do {
     minor \<leftarrow> rd read_minor;
     g \<leftarrow> rd (attrs (unat minor));
     left \<leftarrow> kcall e (KUser (Copy_to_user buf (Text (if bValue g \<noteq> 0 then ''1'' else ''0'')) 2));
     ret (Returned (if left \<noteq> 0 then gpio_err ERR_GPIO_READ_WRONG_READED_BYTES else 2)) }"

text \<open>One turn of \<open>while (1)\<close>: leave the loop, or go to sleep.\<close>

definition read_wait :: "kernel \<Rightarrow> u32 \<Rightarrow> ('a gpio_state_scheme, read_result) state" where
  "read_wait e buf = do {
     minor \<leftarrow> rd read_minor;
     g \<leftarrow> rd (attrs (unat minor));
     (if bDone g = 1 then do {
        set_attrs (unat minor) (\<lambda>g. g\<lparr>bDone := 0\<rparr>);
        read_finish e buf }
      else do {
        kdo e (KSched (Interruptible_sleep_on Gpio_Read_wait));
        ret Sleeping }) }"

definition read_line :: "kernel \<Rightarrow> u32 \<Rightarrow> ('a gpio_state_scheme, read_result) state" where
  "read_line e buf = do {
     minor \<leftarrow> rd read_minor;
     g \<leftarrow> rd (attrs (unat minor));
     (if bMode g = IO_MODE \<and> bDirection g \<noteq> INPUT
      then ret (Returned (gpio_err ERR_GPIO_READ_WRONG_GPIO_DIRECTION))
      else if bMode g = IO_MODE then do {
        v \<leftarrow> kcall e (KGpio (Gpio_get_value minor));
        set_attrs (unat minor) (\<lambda>g. g\<lparr>bValue := v\<rparr>);
        read_finish e buf }
      else if bMode g = IT_MODE then read_wait e buf
      else ret (Returned (gpio_err ERR_GPIO_READ_WRONG_GPIO_MODE))) }"

definition Gpio_read ::
    "kernel \<Rightarrow> u32 \<Rightarrow> u32 \<Rightarrow> u32 \<Rightarrow> ('a gpio_state_scheme, read_result) state" where
  "Gpio_read e i_rdev buf sz = do {
     wr (\<lambda>s. s\<lparr>read_minor := CheckMinor e i_rdev\<rparr>);
     minor \<leftarrow> rd read_minor;
     (if minor <s 0 then ret (Returned (gpio_err ERR_GPIO_READ_WRONG_MINOR))
      else if sz < 2 then ret (Returned (gpio_err ERR_GPIO_READ_SPECIFIED_SIZE))
      else with_line e minor (read_line e buf) (Returned 0)) }"

definition Gpio_read_woken :: "kernel \<Rightarrow> u32 \<Rightarrow> ('a gpio_state_scheme, read_result) state" where
  "Gpio_read_woken e buf = do {
     pending \<leftarrow> kcall e (KSched Signal_pending);
     (if pending \<noteq> 0 then ret (Returned (- EINTR))
      else do {
        minor \<leftarrow> rd read_minor;
        with_line e minor (read_wait e buf) (Returned 0) }) }"

definition write_line ::
    "kernel \<Rightarrow> u32 \<Rightarrow> u8 \<Rightarrow> u32 \<Rightarrow> ('a gpio_state_scheme, u32) state" where
  "write_line e minor c sz = do {
     g \<leftarrow> rd (attrs (unat minor));
     (if bMode g \<noteq> IO_MODE then ret (gpio_err ERR_GPIO_WRITE_WRONG_GPIO_MODE)
      else if bDirection g \<noteq> OUTPUT then ret (gpio_err ERR_GPIO_WRITE_WRONG_GPIO_DIRECTION)
      else do {
        set_attrs (unat minor) (\<lambda>g. g\<lparr>bValue := (if c = 0 \<or> c = 0x30 then 0 else 1)\<rparr>);
        g \<leftarrow> rd (attrs (unat minor));
        kdo e (KGpio (Gpio_set_value minor (bValue g)));
        ret sz }) }"

text \<open>\<open>c\<close> is the first byte of the user's buffer, which the code reads without copying it in.\<close>

definition Gpio_write ::
    "kernel \<Rightarrow> u32 \<Rightarrow> u32 \<Rightarrow> u8 \<Rightarrow> u32 \<Rightarrow> ('a gpio_state_scheme, u32) state" where
  "Gpio_write e i_rdev buf c sz = (let minor = CheckMinor e i_rdev in
     if minor <s 0 then ret (gpio_err ERR_GPIO_WRITE_WRONG_MINOR)
     else if sz < 2 then ret (gpio_err ERR_GPIO_WRITE_SPECIFIED_SIZE)
     else if buf = 0 then ret (gpio_err ERR_GPIO_WRITE_SPECIFIED_BUFFER)
     else with_line e minor (write_line e minor c sz) 0)"

definition poll_line :: "kernel \<Rightarrow> u32 \<Rightarrow> ('a gpio_state_scheme, u32) state" where
  "poll_line e minor = do {
     g \<leftarrow> rd (attrs (unat minor));
     (if bMode g = IT_MODE then do {
        kdo e (KSched (Poll_wait Gpio_Read_wait));
        g \<leftarrow> rd (attrs (unat minor));
        ret (if bDone g \<noteq> 0 then POLLIN OR POLLRDNORM else 0) }
      else ret 0) }"

definition Gpio_poll :: "kernel \<Rightarrow> u32 \<Rightarrow> ('a gpio_state_scheme, u32) state" where
  "Gpio_poll e i_rdev = (let minor = CheckMinor e i_rdev in
     with_line e minor (poll_line e minor) 0)"

section \<open>ioctl\<close>

definition gpio_ioctl_set_direction ::
    "kernel \<Rightarrow> u32 \<Rightarrow> u32 \<Rightarrow> ('a gpio_state_scheme, u32) state" where
  "gpio_ioctl_set_direction e minor arg = do {
     g \<leftarrow> rd (attrs (unat minor));
     (if bMode g \<noteq> IO_MODE then ret (gpio_err ERR_GPIO_IOCTL_WRONG_GPIO_MODE)
      else if arg = INPUT then do { make_input e minor; ret 0 }
      else if arg = OUTPUT then do { make_output e minor; ret 0 }
      else ret (gpio_err ERR_GPIO_IOCTL_SPECIFIED_DIRECTION)) }"

definition gpio_ioctl_set_output ::
    "kernel \<Rightarrow> u32 \<Rightarrow> u32 \<Rightarrow> ('a gpio_state_scheme, u32) state" where
  "gpio_ioctl_set_output e minor arg = do {
     g \<leftarrow> rd (attrs (unat minor));
     (if bMode g \<noteq> IO_MODE then ret (gpio_err ERR_GPIO_IOCTL_WRONG_GPIO_MODE)
      else if bDirection g \<noteq> OUTPUT then ret (gpio_err ERR_GPIO_IOCTL_WRONG_GPIO_DIRECTION)
      else if arg > 1 then ret (gpio_err ERR_GPIO_IOCTL_SPECIFIED_OUTPUT_VALUE)
      else do {
        set_attrs (unat minor) (\<lambda>g. g\<lparr>bValue := arg\<rparr>);
        g \<leftarrow> rd (attrs (unat minor));
        kdo e (KGpio (Gpio_set_value minor (bValue g)));
        ret 0 }) }"

definition gpio_ioctl_get_input ::
    "kernel \<Rightarrow> u32 \<Rightarrow> u32 \<Rightarrow> ('a gpio_state_scheme, u32) state" where
  "gpio_ioctl_get_input e minor arg = do {
     g \<leftarrow> rd (attrs (unat minor));
     (if bMode g \<noteq> IO_MODE then ret (gpio_err ERR_GPIO_IOCTL_WRONG_GPIO_MODE)
      else if bDirection g \<noteq> INPUT then ret (gpio_err ERR_GPIO_IOCTL_WRONG_GPIO_DIRECTION)
      else do {
        v \<leftarrow> kcall e (KGpio (Gpio_get_value minor));
        set_attrs (unat minor) (\<lambda>g. g\<lparr>bValue := v\<rparr>);
        g \<leftarrow> rd (attrs (unat minor));
        put_user e arg (bValue g) }) }"

definition release_for_interrupt :: "kernel \<Rightarrow> u32 \<Rightarrow> ('a gpio_state_scheme, unit) state" where
  "release_for_interrupt e minor = do {
     g \<leftarrow> rd (attrs (unat minor));
     (if bMode g = IT_MODE then free_line_irq e minor
      else do {
        kdo e (KGpio (Gpio_free minor));
        set_attrs (unat minor) (\<lambda>g. g\<lparr>bMode := IT_MODE\<rparr>) }) }"

definition gpio_ioctl_set_interrupt ::
    "kernel \<Rightarrow> u32 \<Rightarrow> u32 \<Rightarrow> ('a gpio_state_scheme, u32) state" where
  "gpio_ioctl_set_interrupt e minor arg = do {
     release_for_interrupt e minor;
     set_attrs (unat minor) (\<lambda>g. g\<lparr>uiTriggerMode := arg\<rparr>);
     irq \<leftarrow> kcall e (KGpio (Gpio_to_irq minor));
     g \<leftarrow> rd (attrs (unat minor));
     iRet \<leftarrow> kcall e (KIrq (Request_irq irq Gpio_irq (uiTriggerMode g) minor));
     (if iRet \<noteq> 0 then ret (gpio_err ERR_GPIO_IOCTL_INTERRUPTION_REQUEST)
      else do {
        set_attrs (unat minor) (\<lambda>g. g\<lparr>bDone := 0\<rparr>);
        ret 0 }) }"

definition gpio_ioctl_set_debounce ::
    "kernel \<Rightarrow> u32 \<Rightarrow> u32 \<Rightarrow> ('a gpio_state_scheme, u32) state" where
  "gpio_ioctl_set_debounce e minor arg = do {
     set_attrs (unat minor) (\<lambda>g. g\<lparr>uiMsDebounceDelay := arg\<rparr>);
     ret 0 }"

definition gpio_ioctl_free_interrupt ::
    "kernel \<Rightarrow> u32 \<Rightarrow> ('a gpio_state_scheme, u32) state" where
  "gpio_ioctl_free_interrupt e minor = do {
     g \<leftarrow> rd (attrs (unat minor));
     (if bMode g \<noteq> IT_MODE then ret (gpio_err ERR_GPIO_IOCTL_WRONG_GPIO_MODE)
      else do {
        free_line_irq e minor;
        busy \<leftarrow> kcall e (KGpio (Gpio_request minor (c_string (sLabel g))));
        set_attrs (unat minor) (\<lambda>g. g\<lparr>bMode := (if busy \<noteq> 0 then 0 else IO_MODE)\<rparr>);
        set_attrs (unat minor) (\<lambda>g. g\<lparr>bDone := 1\<rparr>);
        kdo e (KSched (Wake_up_interruptible Gpio_Read_wait));
        ret 0 }) }"

definition gpio_ioctl_get_last_it ::
    "kernel \<Rightarrow> u32 \<Rightarrow> u32 \<Rightarrow> ('a gpio_state_scheme, u32) state" where
  "gpio_ioctl_get_last_it e minor arg = do {
     g \<leftarrow> rd (attrs (unat minor));
     iRet \<leftarrow> kcall e (KUser (Copy_to_user arg (GdData (oLastItGDData g)) sizeof_GeoDatationData));
     ret (if iRet \<noteq> 0 then gpio_err ERR_GPIO_IOCTL_COPY_GDDATA_TO_USER else 0) }"

text \<open>The minor is not checked here, so each command that uses the table may leave it.\<close>

definition Gpio_ioctl ::
    "kernel \<Rightarrow> u32 \<Rightarrow> u32 \<Rightarrow> u32 \<Rightarrow> ('a gpio_state_scheme, u32) state" where
  "Gpio_ioctl e i_rdev cmd arg = (let minor = CheckMinor e i_rdev in
     if cmd = GPIO_IOCTL_SET_DIRECTION
       then with_line e minor (gpio_ioctl_set_direction e minor arg) 0
     else if cmd = GPIO_IOCTL_SET_OUTPUT_VALUE
       then with_line e minor (gpio_ioctl_set_output e minor arg) 0
     else if cmd = GPIO_IOCTL_GET_INPUT_VALUE
       then with_line e minor (gpio_ioctl_get_input e minor arg) 0
     else if cmd = GPIO_IOCTL_SET_INTERRUPT then
       (if arg \<noteq> IRQF_TRIGGER_RISING \<and> arg \<noteq> IRQF_TRIGGER_FALLING
        then ret (gpio_err ERR_GPIO_IOCTL_SPECIFIED_EVENT)
        else with_line e minor (gpio_ioctl_set_interrupt e minor arg) 0)
     else if cmd = GPIO_IOCTL_SET_DEBOUNCE_DELAY then
       (if arg > MAX_DEBOUNCE_VALUE then ret (gpio_err ERR_GPIO_IOCTL_SPECIFIED_DEBOUNCE_VALUE)
        else with_line e minor (gpio_ioctl_set_debounce e minor arg) 0)
     else if cmd = GPIO_IOCTL_FREE_INTERRUPT
       then with_line e minor (gpio_ioctl_free_interrupt e minor) 0
     else if cmd = GPIO_IOCTL_GET_LAST_IT_GD_DATA
       then with_line e minor (gpio_ioctl_get_last_it e minor arg) 0
     else ret (gpio_err ERR_GPIO_IOCTL_SPECIFIED_IOCTL_COMMAND))"

end
