(* ===== verification/Gpio_Setup.thy ===== *)
theory Gpio_Setup
  imports Gpio_Fops
begin

text \<open>
  Insertion and removal of the GPIO driver (lines 969 to 1125 of \<open>ifsttar-gpio-drv.c\<close>). The
  insertion is in two parts: \<open>gpio_initialize_run\<close> is the function up to its exit shortcuts and
  says with an \<open>init_exit\<close> where it goes from there; the loop at \<open>out_dev_del\<close> may run for ever
  and is a \<open>partial_function\<close>, so that an insertion that does not return is \<open>None\<close>.
\<close>

section \<open>The table\<close>

text \<open>\<open>sprintf\<close> into the eight bytes of \<open>sLabel\<close>, with the terminating NUL.\<close>

definition label_of :: "nat \<Rightarrow> string" where
  "label_of n = ''gpio'' @ dec n"

definition write_label :: "kernel \<Rightarrow> nat \<Rightarrow> ('a gpio_state_scheme, unit) state" where
  "write_label e n =
     (if length (label_of n) + 1 \<le> 8
      then set_attrs n (\<lambda>g. g\<lparr>sLabel := label_of n @ replicate (8 - length (label_of n)) CHR 0x00\<rparr>)
      else out_of_bounds e)"

definition initialize_line :: "nat \<Rightarrow> ('a gpio_state_scheme, unit) state" where
  "initialize_line n = do {
     set_attrs n (\<lambda>g. g\<lparr>bValue := INIT_VALUE, bMode := IO_MODE, bDirection := INPUT, bDone := 0,
       bIsOpened := 0, uiTriggerMode := INIT_VALUE, uiMsDebounceDelay := 0, uiNbMuxed := 1\<rparr>);
     do_each [0..<MAX_MUX_NB] (\<lambda>iCpt2. set_attrs n (\<lambda>g. g\<lparr>
       uiPreviousMode := (uiPreviousMode g)[iCpt2 := 0x010F],
       uiDefaultMode := (uiDefaultMode g)[iCpt2 := 0x010F],
       uiRegisterAdress := (uiRegisterAdress g)[iCpt2 := 0]\<rparr>)) }"

text \<open>\<open>"%s%03d"\<close>\<close>

definition node_name :: "nat \<Rightarrow> string" where
  "node_name n = ''gpio'' @ replicate (3 - length (dec n)) CHR ''0'' @ dec n"

definition line_device :: "kernel \<Rightarrow> u32 \<Rightarrow> ('a gpio_state_scheme, u32) state" where
  "line_device e i = do {
     s \<leftarrow> rd id;
     ret (k_MKDEV e (m_uiGpioMajor s) (m_uiGpioMinor s + i)) }"

definition create_line :: "kernel \<Rightarrow> nat \<Rightarrow> ('a gpio_state_scheme, nat option) state" where
  "create_line e n = do {
     cl \<leftarrow> rd m_pGpioClass;
     dev \<leftarrow> line_device e (word_of_nat n);
     p \<leftarrow> kcall e (KDev (Device_create cl dev (node_name n)));
     set_attrs n (\<lambda>g. g\<lparr>pDeviceEntry := p\<rparr>);
     (if k_IS_ERR e p then ret (Some n)
      else do { write_label e n; initialize_line n; ret None }) }"

section \<open>The exit shortcuts\<close>

definition gpio_out_unregister :: "kernel \<Rightarrow> u32 \<Rightarrow> ('a gpio_state_scheme, u32) state" where
  "gpio_out_unregister e iRet = do {
     dev \<leftarrow> rd m_oGpioDev;
     kdo e (KDev (Unregister_chrdev_region dev (word_of_nat DRIVER_DEV_REGISTER_NB)));
     ret iRet }"

definition gpio_out_cdev_del :: "kernel \<Rightarrow> u32 \<Rightarrow> ('a gpio_state_scheme, u32) state" where
  "gpio_out_cdev_del e iRet = do { kdo e (KDev Cdev_del); gpio_out_unregister e iRet }"

text \<open>\<open>for (iCpt = 0; iNbToDestroy >= 0; iCpt++)\<close>\<close>

partial_function (option) destroy_lines ::
    "kernel \<Rightarrow> u32 \<Rightarrow> u32 \<Rightarrow> gpio_state \<Rightarrow> gpio_state option" where
  "destroy_lines e iNbToDestroy iCpt s =
     (if 0 \<le>s iNbToDestroy
      then destroy_lines e iNbToDestroy (iCpt + 1)
        (snd (run_state (do {
           cl \<leftarrow> rd m_pGpioClass;
           dev \<leftarrow> line_device e iCpt;
           kdo e (KDev (Device_destroy cl dev)) }) s))
      else Some s)"

definition gpio_out_dev_del ::
    "kernel \<Rightarrow> u32 \<Rightarrow> u32 \<Rightarrow> gpio_state \<Rightarrow> (u32 \<times> gpio_state) option" where
  "gpio_out_dev_del e iCpt iRet s =
     (case destroy_lines e iCpt 0 s of
        None \<Rightarrow> None
      | Some s' \<Rightarrow> Some (run_state (gpio_out_cdev_del e iRet) s'))"

section \<open>Insertion\<close>

text \<open>Where the body of the function goes: to its \<open>return\<close>, or to \<open>out_dev_del\<close> with \<open>iCpt\<close>
  and \<open>iRet\<close>.\<close>

datatype init_exit = Done u32 | Out_dev_del u32 u32

definition gpio_prepare_lines :: "kernel \<Rightarrow> ('a gpio_state_scheme, init_exit) state" where
  "gpio_prepare_lines e = do {
     failed \<leftarrow> for_each [0..<DRIVER_DEV_REGISTER_NB] (create_line e);
     (case failed of
        Some n \<Rightarrow> ret (Out_dev_del (word_of_nat n) (gpio_err ERR_GPIO_INIT_DEVICE_CREATE))
      | None \<Rightarrow> do {
          iRet \<leftarrow> SaveRegisterAddr;
          (if iRet <s 0 then ret (Out_dev_del (word_of_nat DRIVER_DEV_REGISTER_NB) iRet)
           else do {
             iRet \<leftarrow> SaveDefaultMode e;
             (if iRet <s 0 then ret (Out_dev_del (word_of_nat DRIVER_DEV_REGISTER_NB) iRet)
              else ret (Done iRet)) }) }) }"

definition gpio_initialize_run :: "kernel \<Rightarrow> ('a gpio_state_scheme, init_exit) state" where
  "gpio_initialize_run e = do {
     iRet \<leftarrow> kcall e (KDev (Alloc_chrdev_region (word_of_nat DRIVER_DEV_REGISTER_NB) ''gpio''));
     (if iRet <s 0 then ret (Done (gpio_err ERR_GPIO_INIT_ALLOC_CHRDEV_REGION))
      else do {
        dev \<leftarrow> kcall e (KDev Allocated_dev);
        wr (\<lambda>s. s\<lparr>m_oGpioDev := dev, m_uiGpioMajor := k_MAJOR e dev,
                   m_uiGpioMinor := k_MINOR e dev\<rparr>);
        kdo e (KDev Cdev_init);
        iRet \<leftarrow> kcall e (KDev (Cdev_add dev (word_of_nat DRIVER_DEV_REGISTER_NB)));
        (if iRet \<noteq> 0 then do {
           r \<leftarrow> gpio_out_unregister e (gpio_err ERR_GPIO_INIT_CDEV_ADD);
           ret (Done r) }
         else do {
           cl \<leftarrow> kcall e (KDev (Class_create ''ifsttar-gpio-drv''));
           wr (\<lambda>s. s\<lparr>m_pGpioClass := cl\<rparr>);
           (if k_IS_ERR e cl then do {
              r \<leftarrow> gpio_out_cdev_del e (gpio_err ERR_GPIO_INIT_CLASS_CREATE);
              ret (Done r) }
            else gpio_prepare_lines e) }) }) }"

definition Gpio_initialize :: "kernel \<Rightarrow> gpio_state \<Rightarrow> (u32 \<times> gpio_state) option" where
  "Gpio_initialize e s = (case run_state (gpio_initialize_run e) s of
     (Done r, s') \<Rightarrow> Some (r, s')
   | (Out_dev_del iCpt iRet, s') \<Rightarrow> gpio_out_dev_del e iCpt iRet s')"

section \<open>Removal\<close>

definition destroy_line :: "kernel \<Rightarrow> nat \<Rightarrow> ('a gpio_state_scheme, unit) state" where
  "destroy_line e n = do {
     cl \<leftarrow> rd m_pGpioClass;
     dev \<leftarrow> line_device e (word_of_nat n);
     kdo e (KDev (Device_destroy cl dev)) }"

definition Gpio_cleanup :: "kernel \<Rightarrow> ('a gpio_state_scheme, unit) state" where
  "Gpio_cleanup e = do {
     do_each [0..<DRIVER_DEV_REGISTER_NB] (destroy_line e);
     cl \<leftarrow> rd m_pGpioClass;
     kdo e (KDev (Class_unregister cl));
     kdo e (KDev (Class_destroy cl));
     kdo e (KDev Cdev_del);
     dev \<leftarrow> rd m_oGpioDev;
     kdo e (KDev (Unregister_chrdev_region dev (word_of_nat DRIVER_DEV_REGISTER_NB)));
     RestoreAllChangedMux e;
     skip }"

section \<open>The loop at \<open>out_dev_del\<close>\<close>

lemma destroy_lines_returns: "destroy_lines e nb i s = Some s' \<Longrightarrow> \<not> 0 \<le>s nb"
  by (rule destroy_lines.raw_induct [where P = "\<lambda>_ nb _ _ _. \<not> 0 \<le>s nb"])
    (simp_all split: if_splits)

lemma destroy_lines_never_returns: "0 \<le>s nb \<Longrightarrow> destroy_lines e nb i s = None"
  using destroy_lines_returns [of e nb i s] by (cases "destroy_lines e nb i s") auto

end
