(* ===== verification/Gpio_Pads.thy ===== *)
theory Gpio_Pads
  imports Gpio_Setup
begin

text \<open>
  The table of pad registers that \<open>SaveRegisterAddr\<close> builds, in closed form: \<open>pad_ranges\<close> lists
  the ranges of lines with consecutive registers, \<open>mux_registers n\<close> the registers of line \<open>n\<close> and
  \<open>mux_count n\<close> their number. No register belongs to two lines.
\<close>

section \<open>Updating every line at once\<close>

definition map_lines ::
    "(nat \<Rightarrow> GpioAttributes \<Rightarrow> GpioAttributes) \<Rightarrow> 'a gpio_state_scheme \<Rightarrow> 'a gpio_state_scheme" where
  "map_lines h s = s\<lparr>m_pGpioAttributesTab :=
     map (\<lambda>n. h n (attrs n s)) [0..<length (m_pGpioAttributesTab s)]\<rparr>"

lemma length_map_lines [simp]:
  "length (m_pGpioAttributesTab (map_lines h s)) = length (m_pGpioAttributesTab s)"
  by (simp add: map_lines_def)

lemma attrs_map_lines [simp]:
  "n < length (m_pGpioAttributesTab s) \<Longrightarrow> attrs n (map_lines h s) = h n (attrs n s)"
  by (simp add: map_lines_def)

lemma map_lines_comp:
  "map_lines h (map_lines h' s) = map_lines (\<lambda>n g. h n (h' n g)) s"
  by (simp add: map_lines_def)

lemma map_lines_id: "(\<And>n g. h n g = g) \<Longrightarrow> map_lines h s = s"
  by (simp add: map_lines_def map_nth)

lemma put_attrs_map_lines:
  "put_attrs n f s = map_lines (\<lambda>k g. if k = n then f g else g) s"
  by (simp add: put_attrs_def map_lines_def) (rule arg_cong2 [where f = m_pGpioAttributesTab_update],
    auto intro!: nth_equalityI simp: nth_list_update)

section \<open>Ranges of registers\<close>

text \<open>First line, last line, which of the line's registers, address of the first line's.\<close>

type_synonym pad_range = "nat \<times> nat \<times> nat \<times> nat"

definition pad_ranges :: "pad_range list" where
  "pad_ranges =
    [(0, 0, 0, 0x480021E0), (1, 1, 0, 0x48002A06), (2, 10, 0, 0x48002A0A), (11, 11, 0, 0x48002A24),
     (12, 29, 0, 0x480025D8), (30, 30, 0, 0x48002A08), (31, 31, 0, 0x48002A26),
     (32, 32, 0, 0x4800223A), (34, 43, 0, 0x4800207A), (44, 51, 0, 0x4800209E),
     (52, 59, 0, 0x480020B0), (60, 62, 0, 0x480020C6), (63, 111, 0, 0x480020CE),
     (112, 166, 0, 0x48002134), (167, 167, 0, 0x48002130), (168, 168, 0, 0x480021BE),
     (169, 169, 0, 0x480021B0), (170, 182, 0, 0x480021C6), (183, 185, 0, 0x480021C0),
     (186, 186, 0, 0x480021E2), (187, 187, 0, 0x48002238), (188, 191, 0, 0x480021B2),
     (120, 120, 1, 0x480021A2), (121, 121, 1, 0x480021A4), (122, 122, 1, 0x480021A6),
     (124, 124, 1, 0x480021A8), (125, 125, 1, 0x480021AA), (126, 126, 1, 0x48002132),
     (130, 130, 1, 0x480021AC), (131, 131, 1, 0x480021AE)]"

definition in_range :: "nat \<Rightarrow> nat \<Rightarrow> pad_range \<Rightarrow> bool" where
  "in_range n i r = (case r of (a, b, j, x) \<Rightarrow> a \<le> n \<and> n \<le> b \<and> i = j)"

definition range_pad :: "nat \<Rightarrow> pad_range \<Rightarrow> nat" where
  "range_pad n r = (case r of (a, b, j, x) \<Rightarrow> x + 2 * (n - a))"

definition range_upd :: "nat \<Rightarrow> pad_range \<Rightarrow> u32 list \<Rightarrow> u32 list" where
  "range_upd n r l = (case r of (a, b, j, x) \<Rightarrow>
     if a \<le> n \<and> n \<le> b then l[j := word_of_nat (x + 2 * (n - a))] else l)"

definition mux_registers :: "nat \<Rightarrow> u32 list" where
  "mux_registers n = foldl (\<lambda>l r. range_upd n r l) [0, 0, 0] pad_ranges"

definition mux_count :: "nat \<Rightarrow> nat" where
  "mux_count n = (if n = 33 then 0
     else if n \<in> {120, 121, 122, 124, 125, 126, 130, 131} then 2 else 1)"

lemma mux_count_le: "mux_count n \<le> 2"
  by (simp add: mux_count_def)

subsection \<open>\<open>SaveRegisterAddr\<close> builds them\<close>

abbreviation set_range :: "pad_range \<Rightarrow> 'a gpio_state_scheme \<Rightarrow> 'a gpio_state_scheme" where
  "set_range r \<equiv> map_lines (\<lambda>n g. g\<lparr>uiRegisterAdress := range_upd n r (uiRegisterAdress g)\<rparr>)"

lemma run_set_register:
  "run_state (set_register n i (word_of_nat x)) s = ((), set_range (n, n, i, x) s)"
  by (simp add: set_register_def put_attrs_map_lines)
    (rule arg_cong [where f = "\<lambda>h. map_lines h s"], auto simp: range_upd_def fun_eq_iff)

lemma do_each_snoc:
  "run_state (do_each (is @ [i]) body) s = run_state (body i) (snd (run_state (do_each is body) s))"
  by (induction "is" arbitrary: s) (simp_all add: split_beta)

lemma range_upd_extend:
  "range_upd n (a + Suc m, a + Suc m, j, x + 2 * Suc m) (range_upd n (a, a + m, j, x) l) =
     range_upd n (a, a + Suc m, j, x) l"
proof (cases "n = a + Suc m")
  case True
  then have "n - a = Suc m" by simp
  with True show ?thesis by (simp add: range_upd_def del: mult_Suc_right of_nat_add of_nat_mult of_nat_Suc)
next
  case False
  then show ?thesis by (simp add: range_upd_def)
qed

lemma run_set_register_loop:
  "run_state (do_each [0..<Suc m]
      (\<lambda>iCpt. set_register (a + iCpt) 0 (word_of_nat x + 2 * word_of_nat iCpt))) s =
     ((), set_range (a, a + m, 0, x) s)"
proof (induction m)
  case 0
  then show ?case using run_set_register [of a 0 x s] by simp
next
  case (Suc m)
  have upt: "[0..<Suc (Suc m)] = [0..<Suc m] @ [Suc m]" by simp
  have value_eq: "word_of_nat x + 2 * word_of_nat (Suc m) = (word_of_nat (x + 2 * Suc m) :: u32)"
    by simp
  have merge: "set_range (a + Suc m, a + Suc m, 0, x + 2 * Suc m) (set_range (a, a + m, 0, x) s) =
      set_range (a, a + Suc m, 0, x) s"
    unfolding map_lines_comp
    by (simp add: range_upd_extend del: add_Suc_right mult_Suc_right add_Suc_shift)
  show ?case
    unfolding upt do_each_snoc Suc.IH snd_conv value_eq run_set_register merge ..
qed

lemma run_set_register_range:
  "a \<le> b \<Longrightarrow> run_state (set_register_range a b (word_of_nat x)) s = ((), set_range (a, b, 0, x) s)"
  using run_set_register_loop [of "b - a" a x s]
  by (simp add: set_register_range_def del: upt_Suc)


text \<open>The table after the ranges \<open>rs\<close> and after clearing or incrementing the counts in \<open>cs\<close>.\<close>

definition count_upd :: "nat \<Rightarrow> nat \<times> bool \<Rightarrow> u32 \<Rightarrow> u32" where
  "count_upd k c v = (if k = fst c then (if snd c then v + 1 else 0) else v)"

definition padded ::
    "pad_range list \<Rightarrow> (nat \<times> bool) list \<Rightarrow> 'a gpio_state_scheme \<Rightarrow> 'a gpio_state_scheme" where
  "padded rs cs = map_lines (\<lambda>n g. g\<lparr>
     uiNbMuxed := foldl (\<lambda>v c. count_upd n c v) (uiNbMuxed g) cs,
     uiRegisterAdress := foldl (\<lambda>l r. range_upd n r l) (uiRegisterAdress g) rs\<rparr>)"

lemma padded_start: "padded [] [] s = s"
  by (simp add: padded_def map_lines_id)

lemma padded_range: "set_range r (padded rs cs s) = padded (rs @ [r]) cs s"
  by (simp add: padded_def map_lines_comp)

lemma padded_count:
  "put_attrs n (\<lambda>g. g\<lparr>uiNbMuxed := uiNbMuxed g + 1\<rparr>) (padded rs cs s) =
     padded rs (cs @ [(n, True)]) s"
  "put_attrs n (\<lambda>g. g\<lparr>uiNbMuxed := 0\<rparr>) (padded rs cs s) = padded rs (cs @ [(n, False)]) s"
  unfolding padded_def put_attrs_map_lines map_lines_comp
  by (rule arg_cong [where f = "\<lambda>h. map_lines h _"], simp add: count_upd_def fun_eq_iff)+

lemma run_padded:
  "run_state (set_register n i (word_of_nat x)) (padded rs cs s) =
     ((), padded (rs @ [(n, n, i, x)]) cs s)"
  "a \<le> b \<Longrightarrow> run_state (set_register_range a b (word_of_nat x)) (padded rs cs s) =
     ((), padded (rs @ [(a, b, 0, x)]) cs s)"
  "run_state (add_second_register n (word_of_nat x)) (padded rs cs s) =
     ((), padded (rs @ [(n, n, 1, x)]) (cs @ [(n, True)]) s)"
  by (simp_all add: run_set_register run_set_register_range padded_range padded_count
      add_second_register_def del: One_nat_def)

definition pad_counts :: "(nat \<times> bool) list" where
  "pad_counts = [(33, False), (120, True), (121, True), (122, True), (124, True), (125, True),
     (126, True), (130, True), (131, True)]"

lemma run_SaveRegisterAddr:
  "run_state SaveRegisterAddr s = (0, padded pad_ranges pad_counts s)"
proof -
  have nat: "0x480021E0 = (word_of_nat 0x480021E0 :: u32)" "0x48002A06 = (word_of_nat 0x48002A06 :: u32)"
    "0x48002A0A = (word_of_nat 0x48002A0A :: u32)" "0x48002A24 = (word_of_nat 0x48002A24 :: u32)"
    "0x480025D8 = (word_of_nat 0x480025D8 :: u32)" "0x48002A08 = (word_of_nat 0x48002A08 :: u32)"
    "0x48002A26 = (word_of_nat 0x48002A26 :: u32)" "0x4800223A = (word_of_nat 0x4800223A :: u32)"
    "0x4800207A = (word_of_nat 0x4800207A :: u32)" "0x4800209E = (word_of_nat 0x4800209E :: u32)"
    "0x480020B0 = (word_of_nat 0x480020B0 :: u32)" "0x480020C6 = (word_of_nat 0x480020C6 :: u32)"
    "0x480020CE = (word_of_nat 0x480020CE :: u32)" "0x48002134 = (word_of_nat 0x48002134 :: u32)"
    "0x48002130 = (word_of_nat 0x48002130 :: u32)" "0x480021BE = (word_of_nat 0x480021BE :: u32)"
    "0x480021B0 = (word_of_nat 0x480021B0 :: u32)" "0x480021C6 = (word_of_nat 0x480021C6 :: u32)"
    "0x480021C0 = (word_of_nat 0x480021C0 :: u32)" "0x480021E2 = (word_of_nat 0x480021E2 :: u32)"
    "0x48002238 = (word_of_nat 0x48002238 :: u32)" "0x480021B2 = (word_of_nat 0x480021B2 :: u32)"
    "0x480021A2 = (word_of_nat 0x480021A2 :: u32)" "0x480021A4 = (word_of_nat 0x480021A4 :: u32)"
    "0x480021A6 = (word_of_nat 0x480021A6 :: u32)" "0x480021A8 = (word_of_nat 0x480021A8 :: u32)"
    "0x480021AA = (word_of_nat 0x480021AA :: u32)" "0x48002132 = (word_of_nat 0x48002132 :: u32)"
    "0x480021AC = (word_of_nat 0x480021AC :: u32)" "0x480021AE = (word_of_nat 0x480021AE :: u32)"
    by simp_all
  show ?thesis
    by (subst padded_start [symmetric])
      (simp add: SaveRegisterAddr_def nat run_padded padded_count pad_ranges_def pad_counts_def
        del: of_nat_numeral One_nat_def)
qed


section \<open>The closed form\<close>

lemma pad_counts_value:
  "foldl (\<lambda>v c. count_upd n c v) 1 pad_counts = word_of_nat (mux_count n)"
  by (simp add: pad_counts_def count_upd_def mux_count_def)

text \<open>The lines as the table describes them once their registers are known.\<close>

lemma foldl_range_length: "length (foldl (\<lambda>l r. range_upd n r l) l rs) = length l"
  by (induction rs arbitrary: l) (auto simp: range_upd_def split: prod.splits)

lemma length_mux_registers [simp]: "length (mux_registers n) = 3"
  by (simp add: mux_registers_def foldl_range_length)

text \<open>A register comes from a range that has the line.\<close>

lemma foldl_range_nth:
  assumes "i < length l"
  shows "(\<exists>r \<in> set rs. in_range n i r \<and> foldl (\<lambda>l r. range_upd n r l) l rs ! i = word_of_nat (range_pad n r)) \<or>
    (\<forall>r \<in> set rs. \<not> in_range n i r) \<and> foldl (\<lambda>l r. range_upd n r l) l rs ! i = l ! i"
  using assms
proof (induction rs rule: rev_induct)
  case (snoc r rs)
  let ?l = "foldl (\<lambda>l r. range_upd n r l) l rs"
  obtain a b j x where r: "r = (a, b, j, x)" by (cases r) auto
  have len: "i < length ?l" using snoc.prems by (simp add: foldl_range_length)
  show ?case
  proof (cases "in_range n i r")
    case True
    then have "range_upd n r ?l ! i = word_of_nat (range_pad n r)"
      using len by (simp add: r in_range_def range_upd_def range_pad_def)
    with True show ?thesis by (simp only: foldl_append foldl.simps) auto
  next
    case False
    then have "range_upd n r ?l ! i = ?l ! i"
      using len by (auto simp: r in_range_def range_upd_def nth_list_update)
    with False snoc show ?thesis by (simp only: foldl_append foldl.simps) auto
  qed
qed simp

text \<open>Ranges that follow each other without a gap.\<close>

fun covers :: "nat \<Rightarrow> pad_range list \<Rightarrow> nat \<Rightarrow> bool" where
  "covers lo [] hi \<longleftrightarrow> hi \<le> lo"
| "covers lo ((a, b, j, x) # rs) hi \<longleftrightarrow> a \<le> lo \<and> covers (b + 1) rs hi"

lemma covers_ex:
  "covers lo rs hi \<Longrightarrow> lo \<le> n \<Longrightarrow> n < hi \<Longrightarrow> \<exists>(a, b, j, x) \<in> set rs. a \<le> n \<and> n \<le> b"
proof (induction lo rs hi rule: covers.induct)
  case (2 lo a b j x rs hi)
  then show ?case by (cases "n \<le> b") auto
qed simp

lemma pad_range_exists:
  assumes "n < 192" "i < mux_count n"
  shows "\<exists>r \<in> set pad_ranges. in_range n i r"
proof (cases "i = 0")
  case True
  then have n: "n \<noteq> 33" using assms by (auto simp: mux_count_def)
  have "covers 0 (take 8 pad_ranges) 33" "covers 34 (take 14 (drop 8 pad_ranges)) 192"
    by (simp_all add: pad_ranges_def)
  then have "\<exists>(a, b, j, x) \<in> set (take 8 pad_ranges @ take 14 (drop 8 pad_ranges)). a \<le> n \<and> n \<le> b"
    using covers_ex [of 0 "take 8 pad_ranges" 33 n] assms(1) n
      covers_ex [of 34 "take 14 (drop 8 pad_ranges)" 192 n]
    by (cases "n < 33") auto
  then have "\<exists>(a, b, j, x) \<in> set (take 22 pad_ranges). a \<le> n \<and> n \<le> b"
    by (simp add: pad_ranges_def)
  moreover have "\<forall>(a, b, j, x) \<in> set (take 22 pad_ranges). j = 0"
    by (simp add: pad_ranges_def)
  ultimately show ?thesis
    using True in_set_takeD by (fastforce simp: in_range_def)
next
  case False
  then have "i = 1" "n \<in> {120, 121, 122, 124, 125, 126, 130, 131}"
    using assms(2) by (auto simp: mux_count_def split: if_splits)
  then show ?thesis by (auto simp: pad_ranges_def in_range_def)
qed

lemma mux_registers_range:
  assumes "n < 192" "i < mux_count n"
  shows "\<exists>r \<in> set pad_ranges. in_range n i r \<and> mux_registers n ! i = word_of_nat (range_pad n r)"
proof -
  have "i < length [0, 0, 0 :: u32]" using assms(2) mux_count_le [of n] by simp
  from foldl_range_nth [OF this, where n = n and rs = pad_ranges] show ?thesis
    using pad_range_exists [OF assms] by (auto simp: mux_registers_def)
qed

definition range_disjoint :: "pad_range \<Rightarrow> pad_range \<Rightarrow> bool" where
  "range_disjoint r q = (case (r, q) of ((a, b, i, x), (c, d, j, y)) \<Rightarrow>
     r = q \<or> x + 2 * (b - a) < y \<or> y + 2 * (d - c) < x)"

lemma pad_ranges_disjoint: "r \<in> set pad_ranges \<Longrightarrow> q \<in> set pad_ranges \<Longrightarrow> range_disjoint r q"
proof -
  have "list_all (\<lambda>r. list_all (range_disjoint r) pad_ranges) pad_ranges"
    by (simp add: pad_ranges_def range_disjoint_def)
  then show "r \<in> set pad_ranges \<Longrightarrow> q \<in> set pad_ranges \<Longrightarrow> range_disjoint r q"
    by (auto simp: list_all_iff)
qed

lemma pad_range_bounds:
  "r \<in> set pad_ranges \<Longrightarrow> in_range n i r \<Longrightarrow> range_pad n r \<in> {0x4800207A..0x48002A26} \<and> even (range_pad n r)"
  by (auto simp: pad_ranges_def in_range_def range_pad_def)

text \<open>No two registers of the lines are at the same address.\<close>

lemma mux_registers_inj:
  assumes "n < 192" "i < mux_count n" "m < 192" "j < mux_count m"
    and "mux_registers n ! i = mux_registers m ! j"
  shows "n = m \<and> i = j"
proof -
  obtain r where r: "r \<in> set pad_ranges" "in_range n i r" "mux_registers n ! i = word_of_nat (range_pad n r)"
    using mux_registers_range [OF assms(1,2)] by blast
  obtain q where q: "q \<in> set pad_ranges" "in_range m j q" "mux_registers m ! j = word_of_nat (range_pad m q)"
    using mux_registers_range [OF assms(3,4)] by blast
  have "range_pad n r < 2 ^ 32" "range_pad m q < 2 ^ 32"
    using pad_range_bounds [OF r(1,2)] pad_range_bounds [OF q(1,2)] by simp_all
  moreover have "word_of_nat (range_pad n r) = (word_of_nat (range_pad m q) :: u32)"
    using r(3) q(3) assms(5) by simp
  ultimately have "range_pad n r = range_pad m q" by (metis unat_word_of_nat_u32)
  then show ?thesis
    using pad_ranges_disjoint [OF r(1) q(1)] r(2) q(2)
    by (auto simp: range_disjoint_def in_range_def range_pad_def)
qed

lemma mux_register_bounds:
  assumes "n < 192" "i < mux_count n"
  shows "0x4800207A \<le> unat (mux_registers n ! i)" "unat (mux_registers n ! i) \<le> 0x48002A26"
    "even (unat (mux_registers n ! i))"
proof -
  obtain r where r: "r \<in> set pad_ranges" "in_range n i r" "mux_registers n ! i = word_of_nat (range_pad n r)"
    using mux_registers_range [OF assms] by blast
  then have "unat (mux_registers n ! i) = range_pad n r"
    using pad_range_bounds [OF r(1,2)] by (simp add: unat_word_of_nat_u32)
  then show "0x4800207A \<le> unat (mux_registers n ! i)" "unat (mux_registers n ! i) \<le> 0x48002A26"
    "even (unat (mux_registers n ! i))"
    using pad_range_bounds [OF r(1,2)] by simp_all
qed

lemma mux_register_nonzero:
  "n < 192 \<Longrightarrow> i < mux_count n \<Longrightarrow> mux_registers n ! i \<noteq> 0"
  using mux_register_bounds(1) [of n i] by auto

end
