(* ===== verification/Gpio_Inv.thy ===== *)
theory Gpio_Inv
  imports Gpio_Pads Sync_Machine
begin

text \<open>
  The invariant of the GPIO driver's table, and that every handler of the driver keeps it. The two
  drivers share one kernel: the locale \<open>gpio_frame\<close> says what it takes for a predicate on the
  combined state not to notice the synchronization driver at work.
\<close>

section \<open>What the synchronization driver leaves alone\<close>

definition gpio_part where
  "gpio_part s = (m_uiGpioMajor s, m_uiGpioMinor s, m_oGpioDev s, m_pGpioClass s,
     m_pGpioAttributesTab s, read_minor s)"

text \<open>Calls that write no pad register, and neither take nor give back a resource.\<close>

fun quiet :: "kcall \<Rightarrow> bool" where
  "quiet (KIo (Ioremap a n)) = False"
| "quiet (KIo (Iowrite16 v a)) = False"
| "quiet (KIo (Iounmap a)) = False"
| "quiet (KGpio (Gpio_request n l)) = False"
| "quiet (KGpio (Gpio_free n)) = False"
| "quiet (KIrq c) = False"
| "quiet (KTimer (Dm_request_specific n)) = False"
| "quiet (KTimer (Dm_free t)) = False"
| "quiet (KSched (Kthread_create l)) = False"
| "quiet (KSched (Kthread_stop t)) = False"
| "quiet (KDev (Printk_synchronization_error a b)) = True"
| "quiet (KDev c) = False"
| "quiet (KMem c) = False"
| "quiet (KLock c) = False"
| "quiet (KSpi c) = False"
| "quiet (KReg c) = False"
| "quiet (KDma c) = False"
| "quiet (KPlat c) = False"
| "quiet _ = True"

lemma quiet_resources: "quiet c \<Longrightarrow> acquired e (c, r) = None \<and> released (c, r) = None"
  by (induction c rule: quiet.induct) simp_all

lemma quiet_held [simp]: "quiet c \<Longrightarrow> held_step e R (c, r) = R"
  using quiet_resources [of c e r] by (simp add: held_step_def)

lemma quiet_reg_step [simp]: "quiet c \<Longrightarrow> reg_step v x (c, r) = x"
  by (induction c rule: quiet.induct) (simp_all add: reg_step_def)

locale gpio_frame =
  fixes I :: "'a gpio_state_scheme \<Rightarrow> bool"
  assumes I_cong: "gpio_part s = gpio_part s' \<Longrightarrow> klog s = klog s' \<Longrightarrow> I s = I s'"
    and I_quiet: "quiet c \<Longrightarrow> I s \<Longrightarrow> I (s\<lparr>klog := klog s @ [(c, r)]\<rparr>)"
begin

lemma keeps_quiet_kcall: "quiet c \<Longrightarrow> keeps I (kcall e c)"
  by (rule keeps_kcall) (rule I_quiet)

lemma keeps_quiet_kdo: "quiet c \<Longrightarrow> keeps I (kdo e c)"
  by (rule keeps_kdo) (rule I_quiet)

lemma keeps_quiet_kdiv: "keeps I (kdiv e a b)"
  unfolding kdiv_def by (intro keeps_if keeps_return keeps_quiet_kcall) simp

lemma keeps_other_wr:
  "(\<And>s. gpio_part (f s) = gpio_part s \<and> klog (f s) = klog s) \<Longrightarrow> keeps I (wr f)"
  by (rule keeps_wr) (metis I_cong)

lemmas frame_rules = keeps_return keeps_rd keeps_if keeps_case_option keeps_let
  keeps_case_driver_state keeps_quiet_kdiv keeps_quiet_kcall keeps_quiet_kdo keeps_bind
  keeps_other_wr

lemma frame_ComputeMicroSecond: "keeps I (ComputeMicroSecond e t)"
  unfolding ComputeMicroSecond_def read_pps_counter_def read_relay_counter_def
    omap_dm_timer_read_capture_def omap_dm_timer_read_reg_def
  by (intro frame_rules) simp_all

lemma frame_EXPORT: "keeps I (EXPORT_GD_DATA_FROM_SYNCHONIZATION_DRIVER e)"
  unfolding EXPORT_GD_DATA_FROM_SYNCHONIZATION_DRIVER_def
  by (intro frame_rules frame_ComputeMicroSecond)

lemma frame_store_preemption_time: "keeps I (store_preemption_time e v)"
  unfolding store_preemption_time_def out_of_bounds_def case_prod_beta
  by (intro frame_rules) (simp_all add: gpio_part_def)

lemma frame_unlock_read: "keeps I (unlock_read e k)"
  unfolding unlock_read_def by (intro frame_rules) (simp_all add: gpio_part_def)

lemma frame_read_counters:
  "keeps I (read_pps_counter e)" "keeps I (read_relay_counter e)"
  "keeps I (omap_dm_timer_read_capture e t a b)"
  unfolding read_pps_counter_def read_relay_counter_def omap_dm_timer_read_capture_def
    omap_dm_timer_read_reg_def
  by (intro frame_rules; simp)+

lemma frame_small:
  "keeps I (go_to st)" "keeps I (SecondIncrements n)" "keeps I (SetGpsStatus e b)"
  "keeps I upload_supplied_data" "keeps I GetAverageQuartzError"
  "keeps I (ComputeAndAddQuartzError e v)"
  unfolding go_to_def SecondIncrements_def SetGpsStatus_def upload_supplied_data_def
    GetAverageQuartzError_def ComputeAndAddQuartzError_def out_of_bounds_def case_prod_beta
  by (intro frame_rules; simp add: gpio_part_def)+

lemma frame_RelayTimerIrqHandler: "keeps I (RelayTimerIrqHandler e)"
  unfolding RelayTimerIrqHandler_def relay_second_def relay_diff_pps_def
  by (intro frame_small frame_read_counters frame_store_preemption_time frame_unlock_read
      frame_rules) (simp_all add: gpio_part_def)

lemma frame_PpsTimerIrqHandler: "keeps I (PpsTimerIrqHandler e)"
  unfolding PpsTimerIrqHandler_def pps_state_machine_def pps_initialization_def
    pps_wait_for_gps_fixed_def pps_gps_fixed_def arm_relay_timer_def pps_switch_gps_to_off_def
    pps_epilogue_def
  by (intro frame_small frame_read_counters frame_store_preemption_time frame_unlock_read
      frame_rules) (simp_all add: gpio_part_def)

lemma frame_put_user: "keeps I (put_user e a v)"
  unfolding put_user_def by (intro frame_rules) simp

lemma frame_Synchronization_ioctl: "keeps I (Synchronization_ioctl e cmd a g)"
  unfolding Synchronization_ioctl_def sync_ioctl_get_official_def sync_ioctl_set_temporary_def
    sync_ioctl_set_mode_def sync_ioctl_set_off_time_def
  by (intro frame_put_user frame_EXPORT frame_rules) (simp_all add: gpio_part_def)

lemma frame_Synchronization_read:
  "keeps I (Synchronization_read e buf n)" "keeps I (Synchronization_read_woken e buf)"
  unfolding Synchronization_read_def Synchronization_read_woken_def sync_read_unlocked_def
    sync_send_def
  by (intro frame_rules; simp add: gpio_part_def)+

lemma frame_Synchronization_poll: "keeps I (Synchronization_poll e)"
  unfolding Synchronization_poll_def by (intro frame_rules) simp_all

lemma frame_SecondsIncrementsVerificationFunction:
  "keeps I (SecondsIncrementsVerificationFunction e pc)"
  unfolding SecondsIncrementsVerificationFunction_def check_data_supplied_def check_loop_def
  by (cases pc) (simp_all, (intro frame_rules; simp)+)

lemma frame_out_of_bounds: "keeps I (out_of_bounds e)"
  unfolding out_of_bounds_def by (intro frame_rules) simp

text \<open>No event of the synchronization driver is noticed.\<close>

lemma frame_sync_exec:
  assumes "sync_exec e ev m = Some m'" "I (drv m)"
  shows "I (drv m')"
  by (rule sync_exec_keeps [where I = I, OF assms])
    (intro frame_PpsTimerIrqHandler frame_RelayTimerIrqHandler frame_Synchronization_ioctl
      frame_Synchronization_read frame_Synchronization_poll frame_out_of_bounds
      frame_SecondsIncrementsVerificationFunction)+

end

section \<open>The invariant of the table\<close>

definition line_ok :: "nat \<Rightarrow> GpioAttributes \<Rightarrow> bool" where
  "line_ok n g \<longleftrightarrow>
     c_string (sLabel g) = label_of n \<and>
     uiNbMuxed g = word_of_nat (mux_count n) \<and> uiRegisterAdress g = mux_registers n \<and>
     length (uiPreviousMode g) = 3 \<and> length (uiDefaultMode g) = 3 \<and>
     bMode g \<in> {0, IO_MODE, IT_MODE} \<and> bDirection g \<in> {INPUT, OUTPUT} \<and>
     bDone g \<in> {0, 1} \<and> bIsOpened g \<in> {0, 1} \<and>
     uiTriggerMode g \<in> {IRQF_TRIGGER_RISING, IRQF_TRIGGER_FALLING, INIT_VALUE} \<and>
     uiMsDebounceDelay g \<le> MAX_DEBOUNCE_VALUE"

definition gpio_inv :: "'a gpio_state_scheme \<Rightarrow> bool" where
  "gpio_inv s \<longleftrightarrow> length (m_pGpioAttributesTab s) = DRIVER_DEV_REGISTER_NB \<and>
     (\<forall>n < DRIVER_DEV_REGISTER_NB. line_ok n (attrs n s))"

interpretation inv_frame: gpio_frame gpio_inv
  by unfold_locales (auto simp: gpio_inv_def gpio_part_def)

text \<open>\<open>F\<close> covers the undefined behaviour; without \<open>Out_of_bounds\<close> the static of \<open>Gpio_read\<close> is a line.\<close>

definition gpio_ok :: "ub set \<Rightarrow> 'a gpio_state_scheme \<Rightarrow> bool" where
  "gpio_ok F s \<longleftrightarrow> gpio_inv s \<and> sync_ok F s \<and>
     (Out_of_bounds \<notin> F \<longrightarrow> unat (read_minor s) < DRIVER_DEV_REGISTER_NB)"

lemma read_minor_frame: "gpio_frame (\<lambda>s. gpio_inv s \<and> P (read_minor s))"
  by unfold_locales (auto simp: gpio_inv_def gpio_part_def)

lemma gpio_okI:
  assumes "keeps (sync_ok F) m"
    and "keeps (\<lambda>s. gpio_inv s \<and> (Out_of_bounds \<notin> F \<longrightarrow> unat (read_minor s) < DRIVER_DEV_REGISTER_NB)) m"
  shows "keeps (gpio_ok F) m"
  using assms by (auto simp: keeps_def gpio_ok_def wp_def split: prod.splits)

lemma gpio_ok_sync:
  "keeps (gpio_ok F) (EXPORT_GD_DATA_FROM_SYNCHONIZATION_DRIVER e)"
  "keeps (gpio_ok F) (PpsTimerIrqHandler e)" "keeps (gpio_ok F) (RelayTimerIrqHandler e)"
  "keeps (gpio_ok F) (Synchronization_ioctl e cmd a g)" "keeps (gpio_ok F) (put_user e a v)"
proof -
  note frame = read_minor_frame [of "\<lambda>r. Out_of_bounds \<notin> F \<longrightarrow> unat r < DRIVER_DEV_REGISTER_NB"]
  show "keeps (gpio_ok F) (EXPORT_GD_DATA_FROM_SYNCHONIZATION_DRIVER e)"
    by (rule gpio_okI [OF keeps_EXPORT gpio_frame.frame_EXPORT [OF frame]])
  show "keeps (gpio_ok F) (PpsTimerIrqHandler e)"
    by (rule gpio_okI [OF keeps_PpsTimerIrqHandler gpio_frame.frame_PpsTimerIrqHandler [OF frame]])
  show "keeps (gpio_ok F) (RelayTimerIrqHandler e)"
    by (rule gpio_okI [OF keeps_RelayTimerIrqHandler gpio_frame.frame_RelayTimerIrqHandler [OF frame]])
  show "keeps (gpio_ok F) (Synchronization_ioctl e cmd a g)"
    by (rule gpio_okI [OF keeps_Synchronization_ioctl gpio_frame.frame_Synchronization_ioctl [OF frame]])
  show "keeps (gpio_ok F) (put_user e a v)"
    by (rule gpio_okI [OF keeps_put_user gpio_frame.frame_put_user [OF frame]])
qed

section \<open>Rules\<close>

lemma sync_ok_put_attrs [simp]: "sync_ok F (put_attrs n f s) = sync_ok F s"
  by (simp add: put_attrs_def sync_ok_defs)

lemma gpio_ok_put_attrs:
  assumes "gpio_ok F s" "\<And>g. line_ok n g \<Longrightarrow> line_ok n (f g)"
  shows "gpio_ok F (put_attrs n f s)"
  using assms by (auto simp: gpio_ok_def gpio_inv_def)

lemma keeps_gpio_kcall: "\<not> is_ub (k, 0) \<Longrightarrow> keeps (gpio_ok F) (kcall e k)"
  by (rule keeps_kcall) (simp add: gpio_ok_def gpio_inv_def)

lemma keeps_gpio_kdo: "\<not> is_ub (k, 0) \<Longrightarrow> keeps (gpio_ok F) (kdo e k)"
  by (rule keeps_kdo) (simp add: gpio_ok_def gpio_inv_def)

lemma keeps_set_attrs:
  "(\<And>g. line_ok n g \<Longrightarrow> line_ok n (f g)) \<Longrightarrow> keeps (gpio_ok F) (set_attrs n f)"
  by (rule keeps_wr) (rule gpio_ok_put_attrs)

lemma keeps_out_of_bounds: "Out_of_bounds \<in> F \<Longrightarrow> keeps (gpio_ok F) (out_of_bounds e)"
  unfolding out_of_bounds_def
  by (rule keeps_kdo) (simp add: gpio_ok_def gpio_inv_def sync_ok_def)

lemma keeps_with_line:
  assumes "keeps (gpio_ok F) m" "Out_of_bounds \<notin> F \<longrightarrow> unat minor < DRIVER_DEV_REGISTER_NB"
  shows "keeps (gpio_ok F) (with_line e minor m r)"
  using assms keeps_out_of_bounds [of F e]
  by (cases "Out_of_bounds \<in> F") (auto simp: with_line_def intro!: keeps_if keeps_bind keeps_return)

named_theorems gpio_keeps \<open>the parts of the GPIO driver that keep its invariant\<close>

lemmas gpio_rules = keeps_rd_bind keeps_return keeps_rd keeps_if keeps_case_option keeps_let
  keeps_for_each keeps_do_each keeps_gpio_kcall keeps_gpio_kdo keeps_set_attrs gpio_ok_sync
  keeps_bind

section \<open>The registers\<close>

lemma unat_NbMuxed:
  "gpio_ok F s \<Longrightarrow> n < DRIVER_DEV_REGISTER_NB \<Longrightarrow> unat (uiNbMuxed (attrs n s)) = mux_count n"
  using mux_count_le [of n]
  by (simp add: gpio_ok_def gpio_inv_def line_ok_def unat_word_of_nat_u32)

lemma NbMuxed_below:
  "gpio_ok F s \<Longrightarrow> n < DRIVER_DEV_REGISTER_NB \<Longrightarrow> i < unat (uiNbMuxed (attrs n s)) \<Longrightarrow> i < MAX_MUX_NB"
  using mux_count_le [of n] by (simp add: unat_NbMuxed)

lemma keeps_map_register [gpio_keeps]:
  "i < MAX_MUX_NB \<Longrightarrow> keeps (gpio_ok F) (map_register e n i)"
  unfolding map_register_def by (intro gpio_rules) simp_all

lemma keeps_restore_mode [gpio_keeps]:
  "keeps (gpio_ok F) (restore_mode e n i a m)"
  unfolding restore_mode_def by (intro gpio_rules) (simp_all add: line_ok_def)

lemma keeps_registers [gpio_keeps]:
  assumes "i < MAX_MUX_NB"
  shows "keeps (gpio_ok F) (save_default_register e n i)"
    "keeps (gpio_ok F) (force_register e n k i)"
    "keeps (gpio_ok F) (restore_previous_register e n i)"
  unfolding save_default_register_def force_register_def restore_previous_register_def
  by (intro gpio_keeps gpio_rules assms; simp add: line_ok_def)+

lemma keeps_SaveDefaultMode [gpio_keeps]: "keeps (gpio_ok F) (SaveDefaultMode e)"
  unfolding SaveDefaultMode_def
  by (intro gpio_keeps gpio_rules) (auto intro: NbMuxed_below)

lemma keeps_ForceGpioMode [gpio_keeps]:
  "n < DRIVER_DEV_REGISTER_NB \<Longrightarrow> keeps (gpio_ok F) (ForceGpioMode e n k)"
  unfolding ForceGpioMode_def
  by (intro gpio_keeps gpio_rules) (auto intro: NbMuxed_below)

lemma keeps_RestorePreviousGpioMode [gpio_keeps]:
  "n < DRIVER_DEV_REGISTER_NB \<Longrightarrow> keeps (gpio_ok F) (RestorePreviousGpioMode e n)"
  unfolding RestorePreviousGpioMode_def
  by (intro gpio_keeps gpio_rules) (auto intro: NbMuxed_below)

section \<open>The handlers\<close>

lemma keeps_gpio_irq [gpio_keeps]: "keeps (gpio_ok F) (gpio_irq e minor)"
  unfolding gpio_irq_def by (intro gpio_rules) (simp_all add: line_ok_def)

lemma keeps_make [gpio_keeps]:
  "keeps (gpio_ok F) (make_input e minor)" "keeps (gpio_ok F) (make_output e minor)"
  unfolding make_input_def make_output_def by (intro gpio_rules; simp add: line_ok_def)+

lemma keeps_finish_open [gpio_keeps]: "keeps (gpio_ok F) (finish_open minor)"
  unfolding finish_open_def by (intro gpio_rules) (simp_all add: line_ok_def)

lemma keeps_open_line [gpio_keeps]:
  "unat minor < DRIVER_DEV_REGISTER_NB \<Longrightarrow> keeps (gpio_ok F) (open_line e minor m)"
  unfolding open_line_def by (intro gpio_keeps gpio_rules) (simp_all add: line_ok_def)

lemma keeps_free_line_irq [gpio_keeps]: "keeps (gpio_ok F) (free_line_irq e minor)"
  unfolding free_line_irq_def by (intro gpio_rules) simp_all

lemma keeps_close_line [gpio_keeps]:
  "unat minor < DRIVER_DEV_REGISTER_NB \<Longrightarrow> keeps (gpio_ok F) (close_line e minor)"
  unfolding close_line_def by (intro gpio_keeps gpio_rules) (simp_all add: line_ok_def)

lemma keeps_read_parts [gpio_keeps]:
  "keeps (gpio_ok F) (read_finish e buf)" "keeps (gpio_ok F) (read_wait e buf)"
  "keeps (gpio_ok F) (read_line e buf)"
  unfolding read_line_def read_wait_def read_finish_def
  by (intro gpio_rules; simp add: line_ok_def)+

lemma keeps_write_line [gpio_keeps]: "keeps (gpio_ok F) (write_line e minor b n)"
  unfolding write_line_def by (intro gpio_rules) (simp_all add: line_ok_def)

lemma keeps_poll_line [gpio_keeps]: "keeps (gpio_ok F) (poll_line e minor)"
  unfolding poll_line_def by (intro gpio_rules) simp_all

lemma keeps_ioctls [gpio_keeps]:
  "keeps (gpio_ok F) (gpio_ioctl_set_direction e minor arg)"
  "keeps (gpio_ok F) (gpio_ioctl_set_output e minor arg)"
  "keeps (gpio_ok F) (gpio_ioctl_get_input e minor arg)"
  "keeps (gpio_ok F) (gpio_ioctl_free_interrupt e minor)"
  "keeps (gpio_ok F) (gpio_ioctl_get_last_it e minor arg)"
  unfolding gpio_ioctl_set_direction_def gpio_ioctl_set_output_def gpio_ioctl_get_input_def
    gpio_ioctl_free_interrupt_def gpio_ioctl_get_last_it_def
  by (intro gpio_keeps gpio_rules; simp add: line_ok_def)+

lemma keeps_ioctl_set_interrupt [gpio_keeps]:
  "arg \<in> {IRQF_TRIGGER_RISING, IRQF_TRIGGER_FALLING} \<Longrightarrow>
     keeps (gpio_ok F) (gpio_ioctl_set_interrupt e minor arg)"
  unfolding gpio_ioctl_set_interrupt_def release_for_interrupt_def
  by (intro gpio_keeps gpio_rules) (auto simp: line_ok_def)

lemma keeps_ioctl_set_debounce [gpio_keeps]:
  "arg \<le> MAX_DEBOUNCE_VALUE \<Longrightarrow> keeps (gpio_ok F) (gpio_ioctl_set_debounce e minor arg)"
  unfolding gpio_ioctl_set_debounce_def by (intro gpio_rules) (simp_all add: line_ok_def)

text \<open>The entry points; unless \<open>F\<close> allows accesses out of bounds, of a node the driver has registered.\<close>

abbreviation known_node :: "kernel \<Rightarrow> u32 \<Rightarrow> bool" where
  "known_node e i_rdev \<equiv> unat (k_MINOR e i_rdev) < DRIVER_DEV_REGISTER_NB"

lemma keeps_GpioIrqHandler:
  "Out_of_bounds \<notin> F \<longrightarrow> unat d < DRIVER_DEV_REGISTER_NB \<Longrightarrow> keeps (gpio_ok F) (GpioIrqHandler e d)"
  unfolding GpioIrqHandler_def by (intro keeps_with_line gpio_keeps)

lemma keeps_line_call:
  assumes "unat minor < DRIVER_DEV_REGISTER_NB \<Longrightarrow> keeps (gpio_ok F) m"
    and "Out_of_bounds \<notin> F \<longrightarrow> unat minor < DRIVER_DEV_REGISTER_NB"
  shows "keeps (gpio_ok F) (with_line e minor m r)"
proof (cases "unat minor < DRIVER_DEV_REGISTER_NB")
  case True
  then show ?thesis using assms(1) by (simp add: with_line_def)
next
  case False
  then show ?thesis
    using assms(2) keeps_out_of_bounds [of F e]
    by (auto simp: with_line_def intro!: keeps_bind keeps_return)
qed

lemma keeps_Gpio_calls:
  assumes "Out_of_bounds \<notin> F \<longrightarrow> known_node e d"
  shows "keeps (gpio_ok F) (Gpio_open e d m)" "keeps (gpio_ok F) (Gpio_close e d)"
    "keeps (gpio_ok F) (Gpio_write e d buf b n)" "keeps (gpio_ok F) (Gpio_poll e d)"
    "keeps (gpio_ok F) (Gpio_ioctl e d cmd arg)" "keeps (gpio_ok F) (Gpio_read e d buf n)"
proof -
  note valid = assms
  show "keeps (gpio_ok F) (Gpio_open e d m)" "keeps (gpio_ok F) (Gpio_close e d)"
    "keeps (gpio_ok F) (Gpio_write e d buf b n)" "keeps (gpio_ok F) (Gpio_poll e d)"
    unfolding Gpio_open_def Gpio_close_def Gpio_write_def Gpio_poll_def Let_def CheckMinor_def
    by (intro keeps_if keeps_return keeps_line_call gpio_keeps valid; assumption?)+
  show "keeps (gpio_ok F) (Gpio_ioctl e d cmd arg)"
    unfolding Gpio_ioctl_def Let_def CheckMinor_def
    by (intro keeps_if keeps_return keeps_line_call gpio_keeps valid) auto
  have static: "keeps (gpio_ok F) (wr (\<lambda>s. s\<lparr>read_minor := CheckMinor e d\<rparr>))"
    by (rule keeps_wr) (use assms in \<open>auto simp: gpio_ok_def gpio_inv_def sync_ok_defs CheckMinor_def\<close>)
  show "keeps (gpio_ok F) (Gpio_read e d buf n)"
    unfolding Gpio_read_def
    by (intro keeps_bind [OF static] keeps_rd_bind keeps_if keeps_return keeps_line_call gpio_keeps)
      (simp add: gpio_ok_def)
qed

lemma keeps_Gpio_read_woken: "keeps (gpio_ok F) (Gpio_read_woken e buf)"
  unfolding Gpio_read_woken_def
  by (intro keeps_bind [OF keeps_gpio_kcall] keeps_if keeps_return keeps_rd_bind keeps_line_call
      gpio_keeps) (simp_all add: gpio_ok_def)

end
