(* ===== verification/Gpio_Machine.thy ===== *)
theory Gpio_Machine
  imports Gpio_Inv Sync_Spec
begin

text \<open>
  Both drivers inserted: the states they can be in when the interrupts and system calls of the GPIO
  driver and all events of the synchronization driver (\<open>Sync_call\<close>) come in any order. Each of
  them runs to its end, except that a blocked read and the thread give way where they sleep;
  \<open>gsleepers\<close> and \<open>sync_sleepers\<close> count the reads of the two drivers that do. The kernel passes a system call on a node on only while the node is open, and only
  opens nodes with the numbers the driver has registered.
\<close>

section \<open>The machine\<close>

record gpio_machine =
  gdrv :: gpio_state
  gsleepers :: nat
  gchecker :: check_thread
  sync_sleepers :: nat

datatype gpio_event =
    Gpio_interrupt u32
  | Open_gpio u32 u32 | Close_gpio u32
  | Read_gpio u32 u32 u32 | Read_gpio_woken u32
  | Write_gpio u32 u32 u8 u32
  | Poll_gpio u32
  | Ioctl_gpio u32 u32 u32
  | Sync_call sync_event

definition gafter :: "(gpio_state, 'r) state \<Rightarrow> gpio_machine \<Rightarrow> gpio_machine" where
  "gafter f m = m\<lparr>gdrv := snd (run_state f (gdrv m))\<rparr>"

definition node_open :: "kernel \<Rightarrow> u32 \<Rightarrow> gpio_machine \<Rightarrow> bool" where
  "node_open e d m \<longleftrightarrow> known_node e d \<and> bIsOpened (attrs (unat (k_MINOR e d)) (gdrv m)) = 1"

definition read_outcome :: "gpio_machine \<Rightarrow> read_result \<times> gpio_state \<Rightarrow> gpio_machine" where
  "read_outcome m rs = (case rs of
     (Sleeping, s) \<Rightarrow> m\<lparr>gdrv := s, gsleepers := gsleepers m + 1\<rparr>
   | (Returned r, s) \<Rightarrow> m\<lparr>gdrv := s\<rparr>)"

text \<open>The synchronization driver's part of the machine, and the machine after one of its events.\<close>

definition sync_view where
  "sync_view m = \<lparr>drv = gdrv m, checker = gchecker m, sleepers = sync_sleepers m\<rparr>"

definition sync_back where
  "sync_back m x = m\<lparr>gdrv := drv x, gchecker := checker x, sync_sleepers := sleepers x\<rparr>"

definition gpio_exec :: "kernel \<Rightarrow> gpio_event \<Rightarrow> gpio_machine \<Rightarrow> gpio_machine option" where
  "gpio_exec e ev m = (case ev of
     Gpio_interrupt n \<Rightarrow>
       (if unat n < DRIVER_DEV_REGISTER_NB then Some (gafter (GpioIrqHandler e n) m) else None)
   | Open_gpio d md \<Rightarrow> (if known_node e d then Some (gafter (Gpio_open e d md) m) else None)
   | Close_gpio d \<Rightarrow> (if node_open e d m then Some (gafter (Gpio_close e d) m) else None)
   | Read_gpio d buf n \<Rightarrow>
       (if node_open e d m
        then Some (read_outcome m (run_state (Gpio_read e d buf n) (gdrv m))) else None)
   | Read_gpio_woken buf \<Rightarrow>
       (if 0 < gsleepers m
        then Some (read_outcome (m\<lparr>gsleepers := gsleepers m - 1\<rparr>)
                     (run_state (Gpio_read_woken e buf) (gdrv m)))
        else None)
   | Write_gpio d buf c n \<Rightarrow>
       (if node_open e d m then Some (gafter (Gpio_write e d buf c n) m) else None)
   | Poll_gpio d \<Rightarrow> (if node_open e d m then Some (gafter (Gpio_poll e d) m) else None)
   | Ioctl_gpio d cmd arg \<Rightarrow>
       (if node_open e d m then Some (gafter (Gpio_ioctl e d cmd arg) m) else None)
   | Sync_call v \<Rightarrow> map_option (sync_back m) (sync_exec e v (sync_view m)))"

definition gpio_step :: "kernel \<Rightarrow> gpio_machine \<Rightarrow> gpio_event \<Rightarrow> gpio_machine \<Rightarrow> bool" where
  "gpio_step e m ev m' \<longleftrightarrow> gpio_exec e ev m = Some m'"

text \<open>The GPIO module has been inserted beside a synchronization driver that was already there.\<close>

definition gpio_inserted :: "kernel \<Rightarrow> gpio_machine \<Rightarrow> bool" where
  "gpio_inserted e m \<longleftrightarrow> (\<exists>m0. sync_reach e m0 \<and>
     Gpio_initialize e (gpio_globals (drv m0)) = Some (0, gdrv m) \<and> gsleepers m = 0 \<and>
     gchecker m = checker m0 \<and> sync_sleepers m = sleepers m0)"

abbreviation gpio_reach :: "kernel \<Rightarrow> gpio_machine \<Rightarrow> bool" where
  "gpio_reach e \<equiv> reach (gpio_inserted e) (gpio_step e)"

abbreviation gpio_runs ::
    "kernel \<Rightarrow> gpio_machine \<Rightarrow> gpio_event list \<Rightarrow> gpio_machine \<Rightarrow> bool" where
  "gpio_runs e \<equiv> runs (gpio_step e)"

lemma read_outcome_drv [simp]: "gdrv (read_outcome m (r, s)) = s"
  by (cases r) (simp_all add: read_outcome_def)

lemma gdrv_gafter [simp]: "gdrv (gafter f m) = snd (run_state f (gdrv m))"
  by (simp add: gafter_def)

lemma sync_view_drv [simp]: "drv (sync_view m) = gdrv m"
  by (simp add: sync_view_def)

text \<open>What each handler establishes, every event establishes.\<close>

lemma gpio_exec_wp:
  assumes "gpio_exec e ev m = Some m'"
    and "\<And>n. ev = Gpio_interrupt n \<Longrightarrow> unat n < DRIVER_DEV_REGISTER_NB \<Longrightarrow>
      wp (GpioIrqHandler e n) (\<lambda>_. I) (gdrv m)"
    and "\<And>d md. ev = Open_gpio d md \<Longrightarrow> known_node e d \<Longrightarrow> wp (Gpio_open e d md) (\<lambda>_. I) (gdrv m)"
    and "\<And>d. ev = Close_gpio d \<Longrightarrow> node_open e d m \<Longrightarrow> wp (Gpio_close e d) (\<lambda>_. I) (gdrv m)"
    and "\<And>d buf n. node_open e d m \<Longrightarrow> wp (Gpio_read e d buf n) (\<lambda>_. I) (gdrv m)"
    and "\<And>buf. wp (Gpio_read_woken e buf) (\<lambda>_. I) (gdrv m)"
    and "\<And>d buf c n. node_open e d m \<Longrightarrow> wp (Gpio_write e d buf c n) (\<lambda>_. I) (gdrv m)"
    and "\<And>d. node_open e d m \<Longrightarrow> wp (Gpio_poll e d) (\<lambda>_. I) (gdrv m)"
    and "\<And>d cmd arg. node_open e d m \<Longrightarrow> wp (Gpio_ioctl e d cmd arg) (\<lambda>_. I) (gdrv m)"
    and "\<And>v x. sync_exec e v (sync_view m) = Some x \<Longrightarrow> I (drv x)"
  shows "I (gdrv m')"
proof -
  have step: "wp f (\<lambda>_. I) (gdrv m) \<Longrightarrow> I (snd (run_state f (gdrv m)))"
    for f :: "(gpio_state, 'r) state" by (simp add: wp_fst_snd)
  have read: "wp f (\<lambda>_. I) (gdrv m) \<Longrightarrow> I (gdrv (read_outcome x (run_state f (gdrv m))))" for f x
    by (cases "run_state f (gdrv m)") (simp add: wp_def)
  show ?thesis
    using assms(1)
    by (cases ev)
      (auto simp: gpio_exec_def sync_back_def split: if_splits intro!: step read intro: assms(2-))
qed

lemma gpio_exec_keeps:
  assumes "gpio_exec e ev m = Some m'" "I (gdrv m)"
    and "\<And>n. ev = Gpio_interrupt n \<Longrightarrow> unat n < DRIVER_DEV_REGISTER_NB \<Longrightarrow> keeps I (GpioIrqHandler e n)"
    and "\<And>d md. ev = Open_gpio d md \<Longrightarrow> known_node e d \<Longrightarrow> keeps I (Gpio_open e d md)"
    and "\<And>d. ev = Close_gpio d \<Longrightarrow> node_open e d m \<Longrightarrow> keeps I (Gpio_close e d)"
    and "\<And>d buf n. node_open e d m \<Longrightarrow> keeps I (Gpio_read e d buf n)"
    and "\<And>buf. keeps I (Gpio_read_woken e buf)"
    and "\<And>d buf c n. node_open e d m \<Longrightarrow> keeps I (Gpio_write e d buf c n)"
    and "\<And>d. node_open e d m \<Longrightarrow> keeps I (Gpio_poll e d)"
    and "\<And>d cmd arg. node_open e d m \<Longrightarrow> keeps I (Gpio_ioctl e d cmd arg)"
    and sync: "\<And>v x. sync_exec e v (sync_view m) = Some x \<Longrightarrow> I (drv (sync_view m)) \<Longrightarrow> I (drv x)"
  shows "I (gdrv m')"
  by (rule gpio_exec_wp [OF assms(1)])
    (auto intro: keepsD [where I = I, OF _ assms(2)] assms(3-10) sync simp: assms(2) sync_view_drv)

section \<open>Insertion\<close>

text \<open>A line as the loop over the nodes leaves it.\<close>

definition line_fresh :: "nat \<Rightarrow> GpioAttributes \<Rightarrow> bool" where
  "line_fresh n g \<longleftrightarrow>
     c_string (sLabel g) = label_of n \<and> uiNbMuxed g = 1 \<and> uiRegisterAdress g = [0, 0, 0] \<and>
     length (uiPreviousMode g) = 3 \<and> length (uiDefaultMode g) = 3 \<and>
     bMode g = IO_MODE \<and> bDirection g = INPUT \<and> bDone g = 0 \<and> bIsOpened g = 0 \<and>
     uiTriggerMode g = INIT_VALUE \<and> uiMsDebounceDelay g = 0"

lemma line_fresh_padded:
  assumes "\<forall>k < DRIVER_DEV_REGISTER_NB. line_fresh k (attrs k s)"
    and "length (m_pGpioAttributesTab s) = DRIVER_DEV_REGISTER_NB"
  shows "gpio_inv (padded pad_ranges pad_counts s)"
proof -
  have "line_ok n (attrs n (padded pad_ranges pad_counts s))" if "n < DRIVER_DEV_REGISTER_NB" for n
    using assms that pad_counts_value [of n]
    by (simp add: padded_def line_fresh_def line_ok_def mux_registers_def)
  then show ?thesis using assms(2) by (simp add: gpio_inv_def padded_def)
qed

lemma dec_printable: "CHR 0x00 \<notin> set (dec n)"
proof (induction n rule: dec.induct)
  case (1 n)
  have "char_of (48 + d) \<noteq> CHR 0x00" if "d < 10" for d :: nat
  proof -
    have "d \<in> {0, 1, 2, 3, 4, 5, 6, 7, 8, 9}" using that by auto
    then show ?thesis by (auto simp: char_of_def)
  qed
  then show ?case
    using 1 by (subst dec.simps) (auto simp: eq_commute [of "CHR 0x00"])
qed

lemma c_string_label: "c_string (label_of n @ replicate k CHR 0x00) = label_of n"
proof -
  have "\<forall>c \<in> set (label_of n). c \<noteq> CHR 0x00"
    using dec_printable [of n] by (auto simp: label_of_def)
  then have "takeWhile (\<lambda>c. c \<noteq> CHR 0x00) (label_of n @ xs) =
      label_of n @ takeWhile (\<lambda>c. c \<noteq> CHR 0x00) xs" for xs
    by (simp add: takeWhile_append)
  from this [of "replicate k CHR 0x00"] show ?thesis by (cases k) (simp_all add: c_string_def)
qed


lemma label_fits: "n < DRIVER_DEV_REGISTER_NB \<Longrightarrow> length (label_of n) + 1 \<le> 8"
  using length_dec [of n 2] by (simp add: label_of_def)

lemma put_attrs_comp:
  "n < length (m_pGpioAttributesTab s) \<Longrightarrow>
     put_attrs n f (put_attrs n g s) = put_attrs n (\<lambda>x. f (g x)) s"
  by (simp add: put_attrs_def)

lemma list3_upd: "length l = 3 \<Longrightarrow> l[0 := a, Suc 0 := b, Suc (Suc 0) := c] = [a, b, c]"
  by (auto simp: numeral_3_eq_3 length_Suc_conv)

text \<open>The lines in \<open>ks\<close> are still to come.\<close>

definition lines_made :: "ub set \<Rightarrow> nat list \<Rightarrow> 'a gpio_state_scheme \<Rightarrow> bool" where
  "lines_made F ks s \<longleftrightarrow>
     length (m_pGpioAttributesTab s) = DRIVER_DEV_REGISTER_NB \<and> sync_ok F s \<and> read_minor s = 0 \<and>
     set ks \<subseteq> {..<DRIVER_DEV_REGISTER_NB} \<and>
     (\<forall>k < DRIVER_DEV_REGISTER_NB. length (uiPreviousMode (attrs k s)) = 3 \<and>
        length (uiDefaultMode (attrs k s)) = 3 \<and> length (uiRegisterAdress (attrs k s)) = 3) \<and>
     (\<forall>k < DRIVER_DEV_REGISTER_NB. k \<notin> set ks \<longrightarrow> line_fresh k (attrs k s))"

lemma lines_made_log [simp]:
  "\<not> is_ub (k, 0) \<Longrightarrow> lines_made F ks s \<Longrightarrow> lines_made F ks (s\<lparr>klog := klog s @ [(k, r)]\<rparr>)"
  by (simp add: lines_made_def)

lemma lines_made_put:
  assumes "lines_made F (n # ks) s"
    and "\<And>g. length (uiPreviousMode g) = 3 \<Longrightarrow> length (uiDefaultMode g) = 3 \<Longrightarrow>
      length (uiRegisterAdress g) = 3 \<Longrightarrow> line_fresh n (f g)"
  shows "lines_made F ks (put_attrs n f s)"
  using assms by (fastforce simp: lines_made_def line_fresh_def)

lemma run_write_label:
  "n < DRIVER_DEV_REGISTER_NB \<Longrightarrow> run_state (write_label e n) s = ((), put_attrs n (\<lambda>g. g\<lparr>sLabel :=
     label_of n @ replicate (8 - length (label_of n)) CHR 0x00\<rparr>) s)"
  using label_fits [of n] by (simp add: write_label_def)

lemma wp_create_line:
  assumes "lines_made F (n # ks) s"
  shows "wp (create_line e n)
    (\<lambda>r s'. case r of None \<Rightarrow> lines_made F ks s' | Some x \<Rightarrow> x < DRIVER_DEV_REGISTER_NB) s"
proof -
  have n: "n < DRIVER_DEV_REGISTER_NB" using assms by (simp add: lines_made_def)
  have len: "n < length (m_pGpioAttributesTab s)" using assms by (simp add: lines_made_def)
  have device: "lines_made F (n # ks) (put_attrs n (\<lambda>g. g\<lparr>pDeviceEntry := p\<rparr>) s)"
    if "lines_made F (n # ks) s" for p and s :: "'a gpio_state_scheme"
    using that by (auto simp: lines_made_def line_fresh_def)
  have init: "wp (initialize_line n) (\<lambda>_ s'. lines_made F ks s') (put_attrs n (\<lambda>g. g\<lparr>sLabel :=
      label_of n @ replicate (8 - length (label_of n)) CHR 0x00\<rparr>) s)"
    if "lines_made F (n # ks) s" for s :: "'a gpio_state_scheme"
  proof -
    have "n < length (m_pGpioAttributesTab s)" using that by (simp add: lines_made_def)
    then show ?thesis
      by (auto simp: initialize_line_def wp_simps upt_rec put_attrs_comp line_fresh_def
          c_string_label list3_upd intro!: lines_made_put [OF that])
  qed
  show ?thesis
    unfolding create_line_def line_device_def
    by (auto simp: wp_simps device [simplified] assms wp_def [of "write_label e n"]
        run_write_label [OF n] intro!: wp_mono [OF init] device n)
qed

lemma wp_create_lines:
  assumes "lines_made F [0..<DRIVER_DEV_REGISTER_NB] s"
  shows "wp (for_each [0..<DRIVER_DEV_REGISTER_NB] (create_line e)) (\<lambda>r s'. case r of
      None \<Rightarrow> lines_made F [] s' | Some n \<Rightarrow> n < DRIVER_DEV_REGISTER_NB) s"
  by (rule wp_for_each [where I = "lines_made F"], rule assms, rule wp_mono [OF wp_create_line])
    (auto split: option.splits)

text \<open>Right after the insertion every line is closed and has seen no interrupt.\<close>

definition all_idle :: "'a gpio_state_scheme \<Rightarrow> bool" where
  "all_idle s \<longleftrightarrow> length (m_pGpioAttributesTab s) = DRIVER_DEV_REGISTER_NB \<and>
     (\<forall>n < DRIVER_DEV_REGISTER_NB.
        bIsOpened (attrs n s) = 0 \<and> bDone (attrs n s) = 0 \<and> bMode (attrs n s) = IO_MODE)"

lemma all_idle_padded: "lines_made F [] s \<Longrightarrow> all_idle (padded pad_ranges pad_counts s)"
  by (auto simp: lines_made_def all_idle_def padded_def line_fresh_def)

lemma keeps_idle_SaveDefaultMode: "keeps all_idle (SaveDefaultMode e)"
proof -
  have put: "keeps all_idle (set_attrs n (\<lambda>g. g\<lparr>uiDefaultMode := f (uiDefaultMode g)\<rparr>))" for n f
    by (rule keeps_wr) (simp add: all_idle_def)
  have calls: "keeps all_idle (kcall e c)" "keeps all_idle (kdo e c)" for c
    by (auto intro!: keeps_kcall keeps_kdo simp: all_idle_def)
  show ?thesis
    unfolding SaveDefaultMode_def save_default_register_def map_register_def out_of_bounds_def
    by (intro keeps_return keeps_rd keeps_if keeps_case_option keeps_let keeps_for_each
      keeps_bind put calls)
qed

lemma gpio_ok_padded:
  "lines_made F [] s \<Longrightarrow> gpio_ok F (padded pad_ranges pad_counts s)"
  using line_fresh_padded [of s]
  by (auto simp: lines_made_def gpio_ok_def padded_def map_lines_def sync_ok_defs)

lemma wp_gpio_prepare_lines:
  assumes "lines_made F [0..<DRIVER_DEV_REGISTER_NB] s"
  shows "wp (gpio_prepare_lines e) (\<lambda>r s'. case r of
      Done x \<Rightarrow> x = 0 \<and> gpio_ok F s' \<and> all_idle s' | Out_dev_del n x \<Rightarrow> 0 \<le>s n) s"
proof -
  have default: "wp (SaveDefaultMode e) (\<lambda>r s'. gpio_ok F s' \<and> all_idle s' \<and>
      (r = 0 \<or> r = gpio_err ERR_GPIO_SAVEDEFAULTMODE_MUX_REQUEST)) s'"
    if "gpio_ok F s'" "all_idle s'" for s' :: "'a gpio_state_scheme"
  proof (intro wp_conj keepsD [OF keeps_SaveDefaultMode that(1)]
      keepsD [OF keeps_idle_SaveDefaultMode that(2)])
    show "wp (SaveDefaultMode e) (\<lambda>r _. r = 0 \<or> r = gpio_err ERR_GPIO_SAVEDEFAULTMODE_MUX_REQUEST) s'"
      unfolding SaveDefaultMode_def wp_bind
      apply (rule wp_for_each [where I = "\<lambda>_ _. True"], simp)
       apply (simp only: wp_bind wp_rd)
       apply (rule wp_for_each [where I = "\<lambda>_ _. True"], simp)
        apply (auto simp: save_default_register_def map_register_def wp_simps)
      done
  qed
  have signed: "0 \<le>s (word_of_nat n :: u32)" if "n \<le> DRIVER_DEV_REGISTER_NB" for n
    using that sint_word_of_nat_small [of n] by (simp add: word_sle_eq)
  have saved: "wp (SaveDefaultMode e \<bind> (\<lambda>iRet.
      if iRet <s 0 then ret (Out_dev_del (word_of_nat DRIVER_DEV_REGISTER_NB) iRet)
      else ret (Done iRet))) (\<lambda>r s'. case r of
        Done x \<Rightarrow> x = 0 \<and> gpio_ok F s' \<and> all_idle s' | Out_dev_del n x \<Rightarrow> 0 \<le>s n)
      (padded pad_ranges pad_counts s')" if "lines_made F [] s'" for s' :: "'a gpio_state_scheme"
    unfolding wp_bind
    by (rule wp_mono [OF default [OF gpio_ok_padded [OF that] all_idle_padded [OF that]]])
      (use signed [of DRIVER_DEV_REGISTER_NB] in \<open>auto simp: wp_simps\<close>)
  show ?thesis
    unfolding gpio_prepare_lines_def wp_bind [of "for_each _ _"]
  proof (rule wp_mono [OF wp_create_lines [OF assms]])
    fix r and s' :: "'a gpio_state_scheme"
    assume "case r of None \<Rightarrow> lines_made F [] s' | Some n \<Rightarrow> n < DRIVER_DEV_REGISTER_NB"
    then show "wp (case r of None \<Rightarrow> SaveRegisterAddr \<bind> (\<lambda>iRet.
        if iRet <s 0 then ret (Out_dev_del (word_of_nat DRIVER_DEV_REGISTER_NB) iRet)
        else SaveDefaultMode e \<bind> (\<lambda>iRet.
          if iRet <s 0 then ret (Out_dev_del (word_of_nat DRIVER_DEV_REGISTER_NB) iRet)
          else ret (Done iRet)))
      | Some n \<Rightarrow> ret (Out_dev_del (word_of_nat n) (gpio_err ERR_GPIO_INIT_DEVICE_CREATE)))
      (\<lambda>r s'. case r of Done x \<Rightarrow> x = 0 \<and> gpio_ok F s' \<and> all_idle s' | Out_dev_del n x \<Rightarrow> 0 \<le>s n) s'"
      by (cases r)
        (use saved signed in \<open>auto simp: wp_bind [of SaveRegisterAddr] wp_def [of SaveRegisterAddr]
          run_SaveRegisterAddr wp_return\<close>)
  qed
qed

text \<open>The body of the insertion: 0 and the invariant, an error before the nodes, or the loop.\<close>

definition init_outcome :: "ub set \<Rightarrow> init_exit \<Rightarrow> 'a gpio_state_scheme \<Rightarrow> bool" where
  "init_outcome F r s \<longleftrightarrow> (case r of
     Done x \<Rightarrow> x = 0 \<and> gpio_ok F s \<and> all_idle s \<or> x \<in> gpio_err ` {ERR_GPIO_INIT_ALLOC_CHRDEV_REGION,
       ERR_GPIO_INIT_CDEV_ADD, ERR_GPIO_INIT_CLASS_CREATE}
   | Out_dev_del n x \<Rightarrow> 0 \<le>s n)"

lemma wp_gpio_initialize_run:
  assumes "lines_made F [0..<DRIVER_DEV_REGISTER_NB] s"
  shows "wp (gpio_initialize_run e) (init_outcome F) s"
proof -
  have prepare: "wp (gpio_prepare_lines e) (init_outcome F) s'"
    if "lines_made F [0..<DRIVER_DEV_REGISTER_NB] s'" for s' :: "'a gpio_state_scheme"
    by (rule wp_mono [OF wp_gpio_prepare_lines [OF that]])
      (auto simp: init_outcome_def split: init_exit.splits)
  let ?L = "lines_made F [0..<DRIVER_DEV_REGISTER_NB] :: 'a gpio_state_scheme \<Rightarrow> bool"
  have wrs: "keeps ?L (wr (\<lambda>s. s\<lparr>m_oGpioDev := d, m_uiGpioMajor := x, m_uiGpioMinor := y\<rparr>))"
    "keeps ?L (wr (\<lambda>s. s\<lparr>m_pGpioClass := d\<rparr>))" for d x y
    by (rule keeps_wr; simp add: lines_made_def sync_ok_defs)+
  have calls: "keeps ?L (kcall e k)" "keeps ?L (kdo e k)" if "\<not> is_ub (k, 0)" for k
    using that by (auto intro!: keeps_kcall keeps_kdo)
  have errors: "init_outcome F (Done (gpio_err x)) s'" if "x \<in> {ERR_GPIO_INIT_ALLOC_CHRDEV_REGION,
      ERR_GPIO_INIT_CDEV_ADD, ERR_GPIO_INIT_CLASS_CREATE}" for x and s' :: "'a gpio_state_scheme"
    using that by (auto simp: init_outcome_def)
  show ?thesis
    unfolding gpio_initialize_run_def gpio_out_unregister_def gpio_out_cdev_del_def
    apply (rule wp_keeps_bind [OF calls(1) assms], simp)
    apply (rule wp_ifI, simp add: wp_return errors)
    apply (rule wp_keeps_bind [OF calls(1)], simp, assumption)
    apply (rule wp_keeps_bind [OF wrs(1)], assumption)
    apply (rule wp_keeps_bind [OF calls(2)], simp, assumption)
    apply (rule wp_keeps_bind [OF calls(1)], simp, assumption)
    apply (rule wp_ifI, simp add: wp_simps errors)
    apply (rule wp_keeps_bind [OF calls(1)], simp, assumption)
    apply (rule wp_keeps_bind [OF wrs(2)], assumption)
    apply (rule wp_ifI, simp add: wp_simps errors)
    apply (erule prepare)
    done
qed

lemma sync_ok_globals: "sync_ok F (gpio_globals s) = sync_ok F s"
  by (simp add: gpio_globals_def sync_ok_def sync_inv_def clocked_def sync_state.defs)

lemma lines_made_globals:
  assumes "sync_ok F s"
  shows "lines_made F [0..<DRIVER_DEV_REGISTER_NB] (gpio_globals s)"
proof -
  have "read_minor (gpio_globals s) = 0"
    "m_pGpioAttributesTab (gpio_globals s) = replicate DRIVER_DEV_REGISTER_NB GpioAttributes_zero"
    by (simp_all add: gpio_globals_def sync_state.defs)
  then show ?thesis
    using assms by (auto simp: lines_made_def sync_ok_globals GpioAttributes_zero_def)
qed

lemma Gpio_initialize_outcome:
  assumes "sync_ok F s"
  shows "Gpio_initialize e (gpio_globals s) = None \<or>
    (\<exists>s'. Gpio_initialize e (gpio_globals s) = Some (0, s') \<and> gpio_ok F s' \<and> all_idle s') \<or>
    (\<exists>x s'. Gpio_initialize e (gpio_globals s) = Some (gpio_err x, s') \<and>
       x \<in> {ERR_GPIO_INIT_ALLOC_CHRDEV_REGION, ERR_GPIO_INIT_CDEV_ADD, ERR_GPIO_INIT_CLASS_CREATE})"
proof -
  obtain r s' where run: "run_state (gpio_initialize_run e) (gpio_globals s) = (r, s')"
    by (cases "run_state (gpio_initialize_run e) (gpio_globals s)") auto
  have "init_outcome F r s'"
    by (rule wp_run [OF wp_gpio_initialize_run [OF lines_made_globals [OF assms]] run])
  then show ?thesis
    by (cases r) (auto simp: Gpio_initialize_def run init_outcome_def gpio_out_dev_del_def
        destroy_lines_never_returns)
qed

section \<open>The invariant\<close>

lemma gpio_inserted_ok: "gpio_inserted e m \<Longrightarrow> gpio_ok (sync_faults e) (gdrv m)"
proof -
  assume "gpio_inserted e m"
  then obtain m0 where m0: "sync_reach e m0" "Gpio_initialize e (gpio_globals (drv m0)) = Some (0, gdrv m)"
    by (auto simp: gpio_inserted_def)
  have "sync_ok (sync_faults e) (drv m0)" using sync.reach_inv [OF m0(1)] .
  from Gpio_initialize_outcome [OF this, of e] m0(2) show ?thesis by auto
qed

lemma gpio_inserted_idle: "gpio_inserted e m \<Longrightarrow> all_idle (gdrv m)"
proof -
  assume "gpio_inserted e m"
  then obtain m0 where m0: "sync_reach e m0" "Gpio_initialize e (gpio_globals (drv m0)) = Some (0, gdrv m)"
    by (auto simp: gpio_inserted_def)
  from Gpio_initialize_outcome [OF sync.reach_inv [OF m0(1)], of e] m0(2) show ?thesis
    by (auto simp: gpio_err_def)
qed

lemma gpio_ok_frame: "gpio_frame (\<lambda>s. gpio_inv s \<and> (Out_of_bounds \<notin> F \<longrightarrow> unat (read_minor s) < DRIVER_DEV_REGISTER_NB))"
  by (rule read_minor_frame)

lemma gpio_ok_sync_exec:
  assumes "sync_exec e v x = Some x'" "gpio_ok F (drv x)"
  shows "gpio_ok F (drv x')"
  using sync_exec_ok [OF _ assms(1), of F] gpio_frame.frame_sync_exec [OF gpio_ok_frame assms(1), of F]
    assms(2) by (simp add: gpio_ok_def)

lemma gpio_exec_ok:
  assumes "gpio_ok F (gdrv m)" "gpio_exec e ev m = Some m'"
  shows "gpio_ok F (gdrv m')"
  by (rule gpio_exec_keeps [OF assms(2), of "gpio_ok F", OF assms(1)])
    (auto simp: node_open_def intro: keeps_GpioIrqHandler keeps_Gpio_calls keeps_Gpio_read_woken
      dest: gpio_ok_sync_exec)

interpretation gpio: step_system "gpio_inserted e" "gpio_step e"
  "\<lambda>m. gpio_ok (sync_faults e) (gdrv m)" for e
  by unfold_locales (blast intro: gpio_inserted_ok, simp add: gpio_step_def gpio_exec_ok)

end
