(* ===== verification/Gpio_Restore.thy ===== *)
theory Gpio_Restore
  imports Gpio_Machine
begin

text \<open>
  Pads and registers: what the GPIO driver leaves in the pad registers, when these behave as
  registers (\<open>register_file\<close>). The saved modes never change between insertion and removal, and
  removal writes every one of them back; closing a line undoes what opening it did to its pads.
\<close>

section \<open>Insertions that succeed\<close>

text \<open>The calls an insertion needs all succeed.\<close>

definition insertable :: "kernel \<Rightarrow> bool" where
  "insertable e \<longleftrightarrow> (\<forall>l.
     (\<forall>n s. 0 \<le>s answer e l (KDev (Alloc_chrdev_region n s))) \<and>
     (\<forall>d n. answer e l (KDev (Cdev_add d n)) = 0) \<and>
     (\<forall>s. \<not> k_IS_ERR e (answer e l (KDev (Class_create s)))) \<and>
     (\<forall>c d s. \<not> k_IS_ERR e (answer e l (KDev (Device_create c d s)))) \<and>
     (\<forall>a n. answer e l (KIo (Ioremap a n)) \<noteq> 0))"

lemma insertable_resp:
  assumes "insertable e"
  shows "resp e l (KDev (Alloc_chrdev_region n x)) r \<Longrightarrow> \<not> r <s 0"
    "resp e l (KDev (Cdev_add d n)) r \<Longrightarrow> r = 0"
    "resp e l (KDev (Class_create x)) r \<Longrightarrow> \<not> k_IS_ERR e r"
    "resp e l (KDev (Device_create c d x)) r \<Longrightarrow> \<not> k_IS_ERR e r"
    "resp e l (KIo (Ioremap a n)) r \<Longrightarrow> r \<noteq> 0"
  using assms by (auto simp: insertable_def resp_def word_sle_eq word_sless_alt not_less)

lemma wp_const_bind: "wp m (\<lambda>_. wp (m' \<bind> (\<lambda>_. ret x)) (\<lambda>r _. P r)) s = P x"
  by (simp add: wp_def split_beta)

lemma wp_create_line_succeeds:
  "insertable e \<Longrightarrow> wp (create_line e n) (\<lambda>r _. r = None) s"
  by (auto simp: create_line_def line_device_def wp_simps wp_const_bind dest: insertable_resp(4))

lemma wp_SaveDefaultMode_succeeds: "insertable e \<Longrightarrow> wp (SaveDefaultMode e) (\<lambda>r _. r = 0) s"
  unfolding SaveDefaultMode_def wp_bind
  apply (rule wp_for_each [where I = "\<lambda>_ _. True"], simp)
   apply (simp only: wp_bind wp_rd)
   apply (rule wp_for_each [where I = "\<lambda>_ _. True"], simp)
    apply (auto simp: save_default_register_def map_register_def wp_simps dest: insertable_resp(5))
  done

lemma wp_gpio_initialize_succeeds:
  assumes "insertable e"
  shows "wp (gpio_initialize_run e) (\<lambda>r _. r = Done 0) s"
proof -
  have lines: "wp (for_each is (create_line e)) (\<lambda>r _. r = None) s" for "is" s
    by (rule wp_for_each [where I = "\<lambda>_ _. True"])
      (auto intro!: wp_mono [OF wp_create_line_succeeds [OF assms]])
  have prepare: "wp (gpio_prepare_lines e) (\<lambda>r _. r = Done 0) s" for s
    unfolding gpio_prepare_lines_def wp_bind
    by (rule wp_mono [OF lines])
      (auto simp: wp_simps wp_def [of SaveRegisterAddr] run_SaveRegisterAddr
        intro!: wp_mono [OF wp_SaveDefaultMode_succeeds [OF assms]])
  show ?thesis
    unfolding gpio_initialize_run_def
    by (auto simp: wp_simps prepare dest: insertable_resp [OF assms])
qed

lemma Gpio_initialize_succeeds:
  "insertable e \<Longrightarrow> \<exists>s'. Gpio_initialize e s = Some (0, s')"
  using wp_gpio_initialize_succeeds [of e s]
  by (auto simp: Gpio_initialize_def wp_def split: prod.splits)

section \<open>The loop that never ends\<close>

text \<open>A node that cannot be created, or a pad that cannot be mapped.\<close>

definition node_fails :: "kernel \<Rightarrow> nat \<Rightarrow> bool" where
  "node_fails e n \<longleftrightarrow> (\<forall>l c d. k_IS_ERR e (answer e l (KDev (Device_create c d (node_name n)))))"

lemma wp_create_line_fails:
  "node_fails e n \<Longrightarrow> wp (create_line e n) (\<lambda>r _. r = Some n) s"
  by (auto simp: create_line_def line_device_def wp_simps node_fails_def resp_def)

lemma wp_create_lines_fail:
  assumes "node_fails e n" "n \<in> set is" "\<forall>i \<in> set is. i < DRIVER_DEV_REGISTER_NB"
  shows "wp (for_each is (create_line e)) (\<lambda>r _. \<exists>k < DRIVER_DEV_REGISTER_NB. r = Some k) s"
proof (rule wp_for_each [where I = "\<lambda>is _. n \<in> set is \<and> (\<forall>i \<in> set is. i < DRIVER_DEV_REGISTER_NB)"])
  fix i "is" and s :: "'a gpio_state_scheme"
  assume todo: "n \<in> set (i # is) \<and> (\<forall>i \<in> set (i # is). i < DRIVER_DEV_REGISTER_NB)"
  have one: "wp (create_line e i) (\<lambda>r _. r \<in> {None, Some i}) s"
    by (auto simp: create_line_def line_device_def wp_simps wp_const_bind)
  show "wp (create_line e i) (\<lambda>r s'. case r of
      None \<Rightarrow> n \<in> set is \<and> (\<forall>i \<in> set is. i < DRIVER_DEV_REGISTER_NB)
    | Some x \<Rightarrow> \<exists>k < DRIVER_DEV_REGISTER_NB. Some x = Some k) s"
  proof (cases "i = n")
    case True
    then show ?thesis
      using todo by (auto intro!: wp_mono [OF wp_create_line_fails [OF assms(1)]])
  next
    case False
    then show ?thesis using todo by (auto intro!: wp_mono [OF one] split: option.splits)
  qed
qed (use assms in auto)

definition to_destroy :: "init_exit \<Rightarrow> bool" where
  "to_destroy r \<longleftrightarrow> (case r of Done x \<Rightarrow> False | Out_dev_del n x \<Rightarrow> 0 \<le>s n)"

lemma Gpio_initialize_hangs:
  assumes "n < DRIVER_DEV_REGISTER_NB" "node_fails e n"
    and "\<forall>l k x. 0 \<le>s answer e l (KDev (Alloc_chrdev_region k x))"
    and "\<forall>l d k. answer e l (KDev (Cdev_add d k)) = 0"
    and "\<forall>l x. \<not> k_IS_ERR e (answer e l (KDev (Class_create x)))"
  shows "Gpio_initialize e s = None"
proof -
  have signed: "0 \<le>s (word_of_nat k :: u32)" if "k < DRIVER_DEV_REGISTER_NB" for k
    using that sint_word_of_nat_small [of k] by (simp add: word_sle_eq)
  have alloc: "\<not> answer e l (KDev (Alloc_chrdev_region k x)) <s 0" for l k x
    using assms(3) by (auto simp: word_sle_eq word_sless_alt not_less)
  have prepare: "wp (gpio_prepare_lines e) (\<lambda>r _. to_destroy r) s"
    for s :: gpio_state
    unfolding gpio_prepare_lines_def wp_bind
    by (rule wp_mono [OF wp_create_lines_fail [OF assms(2)]])
      (use assms(1) signed in \<open>auto simp: wp_simps to_destroy_def\<close>)
  have "wp (gpio_initialize_run e) (\<lambda>r _. to_destroy r) s"
    unfolding gpio_initialize_run_def
    using assms(4,5) by (simp add: wp_simps prepare resp_def alloc)
  then show ?thesis
    by (auto simp: Gpio_initialize_def wp_def gpio_out_dev_del_def destroy_lines_never_returns
        to_destroy_def split: prod.splits init_exit.splits)
qed


section \<open>Calls that leave the pads alone\<close>

definition writes :: "kcall \<Rightarrow> bool" where
  "writes c \<longleftrightarrow> (case c of KIo (Iowrite16 w a) \<Rightarrow> True | _ \<Rightarrow> False)"

lemma writes_simps [simp]:
  "\<not> writes (KGpio a)" "\<not> writes (KIrq b)" "\<not> writes (KSched c)" "\<not> writes (KTimer d)"
  "\<not> writes (KDev f)" "\<not> writes (KUser g)" "\<not> writes (UB h)" "\<not> writes (KMem m)"
  "\<not> writes (KLock x)" "\<not> writes (KSpi y)" "\<not> writes (KIo (Ioremap a' n))"
  "\<not> writes (KIo (Ioread16 a'))" "\<not> writes (KIo (Iounmap a'))"
  by (simp_all add: writes_def)

text \<open>Predicates that only opening and closing a line may notice.\<close>

locale mux_frame = gpio_frame I for I :: "gpio_state \<Rightarrow> bool" +
  assumes I_put: "(\<And>g. uiPreviousMode (f g) = uiPreviousMode g \<and> uiDefaultMode (f g) = uiDefaultMode g \<and>
      uiNbMuxed (f g) = uiNbMuxed g \<and> uiRegisterAdress (f g) = uiRegisterAdress g) \<Longrightarrow>
      I s \<Longrightarrow> I (put_attrs n f s)"
    and I_call: "\<not> writes c \<Longrightarrow> I s \<Longrightarrow> I (s\<lparr>klog := klog s @ [(c, r)]\<rparr>)"
    and I_static: "I s \<Longrightarrow> I (s\<lparr>read_minor := k\<rparr>)"
begin

lemma keeps_mux_call: "\<not> writes c \<Longrightarrow> keeps I (kcall e c)" "\<not> writes c \<Longrightarrow> keeps I (kdo e c)"
  by (rule keeps_kcall, erule (1) I_call) (rule keeps_kdo, erule (1) I_call)

lemma keeps_mux_put:
  "(\<And>g. uiPreviousMode (f g) = uiPreviousMode g \<and> uiDefaultMode (f g) = uiDefaultMode g \<and>
      uiNbMuxed (f g) = uiNbMuxed g \<and> uiRegisterAdress (f g) = uiRegisterAdress g) \<Longrightarrow>
    keeps I (set_attrs n f)"
  by (rule keeps_wr) (rule I_put)

lemmas mux_rules = keeps_return keeps_rd keeps_if keeps_case_option keeps_let keeps_mux_call
  keeps_mux_put frame_EXPORT frame_put_user keeps_bind

lemma frame_with_line: "keeps I m \<Longrightarrow> keeps I (with_line e k m r)"
  unfolding with_line_def out_of_bounds_def by (intro mux_rules) simp_all

lemma frame_lines:
  "keeps I (gpio_irq e k)" "keeps I (read_line e buf)" "keeps I (read_wait e buf)"
  "keeps I (write_line e k c n)" "keeps I (poll_line e k)"
  unfolding gpio_irq_def read_line_def read_wait_def read_finish_def write_line_def poll_line_def
  by (intro mux_rules; simp)+

lemma frame_ioctls:
  "keeps I (gpio_ioctl_set_direction e k a)" "keeps I (gpio_ioctl_set_output e k a)"
  "keeps I (gpio_ioctl_get_input e k a)" "keeps I (gpio_ioctl_set_interrupt e k a)"
  "keeps I (gpio_ioctl_set_debounce e k a)" "keeps I (gpio_ioctl_free_interrupt e k)"
  "keeps I (gpio_ioctl_get_last_it e k a)"
  unfolding gpio_ioctl_set_direction_def gpio_ioctl_set_output_def gpio_ioctl_get_input_def
    gpio_ioctl_set_interrupt_def gpio_ioctl_set_debounce_def gpio_ioctl_free_interrupt_def
    gpio_ioctl_get_last_it_def release_for_interrupt_def make_input_def make_output_def
    free_line_irq_def
  by (intro mux_rules; simp)+

lemma frame_reads: "keeps I (Gpio_read e d buf n)" "keeps I (Gpio_read_woken e buf)"
proof -
  have static: "keeps I (wr (\<lambda>s. s\<lparr>read_minor := r\<rparr>))" for r
    by (rule keeps_wr) (rule I_static)
  show "keeps I (Gpio_read e d buf n)" "keeps I (Gpio_read_woken e buf)"
    unfolding Gpio_read_def Gpio_read_woken_def
    by (intro static frame_with_line frame_lines mux_rules; simp)+
qed

lemma frame_exec:
  assumes "gpio_exec e ev m = Some m'" "I (gdrv m)"
    and "\<And>d md. ev = Open_gpio d md \<Longrightarrow> keeps I (Gpio_open e d md)"
    and "\<And>d. ev = Close_gpio d \<Longrightarrow> keeps I (Gpio_close e d)"
  shows "I (gdrv m')"
proof (rule gpio_exec_keeps [OF assms(1), of I, OF assms(2)])
  show "keeps I (Gpio_ioctl e d cmd arg)" for d cmd arg
    unfolding Gpio_ioctl_def Let_def
    by (intro keeps_if keeps_return frame_with_line frame_ioctls)
qed (auto simp: GpioIrqHandler_def Gpio_write_def Gpio_poll_def Let_def
    intro!: frame_with_line frame_lines frame_reads keeps_if keeps_return assms(3,4)
    intro: frame_sync_exec)

end

section \<open>The saved default modes\<close>

definition defaults :: "'a gpio_state_scheme \<Rightarrow> u32 list list" where
  "defaults s = map uiDefaultMode (m_pGpioAttributesTab s)"

lemma defaults_put_attrs:
  "(\<And>g. uiDefaultMode (f g) = uiDefaultMode g) \<Longrightarrow> defaults (put_attrs n f s) = defaults s"
  by (cases "n < length (m_pGpioAttributesTab s)")
    (simp_all add: defaults_def put_attrs_def map_update list_update_same_conv list_update_beyond)

lemma keeps_defaults_put:
  "(\<And>g. uiDefaultMode (f g) = uiDefaultMode g) \<Longrightarrow> keeps (\<lambda>s. defaults s = x) (set_attrs n f)"
  by (rule keeps_wr) (simp add: defaults_put_attrs)

interpretation default_frame: mux_frame "\<lambda>s :: gpio_state. defaults s = x" for x
  by unfold_locales
    (auto simp: defaults_put_attrs, auto simp: defaults_def gpio_part_def)

lemma keeps_defaults_call:
  "keeps (\<lambda>s. defaults s = x) (kcall e c)" "keeps (\<lambda>s. defaults s = x) (kdo e c)"
  by (rule keeps_kcall keeps_kdo, simp add: defaults_def)+

lemmas defaults_rules = keeps_return keeps_rd keeps_if keeps_case_option keeps_let keeps_for_each
  keeps_do_each keeps_defaults_call keeps_defaults_put keeps_bind

lemma keeps_defaults_with_line:
  "keeps (\<lambda>s. defaults s = x) m \<Longrightarrow> keeps (\<lambda>s. defaults s = x) (with_line e k m r)"
  unfolding with_line_def out_of_bounds_def by (intro defaults_rules)

lemma keeps_defaults_mux:
  "keeps (\<lambda>s. defaults s = x) (ForceGpioMode e n k)"
  "keeps (\<lambda>s. defaults s = x) (RestorePreviousGpioMode e n)"
  "keeps (\<lambda>s. defaults s = x) (RestoreAllChangedMux e)"
  unfolding ForceGpioMode_def RestorePreviousGpioMode_def RestoreAllChangedMux_def
    force_register_def restore_previous_register_def restore_default_register_def
    restore_mode_def map_register_def out_of_bounds_def
  by (intro defaults_rules; simp)+

lemma keeps_defaults_open_close:
  "keeps (\<lambda>s. defaults s = x) (Gpio_open e d md)" "keeps (\<lambda>s. defaults s = x) (Gpio_close e d)"
  unfolding Gpio_open_def Gpio_close_def open_line_def close_line_def make_input_def
    make_output_def finish_open_def free_line_irq_def Let_def
  by (intro keeps_if keeps_return keeps_defaults_with_line keeps_defaults_mux defaults_rules; simp)+

lemma gpio_exec_defaults: "gpio_exec e ev m = Some m' \<Longrightarrow> defaults (gdrv m') = defaults (gdrv m)"
  by (rule default_frame.frame_exec, assumption) (auto intro: keeps_defaults_open_close)

lemma gpio_runs_defaults: "gpio_runs e m evs m' \<Longrightarrow> defaults (gdrv m') = defaults (gdrv m)"
  by (induction rule: runs.induct) (auto simp: gpio_step_def dest: gpio_exec_defaults)

section \<open>The pad registers\<close>

abbreviation pads :: "u32 set" where
  "pads \<equiv> {mux_registers n ! i | n i. n < DRIVER_DEV_REGISTER_NB \<and> i < mux_count n}"

text \<open>The content of every register; a call changes at most the one it writes.\<close>

abbreviation regs :: "(u32 \<Rightarrow> u16) \<Rightarrow> 'a kstate_scheme \<Rightarrow> u32 \<Rightarrow> u16" where
  "regs reg0 s \<equiv> reg_value reg0 (klog s)"

text \<open>The registers after a log, call by call.\<close>

lemma reg_value_Nil: "reg_value f [] = f"
  by (simp add: fun_eq_iff)

lemma reg_value_append: "reg_value f (l @ l') = reg_value (reg_value f l) l'"
  by (simp add: reg_value_def fun_eq_iff)

lemma reg_value_write: "reg_value f ((KIo (Iowrite16 w a), r) # l) = reg_value (f(a := w)) l"
  by (rule ext) (simp add: reg_value_def reg_step_def eq_commute [of a])

lemma reg_value_other: "\<not> writes c \<Longrightarrow> reg_value f ((c, r) # l) = reg_value f l"
  by (rule ext) (auto simp: reg_value_def reg_step_def writes_def split: kcall.splits io_call.splits)

lemmas reg_calc = reg_value_Nil reg_value_append reg_value_write reg_value_other

lemma keeps_regs_call:
  "\<not> writes c \<Longrightarrow> keeps (\<lambda>s. P (regs reg0 s)) (kcall e c)"
  "\<not> writes c \<Longrightarrow> keeps (\<lambda>s. P (regs reg0 s)) (kdo e c)"
  by (rule keeps_kcall keeps_kdo, simp add: reg_calc del: reg_value_simps)+

lemma register_file_resp:
  assumes "register_file e A vmap reg0"
  shows "a \<in> A \<Longrightarrow> resp e l (KIo (Ioremap a n)) r \<longleftrightarrow> r = vmap a"
    "resp e l (KIo (Ioread16 v)) r \<longleftrightarrow> r = ucast (reg_value reg0 l v)"
    "a \<in> A \<Longrightarrow> vmap a \<noteq> 0" "inj_on vmap A"
  using assms by (auto simp: register_file_def resp_def)

lemma ucast_u16_u32: "(ucast (ucast (w :: u16) :: u32) :: u16) = w"
  by (rule ucast_up_ucast_id) (simp add: is_up)

lemma ucast_u16_eq: "((ucast (v :: u16) :: u32) = ucast (w :: u16)) = (v = w)"
  by (metis ucast_u16_u32)

text \<open>Where the \<open>i\<close>-th register of line \<open>n\<close> is mapped.\<close>

abbreviation pad_at :: "(u32 \<Rightarrow> u32) \<Rightarrow> nat \<Rightarrow> nat \<Rightarrow> u32" where
  "pad_at vmap n i \<equiv> vmap (mux_registers n ! i)"

lemma pad_at_inj:
  assumes "register_file e pads vmap reg0" "n < 192" "i < mux_count n" "m < 192" "j < mux_count m"
  shows "pad_at vmap n i = pad_at vmap m j \<longleftrightarrow> n = m \<and> i = j"
  using inj_onD [OF register_file_resp(4) [OF assms(1)], of "mux_registers n ! i" "mux_registers m ! j"]
    mux_registers_inj [OF assms(2-5)] assms(2-5) by blast

lemma gpio_inv_attrs:
  assumes "gpio_inv s" "n < DRIVER_DEV_REGISTER_NB"
  shows "uiRegisterAdress (attrs n s) = mux_registers n" "unat (uiNbMuxed (attrs n s)) = mux_count n"
    "length (uiPreviousMode (attrs n s)) = 3" "length (uiDefaultMode (attrs n s)) = 3"
    "n < length (m_pGpioAttributesTab s)" "uiNbMuxed (attrs n s) = word_of_nat (mux_count n)"
  using assms mux_count_le [of n] by (simp_all add: gpio_inv_def line_ok_def unat_word_of_nat_u32)

subsection \<open>One register\<close>

text \<open>Writing a mode to register \<open>i\<close> of line \<open>n\<close>, whatever was there, and noting what was.\<close>

definition pad_moved ::
    "(u32 \<Rightarrow> u16) \<Rightarrow> (u32 \<Rightarrow> u32) \<Rightarrow> nat \<Rightarrow> nat \<Rightarrow> u16 \<Rightarrow> 'a gpio_state_scheme \<Rightarrow> 'a gpio_state_scheme \<Rightarrow> bool" where
  "pad_moved reg0 vmap n i w s s' \<longleftrightarrow>
     regs reg0 s' = (regs reg0 s)(pad_at vmap n i := w) \<and>
     m_pGpioAttributesTab s' = m_pGpioAttributesTab (put_attrs n (\<lambda>g. g\<lparr>uiPreviousMode :=
       (uiPreviousMode g)[i := ucast (regs reg0 s (pad_at vmap n i))]\<rparr>) s)"

lemma pad_moved_inv: "pad_moved reg0 vmap n i w s s' \<Longrightarrow> gpio_inv s \<Longrightarrow> gpio_inv s'"
  by (auto simp: pad_moved_def gpio_inv_def line_ok_def)

lemma wp_map_register:
  assumes "register_file e pads vmap reg0" "gpio_inv s" "n < 192" "i < mux_count n"
  shows "wp (map_register e n i) (\<lambda>r s'. r = pad_at vmap n i \<and> r \<noteq> 0 \<and> regs reg0 s' = regs reg0 s \<and>
    m_pGpioAttributesTab s' = m_pGpioAttributesTab s) s"
proof -
  have pad: "mux_registers n ! i \<in> pads" using assms(3,4) by blast
  show ?thesis
    using assms mux_count_le [of n] register_file_resp(1,3) [OF assms(1) pad]
    by (simp add: map_register_def wp_simps gpio_inv_attrs reg_calc del: reg_value_simps)
qed

lemma wp_restore_mode:
  assumes "register_file e pads vmap reg0" "a = pad_at vmap n i"
  shows "wp (restore_mode e n i a w) (\<lambda>_. pad_moved reg0 vmap n i w s) s"
  using assms register_file_resp(2) [OF assms(1)]
  by (auto simp: restore_mode_def wp_simps pad_moved_def reg_calc ucast_u16_eq put_attrs_def
      simp del: reg_value_simps)

lemma pad_moved_cong:
  "pad_moved reg0 vmap n i w s s' \<Longrightarrow> regs reg0 s = regs reg0 s0 \<Longrightarrow>
     m_pGpioAttributesTab s = m_pGpioAttributesTab s0 \<Longrightarrow> pad_moved reg0 vmap n i w s0 s'"
  by (simp add: pad_moved_def put_attrs_def)

lemma wp_restore_register:
  assumes "register_file e pads vmap reg0" "gpio_inv s" "n < 192" "i < mux_count n"
  shows "wp (restore_default_register e n i) (\<lambda>r s'. r = None \<and>
      pad_moved reg0 vmap n i (ucast (uiDefaultMode (attrs n s) ! i)) s s') s"
    "wp (restore_previous_register e n i) (\<lambda>r s'. r = None \<and>
      pad_moved reg0 vmap n i (ucast (uiPreviousMode (attrs n s) ! i)) s s') s"
  unfolding restore_default_register_def restore_previous_register_def wp_bind
  by (rule wp_mono [OF wp_map_register [OF assms]];
      auto simp: wp_simps elim: pad_moved_cong intro!: wp_mono [OF wp_restore_mode [OF assms(1)]])+

lemma wp_force_register:
  assumes "register_file e pads vmap reg0" "gpio_inv s" "n < 192" "i < mux_count n"
  shows "wp (force_register e n k i) (\<lambda>r s'. r = None \<and>
      pad_moved reg0 vmap n i (if i = k then GPIO_PIN_MODE else SAFE_PIN_MODE) s s') s"
  unfolding force_register_def wp_bind
  by (rule wp_mono [OF wp_map_register [OF assms]])
    (auto simp: wp_simps pad_moved_def put_attrs_def reg_calc
      register_file_resp(2) [OF assms(1)] simp del: reg_value_simps)


lemma pad_moved_defaults: "pad_moved reg0 vmap n i w s s' \<Longrightarrow> defaults s' = defaults s"
proof -
  assume "pad_moved reg0 vmap n i w s s'"
  then have "defaults s' = defaults (put_attrs n (\<lambda>g. g\<lparr>uiPreviousMode :=
      (uiPreviousMode g)[i := ucast (regs reg0 s (pad_at vmap n i))]\<rparr>) s)"
    by (simp add: pad_moved_def defaults_def)
  also have "\<dots> = defaults s" by (rule defaults_put_attrs) simp
  finally show ?thesis .
qed

lemma attrs_defaults: "gpio_inv s \<Longrightarrow> n < 192 \<Longrightarrow> uiDefaultMode (attrs n s) = defaults s ! n"
  by (simp add: defaults_def gpio_inv_def)

subsection \<open>Removal\<close>

text \<open>
  The registers of the lines outside \<open>is\<close>, and those of line \<open>n\<close> outside \<open>js\<close>, are back at
  their saved modes.
\<close>

definition modes_back ::
    "(u32 \<Rightarrow> u16) \<Rightarrow> (u32 \<Rightarrow> u32) \<Rightarrow> u32 list list \<Rightarrow> nat list \<Rightarrow> nat \<Rightarrow> nat list \<Rightarrow>
       'a gpio_state_scheme \<Rightarrow> bool" where
  "modes_back reg0 vmap D is n js s \<longleftrightarrow>
     gpio_inv s \<and> defaults s = D \<and> set is \<subseteq> {..<192} \<and> set js \<subseteq> {..<mux_count n} \<and>
     (\<forall>m < 192. \<forall>i < mux_count m. m \<notin> set is \<and> (m = n \<longrightarrow> i \<notin> set js) \<longrightarrow>
        regs reg0 s (pad_at vmap m i) = ucast (D ! m ! i))"

lemma modes_back_move:
  assumes "modes_back reg0 vmap D is n (i # js) s" "register_file e pads vmap reg0" "n < 192"
    and "pad_moved reg0 vmap n i (ucast (uiDefaultMode (attrs n s) ! i)) s s'"
  shows "modes_back reg0 vmap D is n js s'"
proof -
  have i: "i < mux_count n" and D: "gpio_inv s" "defaults s = D"
    using assms(1) by (auto simp: modes_back_def)
  have regs: "regs reg0 s' = (regs reg0 s)(pad_at vmap n i := ucast (D ! n ! i))"
    using assms(4) attrs_defaults [OF D(1) assms(3)] D(2) by (simp add: pad_moved_def)
  have "regs reg0 s' (pad_at vmap m k) = ucast (D ! m ! k)"
    if "m < 192" "k < mux_count m" "m \<notin> set is" "m = n \<longrightarrow> k \<notin> set js" for m k
    using that assms(1) pad_at_inj [OF assms(2) that(1,2) assms(3) i]
    by (auto simp: regs modes_back_def)
  then show ?thesis
    using assms(1) pad_moved_inv [OF assms(4)] pad_moved_defaults [OF assms(4)]
    by (auto simp: modes_back_def)
qed

lemma wp_RestoreAllChangedMux:
  assumes "register_file e pads vmap reg0" "gpio_inv s"
  shows "wp (RestoreAllChangedMux e) (\<lambda>_ s'. modes_back reg0 vmap (defaults s) [] 0 [] s') s"
proof -
  let ?B = "modes_back reg0 vmap (defaults s)"
  have line: "wp (for_each [0..<mux_count n] (restore_default_register e n))
      (\<lambda>r s'. r = None \<and> ?B is n [] s') s'"
    if "?B is n [0..<mux_count n] s'" "n < 192" for n "is" and s' :: "'a gpio_state_scheme"
  proof (rule wp_for_each [where I = "?B is n", OF that(1)])
    fix i js and t :: "'a gpio_state_scheme" assume t: "?B is n (i # js) t"
    then have inv: "gpio_inv t" "i < mux_count n" by (auto simp: modes_back_def)
    show "wp (restore_default_register e n i) (\<lambda>r s'. case r of None \<Rightarrow> ?B is n js s'
      | Some x \<Rightarrow> Some x = None \<and> ?B is n [] s') t"
      by (rule wp_mono [OF wp_restore_register(1) [OF assms(1) inv(1) that(2) inv(2)]])
        (auto intro: modes_back_move [OF t assms(1) that(2)])
  qed simp
  have lines: "wp (for_each [0..<192] (\<lambda>n. do { g \<leftarrow> rd (attrs n);
      for_each [0..<unat (uiNbMuxed g)] (restore_default_register e n) }))
    (\<lambda>r s'. r = None \<and> ?B [] 0 [] s') s"
  proof (rule wp_for_each [where I = "\<lambda>is. ?B is 0 []"])
    show "?B [0..<192] 0 [] s" using assms(2) by (auto simp: modes_back_def)
  next
    fix n "is" and t :: "'a gpio_state_scheme" assume t: "?B (n # is) 0 [] t"
    then have n: "gpio_inv t" "n < 192" by (auto simp: modes_back_def)
    have start: "?B is n [0..<mux_count n] t" using t by (auto simp: modes_back_def)
    show "wp (do { g \<leftarrow> rd (attrs n);
        for_each [0..<unat (uiNbMuxed g)] (restore_default_register e n) })
      (\<lambda>r s'. case r of None \<Rightarrow> ?B is 0 [] s' | Some x \<Rightarrow> Some x = None \<and> ?B [] 0 [] s') t"
      unfolding wp_bind wp_rd gpio_inv_attrs(2) [OF n]
      by (rule wp_mono [OF line [OF start n(2)]]) (auto simp: modes_back_def)
  qed simp
  show ?thesis
    unfolding RestoreAllChangedMux_def wp_bind
    by (rule wp_mono [OF lines]) (auto simp: wp_simps)
qed

lemma wp_Gpio_cleanup:
  assumes "register_file e pads vmap reg0" "gpio_inv s"
  shows "wp (Gpio_cleanup e) (\<lambda>_ s'. modes_back reg0 vmap (defaults s) [] 0 [] s') s"
proof -
  let ?K = "\<lambda>s'. gpio_inv s' \<and> defaults s' = defaults s"
  have calls: "keeps ?K (kcall e c)" "keeps ?K (kdo e c)" for c
    by (rule keeps_kcall keeps_kdo, simp add: gpio_inv_def defaults_def)+
  have start: "keeps ?K (do_each [0..<DRIVER_DEV_REGISTER_NB] (destroy_line e))"
    unfolding destroy_line_def line_device_def
    by (intro keeps_do_each keeps_bind keeps_rd keeps_return calls)
  have final: "wp (RestoreAllChangedMux e \<bind> (\<lambda>_. skip))
      (\<lambda>_ s'. modes_back reg0 vmap (defaults s) [] 0 [] s') s'" if "?K s'"
    for s' :: "'a gpio_state_scheme"
    unfolding wp_bind using that
    by (auto intro: wp_mono [OF wp_RestoreAllChangedMux [OF assms(1)]] simp: wp_return)
  show ?thesis
    unfolding Gpio_cleanup_def
    by (rule wp_keeps_bind [OF start], simp add: assms(2))
      (intro wp_keeps_bind [OF calls(2)] wp_keeps_bind [OF keeps_rd] final; assumption)
qed


subsection \<open>Insertion saves the modes\<close>

definition modes_saved ::
    "(u32 \<Rightarrow> u32) \<Rightarrow> (u32 \<Rightarrow> u16) \<Rightarrow> nat list \<Rightarrow> nat \<Rightarrow> nat list \<Rightarrow> 'a gpio_state_scheme \<Rightarrow> bool" where
  "modes_saved vmap R is n js s \<longleftrightarrow> gpio_inv s \<and> set is \<subseteq> {..<192} \<and> set js \<subseteq> {..<mux_count n} \<and>
     (\<forall>m < 192. \<forall>i < mux_count m. m \<notin> set is \<and> (m = n \<longrightarrow> i \<notin> set js) \<longrightarrow>
        uiDefaultMode (attrs m s) ! i = ucast (R (pad_at vmap m i)))"

lemma wp_save_default_register:
  assumes "register_file e pads vmap reg0" "n < 192"
    and "modes_saved vmap R is n (i # js) s" "regs reg0 s = R"
  shows "wp (save_default_register e n i)
    (\<lambda>r s'. r = None \<and> modes_saved vmap R is n js s' \<and> regs reg0 s' = R) s"
proof -
  have i: "gpio_inv s" "i < mux_count n" using assms(3) by (auto simp: modes_saved_def)
  have i3: "i < 3" using i(2) mux_count_le [of n] by simp
  have save: "modes_saved vmap (regs reg0 s) is n js (put_attrs n (\<lambda>g. g\<lparr>uiDefaultMode :=
      (uiDefaultMode g)[i := ucast (regs reg0 s (pad_at vmap n i))]\<rparr>) s')"
    if "m_pGpioAttributesTab s' = m_pGpioAttributesTab s" for s' :: "'a gpio_state_scheme"
    using assms(3) that i3 unfolding assms(4) by (auto simp: modes_saved_def gpio_inv_def line_ok_def nth_list_update)
  have log: "modes_saved vmap R is n js (t\<lparr>klog := l\<rparr>) = modes_saved vmap R is n js t"
    for t :: "'a gpio_state_scheme" and l
    by (simp add: modes_saved_def gpio_inv_def)
  show ?thesis
    unfolding save_default_register_def wp_bind
    by (rule wp_mono [OF wp_map_register [OF assms(1) i(1) assms(2) i(2)]])
      (use assms(4) in \<open>auto simp: wp_simps log reg_calc register_file_resp(2) [OF assms(1)]
        intro!: save simp del: reg_value_simps\<close>)
qed

lemma wp_SaveDefaultMode_saves:
  assumes "register_file e pads vmap reg0" "gpio_inv s"
  shows "wp (SaveDefaultMode e)
    (\<lambda>r s'. modes_saved vmap (regs reg0 s) [] 0 [] s' \<and> regs reg0 s' = regs reg0 s) s"
proof -
  let ?B = "\<lambda>is n js s'. modes_saved vmap (regs reg0 s) is n js s' \<and> regs reg0 s' = regs reg0 s"
  have line: "wp (for_each [0..<mux_count n] (save_default_register e n))
      (\<lambda>r s'. r = None \<and> ?B is n [] s') s'"
    if "?B is n [0..<mux_count n] s'" "n < 192" for n "is" and s' :: "'a gpio_state_scheme"
  proof (rule wp_for_each [where I = "?B is n", OF that(1)])
    fix i js and t :: "'a gpio_state_scheme" assume "?B is n (i # js) t"
    then show "wp (save_default_register e n i) (\<lambda>r s'. case r of None \<Rightarrow> ?B is n js s'
      | Some x \<Rightarrow> Some x = None \<and> ?B is n [] s') t"
      using that(2) by (intro wp_mono [OF wp_save_default_register [OF assms(1)]]) auto
  qed simp
  have lines: "wp (for_each [0..<192] (\<lambda>n. do { g \<leftarrow> rd (attrs n);
      for_each [0..<unat (uiNbMuxed g)] (save_default_register e n) }))
    (\<lambda>r s'. r = None \<and> ?B [] 0 [] s') s"
  proof (rule wp_for_each [where I = "\<lambda>is. ?B is 0 []"])
    show "?B [0..<192] 0 [] s" using assms(2) by (auto simp: modes_saved_def)
  next
    fix n "is" and t :: "'a gpio_state_scheme" assume t: "?B (n # is) 0 [] t"
    then have n: "gpio_inv t" "n < 192" by (auto simp: modes_saved_def)
    have start: "?B is n [0..<mux_count n] t" using t by (auto simp: modes_saved_def)
    show "wp (do { g \<leftarrow> rd (attrs n);
        for_each [0..<unat (uiNbMuxed g)] (save_default_register e n) })
      (\<lambda>r s'. case r of None \<Rightarrow> ?B is 0 [] s' | Some x \<Rightarrow> Some x = None \<and> ?B [] 0 [] s') t"
      unfolding wp_bind wp_rd gpio_inv_attrs(2) [OF n]
      by (rule wp_mono [OF line [OF start n(2)]]) (auto simp: modes_saved_def)
  qed simp
  show ?thesis
    unfolding SaveDefaultMode_def wp_bind by (rule wp_mono [OF lines]) (auto simp: wp_simps)
qed

lemma keeps_regs_create_line: "keeps (\<lambda>s. regs reg0 s = R) (create_line e n)"
  unfolding create_line_def line_device_def write_label_def initialize_line_def out_of_bounds_def
  by (intro keeps_bind keeps_rd keeps_return keeps_if keeps_do_each keeps_wr
      keeps_regs_call [where P = "\<lambda>f. f = R"]) simp_all

definition saves :: "(u32 \<Rightarrow> u32) \<Rightarrow> (u32 \<Rightarrow> u16) \<Rightarrow> init_exit \<Rightarrow> 'a gpio_state_scheme \<Rightarrow> bool" where
  "saves vmap R r s \<longleftrightarrow> (r = Done 0 \<longrightarrow> modes_saved vmap R [] 0 [] s)"

lemma wp_gpio_prepare_saves:
  assumes "register_file e pads vmap reg0" "lines_made F [0..<DRIVER_DEV_REGISTER_NB] s"
    and "regs reg0 s = R"
  shows "wp (gpio_prepare_lines e) (saves vmap R) s"
proof -
  have create: "wp (for_each [0..<DRIVER_DEV_REGISTER_NB] (create_line e)) (\<lambda>r s'. (case r of
      None \<Rightarrow> lines_made F [] s' | Some n \<Rightarrow> n < DRIVER_DEV_REGISTER_NB) \<and> regs reg0 s' = R) s"
    by (rule wp_conj [OF wp_create_lines [OF assms(2)]])
      (rule keepsD [OF keeps_for_each [OF keeps_regs_create_line]], rule assms(3))
  have save: "wp (SaveDefaultMode e) (\<lambda>r s'. modes_saved vmap R [] 0 [] s')
      (padded pad_ranges pad_counts s')" if "lines_made F [] s'" "regs reg0 s' = R" for s'
  proof -
    have R: "regs reg0 (padded pad_ranges pad_counts s') = R"
      using that(2) by (simp add: padded_def map_lines_def)
    have "gpio_inv (padded pad_ranges pad_counts s')"
      using gpio_ok_padded [OF that(1)] by (simp add: gpio_ok_def)
    from wp_SaveDefaultMode_saves [OF assms(1) this] show ?thesis
      unfolding R by (rule wp_mono) blast
  qed
  show ?thesis
    unfolding gpio_prepare_lines_def wp_bind [of "for_each _ _"]
    apply (rule wp_mono [OF create])
    apply (auto simp: wp_simps saves_def wp_def [of SaveRegisterAddr] run_SaveRegisterAddr
        split: option.splits intro!: wp_mono [OF save])
    done
qed

lemma Gpio_initialize_saves:
  assumes "register_file e pads vmap reg0" "sync_ok F s0"
    and "Gpio_initialize e (gpio_globals s0) = Some (0, s)"
  shows "modes_saved vmap (regs reg0 s0) [] 0 [] s"
proof -
  let ?L = "\<lambda>s'. lines_made F [0..<DRIVER_DEV_REGISTER_NB] s' \<and> regs reg0 s' = regs reg0 s0"
  have wrs: "keeps ?L (wr (\<lambda>s. s\<lparr>m_oGpioDev := d, m_uiGpioMajor := x, m_uiGpioMinor := y\<rparr>))"
    "keeps ?L (wr (\<lambda>s. s\<lparr>m_pGpioClass := d\<rparr>))" for d x y
    by (rule keeps_wr; simp add: lines_made_def sync_ok_defs)+
  have calls: "keeps ?L (kcall e k)" "keeps ?L (kdo e k)" if "\<not> is_ub (k, 0)" "\<not> writes k" for k
    using that by (auto intro!: keeps_kcall keeps_kdo simp: reg_calc simp del: reg_value_simps)
  have start: "?L (gpio_globals s0)"
    using lines_made_globals [OF assms(2)] by (simp add: gpio_globals_def sync_state.defs)
  have "wp (gpio_initialize_run e) (saves vmap (regs reg0 s0)) (gpio_globals s0)"
    unfolding gpio_initialize_run_def gpio_out_unregister_def gpio_out_cdev_del_def
    apply (rule wp_keeps_bind [where I = ?L, OF calls(1) start], simp, simp)
    apply (rule wp_ifI, simp add: wp_return saves_def gpio_err_def)
    apply (rule wp_keeps_bind [OF calls(1)], simp, simp, assumption)
    apply (rule wp_keeps_bind [OF wrs(1)], assumption)
    apply (rule wp_keeps_bind [OF calls(2)], simp, simp, assumption)
    apply (rule wp_keeps_bind [OF calls(1)], simp, simp, assumption)
    apply (rule wp_ifI, simp add: wp_simps saves_def gpio_err_def)
    apply (rule wp_keeps_bind [OF calls(1)], simp, simp, assumption)
    apply (rule wp_keeps_bind [OF wrs(2)], assumption)
    apply (rule wp_ifI, simp add: wp_simps saves_def gpio_err_def)
    apply (erule conjE, rule wp_gpio_prepare_saves [OF assms(1)], assumption, assumption)
    done
  then show ?thesis
    using assms(3) wp_gpio_initialize_run [OF lines_made_globals [OF assms(2)], of e]
    by (auto simp: Gpio_initialize_def gpio_out_dev_del_def wp_def saves_def init_outcome_def
        destroy_lines_never_returns split: prod.splits init_exit.splits)
qed


section \<open>Opening and closing a line\<close>

text \<open>
  The registers are those of \<open>R\<close>, but for the ones of line \<open>n\<close> in \<open>js\<close>, whose modes in \<open>R\<close> the
  line remembers.
\<close>

definition pads_taken ::
    "(u32 \<Rightarrow> u16) \<Rightarrow> (u32 \<Rightarrow> u32) \<Rightarrow> (u32 \<Rightarrow> u16) \<Rightarrow> nat \<Rightarrow> nat set \<Rightarrow> gpio_state \<Rightarrow> bool" where
  "pads_taken reg0 vmap R n js s \<longleftrightarrow>
     n < length (m_pGpioAttributesTab s) \<and>
     (\<forall>i \<in> js. uiPreviousMode (attrs n s) ! i = ucast (R (pad_at vmap n i))) \<and>
     (\<forall>v. v \<notin> pad_at vmap n ` js \<longrightarrow> regs reg0 s v = R v)"

interpretation taken_frame: mux_frame "pads_taken reg0 vmap R n js" for reg0 vmap R n js
  by unfold_locales
    (auto simp: pads_taken_def gpio_part_def reg_calc simp del: reg_value_simps
      elim!: quiet.elims)


lemma pad_moved_taken:
  assumes "register_file e pads vmap reg0" "gpio_inv s" "n < 192" "i < mux_count n"
    and "js \<subseteq> {..<mux_count n}" "pads_taken reg0 vmap R n js s" "pad_moved reg0 vmap n i w s s'"
  shows "i \<notin> js \<Longrightarrow> pads_taken reg0 vmap R n (insert i js) s'"
    "i \<in> js \<Longrightarrow> w = ucast (uiPreviousMode (attrs n s) ! i) \<Longrightarrow> pads_taken reg0 vmap R n (js - {i}) s'"
proof -
  have inj: "pad_at vmap n i = pad_at vmap n j \<longleftrightarrow> i = j" if "j \<in> js" for j
    using pad_at_inj [OF assms(1,3,4,3), of j] that assms(5) by auto
  have regs: "regs reg0 s' = (regs reg0 s)(pad_at vmap n i := w)"
    and prev: "uiPreviousMode (attrs n s') =
      (uiPreviousMode (attrs n s))[i := ucast (regs reg0 s (pad_at vmap n i))]"
    and len: "n < length (m_pGpioAttributesTab s')"
    using assms(2,3,7) by (simp_all add: pad_moved_def gpio_inv_def)
  have i3: "i < length (uiPreviousMode (attrs n s))"
    using gpio_inv_attrs(3) [OF assms(2,3)] assms(4) mux_count_le [of n] by simp
  show "pads_taken reg0 vmap R n (insert i js) s'" if "i \<notin> js"
  proof -
    have "pad_at vmap n i \<notin> pad_at vmap n ` js" using that inj by auto
    then have "regs reg0 s (pad_at vmap n i) = R (pad_at vmap n i)"
      using assms(6) by (auto simp: pads_taken_def)
    then show ?thesis
      using assms(6) i3 len that by (auto simp: pads_taken_def regs prev nth_list_update)
  qed
  show "pads_taken reg0 vmap R n (js - {i}) s'"
    if "i \<in> js" "w = ucast (uiPreviousMode (attrs n s) ! i)"
  proof -
    have w: "w = R (pad_at vmap n i)"
      using that assms(6) by (simp add: pads_taken_def ucast_u16_u32)
    have "regs reg0 s' v = R v" if "v \<notin> pad_at vmap n ` (js - {i})" for v
    proof (cases "v = pad_at vmap n i")
      case False
      then have "v \<notin> pad_at vmap n ` js" using that by auto
      then show ?thesis using False assms(6) by (simp add: regs pads_taken_def)
    qed (simp add: regs w)
    then show ?thesis
      using assms(6) len by (auto simp: pads_taken_def prev nth_list_update)
  qed
qed

lemma wp_ForceGpioMode_taken:
  assumes "register_file e pads vmap reg0" "gpio_inv s" "n < 192"
  shows "wp (ForceGpioMode e n 0)
    (\<lambda>_ s'. gpio_inv s' \<and> pads_taken reg0 vmap (regs reg0 s) n {..<mux_count n} s') s"
proof -
  let ?T = "pads_taken reg0 vmap (regs reg0 s) n"
  let ?I = "\<lambda>js t. gpio_inv t \<and> distinct js \<and> set js \<subseteq> {..<mux_count n} \<and> ?T ({..<mux_count n} - set js) t"
  have start: "?T {} s" using assms(2,3) by (simp add: pads_taken_def gpio_inv_def)
  have loop: "wp (for_each [0..<mux_count n] (force_register e n 0))
      (\<lambda>r t. r = None \<and> gpio_inv t \<and> ?T {..<mux_count n} t) s"
  proof (rule wp_for_each [where I = ?I])
    show "?I [0..<mux_count n] s" using start assms(2) by (auto simp: atLeast0LessThan)
  next
    fix i js and t :: gpio_state assume t: "?I (i # js) t"
    then have i: "gpio_inv t" "i < mux_count n" by auto
    have "insert i ({..<mux_count n} - set (i # js)) = {..<mux_count n} - set js" using t by auto
    then show "wp (force_register e n 0 i) (\<lambda>r t. case r of None \<Rightarrow> ?I js t
      | Some x \<Rightarrow> Some x = None \<and> gpio_inv t \<and> ?T {..<mux_count n} t) t"
      using t pad_moved_taken(1) [OF assms(1) i(1) assms(3) i(2), of "{..<mux_count n} - set (i # js)"]
      by (intro wp_mono [OF wp_force_register [OF assms(1) i(1) assms(3) i(2)]])
        (auto intro: pad_moved_inv)
  qed simp
  show ?thesis
    unfolding ForceGpioMode_def wp_bind wp_rd
  proof (rule wp_ifI)
    assume "uiNbMuxed (attrs n s) \<le> 0"
    then have "mux_count n = 0" using gpio_inv_attrs(2) [OF assms(2,3)] by simp
    then show "wp (ret (gpio_err ERR_GPIO_FORCEGPIOMODE_MUX_UNAVAILABLE))
      (\<lambda>_ s'. gpio_inv s' \<and> ?T {..<mux_count n} s') s"
      using start assms(2) by (simp add: wp_return)
  next
    show "wp (for_each [0..<unat (uiNbMuxed (attrs n s))] (force_register e n (unat 0)) \<bind>
        (\<lambda>r. case r of None \<Rightarrow> ret 0 | Some r \<Rightarrow> ret r))
      (\<lambda>_ s'. gpio_inv s' \<and> ?T {..<mux_count n} s') s"
      unfolding wp_bind gpio_inv_attrs(2) [OF assms(2,3)] unat_0
      by (rule wp_mono [OF loop]) (auto simp: wp_simps)
  qed
qed

lemma wp_RestorePreviousGpioMode_back:
  assumes "register_file e pads vmap reg0" "gpio_inv s" "n < 192"
    and "pads_taken reg0 vmap R n {..<mux_count n} s"
  shows "wp (RestorePreviousGpioMode e n) (\<lambda>_ s'. regs reg0 s' = R) s"
proof -
  let ?I = "\<lambda>js t. gpio_inv t \<and> distinct js \<and> set js \<subseteq> {..<mux_count n} \<and>
    pads_taken reg0 vmap R n (set js) t"
  have loop: "wp (for_each [0..<mux_count n] (restore_previous_register e n))
      (\<lambda>r t. r = None \<and> regs reg0 t = R) s"
  proof (rule wp_for_each [where I = ?I])
    show "?I [0..<mux_count n] s" using assms(2,4) by (auto simp: atLeast0LessThan)
  next
    fix i js and t :: gpio_state assume t: "?I (i # js) t"
    then have i: "gpio_inv t" "i < mux_count n" by auto
    have "set (i # js) - {i} = set js" using t by auto
    then show "wp (restore_previous_register e n i) (\<lambda>r t. case r of None \<Rightarrow> ?I js t
      | Some x \<Rightarrow> Some x = None \<and> regs reg0 t = R) t"
      using t pad_moved_taken(2) [OF assms(1) i(1) assms(3) i(2), of "set (i # js)"]
      by (intro wp_mono [OF wp_restore_register(2) [OF assms(1) i(1) assms(3) i(2)]])
        (auto intro: pad_moved_inv)
  qed (simp add: pads_taken_def fun_eq_iff)
  show ?thesis
    unfolding RestorePreviousGpioMode_def wp_bind wp_rd gpio_inv_attrs(2) [OF assms(2,3)]
    by (rule wp_mono [OF loop]) (auto simp: wp_simps)
qed

text \<open>An open that gets past the driver's own check, however it ends, takes the line's pads.\<close>

lemma wp_open_line_taken:
  assumes "register_file e pads vmap reg0" "gpio_inv s" "unat k < 192"
    and "bIsOpened (attrs (unat k) s) = 0"
  shows "wp (open_line e k md)
    (\<lambda>_ s'. pads_taken reg0 vmap (regs reg0 s) (unat k) {..<mux_count (unat k)} s') s"
proof -
  let ?T = "pads_taken reg0 vmap (regs reg0 s) (unat k) {..<mux_count (unat k)}"
  note rules = taken_frame.mux_rules
  have tail: "keeps ?T (kcall e (KGpio (Gpio_request k l)) \<bind> (\<lambda>busy.
      if busy \<noteq> 0 then do { set_attrs (unat k) (\<lambda>g. g\<lparr>bIsOpened := 0\<rparr>);
         ret (gpio_err ERR_GPIO_OPEN_GPIO_BUSY_OUT_DRIVER) }
      else if md AND 1 \<noteq> 0 then do { iRet \<leftarrow> make_input e k;
         (if iRet <s 0 then ret (gpio_err ERR_GPIO_OPEN_GPIO_SET_DIRECTION_INPUT) else finish_open k) }
      else do { iRet \<leftarrow> make_output e k;
         (if iRet <s 0 then ret (gpio_err ERR_GPIO_OPEN_GPIO_SET_DIRECTION_OUTPUT)
          else finish_open k) }))" for l
    unfolding make_input_def make_output_def finish_open_def by (intro rules) simp_all
  show ?thesis
    unfolding open_line_def wp_bind wp_rd
    apply (rule wp_ifI, use assms(4) in simp)
    apply (simp only: wp_bind)
    apply (rule wp_mono [OF wp_ForceGpioMode_taken [OF assms(1-3)]])
    apply (rule keepsD [OF tail])
    apply (erule conjunct2)
    done
qed

lemma wp_close_line_back:
  assumes "register_file e pads vmap reg0" "gpio_inv s" "unat k < 192"
    and "pads_taken reg0 vmap R (unat k) {..<mux_count (unat k)} s"
  shows "wp (close_line e k) (\<lambda>_ s'. regs reg0 s' = R) s"
proof -
  let ?K = "\<lambda>s. gpio_inv s \<and> pads_taken reg0 vmap R (unat k) {..<mux_count (unat k)} s"
  have calls: "keeps ?K (kcall e c)" "keeps ?K (kdo e c)" if "\<not> writes c" for c
    using that taken_frame.I_call by (auto intro!: keeps_kcall keeps_kdo simp: gpio_inv_def)
  have opened: "keeps ?K (set_attrs (unat k) (\<lambda>g. g\<lparr>bIsOpened := 0\<rparr>))"
    by (rule keeps_wr) (auto intro!: taken_frame.I_put simp: gpio_inv_def line_ok_def)
  have free: "keeps ?K (if bMode g = IO_MODE then kdo e (KGpio (Gpio_free k))
      else if bMode g = IT_MODE then free_line_irq e k else skip)" for g
    unfolding free_line_irq_def by (intro keeps_if keeps_bind calls keeps_return) simp_all
  have restore: "wp (RestorePreviousGpioMode e (unat k) \<bind> (\<lambda>_. ret 0)) (\<lambda>_ s'. regs reg0 s' = R) t"
    if "?K t" for t
    unfolding wp_bind
    by (rule wp_mono [OF wp_RestorePreviousGpioMode_back [OF assms(1) _ assms(3)]])
      (use that in \<open>auto simp: wp_return\<close>)
  show ?thesis
    unfolding close_line_def
    apply (rule wp_keeps_bind [OF keeps_rd [of ?K]], use assms(2,4) in simp)
    apply (rule wp_keeps_bind [OF free], assumption)
    apply (rule wp_keeps_bind [OF opened], assumption)
    apply (rule restore, assumption)
    done
qed

end
