(* ===== verification/Gpio_Owned.thy ===== *)
theory Gpio_Owned
  imports Gpio_Restore Sync_Resources
begin

text \<open>
  Which gpio lines and interrupts the GPIO driver holds: an open line in IO mode holds its gpio,
  an open line in IT mode its interrupt, a closed line nothing; and nothing is given back that was
  not held. This needs a kernel that grants a line exactly when nobody has it (\<open>gpio_fair\<close>), and it
  is true of a run until a \<open>request_irq\<close> or the setting of a direction fails (\<open>failed\<close>): the
  properties show what happens then.
\<close>

section \<open>What the driver relies on\<close>

text \<open>
  \<open>irq_of\<close> is the interrupt of a line. \<open>gpio_request\<close> succeeds exactly on the lines that nobody
  holds, \<open>taken\<close> being those that other code has.
\<close>

definition gpio_fair :: "kernel \<Rightarrow> (u32 \<Rightarrow> u32) \<Rightarrow> u32 set \<Rightarrow> bool" where
  "gpio_fair e irq_of taken \<longleftrightarrow> (\<forall>l n.
     answer e l (KGpio (Gpio_to_irq n)) = irq_of n \<and>
     (\<forall>x. answer e l (KGpio (Gpio_request n x)) = 0 \<longleftrightarrow> n \<notin> taken \<and> Gpio_line n \<notin> held e l))"

lemma gpio_fair_resp:
  assumes "gpio_fair e irq_of taken"
  shows "resp e l (KGpio (Gpio_to_irq n)) r \<Longrightarrow> r = irq_of n"
    "resp e l (KGpio (Gpio_request n x)) r \<Longrightarrow> r = 0 \<longleftrightarrow> n \<notin> taken \<and> Gpio_line n \<notin> held e l"
  using assms by (auto simp: gpio_fair_def resp_def)

text \<open>The failures after which the driver no longer knows what its lines hold.\<close>

definition fails :: "event \<Rightarrow> bool" where
  "fails ev = (case ev of
     (KIrq (Request_irq i h f d), r) \<Rightarrow> r \<noteq> 0
   | (KGpio (Gpio_direction_input n), r) \<Rightarrow> r <s 0
   | (KGpio (Gpio_direction_output n v), r) \<Rightarrow> r <s 0
   | _ \<Rightarrow> False)"

definition failed :: "event list \<Rightarrow> bool" where
  "failed l \<longleftrightarrow> (\<exists>ev \<in> set l. fails ev)"

lemma failed_append [simp]: "failed (l @ l') \<longleftrightarrow> failed l \<or> failed l'"
  by (auto simp: failed_def)

lemma failed_Cons [simp]: "failed (ev # l) \<longleftrightarrow> fails ev \<or> failed l" "\<not> failed []"
  by (auto simp: failed_def)

lemma fails_simps [simp]:
  "fails (KIrq (Request_irq i h f d), r) \<longleftrightarrow> r \<noteq> 0"
  "fails (KGpio (Gpio_direction_input n), r) \<longleftrightarrow> r <s 0"
  "fails (KGpio (Gpio_direction_output n v), r) \<longleftrightarrow> r <s 0"
  by (simp_all add: fails_def)

text \<open>A kernel on which they never come, as on the boards of the witnesses.\<close>

definition never_fails :: "kernel \<Rightarrow> bool" where
  "never_fails e \<longleftrightarrow> (\<forall>l n.
     (\<forall>h t d. answer e l (KIrq (Request_irq n h t d)) = 0) \<and>
     \<not> answer e l (KGpio (Gpio_direction_input n)) <s 0 \<and>
     (\<forall>v. \<not> answer e l (KGpio (Gpio_direction_output n v)) <s 0))"

abbreviation has_failed :: "kernel \<Rightarrow> 'a kstate_scheme \<Rightarrow> bool" where
  "has_failed e s \<equiv> \<not> never_fails e \<and> failed (klog s)"

lemma resp_fails:
  "resp e l (KIrq (Request_irq i h f d)) r \<Longrightarrow> r \<noteq> 0 \<Longrightarrow> \<not> never_fails e"
  "resp e l (KGpio (Gpio_direction_input n)) r \<Longrightarrow> r <s 0 \<Longrightarrow> \<not> never_fails e"
  "resp e l (KGpio (Gpio_direction_output n v)) r \<Longrightarrow> r <s 0 \<Longrightarrow> \<not> never_fails e"
  unfolding never_fails_def resp_def by blast+

text \<open>A failure stays in the log.\<close>

interpretation failed_frame: mux_frame "\<lambda>s :: gpio_state. has_failed e s" for e
  by unfold_locales auto

lemma keeps_failed_wr:
  "(\<And>s. klog (f s) = klog s) \<Longrightarrow> keeps (has_failed e) (wr f)"
  by (rule keeps_wr) simp

lemma keeps_failed_call: "keeps (has_failed e) (kcall e' c)" "keeps (has_failed e) (kdo e' c)"
  by (rule keeps_kcall keeps_kdo, simp)+

lemma keeps_failed_open_close:
  "keeps (\<lambda>s :: gpio_state. has_failed e s) (Gpio_open e' d md)"
  "keeps (\<lambda>s :: gpio_state. has_failed e s) (Gpio_close e' d)"
  unfolding Gpio_open_def Gpio_close_def open_line_def close_line_def make_input_def
    make_output_def finish_open_def free_line_irq_def Let_def with_line_def out_of_bounds_def
    ForceGpioMode_def RestorePreviousGpioMode_def force_register_def restore_previous_register_def
    restore_mode_def map_register_def
  by (intro keeps_return keeps_rd keeps_if keeps_case_option keeps_let keeps_for_each
      keeps_do_each keeps_failed_call keeps_failed_wr keeps_bind; simp)+

section \<open>The resources of the lines\<close>

definition line_res :: "(u32 \<Rightarrow> u32) \<Rightarrow> nat \<Rightarrow> GpioAttributes \<Rightarrow> resource set" where
  "line_res irq_of n g =
     (if bIsOpened g = 0 then {}
      else if bMode g = IO_MODE then {Gpio_line (word_of_nat n)}
      else {Irq_line (irq_of (word_of_nat n)) (word_of_nat n)})"

definition other_res :: "(u32 \<Rightarrow> u32) \<Rightarrow> nat \<Rightarrow> GpioAttributes list \<Rightarrow> resource set" where
  "other_res irq_of n tab = (\<Union>m \<in> {..<DRIVER_DEV_REGISTER_NB} - {n}. line_res irq_of m (tab ! m))"

definition lines_res :: "(u32 \<Rightarrow> u32) \<Rightarrow> GpioAttributes list \<Rightarrow> resource set" where
  "lines_res irq_of tab = (\<Union>m \<in> {..<DRIVER_DEV_REGISTER_NB}. line_res irq_of m (tab ! m))"

lemma lines_res_split:
  "n < DRIVER_DEV_REGISTER_NB \<Longrightarrow>
     lines_res irq_of tab = other_res irq_of n tab \<union> line_res irq_of n (tab ! n)"
  by (auto simp: lines_res_def other_res_def)

lemma other_res_update: "other_res irq_of n (tab[n := g]) = other_res irq_of n tab"
  by (simp add: other_res_def)

lemma word_of_nat_line:
  assumes "n < DRIVER_DEV_REGISTER_NB" "m < DRIVER_DEV_REGISTER_NB"
    and "(word_of_nat n :: u32) = word_of_nat m"
  shows "n = m"
proof -
  have "n = unat (word_of_nat n :: u32)"
    by (rule unat_word_of_nat_u32 [symmetric]) (rule less_trans [OF assms(1)], simp)
  also have "\<dots> = unat (word_of_nat m :: u32)" by (rule arg_cong [OF assms(3)])
  also have "\<dots> = m"
    by (rule unat_word_of_nat_u32) (rule less_trans [OF assms(2)], simp)
  finally show ?thesis .
qed

lemma other_res_line:
  assumes "n < DRIVER_DEV_REGISTER_NB"
  shows "Gpio_line (word_of_nat n) \<notin> other_res irq_of n tab"
    "Irq_line i (word_of_nat n) \<notin> other_res irq_of n tab"
  using assms by (auto simp: other_res_def line_res_def dest: word_of_nat_line split: if_splits)

section \<open>The invariant\<close>

text \<open>
  \<open>R\<close> is what is held besides the lines: it has no mapping and none of their interrupts. \<open>B\<close> are
  the wrong releases from before.
\<close>

definition gpio_clean :: "(u32 \<Rightarrow> u32) \<Rightarrow> resource set \<Rightarrow> bool" where
  "gpio_clean irq_of R \<longleftrightarrow> no_maps R \<and>
     (\<forall>n < DRIVER_DEV_REGISTER_NB. Irq_line (irq_of (word_of_nat n)) (word_of_nat n) \<notin> R)"

definition line_good :: "u32 set \<Rightarrow> resource set \<Rightarrow> nat \<Rightarrow> GpioAttributes \<Rightarrow> bool" where
  "line_good taken R n g \<longleftrightarrow> (bIsOpened g \<noteq> 0 \<longrightarrow>
     bMode g \<in> {IO_MODE, IT_MODE} \<and> Gpio_line (word_of_nat n) \<notin> R \<and> word_of_nat n \<notin> taken)"

definition owned ::
    "kernel \<Rightarrow> (u32 \<Rightarrow> u32) \<Rightarrow> u32 set \<Rightarrow> resource set \<Rightarrow> resource list \<Rightarrow> gpio_state \<Rightarrow> bool" where
  "owned e irq_of taken R B s \<longleftrightarrow>
     length (m_pGpioAttributesTab s) = DRIVER_DEV_REGISTER_NB \<and>
     holding e (R \<union> lines_res irq_of (m_pGpioAttributesTab s)) B s \<and>
     (\<forall>n < DRIVER_DEV_REGISTER_NB. line_good taken R n (attrs n s))"

text \<open>While line \<open>n\<close> is being worked on: it holds \<open>X\<close>, the other lines \<open>Y\<close>.\<close>

definition others_good ::
    "(u32 \<Rightarrow> u32) \<Rightarrow> u32 set \<Rightarrow> resource set \<Rightarrow> nat \<Rightarrow> resource set \<Rightarrow> gpio_state \<Rightarrow> bool" where
  "others_good irq_of taken R n Y s \<longleftrightarrow>
     length (m_pGpioAttributesTab s) = DRIVER_DEV_REGISTER_NB \<and>
     other_res irq_of n (m_pGpioAttributesTab s) = Y \<and>
     (\<forall>m < DRIVER_DEV_REGISTER_NB. m \<noteq> n \<longrightarrow> line_good taken R m (attrs m s))"

abbreviation at_line where
  "at_line e irq_of taken R B n Y X s \<equiv>
     others_good irq_of taken R n Y s \<and> holding e (R \<union> Y \<union> X) B s"

definition apart :: "nat \<Rightarrow> resource set \<Rightarrow> bool" where
  "apart n Y \<longleftrightarrow> Gpio_line (word_of_nat n) \<notin> Y \<and> (\<forall>i. Irq_line i (word_of_nat n) \<notin> Y) \<and> no_maps Y"

lemma owned_at_line:
  assumes "n < DRIVER_DEV_REGISTER_NB"
  shows "owned e irq_of taken R B s \<longleftrightarrow> (\<exists>Y. apart n Y \<and>
      at_line e irq_of taken R B n Y (line_res irq_of n (attrs n s)) s) \<and>
    line_good taken R n (attrs n s)"
proof -
  have "no_maps (other_res irq_of n tab)" for tab
    by (auto simp: no_maps_def other_res_def line_res_def split: if_splits)
  then show ?thesis
    using assms other_res_line [OF assms]
    by (auto simp: owned_def others_good_def lines_res_split [of n] Un_assoc apart_def)
qed

lemma others_good_put: "others_good irq_of taken R n Y (put_attrs n f s) = others_good irq_of taken R n Y s"
  by (auto simp: others_good_def other_res_update put_attrs_def)

lemma others_good_log [simp]:
  "others_good irq_of taken R n Y (s\<lparr>klog := l\<rparr>) = others_good irq_of taken R n Y s"
  by (simp add: others_good_def)

lemma holding_put [simp]: "holding e H B (put_attrs n f s) = holding e H B s"
  by (simp add: holding_def)

lemma keeps_at_line:
  "keeps (at_line e irq_of taken R B n Y X) (set_attrs n f)"
  "neutral c \<Longrightarrow> keeps (at_line e irq_of taken R B n Y X) (kcall e' c)"
  "neutral c \<Longrightarrow> keeps (at_line e irq_of taken R B n Y X) (kdo e' c)"
  by (rule keeps_wr, simp add: others_good_put) (rule keeps_kcall keeps_kdo, auto intro: holding_neutral)+

lemmas at_line_rules = keeps_return keeps_rd keeps_if keeps_case_option keeps_let keeps_for_each
  keeps_at_line keeps_bind

lemma keeps_at_line_registers:
  assumes "no_maps R" "no_maps Y" "no_maps X"
  shows "keeps (at_line e irq_of taken R B n Y X) (force_register e n k i)"
    "keeps (at_line e irq_of taken R B n Y X) (restore_previous_register e n i)"
proof -
  have H: "no_maps (R \<union> Y \<union> X)" using assms by (auto simp: no_maps_def)
  show "keeps (at_line e irq_of taken R B n Y X) (force_register e n k i)"
    by (rule keepsI) (use H in \<open>auto simp: force_register_def map_register_def wp_simps
      others_good_put holding_def held_step_def no_maps_def\<close>)
  show "keeps (at_line e irq_of taken R B n Y X) (restore_previous_register e n i)"
    by (rule keepsI) (use H in \<open>auto simp: restore_previous_register_def restore_mode_def
      map_register_def wp_simps others_good_put holding_def held_step_def no_maps_def\<close>)
qed

lemma keeps_at_line_mux:
  assumes "no_maps R" "no_maps Y" "no_maps X"
  shows "keeps (at_line e irq_of taken R B n Y X) (ForceGpioMode e n k)"
    "keeps (at_line e irq_of taken R B n Y X) (RestorePreviousGpioMode e n)"
  unfolding ForceGpioMode_def RestorePreviousGpioMode_def
  by (intro at_line_rules keeps_at_line_registers assms)+


section \<open>Calls that take or give back the line\<close>

lemma holding_release:
  assumes "holding e H B s" "released (c, r) = Some x" "x \<in> H"
  shows "holding e (H - {x}) B (s\<lparr>klog := klog s @ [(c, r)]\<rparr>)"
  using assms by (simp add: holding_def held_step_def del: released_pair acquired_pair)

lemma holding_acquire:
  assumes "holding e H B s" "released (c, r) = None" "acquired e (c, r) = Some x"
  shows "holding e (insert x H) B (s\<lparr>klog := klog s @ [(c, r)]\<rparr>)"
  using assms by (simp add: holding_def held_step_def del: released_pair acquired_pair)

lemma holding_fails:
  assumes "holding e H B s" "released (c, r) = None" "acquired e (c, r) = None"
  shows "holding e H B (s\<lparr>klog := klog s @ [(c, r)]\<rparr>)"
  using assms by (simp add: holding_def held_step_def del: released_pair acquired_pair)

lemma owned_intro:
  assumes "at_line e irq_of taken R B n Y (line_res irq_of n (attrs n s)) s" "apart n Y"
    and "line_good taken R n (attrs n s)" "n < DRIVER_DEV_REGISTER_NB"
  shows "owned e irq_of taken R B s"
  using assms owned_at_line by blast

lemma owned_put:
  assumes "at_line e irq_of taken R B n Y X t" "apart n Y" "n < DRIVER_DEV_REGISTER_NB"
    and "line_res irq_of n (f (attrs n t)) = X" "line_good taken R n (f (attrs n t))"
  shows "owned e irq_of taken R B (put_attrs n f t)"
proof (rule owned_intro [OF _ assms(2) _ assms(3)])
  have f: "attrs n (put_attrs n f t) = f (attrs n t)"
    using assms(1,3) by (simp add: others_good_def)
  show "at_line e irq_of taken R B n Y (line_res irq_of n (attrs n (put_attrs n f t))) (put_attrs n f t)"
    unfolding f assms(4) using assms(1) by (simp add: others_good_put)
  show "line_good taken R n (attrs n (put_attrs n f t))" unfolding f by (rule assms(5))
qed

lemma wp_request_line:
  assumes "gpio_fair e irq_of taken" "at_line e irq_of taken R B (unat k) Y {} s" "apart (unat k) Y"
  shows "wp (kcall e (KGpio (Gpio_request k l))) (\<lambda>r s'.
    m_pGpioAttributesTab s' = m_pGpioAttributesTab s \<and>
    at_line e irq_of taken R B (unat k) Y (if r = 0 then {Gpio_line k} else {}) s' \<and>
    (r = 0 \<longleftrightarrow> k \<notin> taken \<and> Gpio_line k \<notin> R)) s"
  using assms gpio_fair_resp(2) [OF assms(1)]
  by (auto simp: wp_simps apart_def holding_def held_step_def)

lemma wp_open_line_owned:
  assumes "gpio_fair e irq_of taken" "gpio_clean irq_of R" "owned e irq_of taken R B s"
    and "unat k < DRIVER_DEV_REGISTER_NB"
  shows "wp (open_line e k md) (\<lambda>_ s'. has_failed e s' \<or> owned e irq_of taken R B s') s"
proof (cases "bIsOpened (attrs (unat k) s) = 0")
  case False
  then show ?thesis using assms(3) by (simp add: open_line_def wp_simps)
next
  case True
  let ?n = "unat k"
  let ?A = "\<lambda>Y. at_line e irq_of taken R B ?n Y"
  obtain Y where Y: "apart ?n Y" "?A Y {} s"
    using assms(3) True owned_at_line [OF assms(4)] by (auto simp: line_res_def)
  have no: "no_maps R" "no_maps Y" using assms(2) Y(1) by (simp_all add: gpio_clean_def apart_def)
  have finish: "wp (finish_open k) (\<lambda>_. owned e irq_of taken R B) t"
    if "?A Y {Gpio_line k} t" "k \<notin> taken" "Gpio_line k \<notin> R" for t
    unfolding finish_open_def wp_bind wp_wr wp_return
    by (rule owned_put [OF that(1) Y(1) assms(4)])
      (use that in \<open>simp_all add: line_res_def line_good_def\<close>)
  have inp: "wp (make_input e k) (\<lambda>r t. (r <s 0 \<longrightarrow> has_failed e t) \<and> ?A Y {Gpio_line k} t) t"
    if "?A Y {Gpio_line k} t" for t
    using that
    by (auto simp: make_input_def wp_simps others_good_put holding_neutral neutral_def
        holding_def held_step_def dest: resp_fails)
  have outp: "wp (make_output e k) (\<lambda>r t. (r <s 0 \<longrightarrow> has_failed e t) \<and> ?A Y {Gpio_line k} t) t"
    if "?A Y {Gpio_line k} t" for t
    using that
    by (auto simp: make_output_def wp_simps others_good_put holding_def held_step_def
        dest: resp_fails)
  have direct: "wp (if r <s 0 then ret x else finish_open k)
      (\<lambda>_ s'. has_failed e s' \<or> owned e irq_of taken R B s') t"
    if "(r <s 0 \<longrightarrow> has_failed e t) \<and> ?A Y {Gpio_line k} t" "k \<notin> taken" "Gpio_line k \<notin> R" for r x t
    using that by (intro wp_ifI wp_mono [OF finish]) (auto simp: wp_return)
  have busy: "owned e irq_of taken R B (put_attrs ?n (\<lambda>g. g\<lparr>bIsOpened := 0\<rparr>) t)"
    if "?A Y {} t" for t
    by (rule owned_put [OF that Y(1) assms(4)]) (simp_all add: line_res_def line_good_def)
  show ?thesis
    unfolding open_line_def wp_bind wp_rd
    apply (rule wp_ifI, use True in simp)
    apply (simp only: wp_bind)
    apply (rule wp_mono [OF keepsD [OF keeps_at_line_mux(1) Y(2)]], use no in simp, use no in simp, simp)
    apply (simp only: wp_bind)
    apply (rule wp_mono [OF wp_request_line [OF assms(1) _ Y(1)]], assumption)
    apply (rule wp_ifI, simp add: wp_simps busy)
    apply (rule wp_ifI)
     apply (simp only: wp_bind)
     apply (rule wp_mono [OF inp], simp)
     apply (erule direct, simp, simp)
    apply (simp only: wp_bind)
    apply (rule wp_mono [OF outp], simp)
    apply (erule direct, simp, simp)
    done
qed


lemma wp_free_line:
  assumes "gpio_fair e irq_of taken" "at_line e irq_of taken R B (unat k) Y X s" "apart (unat k) Y"
  shows "X = {Gpio_line k} \<Longrightarrow> Gpio_line k \<notin> R \<Longrightarrow> wp (kdo e (KGpio (Gpio_free k)))
      (\<lambda>_ s'. m_pGpioAttributesTab s' = m_pGpioAttributesTab s \<and> at_line e irq_of taken R B (unat k) Y {} s') s"
    "X = {Irq_line (irq_of k) k} \<Longrightarrow> Irq_line (irq_of k) k \<notin> R \<Longrightarrow> wp (free_line_irq e k)
      (\<lambda>_ s'. m_pGpioAttributesTab s' = m_pGpioAttributesTab s \<and> at_line e irq_of taken R B (unat k) Y {} s') s"
  using assms gpio_fair_resp(1) [OF assms(1)]
  by (auto simp: free_line_irq_def wp_simps apart_def holding_def held_step_def)

text \<open>Whatever an open line holds is given back.\<close>

lemma wp_release_line:
  assumes "gpio_fair e irq_of taken" "gpio_clean irq_of R" "unat k < DRIVER_DEV_REGISTER_NB"
    and "at_line e irq_of taken R B (unat k) Y (line_res irq_of (unat k) g) s" "apart (unat k) Y"
    and "line_good taken R (unat k) g" "bIsOpened g \<noteq> 0"
  shows "wp (if bMode g = IO_MODE then kdo e (KGpio (Gpio_free k))
      else if bMode g = IT_MODE then free_line_irq e k else skip)
    (\<lambda>_ s'. m_pGpioAttributesTab s' = m_pGpioAttributesTab s \<and> at_line e irq_of taken R B (unat k) Y {} s') s"
proof (cases "bMode g = IO_MODE")
  case True
  then show ?thesis
    unfolding if_P [OF True]
    by (intro wp_free_line(1) [OF assms(1,4,5)])
      (use True assms(6,7) in \<open>simp_all add: line_res_def line_good_def\<close>)
next
  case False
  then have "bMode g = IT_MODE" using assms(6,7) by (simp add: line_good_def)
  moreover have "Irq_line (irq_of k) k \<notin> R" using assms(2,3) by (auto simp: gpio_clean_def)
  ultimately show ?thesis
    unfolding if_not_P [OF False]
    using False assms(7) by (simp, intro wp_free_line(2) [OF assms(1,4,5), simplified]) (simp_all add: line_res_def)
qed

lemma wp_close_line_owned:
  assumes "gpio_fair e irq_of taken" "gpio_clean irq_of R" "owned e irq_of taken R B s"
    and "unat k < DRIVER_DEV_REGISTER_NB" "bIsOpened (attrs (unat k) s) \<noteq> 0"
  shows "wp (close_line e k) (\<lambda>_. owned e irq_of taken R B) s"
proof -
  let ?n = "unat k"
  let ?A = "\<lambda>Y. at_line e irq_of taken R B ?n Y"
  obtain Y where Y: "apart ?n Y" "?A Y (line_res irq_of ?n (attrs ?n s)) s"
    and good: "line_good taken R ?n (attrs ?n s)"
    using assms(3) owned_at_line [OF assms(4)] by auto
  have no: "no_maps R" "no_maps Y" using assms(2) Y(1) by (simp_all add: gpio_clean_def apart_def)
  have closed: "bIsOpened (attrs ?n (put_attrs ?n (\<lambda>g. g\<lparr>bIsOpened := 0\<rparr>) t)) = 0" if "?A Y {} t" for t
    using that assms(4) by (simp add: others_good_def)
  have keep: "keeps (\<lambda>s :: gpio_state. bIsOpened (attrs ?n s) = 0) (RestorePreviousGpioMode e ?n)"
  proof -
    have put: "keeps (\<lambda>s :: gpio_state. bIsOpened (attrs ?n s) = 0) (set_attrs ?n f)"
      if f: "\<And>g. bIsOpened (f g) = bIsOpened g" for f
    proof (rule keeps_wr)
      show "bIsOpened (attrs ?n (put_attrs ?n f s)) = 0"
        if "bIsOpened (attrs ?n s) = 0" for s :: gpio_state
        using that f by (cases "?n < length (m_pGpioAttributesTab s)")
          (simp_all add: put_attrs_def list_update_beyond)
    qed
    have calls: "keeps (\<lambda>s. bIsOpened (attrs ?n s) = 0) (kcall e c)"
      "keeps (\<lambda>s. bIsOpened (attrs ?n s) = 0) (kdo e c)" for c
      by (rule keeps_kcall keeps_kdo, simp)+
    show ?thesis
      unfolding RestorePreviousGpioMode_def restore_previous_register_def restore_mode_def
        map_register_def out_of_bounds_def
      by (intro keeps_return keeps_rd keeps_if keeps_case_option keeps_for_each put calls keeps_bind)
        simp_all
  qed
  have restore: "wp (RestorePreviousGpioMode e ?n \<bind> (\<lambda>_. ret 0)) (\<lambda>_. owned e irq_of taken R B) t"
    if "?A Y {} t" "bIsOpened (attrs ?n t) = 0" for t
    unfolding wp_bind wp_return
    by (rule wp_mono [OF wp_conj [OF keepsD [OF keeps_at_line_mux(2) [where X = "{}" and B = B,
        OF no no_maps_insert(2)] that(1)] keepsD [OF keep that(2)]]])
      (auto intro!: owned_intro [OF _ Y(1) _ assms(4)] simp: line_res_def line_good_def)
  show ?thesis
    unfolding close_line_def
    apply (simp only: wp_bind wp_rd)
    apply (rule wp_mono [OF wp_release_line [OF assms(1,2,4) Y(2,1) good assms(5)]])
    apply (simp only: wp_bind [of "wr _"] wp_wr)
    apply (rule restore)
     apply (simp add: others_good_put)
    apply (rule closed, simp)
    done
qed


section \<open>The other handlers\<close>

lemma owned_quiet: "neutral c \<Longrightarrow> owned e irq_of taken R B s \<Longrightarrow>
    owned e irq_of taken R B (s\<lparr>klog := klog s @ [(c, r)]\<rparr>)"
  by (simp add: owned_def holding_neutral)

lemma quiet_neutral: "quiet c \<Longrightarrow> neutral c"
  by (induction c rule: quiet.induct) (simp_all add: neutral_def)

interpretation owned_frame: gpio_frame "owned e irq_of taken R B" for e irq_of taken R B
  by unfold_locales
    (simp add: owned_def gpio_part_def holding_def, rule owned_quiet, rule quiet_neutral)

lemma keeps_owned:
  "(\<And>g. bIsOpened (f g) = bIsOpened g \<and> bMode (f g) = bMode g) \<Longrightarrow>
     keeps (owned e irq_of taken R B) (set_attrs n f)"
  "neutral c \<Longrightarrow> keeps (owned e irq_of taken R B) (kcall e' c)"
  "neutral c \<Longrightarrow> keeps (owned e irq_of taken R B) (kdo e' c)"
proof -
  assume f: "\<And>g. bIsOpened (f g) = bIsOpened g \<and> bMode (f g) = bMode g"
  show "keeps (owned e irq_of taken R B) (set_attrs n f)"
  proof (rule keeps_wr)
    fix s assume s: "owned e irq_of taken R B s"
    then have len: "length (m_pGpioAttributesTab s) = DRIVER_DEV_REGISTER_NB"
      by (simp add: owned_def)
    have same: "bIsOpened (attrs m (put_attrs n f s)) = bIsOpened (attrs m s) \<and>
        bMode (attrs m (put_attrs n f s)) = bMode (attrs m s)" if "m < DRIVER_DEV_REGISTER_NB" for m
      using f len that by simp
    then have "line_res irq_of m (attrs m (put_attrs n f s)) = line_res irq_of m (attrs m s)"
      "line_good taken R m (attrs m (put_attrs n f s)) = line_good taken R m (attrs m s)"
      if "m < DRIVER_DEV_REGISTER_NB" for m
      using that by (simp_all add: line_res_def line_good_def)
    then show "owned e irq_of taken R B (put_attrs n f s)"
      using s by (simp add: owned_def lines_res_def)
  qed
qed (rule keeps_kcall keeps_kdo, erule (1) owned_quiet)+

lemmas owned_rules = keeps_return keeps_rd keeps_if keeps_case_option keeps_let keeps_owned
  owned_frame.frame_EXPORT owned_frame.frame_put_user keeps_bind

lemma keeps_owned_with_line:
  "keeps (owned e irq_of taken R B) m \<Longrightarrow> keeps (owned e irq_of taken R B) (with_line e' k m r)"
  unfolding with_line_def out_of_bounds_def by (intro owned_rules) (simp add: neutral_def)+

lemma keeps_owned_lines:
  "keeps (owned e irq_of taken R B) (gpio_irq e' k)"
  "keeps (owned e irq_of taken R B) (read_line e' buf)"
  "keeps (owned e irq_of taken R B) (read_wait e' buf)"
  "keeps (owned e irq_of taken R B) (write_line e' k c n)"
  "keeps (owned e irq_of taken R B) (poll_line e' k)"
  unfolding gpio_irq_def read_line_def read_wait_def read_finish_def write_line_def poll_line_def
  by (intro owned_rules; simp add: neutral_def)+

lemma keeps_owned_ioctls:
  "keeps (owned e irq_of taken R B) (gpio_ioctl_set_direction e' k a)"
  "keeps (owned e irq_of taken R B) (gpio_ioctl_set_output e' k a)"
  "keeps (owned e irq_of taken R B) (gpio_ioctl_get_input e' k a)"
  "keeps (owned e irq_of taken R B) (gpio_ioctl_set_debounce e' k a)"
  "keeps (owned e irq_of taken R B) (gpio_ioctl_get_last_it e' k a)"
  unfolding gpio_ioctl_set_direction_def gpio_ioctl_set_output_def gpio_ioctl_get_input_def
    gpio_ioctl_set_debounce_def gpio_ioctl_get_last_it_def make_input_def make_output_def
  by (intro owned_rules; simp add: neutral_def)+

lemma keeps_owned_reads:
  "keeps (owned e irq_of taken R B) (Gpio_read e' d buf n)"
  "keeps (owned e irq_of taken R B) (Gpio_read_woken e' buf)"
proof -
  have static: "keeps (owned e irq_of taken R B) (wr (\<lambda>s. s\<lparr>read_minor := r\<rparr>))" for r
    by (rule keeps_wr) (simp add: owned_def holding_def)
  show "keeps (owned e irq_of taken R B) (Gpio_read e' d buf n)"
    "keeps (owned e irq_of taken R B) (Gpio_read_woken e' buf)"
    unfolding Gpio_read_def Gpio_read_woken_def
    by (intro static keeps_owned_with_line keeps_owned_lines owned_rules; simp add: neutral_def)+
qed

text \<open>Going to and from IT mode swaps the gpio for the interrupt.\<close>

lemma at_line_put_same:
  "at_line e irq_of taken R B n Y X (put_attrs n f s) = at_line e irq_of taken R B n Y X s"
  by (simp add: others_good_put)

lemma wp_set_interrupt_owned:
  assumes "gpio_fair e irq_of taken" "gpio_clean irq_of R" "owned e irq_of taken R B s"
    and "unat k < DRIVER_DEV_REGISTER_NB" "bIsOpened (attrs (unat k) s) \<noteq> 0"
  shows "wp (gpio_ioctl_set_interrupt e k a)
    (\<lambda>_ s'. has_failed e s' \<or> owned e irq_of taken R B s') s"
proof -
  let ?n = "unat k"
  let ?A = "\<lambda>Y. at_line e irq_of taken R B ?n Y"
  let ?S = "\<lambda>t. bIsOpened (attrs ?n t) \<noteq> 0 \<and> bMode (attrs ?n t) = IT_MODE"
  obtain Y where Y: "apart ?n Y" "?A Y (line_res irq_of ?n (attrs ?n s)) s"
    and good: "line_good taken R ?n (attrs ?n s)"
    using assms(3) owned_at_line [OF assms(4)] by auto
  have line: "k \<notin> taken" "Gpio_line k \<notin> R" using good assms(5) by (simp_all add: line_good_def)
  have irq: "Irq_line (irq_of k) k \<notin> R" using assms(2,4) by (auto simp: gpio_clean_def)
  have len: "?n < length (m_pGpioAttributesTab s)" using Y(2) assms(4) by (simp add: others_good_def)
  have release: "wp (release_for_interrupt e k) (\<lambda>_ t. ?A Y {} t \<and> ?S t) s"
  proof (cases "bMode (attrs ?n s) = IT_MODE")
    case True
    then show ?thesis
      unfolding release_for_interrupt_def wp_bind wp_rd if_P [OF True]
      by (intro wp_mono [OF wp_free_line(2) [OF assms(1) Y(2,1) _ irq]])
        (use assms(5) in \<open>auto simp: line_res_def\<close>)
  next
    case False
    then have io: "bMode (attrs ?n s) = IO_MODE" using good assms(5) by (auto simp: line_good_def)
    show ?thesis
      unfolding release_for_interrupt_def wp_bind wp_rd if_not_P [OF False] wp_wr
      by (intro wp_mono [OF wp_free_line(1) [OF assms(1) Y(2,1) _ line(2)]])
        (use assms(5) io len in \<open>auto simp: line_res_def others_good_put\<close>)
  qed
  have request: "wp (set_attrs ?n (\<lambda>g. g\<lparr>uiTriggerMode := a\<rparr>) \<bind> (\<lambda>_.
      kcall e (KGpio (Gpio_to_irq k)) \<bind> (\<lambda>irq. rd (attrs ?n) \<bind> (\<lambda>g.
      kcall e (KIrq (Request_irq irq Gpio_irq (uiTriggerMode g) k)) \<bind> (\<lambda>iRet.
      if iRet \<noteq> 0 then ret (gpio_err ERR_GPIO_IOCTL_INTERRUPTION_REQUEST)
      else do { set_attrs ?n (\<lambda>g. g\<lparr>bDone := 0\<rparr>); ret 0 })))))
    (\<lambda>_ s'. has_failed e s' \<or> owned e irq_of taken R B s') t" if t: "?A Y {} t" "?S t" for t
  proof -
    have "owned e irq_of taken R B (put_attrs ?n (\<lambda>g. g\<lparr>bDone := 0\<rparr>) t')"
      if "?A Y {Irq_line (irq_of k) k} t'" "?S t'" for t'
      by (rule owned_put [OF that(1) Y(1) assms(4)])
        (use that(2) line in \<open>simp_all add: line_res_def line_good_def\<close>)
    moreover have "?n < length (m_pGpioAttributesTab t)"
      using t(1) assms(4) by (simp add: others_good_def)
    ultimately show ?thesis
      using t
      by (auto simp: wp_simps others_good_put holding_def held_step_def resp_fails
          dest!: gpio_fair_resp(1) [OF assms(1)])
  qed
  show ?thesis
    unfolding gpio_ioctl_set_interrupt_def wp_bind [of "release_for_interrupt e k"]
    by (rule wp_mono [OF release]) (use request in blast)
qed


lemma wp_free_interrupt_owned:
  assumes "gpio_fair e irq_of taken" "gpio_clean irq_of R" "owned e irq_of taken R B s"
    and "unat k < DRIVER_DEV_REGISTER_NB" "bIsOpened (attrs (unat k) s) \<noteq> 0"
  shows "wp (gpio_ioctl_free_interrupt e k) (\<lambda>_. owned e irq_of taken R B) s"
proof (cases "bMode (attrs (unat k) s) = IT_MODE")
  case False
  then show ?thesis
    using assms(3) by (simp add: gpio_ioctl_free_interrupt_def wp_simps)
next
  case True
  let ?n = "unat k"
  let ?A = "\<lambda>Y. at_line e irq_of taken R B ?n Y"
  obtain Y where Y: "apart ?n Y" "?A Y (line_res irq_of ?n (attrs ?n s)) s"
    and good: "line_good taken R ?n (attrs ?n s)"
    using assms(3) owned_at_line [OF assms(4)] by auto
  have line: "k \<notin> taken" "Gpio_line k \<notin> R" using good assms(5) by (simp_all add: line_good_def)
  have irq: "Irq_line (irq_of k) k \<notin> R" using assms(2,4) by (auto simp: gpio_clean_def)
  have free: "wp (free_line_irq e k)
      (\<lambda>_ t. ?A Y {} t \<and> bIsOpened (attrs ?n t) \<noteq> 0) s"
    by (intro wp_mono [OF wp_free_line(2) [OF assms(1) Y(2,1) _ irq]])
      (use assms(5) True in \<open>auto simp: line_res_def\<close>)
  have finish: "owned e irq_of taken R B (put_attrs ?n (\<lambda>g. g\<lparr>bDone := 1\<rparr>)
      (put_attrs ?n (\<lambda>g. g\<lparr>bMode := IO_MODE\<rparr>) t))"
    if "?A Y {Gpio_line k} t" "bIsOpened (attrs ?n t) \<noteq> 0" for t
  proof -
    have "?n < length (m_pGpioAttributesTab t)" using that(1) assms(4) by (simp add: others_good_def)
    then show ?thesis
      by (simp add: put_attrs_comp, intro owned_put [OF that(1) Y(1) assms(4)])
        (use that(2) line in \<open>simp_all add: line_res_def line_good_def\<close>)
  qed
  have woken: "owned e irq_of taken R B (put_attrs ?n (\<lambda>g. g\<lparr>bDone := 1\<rparr>)
      (put_attrs ?n (\<lambda>g. g\<lparr>bMode := IO_MODE\<rparr>) t)
      \<lparr>klog := klog t @ [(KSched (Wake_up_interruptible Gpio_Read_wait), r)]\<rparr>)"
    if "others_good irq_of taken R ?n Y t" "holding e (insert (Gpio_line k) (R \<union> Y)) B t"
      "bIsOpened (attrs ?n t) \<noteq> 0" for t r
    using owned_quiet [OF _ finish, of "KSched (Wake_up_interruptible Gpio_Read_wait)" t r] that
    by (simp add: neutral_def)
  have request: "wp (kcall e (KGpio (Gpio_request k l)) \<bind> (\<lambda>busy.
      set_attrs ?n (\<lambda>g. g\<lparr>bMode := (if busy \<noteq> 0 then 0 else IO_MODE)\<rparr>) \<bind> (\<lambda>_.
      set_attrs ?n (\<lambda>g. g\<lparr>bDone := 1\<rparr>) \<bind> (\<lambda>_.
      kdo e (KSched (Wake_up_interruptible Gpio_Read_wait)) \<bind> (\<lambda>_. ret 0)))))
    (\<lambda>_. owned e irq_of taken R B) t" if "?A Y {} t" "bIsOpened (attrs ?n t) \<noteq> 0" for l t
    unfolding wp_bind [of "kcall _ _"]
    by (rule wp_mono [OF wp_request_line [OF assms(1) that(1) Y(1)]])
      (use that(2) line in \<open>auto simp: wp_simps intro!: woken\<close>)
  show ?thesis
    unfolding gpio_ioctl_free_interrupt_def wp_bind [of "rd _"] wp_rd
    using True apply simp
    apply (unfold wp_bind [of "free_line_irq e k"])
    apply (rule wp_mono [OF free])
    apply (rule request, simp_all)
    done
qed

section \<open>Every event\<close>

lemma gpio_exec_failed:
  assumes "gpio_exec e' ev m = Some m'" "has_failed e (gdrv m)"
  shows "has_failed e (gdrv m')"
  by (rule failed_frame.frame_exec [of e' ev m m' e, OF assms]) (rule keeps_failed_open_close)+

lemma gpio_exec_owned:
  assumes "gpio_fair e irq_of taken" "gpio_clean irq_of R" "owned e irq_of taken R B (gdrv m)"
    and "gpio_exec e ev m = Some m'"
  shows "has_failed e (gdrv m') \<or> owned e irq_of taken R B (gdrv m')"
proof (rule gpio_exec_wp [OF assms(4), where I = "\<lambda>s. has_failed e s \<or> owned e irq_of taken R B s"])
  let ?Q = "\<lambda>_ s. has_failed e s \<or> owned e irq_of taken R B s"
  note owned = assms(1-3)
  have call: "wp f ?Q (gdrv m)" if "keeps (owned e irq_of taken R B) f" for f :: "(gpio_state, 'r) state"
    by (rule wp_mono [OF keepsD [where I = "owned e irq_of taken R B", OF that assms(3)]]) (rule disjI2)
  have kept: "wp f ?Q (gdrv m)" if "wp f (\<lambda>_. owned e irq_of taken R B) (gdrv m)"
    for f :: "(gpio_state, 'r) state"
    by (rule wp_mono [OF that]) (rule disjI2)
  have bind_line: "wp (with_line e k f r) ?Q (gdrv m)"
    if "unat k < DRIVER_DEV_REGISTER_NB" "wp f ?Q (gdrv m)"
    for k r and f :: "(gpio_state, 'r) state"
    using that by (simp add: with_line_def)
  show "wp (Gpio_open e d md) ?Q (gdrv m)" if "known_node e d" for d md
    unfolding Gpio_open_def Let_def CheckMinor_def using assms(3)
    by (intro wp_ifI bind_line wp_open_line_owned [OF owned] that) (simp add: wp_return)
  show "wp (Gpio_close e d) ?Q (gdrv m)" if "node_open e d m" for d
    unfolding Gpio_close_def Let_def CheckMinor_def using assms(3) that
    by (intro wp_ifI bind_line kept [OF wp_close_line_owned [OF owned]])
      (simp_all add: wp_return node_open_def)
  show "wp (Gpio_ioctl e d cmd arg) ?Q (gdrv m)" if "node_open e d m" for d cmd arg
    unfolding Gpio_ioctl_def Let_def CheckMinor_def using assms(3) that
    by (intro wp_ifI bind_line wp_set_interrupt_owned [OF owned]
        kept [OF wp_free_interrupt_owned [OF owned]]
        call [OF keeps_owned_ioctls(1)] call [OF keeps_owned_ioctls(2)] call [OF keeps_owned_ioctls(3)]
        call [OF keeps_owned_ioctls(4)] call [OF keeps_owned_ioctls(5)])
      (simp_all add: wp_return node_open_def)
  show "?Q () (drv x)" if "sync_exec e v (sync_view m) = Some x" for v x
    using owned_frame.frame_sync_exec [OF that] assms(3) by simp
qed (auto simp: GpioIrqHandler_def Gpio_write_def Gpio_poll_def Let_def
    intro!: wp_mono [OF keepsD [where I = "owned e irq_of taken R B", OF _ assms(3)]]
      keeps_owned_with_line keeps_owned_lines keeps_owned_reads keeps_if keeps_return)

lemma gpio_runs_owned:
  assumes "gpio_runs e m evs m'" "gpio_fair e irq_of taken" "gpio_clean irq_of R"
    and "has_failed e (gdrv m) \<or> owned e irq_of taken R B (gdrv m)"
  shows "has_failed e (gdrv m') \<or> owned e irq_of taken R B (gdrv m')"
  using assms(1,4)
proof (induction rule: runs.induct)
  case (runs_Cons s v s' vs s'')
  have "has_failed e (gdrv s') \<or> owned e irq_of taken R B (gdrv s')"
    using runs_Cons.prems runs_Cons.hyps(1) gpio_exec_owned [OF assms(2,3)] gpio_exec_failed
    unfolding gpio_step_def by metis
  then show ?case by (rule runs_Cons.IH)
qed

text \<open>Right after the insertion no line is open.\<close>

lemma owned_start:
  assumes "gpio_inv s" "\<forall>n < DRIVER_DEV_REGISTER_NB. bIsOpened (attrs n s) = 0"
  shows "owned e irq_of taken (held e (klog s)) (bad_releases e (klog s)) s"
  using assms by (auto simp: owned_def holding_def gpio_inv_def lines_res_def line_res_def line_good_def)

end
