(* ===== verification/Gpio_Board.thy ===== *)
theory Gpio_Board
  imports Gpio_Restore Gpio_Owned
begin

text \<open>
  The kernel of the witnesses of the GPIO driver's properties: \<open>gpio_board\<close> is the board of
  \<open>Board\<close> with a \<open>gpio_request\<close> that fails on a line in use, and with line 99 in use by
  other code. Both drivers insert on it.
\<close>

definition gpio_answer :: "event list \<Rightarrow> kcall \<Rightarrow> u32" where
  "gpio_answer l c = (case c of
     KIo (Ioremap a n) \<Rightarrow> (if a = 0 then 1 else a)
   | KGpio (Gpio_request n x) \<Rightarrow> (if n = 99 \<or> Gpio_line n \<in> held board l then - EBUSY else 0)
   | KGpio (Gpio_to_irq n) \<Rightarrow> n + 160
   | _ \<Rightarrow> board_answer l c)"

definition gpio_board :: kernel where
  "gpio_board = board\<lparr>answer := gpio_answer\<rparr>"

lemma gpio_board_simps [simp]:
  "answer gpio_board = gpio_answer" "k_MINOR gpio_board d = d AND 0xFFFFF"
  "k_IS_ERR gpio_board p = (0xFFFFF001 \<le> p)"
  by (simp_all add: gpio_board_def)

lemma acquired_gpio_board: "acquired gpio_board = acquired board"
proof -
  have "k_IS_ERR gpio_board = k_IS_ERR board" by (simp add: gpio_board_def)
  then show ?thesis by (intro ext) (simp only: acquired_def)
qed

lemma held_step_gpio_board: "held_step gpio_board R ev = held_step board R ev"
  by (simp only: held_step_def acquired_gpio_board)

lemma held_gpio_board: "held_from gpio_board R l = held_from board R l"
  by (induction l arbitrary: R) (simp_all add: held_step_gpio_board)

lemma gpio_board_fair: "gpio_fair gpio_board (\<lambda>n. n + 160) {99}"
  by (auto simp: gpio_fair_def gpio_answer_def held_gpio_board)

lemma gpio_board_never_fails: "never_fails gpio_board"
  by (simp add: never_fails_def gpio_answer_def board_answer_def)

lemma gpio_board_insertable: "insertable gpio_board"
  by (simp add: insertable_def gpio_answer_def board_answer_def word_sle_eq)

lemma gpio_board_register_file: "register_file gpio_board pads id (\<lambda>_. 0x010F)"
proof -
  have "a \<noteq> 0" if a: "a \<in> pads" for a
  proof -
    from a obtain n i where "n < 192" "i < mux_count n" "a = mux_registers n ! i"
      by blast
    then show ?thesis using mux_register_nonzero by auto
  qed
  then show ?thesis
    by (auto simp: register_file_def gpio_answer_def board_answer_def)
qed

lemma gpio_board_fast: "fast_clocks gpio_board"
  by (simp add: fast_clocks_def gpio_answer_def board_answer_def)

lemma gpio_board_threads: "threads_start gpio_board"
  by (simp add: threads_start_def gpio_answer_def board_answer_def)

lemmas gpio_board_run = Synchronization_initialize_def sync_create_device_def
  synchronization_node_def sync_configure_def RelayTimerConfiguration_def relay_timer_setup_def
  relay_timer_interrupt_def GpsSoftwareShutdownGpioConfiguration_def PpsTimerConfiguration_def
  mux_pps_pin_def pps_timer_setup_def pps_timer_interrupt_def omap_dm_timer_set_capture_def
  omap_dm_timer_read_reg_def omap_dm_timer_write_reg_def sync_start_def SetGpsStatus_def
  use_pointer_def gpio_answer_def board_answer_def upt_rec word_sless_alt Let_def m_uiRelayTimerNumber_def
  m_uiPpsTimerNumber_def m_uiPpsTimerRegisterAddress_def m_uiGpsShutdownGpioRegisterAddress_def
  m_uiGpsShutdownGpioNumber_def held_step_def sync_globals_def

lemma gpio_board_initialize:
  "fst (run_state (Synchronization_initialize gpio_board) sync_globals) = 0"
  by (simp add: gpio_board_run)

definition gpio_board_sync :: sync_machine where
  "gpio_board_sync = \<lparr>drv = snd (run_state (Synchronization_initialize gpio_board) sync_globals),
     checker = Awaiting_data, sleepers = 0\<rparr>"

lemma gpio_board_sync_reach: "sync_reach gpio_board gpio_board_sync"
  using gpio_board_initialize
  by (intro reach_start, unfold sync_inserted_def, intro exI [of _ 1])
    (simp add: gpio_board_sync_def sync_loaded_default)

lemma gpio_board_timers:
  "m_pPpsTimerStruct (drv gpio_board_sync) = 0x1008"
  "m_pRelayTimerStruct (drv gpio_board_sync) = 0x100B"
  by (simp_all add: gpio_board_sync_def gpio_board_run)

lemma gpio_board_orderly: "orderly gpio_board id"
  by (simp add: orderly_def gpio_answer_def board_answer_def m_uiPpsTimerNumber_def
      m_uiRelayTimerNumber_def word_sless_alt)

lemma gpio_board_sync_holds: "sync_holds gpio_board id (drv gpio_board_sync)"
  using wp_Synchronization_initialize_hold [OF gpio_board_orderly, of sync_globals]
    gpio_board_initialize
  by (simp add: wp_fst_snd sync_holds_if_ok_def gpio_board_sync_def holding_def sync_globals_def)

definition gpio_board_machine :: gpio_machine where
  "gpio_board_machine =
     \<lparr>gdrv = snd (the (Gpio_initialize gpio_board (gpio_globals (drv gpio_board_sync)))),
      gsleepers = 0, gchecker = Awaiting_data, sync_sleepers = 0\<rparr>"

lemma gpio_board_Some:
  "Gpio_initialize gpio_board (gpio_globals (drv gpio_board_sync)) = Some (0, gdrv gpio_board_machine)"
  using Gpio_initialize_succeeds [OF gpio_board_insertable, of "gpio_globals (drv gpio_board_sync)"]
  by (auto simp: gpio_board_machine_def)

lemma gpio_board_inserted: "gpio_inserted gpio_board gpio_board_machine"
  unfolding gpio_inserted_def using gpio_board_sync_reach gpio_board_Some
  by (intro exI [of _ gpio_board_sync]) (simp add: gpio_board_machine_def gpio_board_sync_def)

lemma gpio_board_reach: "gpio_reach gpio_board gpio_board_machine"
  by (rule reach_start) (rule gpio_board_inserted)

end
