(* ===== verification/Gpio_Behaviour.thy ===== *)
theory Gpio_Behaviour
  imports Gpio_Board
begin

text \<open>
  What single calls of the GPIO driver and short sequences of them do: how an interrupt is dated
  and handed to the reader, what a write sets, and where the calls that fail leave the line. The
  properties of \<open>Gpio_Props\<close> state these results over the reachable states.
\<close>

section \<open>The date of the last interrupt\<close>

definition last_date :: "nat \<Rightarrow> GeoDatationData \<Rightarrow> gpio_state \<Rightarrow> bool" where
  "last_date n D s \<longleftrightarrow> n < length (m_pGpioAttributesTab s) \<and> oLastItGDData (attrs n s) = D"

interpretation date_frame: gpio_frame "last_date n D" for n D
  by unfold_locales (auto simp: last_date_def gpio_part_def)

lemma keeps_date_put:
  "(\<forall>g. oLastItGDData (f g) = oLastItGDData g) \<or> k \<noteq> n \<Longrightarrow> keeps (last_date n D) (set_attrs k f)"
  by (rule keeps_wr) (auto simp: last_date_def)

lemma keeps_date_call:
  "keeps (last_date n D) (kcall e c)" "keeps (last_date n D) (kdo e c)"
  by (rule keeps_kcall keeps_kdo, simp add: last_date_def)+

lemma keeps_date_static: "keeps (last_date n D) (wr (\<lambda>s. s\<lparr>read_minor := r\<rparr>))"
  by (rule keeps_wr) (simp add: last_date_def)

lemmas date_rules = keeps_return keeps_rd keeps_if keeps_case_option keeps_let keeps_for_each
  keeps_do_each keeps_date_call keeps_date_static keeps_date_put date_frame.frame_EXPORT
  date_frame.frame_put_user keeps_bind

lemma keeps_date_with_line:
  "keeps (last_date n D) m \<Longrightarrow> keeps (last_date n D) (with_line e k m r)"
  unfolding with_line_def out_of_bounds_def by (intro date_rules)

lemma keeps_date_mux:
  "keeps (last_date n D) (ForceGpioMode e m k)"
  "keeps (last_date n D) (RestorePreviousGpioMode e m)"
  unfolding ForceGpioMode_def RestorePreviousGpioMode_def force_register_def
    restore_previous_register_def restore_mode_def map_register_def out_of_bounds_def
  by (intro date_rules; simp)+

lemma keeps_date_lines:
  "keeps (last_date n D) (open_line e k md)" "keeps (last_date n D) (close_line e k)"
  "keeps (last_date n D) (read_line e buf)" "keeps (last_date n D) (read_wait e buf)"
  "keeps (last_date n D) (write_line e k c sz)" "keeps (last_date n D) (poll_line e k)"
  unfolding open_line_def close_line_def read_line_def read_wait_def read_finish_def
    write_line_def poll_line_def make_input_def make_output_def finish_open_def free_line_irq_def
  by (intro keeps_date_mux date_rules; simp)+

lemma keeps_date_ioctls:
  "keeps (last_date n D) (gpio_ioctl_set_direction e k a)"
  "keeps (last_date n D) (gpio_ioctl_set_output e k a)"
  "keeps (last_date n D) (gpio_ioctl_get_input e k a)"
  "keeps (last_date n D) (gpio_ioctl_set_interrupt e k a)"
  "keeps (last_date n D) (gpio_ioctl_set_debounce e k a)"
  "keeps (last_date n D) (gpio_ioctl_free_interrupt e k)"
  "keeps (last_date n D) (gpio_ioctl_get_last_it e k a)"
  unfolding gpio_ioctl_set_direction_def gpio_ioctl_set_output_def gpio_ioctl_get_input_def
    gpio_ioctl_set_interrupt_def gpio_ioctl_set_debounce_def gpio_ioctl_free_interrupt_def
    gpio_ioctl_get_last_it_def release_for_interrupt_def make_input_def make_output_def
    free_line_irq_def
  by (intro date_rules; simp)+

lemma keeps_date_irq: "unat k \<noteq> n \<Longrightarrow> keeps (last_date n D) (GpioIrqHandler e k)"
  unfolding GpioIrqHandler_def gpio_irq_def by (intro keeps_date_with_line date_rules) simp_all

lemma gpio_exec_date:
  assumes "gpio_exec e ev m = Some m'" "last_date (unat k) D (gdrv m)" "ev \<noteq> Gpio_interrupt k"
  shows "last_date (unat k) D (gdrv m')"
proof (rule gpio_exec_keeps [OF assms(1), of "last_date (unat k) D", OF assms(2)])
  show "keeps (last_date (unat k) D) (GpioIrqHandler e n)" if "ev = Gpio_interrupt n" for n
    using that assms(3) by (intro keeps_date_irq) (auto simp: word_unat_eq_iff)
  show "keeps (last_date (unat k) D) (Gpio_ioctl e d cmd arg)" for d cmd arg
    unfolding Gpio_ioctl_def Let_def
    by (intro keeps_if keeps_return keeps_date_with_line keeps_date_ioctls)
  show "keeps (last_date (unat k) D) (Gpio_read e d buf n)"
    "keeps (last_date (unat k) D) (Gpio_read_woken e buf)" for d buf n
    unfolding Gpio_read_def Gpio_read_woken_def
    by (intro keeps_date_with_line keeps_date_lines date_rules)+
qed (auto simp: Gpio_open_def Gpio_close_def Gpio_write_def Gpio_poll_def Let_def
    intro!: keeps_date_with_line keeps_date_lines keeps_if keeps_return intro: date_frame.frame_sync_exec)

lemma gpio_runs_date:
  "gpio_runs e m evs m' \<Longrightarrow> last_date (unat k) D (gdrv m) \<Longrightarrow> Gpio_interrupt k \<notin> set evs \<Longrightarrow>
     last_date (unat k) D (gdrv m')"
  by (induction rule: runs.induct) (auto simp: gpio_step_def dest: gpio_exec_date)

section \<open>An interrupt and its reader\<close>

definition table :: "'a gpio_state_scheme \<Rightarrow> GpioAttributes list \<times> u32" where
  "table s = (m_pGpioAttributesTab s, read_minor s)"

lemma table_simps [simp]:
  "table (s\<lparr>klog := l\<rparr>) = table s"
  "table (put_attrs n f s) = ((fst (table s))[n := f (fst (table s) ! n)], snd (table s))"
  "table (s\<lparr>read_minor := k\<rparr>) = (fst (table s), k)"
  by (simp_all add: table_def put_attrs_def)

lemma table_fields: "m_pGpioAttributesTab s = fst (table s)" "read_minor s = snd (table s)"
  by (simp_all add: table_def)

interpretation table_frame: gpio_frame "\<lambda>s. table s = x \<and> (\<exists>a. klog s = l @ a)" for x l
  by unfold_locales (auto simp: table_def gpio_part_def)

text \<open>The line as its interrupt leaves it.\<close>

definition interrupted :: "GeoDatationData \<Rightarrow> u32 \<Rightarrow> GpioAttributes \<Rightarrow> GpioAttributes" where
  "interrupted D v g = g\<lparr>oLastItGDData := D, bValue := v, bDone := 1\<rparr>"

abbreviation exported :: "kernel \<Rightarrow> 'a sync_state_scheme \<Rightarrow> GeoDatationData" where
  "exported e s \<equiv> fst (run_state (EXPORT_GD_DATA_FROM_SYNCHONIZATION_DRIVER e) s)"

text \<open>What the handler's calls look like: those of the date, then the sample, the wait and the wake-up.\<close>

definition irq_events :: "u32 \<Rightarrow> u32 \<Rightarrow> event list \<Rightarrow> bool" where
  "irq_events k v l \<longleftrightarrow> (\<exists>a n x w. l = a @ [(KGpio (Gpio_get_value k), v), (KSched (Mdelay n), x),
     (KSched (Wake_up_interruptible Gpio_Read_wait), w)])"

lemma irq_events_simp [simp]:
  "irq_events k v (a @ [(KGpio (Gpio_get_value k'), v'), (KSched (Mdelay n), x),
     (KSched (Wake_up_interruptible q), w)]) \<longleftrightarrow> k' = k \<and> v' = v \<and> q = Gpio_Read_wait"
  by (auto simp: irq_events_def)

lemma wp_irq:
  assumes "unat k < length (fst (table s))" "unat k < DRIVER_DEV_REGISTER_NB"
  shows "wp (GpioIrqHandler e k) (\<lambda>_ s'. \<exists>v l. klog s' = klog s @ l \<and> irq_events k v l \<and>
      table s' = ((fst (table s))[unat k := interrupted (exported e s) v (fst (table s) ! unat k)],
        snd (table s))) s"
proof -
  have "wp (EXPORT_GD_DATA_FROM_SYNCHONIZATION_DRIVER e)
      (\<lambda>r s'. (table s' = table s \<and> (\<exists>a. klog s' = klog s @ a)) \<and> r = exported e s) s"
    by (rule wp_conj [OF keepsD [OF table_frame.frame_EXPORT]]) (simp_all add: wp_fst_snd)
  then show ?thesis
    unfolding GpioIrqHandler_def gpio_irq_def wp_with_line wp_bind
    using assms
    by simp (erule wp_mono, auto simp: wp_simps interrupted_def table_fields)
qed

lemma exported_fields:
  "oData (exported e s) = m_oGpsOfficialData s"
  "iQuartzError (exported e s) = m_iAverageTimerErrorValue s"
  "iDriverMode (exported e s) = m_uiDriverRunningMode s"
proof -
  have "wp (EXPORT_GD_DATA_FROM_SYNCHONIZATION_DRIVER e) (\<lambda>r _. oData r = m_oGpsOfficialData s \<and>
      iQuartzError r = m_iAverageTimerErrorValue s \<and> iDriverMode r = m_uiDriverRunningMode s) s"
    unfolding EXPORT_GD_DATA_FROM_SYNCHONIZATION_DRIVER_def
    by (auto simp: wp_simps intro!: wp_log_only [OF log_of_ComputeMicroSecond])
  then show "oData (exported e s) = m_oGpsOfficialData s"
    "iQuartzError (exported e s) = m_iAverageTimerErrorValue s"
    "iDriverMode (exported e s) = m_uiDriverRunningMode s"
    by (simp_all add: wp_fst_snd)
qed

text \<open>What a reader of a line in IT mode is given, by \<open>read_wait\<close> on the line of the static.\<close>

definition sent :: "u32 \<Rightarrow> u32 \<Rightarrow> kcall" where
  "sent buf v = KUser (Copy_to_user buf (Text (if v \<noteq> 0 then ''1'' else ''0'')) 2)"

definition read_answer :: "u32 \<Rightarrow> read_result" where
  "read_answer left = Returned (if left \<noteq> 0 then gpio_err ERR_GPIO_READ_WRONG_READED_BYTES else 2)"

definition waits :: "u32 \<Rightarrow> GpioAttributes list \<times> u32 \<Rightarrow> event list \<Rightarrow> read_result \<Rightarrow> 'a gpio_state_scheme \<Rightarrow> bool" where
  "waits buf T l r s' \<longleftrightarrow> (case T of (tab, k) \<Rightarrow>
     (if bDone (tab ! unat k) = 1
      then table s' = (tab[unat k := (tab ! unat k)\<lparr>bDone := 0\<rparr>], k) \<and>
        (\<exists>left. klog s' = l @ [(sent buf (bValue (tab ! unat k)), left)] \<and> r = read_answer left)
      else table s' = (tab, k) \<and> r = Sleeping \<and>
        (\<exists>x. klog s' = l @ [(KSched (Interruptible_sleep_on Gpio_Read_wait), x)])))"

lemma wp_read_wait:
  assumes "unat (read_minor s) < length (m_pGpioAttributesTab s)"
  shows "wp (read_wait e buf) (waits buf (table s) (klog s)) s"
  using assms
  by (auto simp: read_wait_def read_finish_def waits_def sent_def read_answer_def wp_simps table_def
      put_attrs_def)

lemma wp_Gpio_read:
  assumes "k_MINOR e d = k" "unat k < DRIVER_DEV_REGISTER_NB" "\<not> sz < 2"
    and "length (fst (table s)) = DRIVER_DEV_REGISTER_NB" "bMode (fst (table s) ! unat k) = IT_MODE"
  shows "wp (Gpio_read e d buf sz) (waits buf (fst (table s), k) (klog s)) s"
proof -
  have k: "\<not> k <s 0" using assms(2) sint_u32_small [of k] by (simp add: word_sless_alt)
  let ?s = "s\<lparr>read_minor := k\<rparr>"
  have "wp (read_wait e buf) (waits buf (table ?s) (klog ?s)) ?s"
    by (rule wp_read_wait) (use assms in \<open>simp add: table_def\<close>)
  then show ?thesis
    using assms k
    by (simp add: Gpio_read_def CheckMinor_def wp_simps read_line_def table_def)
qed

lemma wp_Gpio_read_woken:
  assumes "\<forall>l. answer e l (KSched Signal_pending) = 0"
    and "unat (snd (table s)) < DRIVER_DEV_REGISTER_NB"
    and "length (fst (table s)) = DRIVER_DEV_REGISTER_NB"
  shows "wp (Gpio_read_woken e buf) (waits buf (table s) (klog s @ [(KSched Signal_pending, 0)])) s"
proof -
  let ?s = "s\<lparr>klog := klog s @ [(KSched Signal_pending, 0)]\<rparr>"
  have "wp (read_wait e buf) (waits buf (table ?s) (klog ?s)) ?s"
    by (rule wp_read_wait) (use assms in \<open>auto simp: table_def\<close>)
  then show ?thesis
    using assms by (simp add: Gpio_read_woken_def wp_simps resp_def table_def)
qed

lemma wp_Gpio_poll:
  assumes "k_MINOR e d = k" "unat k < DRIVER_DEV_REGISTER_NB"
  shows "wp (Gpio_poll e d) (\<lambda>r s'. table s' = table s \<and>
      r = (if bMode (fst (table s) ! unat k) = IT_MODE \<and> bDone (fst (table s) ! unat k) \<noteq> 0
           then POLLIN OR POLLRDNORM else 0)) s"
  using assms by (auto simp: Gpio_poll_def CheckMinor_def Let_def poll_line_def wp_simps table_def)

section \<open>Opening a free line\<close>

text \<open>Line \<open>n\<close> has changed by \<open>f\<close>, but for the modes it remembers, and no other line has.\<close>

definition line_by ::
    "nat \<Rightarrow> (GpioAttributes \<Rightarrow> GpioAttributes) \<Rightarrow> GpioAttributes list \<Rightarrow> gpio_state \<Rightarrow> bool" where
  "line_by n f tab s \<longleftrightarrow> length (m_pGpioAttributesTab s) = length tab \<and>
     (\<forall>j. j \<noteq> n \<longrightarrow> attrs j s = tab ! j) \<and>
     (attrs n s)\<lparr>uiPreviousMode := []\<rparr> = (f (tab ! n))\<lparr>uiPreviousMode := []\<rparr>"

lemma line_by_attrs:
  "line_by n f tab s \<Longrightarrow> attrs n s = (f (tab ! n))\<lparr>uiPreviousMode := uiPreviousMode (attrs n s)\<rparr>"
  unfolding line_by_def by (cases "attrs n s", cases "f (tab ! n)") simp

lemma line_by_fields:
  assumes "line_by n f tab s"
  shows "bIsOpened (attrs n s) = bIsOpened (f (tab ! n))" "bMode (attrs n s) = bMode (f (tab ! n))"
    "bDone (attrs n s) = bDone (f (tab ! n))" "bDirection (attrs n s) = bDirection (f (tab ! n))"
  by (subst line_by_attrs [OF assms], simp)+

lemma line_by_log [simp]: "line_by n f tab (s\<lparr>klog := l\<rparr>) = line_by n f tab s"
  by (simp add: line_by_def)

lemma line_by_start: "line_by n (\<lambda>g. g) (m_pGpioAttributesTab s) s"
  by (simp add: line_by_def)

lemma line_by_prev:
  "n < length tab \<Longrightarrow> line_by n f tab s \<Longrightarrow>
     line_by n f tab (put_attrs n (\<lambda>g. g\<lparr>uiPreviousMode := h (uiPreviousMode g)\<rparr>) s)"
  by (auto simp: line_by_def put_attrs_def)

lemma keeps_line_by_Force:
  assumes "n < length tab"
  shows "keeps (line_by n f tab) (ForceGpioMode e n k)"
proof -
  have call: "keeps (line_by n f tab) (kcall e c)" "keeps (line_by n f tab) (kdo e c)" for c
    by (auto intro!: keeps_kcall keeps_kdo)
  have put: "keeps (line_by n f tab) (set_attrs n (\<lambda>g. g\<lparr>uiPreviousMode := h (uiPreviousMode g)\<rparr>))" for h
    by (rule keeps_wr) (rule line_by_prev [OF assms])
  show ?thesis
    unfolding ForceGpioMode_def force_register_def map_register_def out_of_bounds_def
    by (intro keeps_return keeps_rd keeps_if keeps_case_option keeps_let keeps_for_each call put
        keeps_bind)
qed

definition opened_as :: "u32 \<Rightarrow> u32 \<Rightarrow> GpioAttributes \<Rightarrow> GpioAttributes" where
  "opened_as dir v g = g\<lparr>bValue := v, bDirection := dir, bMode := IO_MODE, bDone := 0, bIsOpened := 1\<rparr>"

lemma wp_open_line_succeeds:
  assumes "gpio_fair e irq_of taken" "gpio_clean irq_of R" "owned e irq_of taken R B s"
    and "unat k < DRIVER_DEV_REGISTER_NB" "k \<notin> taken" "Gpio_line k \<notin> R"
    and "bIsOpened (attrs (unat k) s) = 0" "never_fails e"
  shows "wp (open_line e k md) (\<lambda>r s'. r = 0 \<and> line_by (unat k)
      (opened_as (if md AND 1 \<noteq> 0 then INPUT else OUTPUT) (bValue (attrs (unat k) s')))
      (m_pGpioAttributesTab s) s') s"
proof -
  let ?n = "unat k" and ?tab = "m_pGpioAttributesTab s"
  let ?A = "\<lambda>Y. at_line e irq_of taken R B ?n Y"
  obtain Y where Y: "apart ?n Y" "?A Y {} s"
    using assms(3,7) owned_at_line [OF assms(4)] by (auto simp: line_res_def)
  have no: "no_maps R" "no_maps Y" using assms(2) Y(1) by (simp_all add: gpio_clean_def apart_def)
  have len: "?n < length ?tab" using assms(3,4) by (simp add: owned_def)
  have force: "wp (ForceGpioMode e ?n 0) (\<lambda>_ t. ?A Y {} t \<and> line_by ?n (\<lambda>g. g) ?tab t) s"
    by (rule wp_conj [OF keepsD [OF keeps_at_line_mux(1) Y(2)]
        keepsD [OF keeps_line_by_Force [OF len] line_by_start]]) (use no in simp_all)
  have direct: "wp (if md AND 1 \<noteq> 0 then do { iRet \<leftarrow> make_input e k;
         (if iRet <s 0 then ret (gpio_err ERR_GPIO_OPEN_GPIO_SET_DIRECTION_INPUT) else finish_open k) }
      else do { iRet \<leftarrow> make_output e k;
         (if iRet <s 0 then ret (gpio_err ERR_GPIO_OPEN_GPIO_SET_DIRECTION_OUTPUT)
          else finish_open k) }) (\<lambda>r s'. r = 0 \<and> line_by ?n
      (opened_as (if md AND 1 \<noteq> 0 then INPUT else OUTPUT) (bValue (attrs ?n s'))) ?tab s') t"
    if t: "line_by ?n (\<lambda>g. g) ?tab t" for t
  proof -
    obtain p where p: "attrs ?n t = (attrs ?n s)\<lparr>uiPreviousMode := p\<rparr>"
      using line_by_attrs [OF t] by blast
    then show ?thesis
      using t len assms(8)
      by (auto simp: make_input_def make_output_def finish_open_def wp_simps put_attrs_def
          line_by_def opened_as_def p dest: resp_fails)
  qed
  show ?thesis
    unfolding open_line_def wp_bind wp_rd
    apply (rule wp_ifI, use assms(7) in simp)
    apply (simp only: wp_bind)
    apply (rule wp_mono [OF force], simp only: wp_bind, erule conjE)
    apply (rule wp_mono [OF wp_conj [OF wp_request_line [OF assms(1) _ Y(1)] _]], assumption)
     apply (rule keepsD [OF keeps_kcall, where I = "line_by ?n (\<lambda>g. g) ?tab"], simp, assumption)
    apply (rule wp_ifI, use assms(5,6) in simp)
    apply (rule direct, simp)
    done
qed

section \<open>The modes a busy line is left with\<close>

definition pads_set :: "(u32 \<Rightarrow> u16) \<Rightarrow> (u32 \<Rightarrow> u32) \<Rightarrow> nat \<Rightarrow> nat set \<Rightarrow> gpio_state \<Rightarrow> bool" where
  "pads_set reg0 vmap n js s \<longleftrightarrow>
     (\<forall>i \<in> js. regs reg0 s (pad_at vmap n i) = (if i = 0 then GPIO_PIN_MODE else SAFE_PIN_MODE))"

lemma pad_moved_set:
  assumes "register_file e pads vmap reg0" "n < 192" "i < mux_count n" "js \<subseteq> {..<mux_count n}"
    and "pads_set reg0 vmap n js s" "i \<notin> js"
    and "pad_moved reg0 vmap n i (if i = 0 then GPIO_PIN_MODE else SAFE_PIN_MODE) s s'"
  shows "pads_set reg0 vmap n (insert i js) s'"
proof -
  have regs: "regs reg0 s' = (regs reg0 s)(pad_at vmap n i :=
      (if i = 0 then GPIO_PIN_MODE else SAFE_PIN_MODE))"
    using assms(7) by (simp add: pad_moved_def)
  have "pad_at vmap n j \<noteq> pad_at vmap n i" if "j \<in> js" for j
    using that assms(4,6) pad_at_inj [OF assms(1,2,3,2), of j] by auto
  then show ?thesis using assms(5) by (simp add: pads_set_def regs)
qed

lemma wp_ForceGpioMode_sets:
  assumes "register_file e pads vmap reg0" "gpio_inv s" "n < 192"
  shows "wp (ForceGpioMode e n 0) (\<lambda>_. pads_set reg0 vmap n {..<mux_count n}) s"
proof -
  let ?S = "pads_set reg0 vmap n"
  let ?I = "\<lambda>js t. gpio_inv t \<and> distinct js \<and> set js \<subseteq> {..<mux_count n} \<and> ?S ({..<mux_count n} - set js) t"
  have loop: "wp (for_each [0..<mux_count n] (force_register e n 0))
      (\<lambda>r t. r = None \<and> ?S {..<mux_count n} t) s"
  proof (rule wp_for_each [where I = ?I])
    show "?I [0..<mux_count n] s" using assms(2) by (auto simp: atLeast0LessThan pads_set_def)
  next
    fix i js and t :: gpio_state assume t: "?I (i # js) t"
    then have i: "gpio_inv t" "i < mux_count n" by auto
    have "insert i ({..<mux_count n} - set (i # js)) = {..<mux_count n} - set js" using t by auto
    then show "wp (force_register e n 0 i) (\<lambda>r t. case r of None \<Rightarrow> ?I js t
      | Some x \<Rightarrow> Some x = None \<and> ?S {..<mux_count n} t) t"
      using t pad_moved_set [OF assms(1,3) i(2), of "{..<mux_count n} - set (i # js)"]
      by (intro wp_mono [OF wp_force_register [OF assms(1) i(1) assms(3) i(2)]])
        (auto intro: pad_moved_inv)
  qed simp
  show ?thesis
    unfolding ForceGpioMode_def wp_bind wp_rd
  proof (rule wp_ifI)
    assume "uiNbMuxed (attrs n s) \<le> 0"
    then have "mux_count n = 0" using gpio_inv_attrs(2) [OF assms(2,3)] by simp
    then show "wp (ret (gpio_err ERR_GPIO_FORCEGPIOMODE_MUX_UNAVAILABLE)) (\<lambda>_. ?S {..<mux_count n}) s"
      by (simp add: wp_return pads_set_def)
  next
    show "wp (for_each [0..<unat (uiNbMuxed (attrs n s))] (force_register e n (unat 0)) \<bind>
        (\<lambda>r. case r of None \<Rightarrow> ret 0 | Some r \<Rightarrow> ret r)) (\<lambda>_. ?S {..<mux_count n}) s"
      unfolding wp_bind gpio_inv_attrs(2) [OF assms(2,3)] unat_0
      by (rule wp_mono [OF loop]) (auto simp: wp_simps)
  qed
qed

lemma wp_open_line_busy:
  assumes "register_file e pads vmap reg0" "gpio_inv s" "unat k < 192"
    and "bIsOpened (attrs (unat k) s) = 0" "\<forall>l x. answer e l (KGpio (Gpio_request k x)) \<noteq> 0"
  shows "wp (open_line e k md) (\<lambda>r s'. r = gpio_err ERR_GPIO_OPEN_GPIO_BUSY_OUT_DRIVER \<and>
    pads_set reg0 vmap (unat k) {..<mux_count (unat k)} s' \<and> bIsOpened (attrs (unat k) s') = 0) s"
proof -
  have set_call: "pads_set reg0 vmap n js (put_attrs m f (t\<lparr>klog := klog t @ [(KGpio c, r)]\<rparr>)) =
      pads_set reg0 vmap n js t" for n m js f c r t
    by (simp add: pads_set_def reg_calc del: reg_value_simps)
  have "wp (ForceGpioMode e (unat k) 0) (\<lambda>_ t. gpio_inv t \<and>
      pads_set reg0 vmap (unat k) {..<mux_count (unat k)} t) s"
    by (rule wp_mono [OF wp_conj [OF wp_ForceGpioMode_taken [OF assms(1-3)]
        wp_ForceGpioMode_sets [OF assms(1-3)]]]) blast
  then show ?thesis
    unfolding open_line_def wp_bind wp_rd
    using assms(4)
    apply (simp only: if_not_P simp_thms wp_bind)
    apply (erule wp_mono)
    using assms(3,5)
    apply (auto simp: wp_simps resp_def set_call gpio_inv_def)
    done
qed

section \<open>What is held right after the insertion\<close>

definition is_dev :: "resource \<Rightarrow> bool" where
  "is_dev x = (case x of Dev_numbers \<Rightarrow> True | Char_dev \<Rightarrow> True | Sys_class c \<Rightarrow> True
     | Dev_node d \<Rightarrow> True | _ \<Rightarrow> False)"

lemma is_dev_simps [simp]:
  "is_dev Dev_numbers" "is_dev Char_dev" "is_dev (Sys_class c)" "is_dev (Dev_node d)"
  "\<not> is_dev (Gpio_line n)" "\<not> is_dev (Irq_line i n)" "\<not> is_dev (Mapping a)"
  by (simp_all add: is_dev_def)

definition devs_only :: "kernel \<Rightarrow> resource set \<Rightarrow> gpio_state \<Rightarrow> bool" where
  "devs_only e G s \<longleftrightarrow> (\<forall>x \<in> held e (klog s). x \<in> G \<or> is_dev x)"

lemma keeps_devs_call:
  assumes "\<And>r x. acquired e (c, r) = Some x \<Longrightarrow> is_dev x"
  shows "keeps (devs_only e G) (kcall e' c)" "keeps (devs_only e G) (kdo e' c)"
  using assms
  by (auto intro!: keeps_kcall keeps_kdo simp: devs_only_def held_step_def
      simp del: acquired_pair released_pair split: option.splits)

lemma keeps_devs_wr: "(\<And>s. klog (f s) = klog s) \<Longrightarrow> keeps (devs_only e G) (wr f)"
  by (rule keeps_wr) (simp add: devs_only_def)

lemma keeps_devs_save: "keeps (devs_only e G) (save_default_register e n i)"
  by (rule keepsI)
    (auto simp: save_default_register_def map_register_def out_of_bounds_def wp_simps
      devs_only_def held_step_def)

lemmas devs_rules = keeps_return keeps_rd keeps_if keeps_case_option keeps_let keeps_for_each
  keeps_do_each keeps_devs_save keeps_devs_call keeps_devs_wr keeps_bind

lemma keeps_devs_initialize: "keeps (devs_only e G) (gpio_initialize_run e)"
proof -
  have line: "keeps (devs_only e G) (create_line e n)" for n
    unfolding create_line_def line_device_def write_label_def initialize_line_def out_of_bounds_def
    by (intro devs_rules) (auto split: if_splits)
  have "keeps (devs_only e G) SaveRegisterAddr"
    unfolding SaveRegisterAddr_def set_register_range_def set_register_def add_second_register_def
    by (intro devs_rules) simp_all
  then show ?thesis
    unfolding gpio_initialize_run_def gpio_prepare_lines_def SaveDefaultMode_def
      gpio_out_unregister_def gpio_out_cdev_del_def
    by (intro devs_rules line) (auto split: if_splits)
qed

lemma Gpio_initialize_holds:
  assumes "sync_ok F s" "Gpio_initialize e (gpio_globals s) = Some (r, s')" "x \<in> held e (klog s')"
  shows "x \<in> held e (klog s) \<or> is_dev x"
proof -
  let ?G = "held e (klog s)"
  obtain r1 s1 where run: "run_state (gpio_initialize_run e) (gpio_globals s) = (r1, s1)"
    by (cases "run_state (gpio_initialize_run e) (gpio_globals s)") auto
  have "devs_only e ?G (gpio_globals s)"
    by (simp add: devs_only_def gpio_globals_def sync_state.defs)
  then have "devs_only e ?G s1" by (rule keeps_run [OF keeps_devs_initialize _ run])
  moreover have "init_outcome F r1 s1"
    by (rule wp_run [OF wp_gpio_initialize_run [OF lines_made_globals [OF assms(1)]] run])
  ultimately show ?thesis
    using assms(2,3) run
    by (cases r1) (auto simp: Gpio_initialize_def gpio_out_dev_del_def devs_only_def
        init_outcome_def destroy_lines_never_returns)
qed

lemma gpio_board_held:
  assumes "x \<in> held gpio_board (klog (gdrv gpio_board_machine))"
  shows "x \<noteq> Mapping a" "x = Gpio_line n \<Longrightarrow> n = 67" "x = Irq_line i d \<Longrightarrow> 0x1000 \<le> i"
proof -
  have ok: "sync_ok (sync_faults gpio_board) (drv gpio_board_sync)"
    by (rule sync.reach_inv [OF gpio_board_sync_reach])
  have "x \<in> all_held gpio_board id (drv gpio_board_sync) \<or> is_dev x"
    using Gpio_initialize_holds [OF ok gpio_board_Some assms] gpio_board_sync_holds
    by (simp add: sync_holds_def holding_def)
  then show "x \<noteq> Mapping a" "x = Gpio_line n \<Longrightarrow> n = 67" "x = Irq_line i d \<Longrightarrow> 0x1000 \<le> i"
    by (auto simp: all_held_def thread_held_def node_held_def gpio_board_timers split: prod.splits if_splits)
qed

text \<open>A wrong release stays in the log.\<close>

lemma keeps_bad:
  "keeps (\<lambda>s. x \<in> set (bad_releases e (klog s))) (kcall e' c)"
  "keeps (\<lambda>s. x \<in> set (bad_releases e (klog s))) (kdo e' c)"
  by (rule keeps_kcall keeps_kdo, simp)+

lemma keeps_bad_wr:
  "(\<And>s. klog (f s) = klog s) \<Longrightarrow> keeps (\<lambda>s. x \<in> set (bad_releases e (klog s))) (wr f)"
  by (rule keeps_wr) simp

lemma keeps_bad_restore:
  "keeps (\<lambda>s. x \<in> set (bad_releases e (klog s))) (RestorePreviousGpioMode e' n)"
  unfolding RestorePreviousGpioMode_def restore_previous_register_def restore_mode_def
    map_register_def out_of_bounds_def
  by (intro keeps_return keeps_rd keeps_if keeps_case_option keeps_let keeps_for_each keeps_bad
      keeps_bad_wr keeps_bind) simp

lemma wp_bad_stays:
  "x \<in> set (bad_releases e (klog s)) \<Longrightarrow>
     wp (RestorePreviousGpioMode e' n) (\<lambda>_. wp (ret y) (\<lambda>_ s'. x \<in> set (bad_releases e (klog s')))) s"
  unfolding wp_return by (rule keepsD [OF keeps_bad_restore])

section \<open>Lines in use on the board\<close>

abbreviation board_rest :: "resource set" where
  "board_rest \<equiv> held gpio_board (klog (gdrv gpio_board_machine))"

definition board_owned :: "gpio_machine \<Rightarrow> bool" where
  "board_owned m \<longleftrightarrow> gpio_reach gpio_board m \<and> owned gpio_board (\<lambda>n. n + 160) {99} board_rest
     (bad_releases gpio_board (klog (gdrv gpio_board_machine))) (gdrv m)"

lemma irq_low: "unat (n :: u32) < 192 \<Longrightarrow> \<not> 0x1000 \<le> n + 160"
proof -
  assume n: "unat n < 192"
  then have "unat (n + 160) = unat n + 160" by (subst unat_add_lem [THEN iffD1]) simp_all
  then show ?thesis using n by (simp add: word_le_nat_alt)
qed

lemma gpio_board_clean: "gpio_clean (\<lambda>n. n + 160) board_rest"
proof -
  have "\<not> 0x1000 \<le> word_of_nat n + (160 :: u32)" if "n < DRIVER_DEV_REGISTER_NB" for n
    using that unat_word_of_nat_u32 [of n] by (intro irq_low) simp
  then show ?thesis
    by (auto simp: gpio_clean_def no_maps_def dest: gpio_board_held(1,3))
qed

lemma gpio_board_idle: "all_idle (gdrv gpio_board_machine)"
  by (rule gpio_inserted_idle [OF gpio_board_inserted])

lemma board_owned_start: "board_owned gpio_board_machine"
proof -
  have "gpio_inv (gdrv gpio_board_machine)"
    using gpio.reach_inv [OF gpio_board_reach] by (simp add: gpio_ok_def)
  then show ?thesis
    using gpio_board_reach gpio_board_idle by (simp add: board_owned_def owned_start all_idle_def)
qed

lemma board_owned_step:
  "board_owned m \<Longrightarrow> gpio_exec gpio_board ev m = Some m' \<Longrightarrow> board_owned m'"
  using gpio_exec_owned [OF gpio_board_fair gpio_board_clean] gpio_board_never_fails
  by (auto simp: board_owned_def gpio_step_def intro: reach_step)

text \<open>A line of the board: its number is its device number, and nobody else uses it.\<close>

definition board_line :: "u32 \<Rightarrow> bool" where
  "board_line k \<longleftrightarrow> unat k < DRIVER_DEV_REGISTER_NB \<and> k AND 0xFFFFF = k \<and> k \<noteq> 67 \<and> k \<noteq> 99"

lemma board_open:
  assumes "board_owned m" "board_line k" "bIsOpened (attrs (unat k) (gdrv m)) = 0"
  obtains m' where "gpio_exec gpio_board (Open_gpio k md) m = Some m'" "board_owned m'"
    "line_by (unat k) (opened_as (if md AND 1 \<noteq> 0 then INPUT else OUTPUT)
       (bValue (attrs (unat k) (gdrv m')))) (m_pGpioAttributesTab (gdrv m)) (gdrv m')"
proof -
  have k: "unat k < DRIVER_DEV_REGISTER_NB" "k AND 0xFFFFF = k" "k \<noteq> 67" "k \<noteq> 99" "\<not> k <s 0"
    using assms(2) sint_u32_small [of k] by (auto simp: board_line_def word_sless_alt)
  let ?m = "gafter (Gpio_open gpio_board k md) m"
  have ex: "gpio_exec gpio_board (Open_gpio k md) m = Some ?m"
    using k by (simp add: gpio_exec_def)
  have rest: "Gpio_line k \<notin> board_rest" using gpio_board_held(2) k(3) by blast
  have taken: "k \<notin> {99}" using k(4) by simp
  note own = conjunct2 [OF assms(1) [unfolded board_owned_def]]
  have "line_by (unat k) (opened_as (if md AND 1 \<noteq> 0 then INPUT else OUTPUT)
       (bValue (attrs (unat k) (gdrv ?m)))) (m_pGpioAttributesTab (gdrv m)) (gdrv ?m)"
    using k wp_open_line_succeeds [OF gpio_board_fair gpio_board_clean own k(1) taken rest assms(3) gpio_board_never_fails, of md]
    by (simp only: gdrv_gafter Gpio_open_def CheckMinor_def with_line_def wp_fst_snd Let_def
        gpio_board_simps if_True if_False)
  with ex that board_owned_step [OF assms(1) ex] show thesis by blast
qed

definition armed_as :: "GpioAttributes \<Rightarrow> GpioAttributes" where
  "armed_as g = g\<lparr>bMode := IT_MODE, uiTriggerMode := IRQF_TRIGGER_RISING, bDone := 0\<rparr>"

lemma board_arm:
  assumes "board_owned m" "board_line k" "bIsOpened (attrs (unat k) (gdrv m)) = 1"
    and "bMode (attrs (unat k) (gdrv m)) = IO_MODE"
  obtains m' where
    "gpio_exec gpio_board (Ioctl_gpio k GPIO_IOCTL_SET_INTERRUPT IRQF_TRIGGER_RISING) m = Some m'"
    "board_owned m'"
    "m_pGpioAttributesTab (gdrv m') = (m_pGpioAttributesTab (gdrv m))
       [unat k := armed_as (attrs (unat k) (gdrv m))]"
proof -
  let ?ev = "Ioctl_gpio k GPIO_IOCTL_SET_INTERRUPT IRQF_TRIGGER_RISING"
  let ?m = "gafter (Gpio_ioctl gpio_board k GPIO_IOCTL_SET_INTERRUPT IRQF_TRIGGER_RISING) m"
  have k: "unat k < DRIVER_DEV_REGISTER_NB" "k AND 0xFFFFF = k"
    using assms(2) by (auto simp: board_line_def)
  have ex: "gpio_exec gpio_board ?ev m = Some ?m"
    using k assms(3) by (simp add: gpio_exec_def node_open_def)
  have "length (m_pGpioAttributesTab (gdrv m)) = DRIVER_DEV_REGISTER_NB"
    using assms(1) by (simp add: board_owned_def owned_def)
  with k assms(4) have "m_pGpioAttributesTab (gdrv ?m) = (m_pGpioAttributesTab (gdrv m))
       [unat k := armed_as (attrs (unat k) (gdrv m))]"
    by (simp add: Gpio_ioctl_def CheckMinor_def with_line_def gpio_ioctl_set_interrupt_def
        release_for_interrupt_def gpio_answer_def board_answer_def put_attrs_def armed_as_def)
  with ex that board_owned_step [OF assms(1) ex] show thesis by blast
qed

text \<open>Opened as an input and put in IT mode, the other lines as they were.\<close>

lemma board_armed:
  assumes "board_owned m" "board_line k" "bIsOpened (attrs (unat k) (gdrv m)) = 0"
  obtains m' where "board_owned m'" "bMode (attrs (unat k) (gdrv m')) = IT_MODE"
    "bDone (attrs (unat k) (gdrv m')) = 0" "bIsOpened (attrs (unat k) (gdrv m')) = 1"
    "\<forall>j. j \<noteq> unat k \<longrightarrow> attrs j (gdrv m') = attrs j (gdrv m)"
proof -
  obtain m1 where m1: "board_owned m1" "line_by (unat k)
      (opened_as (if (1 :: u32) AND 1 \<noteq> 0 then INPUT else OUTPUT) (bValue (attrs (unat k) (gdrv m1))))
      (m_pGpioAttributesTab (gdrv m)) (gdrv m1)"
    by (rule board_open [OF assms(1-3)])
  have open1: "bIsOpened (attrs (unat k) (gdrv m1)) = 1" "bMode (attrs (unat k) (gdrv m1)) = IO_MODE"
    using line_by_fields(1,2) [OF m1(2)] by (simp_all add: opened_as_def)
  obtain m2 where m2: "board_owned m2" "m_pGpioAttributesTab (gdrv m2) =
      (m_pGpioAttributesTab (gdrv m1))[unat k := armed_as (attrs (unat k) (gdrv m1))]"
    by (rule board_arm [OF m1(1) assms(2) open1])
  have len: "unat k < length (m_pGpioAttributesTab (gdrv m1))"
    using m1(1) assms(2) by (simp add: board_owned_def owned_def board_line_def)
  show thesis
    by (rule that [OF m2(1)])
      (use len open1 m1(2) in \<open>simp_all add: m2(2) armed_as_def line_by_def\<close>)
qed

lemma board_closed: "n < DRIVER_DEV_REGISTER_NB \<Longrightarrow> bIsOpened (attrs n (gdrv gpio_board_machine)) = 0"
  using gpio_board_idle by (simp add: all_idle_def)

lemma board_two_armed:
  obtains m where "board_owned m" "\<forall>k \<in> {5, 6}. bMode (attrs k (gdrv m)) = IT_MODE \<and>
    bDone (attrs k (gdrv m)) = 0 \<and> bIsOpened (attrs k (gdrv m)) = 1"
proof -
  obtain m1 where m1: "board_owned m1" "bMode (attrs (unat (5 :: u32)) (gdrv m1)) = IT_MODE"
    "bDone (attrs (unat (5 :: u32)) (gdrv m1)) = 0" "bIsOpened (attrs (unat (5 :: u32)) (gdrv m1)) = 1"
    "\<forall>j. j \<noteq> unat (5 :: u32) \<longrightarrow> attrs j (gdrv m1) = attrs j (gdrv gpio_board_machine)"
    by (rule board_armed [OF board_owned_start, of 5]) (simp_all add: board_line_def board_closed)
  have closed: "bIsOpened (attrs (unat (6 :: u32)) (gdrv m1)) = 0"
    using m1(5) board_closed [of 6] by simp
  obtain m2 where m2: "board_owned m2" "bMode (attrs (unat (6 :: u32)) (gdrv m2)) = IT_MODE"
    "bDone (attrs (unat (6 :: u32)) (gdrv m2)) = 0" "bIsOpened (attrs (unat (6 :: u32)) (gdrv m2)) = 1"
    "\<forall>j. j \<noteq> unat (6 :: u32) \<longrightarrow> attrs j (gdrv m2) = attrs j (gdrv m1)"
    by (rule board_armed [OF m1(1) _ closed]) (simp_all add: board_line_def)
  show thesis by (rule that [OF m2(1)]) (use m1(2-4) m2(2-5) in simp)
qed

end
