(* ===== verification/Gpio_Props.thy ===== *)
theory Gpio_Props
  imports Gpio_Behaviour
begin

text \<open>
  The properties of the GPIO driver, with their witnesses on the kernel \<open>gpio_board\<close>.
\<close>

section \<open>The machine\<close>

text \<open>C17: In every state the two inserted drivers can reach, whatever the kernel answers and in
  whatever order the interrupts, the thread's steps and the system calls of both drivers come,
  every one of the 192 lines is as the driver means it: its label and pad registers are those of
  the line, its mode, direction and flags are known values, its debounce delay is at most 500 ms;
  the synchronization driver's invariant holds beside it. No table has been accessed out of bounds
  in either driver; nothing has been divided by zero if the timer clocks run at 1 MHz at least, and
  no error pointer has been used if the kernel can create threads.\<close>

theorem gpio_invariant:
  assumes "gpio_reach e m"
  shows "gpio_inv (gdrv m) \<and> sync_inv (gdrv m) \<and> faults (klog (gdrv m)) \<subseteq>
    (if fast_clocks e then {} else {Division_by_zero}) \<union> (if threads_start e then {} else {Bad_pointer})"
  using gpio.reach_inv [OF assms] by (simp add: gpio_ok_def sync_ok_def sync_faults_def)

text \<open>The witness's state comes after a \<open>read\<close> of the synchronization driver and an open line.\<close>

theorem gpio_invariant_witness:
  "\<exists>m1 m2. gpio_exec gpio_board (Sync_call (Read_sync 0x1000 13)) gpio_board_machine = Some m1 \<and>
     gpio_exec gpio_board (Open_gpio 5 1) m1 = Some m2 \<and>
     gpio_inv (gdrv m2) \<and> sync_inv (gdrv m2) \<and> safe_log (klog (gdrv m2))"
proof -
  have "gpio_exec gpio_board (Sync_call (Read_sync 0x1000 13)) gpio_board_machine \<noteq> None"
    by (simp add: gpio_exec_def sync_exec_def split: prod.splits read_result.splits)
  then obtain m1 where m1: "gpio_exec gpio_board (Sync_call (Read_sync 0x1000 13)) gpio_board_machine = Some m1"
    by blast
  obtain m2 where m2: "gpio_exec gpio_board (Open_gpio 5 1) m1 = Some m2"
    by (simp add: gpio_exec_def)
  have "gpio_reach gpio_board m2"
    by (rule reach_step [OF reach_step [OF gpio_board_reach]])
      (rule m1 m2 gpio_step_def [THEN iffD2])+
  from gpio_invariant [OF this] m1 m2 show ?thesis
    by (simp add: gpio_board_fast gpio_board_threads safe_log_faults)
qed

text \<open>C18: Inserting the GPIO driver beside a running synchronization driver either returns 0 with
  the invariant established and every line closed, or returns one of the three errors that come before any node is
  created, or does not return at all.\<close>

theorem gpio_initialize_outcome:
  assumes "sync_reach e m0"
  shows "(\<exists>s. Gpio_initialize e (gpio_globals (drv m0)) = Some (0, s) \<and> gpio_inv s \<and> all_idle s) \<or>
    (\<exists>x s. Gpio_initialize e (gpio_globals (drv m0)) = Some (gpio_err x, s) \<and>
       x \<in> {ERR_GPIO_INIT_ALLOC_CHRDEV_REGION, ERR_GPIO_INIT_CDEV_ADD, ERR_GPIO_INIT_CLASS_CREATE}) \<or>
    Gpio_initialize e (gpio_globals (drv m0)) = None"
  using Gpio_initialize_outcome [OF sync.reach_inv [OF assms], of e] by (auto simp: gpio_ok_def)

theorem gpio_initialize_outcome_witness:
  "\<exists>s. Gpio_initialize gpio_board (gpio_globals (drv gpio_board_sync)) = Some (0, s) \<and> all_idle s"
  using gpio_initialize_outcome [OF gpio_board_sync_reach] gpio_board_Some by auto

text \<open>C19: When the node of one of the 192 lines cannot be created, the insertion never returns:
  the loop that destroys the nodes made so far tests \<open>iNbToDestroy\<close>, which it never changes, so
  the driver's error \<open>ERR_GPIO_INIT_DEVICE_CREATE\<close> is never returned.\<close>

theorem gpio_initialize_never_returns:
  assumes "n < DRIVER_DEV_REGISTER_NB"
    and "\<forall>l c d. k_IS_ERR e (answer e l (KDev (Device_create c d (node_name n))))"
    and "\<forall>l k x. 0 \<le>s answer e l (KDev (Alloc_chrdev_region k x))"
    and "\<forall>l d k. answer e l (KDev (Cdev_add d k)) = 0"
    and "\<forall>l x. \<not> k_IS_ERR e (answer e l (KDev (Class_create x)))"
  shows "Gpio_initialize e s = None"
  using assms by (intro Gpio_initialize_hangs) (simp_all add: node_fails_def)

definition full_board :: kernel where
  "full_board = board\<lparr>answer := \<lambda>l c. case c of
     KDev (Device_create cl d x) \<Rightarrow> - ENOMEM | _ \<Rightarrow> board_answer l c\<rparr>"

theorem gpio_initialize_never_returns_witness:
  "Gpio_initialize full_board (gpio_globals sync_globals) = None"
  using gpio_initialize_never_returns [of 5 full_board "gpio_globals sync_globals"]
  by (simp add: full_board_def board_answer_def word_sle_eq)

section \<open>Pads\<close>

text \<open>C20: In every reachable state a line has the pad registers of the OMAP manual's ranges: none
  for line 33, two for eight lines, one for the others, all at even addresses between 0x4800207A
  and 0x48002A26, and no register is shared by two lines or used twice by one.\<close>

theorem pad_registers:
  assumes "gpio_reach e m" "n < 192"
  shows "unat (uiNbMuxed (attrs n (gdrv m))) =
      (if n = 33 then 0 else if n \<in> {120, 121, 122, 124, 125, 126, 130, 131} then 2 else 1) \<and>
    (\<forall>i < unat (uiNbMuxed (attrs n (gdrv m))).
      unat (uiRegisterAdress (attrs n (gdrv m)) ! i) \<in> {0x4800207A..0x48002A26} \<and>
      even (unat (uiRegisterAdress (attrs n (gdrv m)) ! i)) \<and>
      (\<forall>n' < 192. \<forall>i' < unat (uiNbMuxed (attrs n' (gdrv m))).
        uiRegisterAdress (attrs n (gdrv m)) ! i = uiRegisterAdress (attrs n' (gdrv m)) ! i' \<longrightarrow>
        n = n' \<and> i = i'))"
proof -
  have inv: "gpio_inv (gdrv m)" using gpio.reach_inv [OF assms(1)] by (simp add: gpio_ok_def)
  note n = gpio_inv_attrs [OF inv assms(2)]
  have inj: "n = n' \<and> i = i'" if "i < mux_count n" "n' < 192" "i' < unat (uiNbMuxed (attrs n' (gdrv m)))"
    "uiRegisterAdress (attrs n (gdrv m)) ! i = uiRegisterAdress (attrs n' (gdrv m)) ! i'" for i n' i'
    using mux_registers_inj [OF assms(2) that(1,2)] gpio_inv_attrs(1,2) [OF inv that(2)] that(3,4) n(1)
    by simp
  show ?thesis
  proof (intro conjI allI impI)
    show "unat (uiNbMuxed (attrs n (gdrv m))) =
        (if n = 33 then 0 else if n \<in> {120, 121, 122, 124, 125, 126, 130, 131} then 2 else 1)"
      by (simp only: n(2) mux_count_def)
  qed (use inj mux_register_bounds [OF assms(2)] in \<open>simp_all only: n(1,2) atLeastAtMost_iff simp_thms\<close>)
qed

theorem pad_registers_witness:
  "unat (uiNbMuxed (attrs 120 (gdrv gpio_board_machine))) = 2"
  using pad_registers [OF gpio_board_reach, of 120] by simp

text \<open>C21: The mode every pad had when the GPIO driver was inserted is the mode it has after the
  removal, whatever has been opened, left open, configured and closed in between, if the pad
  registers can be mapped and behave as registers.\<close>

theorem removal_restores_pads:
  assumes "register_file e pads vmap reg0" "sync_reach e m0"
    and "Gpio_initialize e (gpio_globals (drv m0)) = Some (0, gdrv m)" "gpio_runs e m evs m'"
    and "n < 192" "i < mux_count n"
  shows "wp (Gpio_cleanup e) (\<lambda>_ s. reg_value reg0 (klog s) (vmap (mux_registers n ! i)) =
    reg_value reg0 (klog (drv m0)) (vmap (mux_registers n ! i))) (gdrv m')"
proof -
  note ok = sync.reach_inv [OF assms(2)]
  have m: "gpio_ok (sync_faults e) (gdrv m)"
    using Gpio_initialize_outcome [OF ok, of e] assms(3) by auto
  have m': "gpio_inv (gdrv m')"
    using gpio.runs_inv [OF assms(4)] m by (simp add: gpio_ok_def)
  have saved: "modes_saved vmap (regs reg0 (drv m0)) [] 0 [] (gdrv m)"
    by (rule Gpio_initialize_saves [OF assms(1) ok assms(3)])
  have "defaults (gdrv m') ! n ! i = ucast (regs reg0 (drv m0) (pad_at vmap n i))"
    using saved assms(5,6) unfolding gpio_runs_defaults [OF assms(4)]
    by (simp add: modes_saved_def attrs_defaults [symmetric])
  then show ?thesis
    using assms(5,6)
    by (intro wp_mono [OF wp_Gpio_cleanup [OF assms(1) m']])
      (simp add: modes_back_def ucast_u16_u32)
qed

theorem removal_restores_pads_witness:
  "wp (Gpio_cleanup gpio_board)
     (\<lambda>_ s. reg_value (\<lambda>_. 0x010F) (klog s) 0x4800217A =
        reg_value (\<lambda>_. 0x010F) (klog (drv gpio_board_sync)) 0x4800217A)
     (gdrv gpio_board_machine)"
proof -
  have "mux_registers 147 ! 0 = 0x4800217A"
    by (simp add: mux_registers_def pad_ranges_def range_upd_def)
  then show ?thesis
    using removal_restores_pads [OF gpio_board_register_file gpio_board_sync_reach gpio_board_Some
        runs_Nil, of 147 0]
    by (simp add: mux_count_def)
qed

text \<open>C22: Closing a line undoes what opening it did to the pads: if a line that is not in use is
  opened, whatever calls and interrupts come that open and close nothing, and the line is closed,
  then every register has the mode it had before the open.\<close>

theorem close_undoes_open:
  assumes "register_file e pads vmap reg0" "gpio_reach e m" "gpio_exec e (Open_gpio d md) m = Some m1"
    and "bIsOpened (attrs (unat (k_MINOR e d)) (gdrv m)) = 0"
    and "gpio_runs e m1 evs m2" "\<forall>ev \<in> set evs. (\<forall>d md. ev \<noteq> Open_gpio d md) \<and> (\<forall>d. ev \<noteq> Close_gpio d)"
    and "gpio_exec e (Close_gpio d) m2 = Some m3"
  shows "reg_value reg0 (klog (gdrv m3)) = reg_value reg0 (klog (gdrv m))"
proof -
  let ?k = "k_MINOR e d"
  let ?T = "pads_taken reg0 vmap (regs reg0 (gdrv m)) (unat ?k) {..<mux_count (unat ?k)}"
  have k: "unat ?k < 192" using assms(3) by (auto simp: gpio_exec_def split: if_splits)
  then have sk: "\<not> ?k <s 0"
    using sint_u32_small [of ?k] by (simp add: word_sless_alt)
  have inv: "gpio_inv (gdrv m)" using gpio.reach_inv [OF assms(2)] by (simp add: gpio_ok_def)
  have "?T (gdrv m1)"
    using wp_open_line_taken [OF assms(1) inv k assms(4), of md] assms(3) k sk
    by (auto simp: gpio_exec_def Gpio_open_def CheckMinor_def with_line_def wp_fst_snd split: if_splits)
  with assms(5,6) have T2: "?T (gdrv m2)"
  proof (induction rule: runs.induct)
    case (runs_Cons s v s' vs s'')
    have "?T (gdrv s')"
      by (rule taken_frame.frame_exec [of e v s s'])
        (use runs_Cons.hyps(1) runs_Cons.prems in \<open>auto simp: gpio_step_def\<close>)
    with runs_Cons show ?case by simp
  qed
  have reach: "gpio_reach e m2"
    by (rule gpio.runs_reach [OF assms(5)], rule reach_step [OF assms(2)])
      (use assms(3) in \<open>simp add: gpio_step_def\<close>)
  have inv2: "gpio_inv (gdrv m2)" using gpio.reach_inv [OF reach] by (simp add: gpio_ok_def)
  show ?thesis
    using wp_close_line_back [OF assms(1) inv2 k T2] assms(7) k sk
    by (auto simp: gpio_exec_def Gpio_close_def CheckMinor_def with_line_def wp_fst_snd split: if_splits)
qed

theorem close_undoes_open_witness:
  "\<exists>m1 m3. gpio_exec gpio_board (Open_gpio 5 1) gpio_board_machine = Some m1 \<and>
     bIsOpened (attrs 5 (gdrv m1)) = 1 \<and> gpio_exec gpio_board (Close_gpio 5) m1 = Some m3 \<and>
     reg_value (\<lambda>_. 0x010F) (klog (gdrv m3)) = reg_value (\<lambda>_. 0x010F) (klog (gdrv gpio_board_machine))"
proof -
  have closed: "bIsOpened (attrs (unat (5 :: u32)) (gdrv gpio_board_machine)) = 0"
    using gpio_board_idle by (simp add: all_idle_def)
  obtain m1 where m1: "gpio_exec gpio_board (Open_gpio 5 1) gpio_board_machine = Some m1"
    "line_by (unat (5 :: u32)) (opened_as (if (1 :: u32) AND 1 \<noteq> 0 then INPUT else OUTPUT)
       (bValue (attrs (unat (5 :: u32)) (gdrv m1)))) (m_pGpioAttributesTab (gdrv gpio_board_machine)) (gdrv m1)"
    by (rule board_open [OF board_owned_start _ closed, of 1]) (simp add: board_line_def)
  have opened: "bIsOpened (attrs 5 (gdrv m1)) = 1"
    using line_by_fields(1) [OF m1(2)] by (simp add: opened_as_def)
  obtain m3 where m3: "gpio_exec gpio_board (Close_gpio 5) m1 = Some m3"
    using opened by (simp add: gpio_exec_def node_open_def)
  show ?thesis
    using close_undoes_open [OF gpio_board_register_file gpio_board_reach m1(1) _ runs_Nil _ m3]
      closed m1(1) opened m3 by simp
qed

text \<open>C23: An open that fails because other code uses the line leaves the line closed but its pads
  changed: the first one is in GPIO mode, the others in safe mode, whatever the other code had set.
  The driver forces the modes before it asks for the line and no error path restores them.\<close>

theorem busy_open_changes_pads:
  assumes "register_file e pads vmap reg0" "gpio_reach e m"
    and "gpio_exec e (Open_gpio d md) m = Some m'" "k = k_MINOR e d"
    and "bIsOpened (attrs (unat k) (gdrv m)) = 0"
    and "\<forall>l x. answer e l (KGpio (Gpio_request k x)) \<noteq> 0" "i < mux_count (unat k)"
  shows "fst (run_state (Gpio_open e d md) (gdrv m)) = gpio_err ERR_GPIO_OPEN_GPIO_BUSY_OUT_DRIVER \<and>
    bIsOpened (attrs (unat k) (gdrv m')) = 0 \<and>
    reg_value reg0 (klog (gdrv m')) (vmap (mux_registers (unat k) ! i)) =
      (if i = 0 then GPIO_PIN_MODE else SAFE_PIN_MODE)"
proof -
  have k: "unat k < 192" using assms(3,4) by (auto simp: gpio_exec_def split: if_splits)
  then have sk: "\<not> k <s 0" using sint_u32_small [of k] by (simp add: word_sless_alt)
  have "gpio_inv (gdrv m)" using gpio.reach_inv [OF assms(2)] by (simp add: gpio_ok_def)
  from wp_open_line_busy [OF assms(1) this k assms(5,6), of md] show ?thesis
    using assms(3,4,7) k sk
    by (auto simp: gpio_exec_def Gpio_open_def CheckMinor_def with_line_def wp_fst_snd pads_set_def
        split: if_splits)
qed

theorem busy_open_changes_pads_witness:
  "\<exists>m'. gpio_exec gpio_board (Open_gpio 99 1) gpio_board_machine = Some m' \<and>
     bIsOpened (attrs 99 (gdrv m')) = 0 \<and> reg_value (\<lambda>_. 0x010F) (klog (gdrv m')) 0x48002116 = 0x010C"
proof -
  let ?m = "gafter (Gpio_open gpio_board 99 1) gpio_board_machine"
  have ex: "gpio_exec gpio_board (Open_gpio 99 1) gpio_board_machine = Some ?m"
    by (simp add: gpio_exec_def)
  have pad: "mux_registers 99 ! 0 = 0x48002116"
    by (simp add: mux_registers_def pad_ranges_def range_upd_def)
  have "bIsOpened (attrs 99 (gdrv gpio_board_machine)) = 0" "\<forall>l x. gpio_answer l (KGpio (Gpio_request 99 x)) \<noteq> 0"
    using gpio_board_idle by (simp_all add: all_idle_def gpio_answer_def)
  with busy_open_changes_pads [OF gpio_board_register_file gpio_board_reach ex, of 99 0] ex pad
  show ?thesis by (simp add: mux_count_def)
qed

section \<open>Interrupts\<close>

text \<open>C24: An interrupt on a line in IT mode reaches its reader once: the handler samples the level,
  waits and wakes the reader; after it \<open>poll\<close> says readable, the next \<open>read\<close> does not sleep and its
  only call sends the user the level that this handler has sampled, as one digit and a NUL, and
  after that \<open>poll\<close> says not readable. The three logs are those after the handler, before the read
  and after it.\<close>

theorem interrupt_handshake:
  assumes "gpio_reach e m" "k_MINOR e d = k" "unat k < 192"
    and "bMode (attrs (unat k) (gdrv m)) = IT_MODE" "\<not> sz < 2"
  shows "wp (do { GpioIrqHandler e k; l1 \<leftarrow> rd klog; p \<leftarrow> Gpio_poll e d; l2 \<leftarrow> rd klog;
      r \<leftarrow> Gpio_read e d buf sz; l3 \<leftarrow> rd klog; q \<leftarrow> Gpio_poll e d; ret (p, r, q, l1, l2, l3) })
    (\<lambda>(p, r, q, l1, l2, l3) s'. p = POLLIN OR POLLRDNORM \<and> q = 0 \<and>
      (\<exists>v left l. l1 = klog (gdrv m) @ l \<and> irq_events k v l \<and>
        l3 = l2 @ [(sent buf v, left)] \<and> r = read_answer left)) (gdrv m)"
proof -
  have len: "length (fst (table (gdrv m))) = DRIVER_DEV_REGISTER_NB"
    using gpio.reach_inv [OF assms(1)] by (simp add: gpio_ok_def gpio_inv_def table_def)
  have it: "bMode (fst (table (gdrv m)) ! unat k) = IT_MODE" using assms(4) by (simp add: table_def)
  show ?thesis
    apply (simp only: wp_bind)
    apply (rule wp_mono [OF wp_irq], use len assms(3) in simp, rule assms(3))
    apply (elim exE conjE, simp only: wp_bind wp_rd)
    apply (rule wp_mono [OF wp_Gpio_poll [OF assms(2,3)]], elim conjE, simp only: wp_bind wp_rd)
    apply (rule wp_mono [OF wp_Gpio_read [OF assms(2,3,5)]])
      apply (use len in simp, use len it assms(3) in \<open>simp add: interrupted_def\<close>)
    apply (simp only: wp_bind wp_rd)
    apply (rule wp_mono [OF wp_Gpio_poll [OF assms(2,3)]])
    apply (use len it assms(3) in \<open>auto simp: waits_def interrupted_def wp_return\<close>)
    done
qed

theorem interrupt_handshake_witness:
  "\<exists>m. gpio_reach gpio_board m \<and> wp (do { GpioIrqHandler gpio_board 5; l1 \<leftarrow> rd klog;
      p \<leftarrow> Gpio_poll gpio_board 5; l2 \<leftarrow> rd klog; r \<leftarrow> Gpio_read gpio_board 5 0x1000 2;
      l3 \<leftarrow> rd klog; q \<leftarrow> Gpio_poll gpio_board 5; ret (p, r, q, l1, l2, l3) })
    (\<lambda>(p, r, q, l1, l2, l3) s'. p = POLLIN OR POLLRDNORM \<and> q = 0 \<and>
      (\<exists>v left l. l1 = klog (gdrv m) @ l \<and> irq_events 5 v l \<and>
        l3 = l2 @ [(sent 0x1000 v, left)] \<and> r = read_answer left)) (gdrv m)"
proof -
  obtain m where m: "board_owned m" "\<forall>k \<in> {5, 6}. bMode (attrs k (gdrv m)) = IT_MODE \<and>
    bDone (attrs k (gdrv m)) = 0 \<and> bIsOpened (attrs k (gdrv m)) = 1"
    by (rule board_two_armed)
  then have "gpio_reach gpio_board m" by (simp add: board_owned_def)
  from this interrupt_handshake [OF this, of 5 5 2 "0x1000"] m(2) show ?thesis by (intro exI [of _ m]) simp
qed

text \<open>C25: The date of an interrupt is that of its moment: after an interrupt on a line,
  \<open>GPIO_IOCTL_GET_LAST_IT_GD_DATA\<close> sends what the synchronization driver's exported function gave
  at the interrupt, with the official second, quartz error and mode of that time, whatever pulses,
  clock changes, system calls and interrupts on other lines come in between.\<close>

theorem interrupt_is_dated:
  assumes "gpio_reach e m" "gpio_exec e (Gpio_interrupt k) m = Some m1"
    and "gpio_runs e m1 evs m2" "Gpio_interrupt k \<notin> set evs" "k_MINOR e d = k"
    and "gpio_exec e (Ioctl_gpio d GPIO_IOCTL_GET_LAST_IT_GD_DATA arg) m2 = Some m3"
  shows "\<exists>D left. klog (gdrv m3) = klog (gdrv m2) @
      [(KUser (Copy_to_user arg (GdData D) sizeof_GeoDatationData), left)] \<and>
    D = exported e (gdrv m) \<and> oData D = m_oGpsOfficialData (gdrv m) \<and>
    iQuartzError D = m_iAverageTimerErrorValue (gdrv m) \<and>
    iDriverMode D = m_uiDriverRunningMode (gdrv m)"
proof -
  let ?D = "exported e (gdrv m)"
  have k: "unat k < DRIVER_DEV_REGISTER_NB" using assms(2) by (simp add: gpio_exec_def split: if_splits)
  have len: "unat k < length (fst (table (gdrv m)))"
    using gpio.reach_inv [OF assms(1)] k by (simp add: gpio_ok_def gpio_inv_def table_def)
  have "last_date (unat k) ?D (gdrv m1)"
    using wp_irq [OF len k, of e] assms(2) k len
    by (auto simp: gpio_exec_def wp_fst_snd last_date_def table_fields interrupted_def)
  then have D: "oLastItGDData (attrs (unat k) (gdrv m2)) = ?D"
    using gpio_runs_date [OF assms(3) _ assms(4)] by (simp add: last_date_def)
  have "m3 = gafter (Gpio_ioctl e d GPIO_IOCTL_GET_LAST_IT_GD_DATA arg) m2"
    using assms(6) by (simp add: gpio_exec_def split: if_splits)
  then have "klog (gdrv m3) = klog (gdrv m2) @
      [(KUser (Copy_to_user arg (GdData ?D) sizeof_GeoDatationData),
        answer e (klog (gdrv m2)) (KUser (Copy_to_user arg (GdData ?D) sizeof_GeoDatationData)))]"
    using D k assms(5)
    by (simp add: Gpio_ioctl_def CheckMinor_def with_line_def gpio_ioctl_get_last_it_def)
  then show ?thesis using exported_fields [of e "gdrv m"] by blast
qed

theorem interrupt_is_dated_witness:
  "\<exists>m (m3 :: gpio_machine) D left l. gpio_reach gpio_board m \<and> klog (gdrv m3) = l @
      [(KUser (Copy_to_user 0x1000 (GdData D) sizeof_GeoDatationData), left)] \<and>
    oData D = m_oGpsOfficialData (gdrv m)"
proof -
  obtain m where m: "board_owned m" "\<forall>k \<in> {5, 6}. bMode (attrs k (gdrv m)) = IT_MODE \<and>
    bDone (attrs k (gdrv m)) = 0 \<and> bIsOpened (attrs k (gdrv m)) = 1"
    by (rule board_two_armed)
  then have reach: "gpio_reach gpio_board m" by (simp add: board_owned_def)
  have len: "length (fst (table (gdrv m))) = DRIVER_DEV_REGISTER_NB"
    using m(1) by (simp add: board_owned_def owned_def table_def)
  let ?m1 = "gafter (GpioIrqHandler gpio_board 5) m"
  let ?m2 = "sync_back ?m1 (after (PpsTimerIrqHandler gpio_board) (sync_view ?m1))"
  let ?get = "Ioctl_gpio 5 GPIO_IOCTL_GET_LAST_IT_GD_DATA 0x1000"
  have open1: "bIsOpened (fst (table (gdrv ?m1)) ! 5) = 1"
    using wp_irq [of 5 "gdrv m" gpio_board] len m(2)
    by (auto simp: wp_fst_snd interrupted_def table_def)
  have "table (gdrv ?m2) = table (gdrv ?m1)"
    using keepsD [OF table_frame.frame_PpsTimerIrqHandler [of "table (gdrv ?m1)" "[]" gpio_board],
      of "gdrv ?m1"] by (simp add: wp_fst_snd sync_back_def sync_view_def after_def)
  then have "bIsOpened (attrs 5 (gdrv ?m2)) = 1" using open1 by (simp add: table_def)
  then obtain m3 where m3: "gpio_exec gpio_board ?get ?m2 = Some m3"
    by (simp add: gpio_exec_def node_open_def)
  have irq: "gpio_exec gpio_board (Gpio_interrupt 5) m = Some ?m1" by (simp add: gpio_exec_def)
  have run: "gpio_runs gpio_board ?m1 [Sync_call Pps_pulse] ?m2"
    by (auto simp: gpio_step_def gpio_exec_def sync_exec_def intro!: runs.intros)
  obtain D left where D: "klog (gdrv m3) = klog (gdrv ?m2) @
      [(KUser (Copy_to_user 0x1000 (GdData D) sizeof_GeoDatationData), left)]"
    "oData D = m_oGpsOfficialData (gdrv m)"
    using interrupt_is_dated [OF reach irq run _ _ m3] by auto
  show ?thesis
    by (rule exI [of _ m], rule exI [of _ m3], rule exI [of _ D], rule exI [of _ left],
        rule exI [of _ "klog (gdrv ?m2)"]) (simp only: D reach simp_thms)
qed

text \<open>C26: Two readers that sleep share the static \<open>minor\<close> of \<open>Gpio_read\<close>: when a second reader
  has gone to sleep on line b, an interrupt on line a does not reach the reader of a: woken, it
  looks at b and sleeps again; and when b has its interrupt the reader of a, if it runs first, is
  sent the level of b, while the interrupt on a stays pending.\<close>

theorem two_readers_share_minor:
  assumes "gpio_reach e m" "k_MINOR e da = a" "k_MINOR e db = b" "unat a < 192" "unat b < 192"
    and "a \<noteq> b" "\<forall>k \<in> {a, b}. bMode (attrs (unat k) (gdrv m)) = IT_MODE \<and> bDone (attrs (unat k) (gdrv m)) = 0"
    and "\<not> sz < 2" "\<forall>l. answer e l (KSched Signal_pending) = 0"
  shows "wp (do { r1 \<leftarrow> Gpio_read e da bufa sz; r2 \<leftarrow> Gpio_read e db bufb sz; GpioIrqHandler e a;
      r3 \<leftarrow> Gpio_read_woken e bufa; GpioIrqHandler e b; r4 \<leftarrow> Gpio_read_woken e bufa;
      ret (r1, r2, r3, r4) })
    (\<lambda>(r1, r2, r3, r4) s'. r1 = Sleeping \<and> r2 = Sleeping \<and> r3 = Sleeping \<and>
      (\<exists>l left. klog s' = l @ [(sent bufa (bValue (attrs (unat b) s')), left)] \<and> r4 = read_answer left) \<and>
      bDone (attrs (unat a) s') = 1 \<and> bDone (attrs (unat b) s') = 0) (gdrv m)"
proof -
  let ?t = "fst (table (gdrv m))"
  have len: "length ?t = DRIVER_DEV_REGISTER_NB"
    using gpio.reach_inv [OF assms(1)] by (simp add: gpio_ok_def gpio_inv_def table_def)
  have ab: "unat a \<noteq> unat b" using assms(6) by (simp add: word_unat_eq_iff)
  have it: "bMode (?t ! unat a) = IT_MODE" "bMode (?t ! unat b) = IT_MODE"
    "bDone (?t ! unat a) = 0" "bDone (?t ! unat b) = 0"
    using assms(7) by (auto simp: table_def)
  note simps = len ab ab [symmetric] it assms(4,5) waits_def interrupted_def table_fields
  show ?thesis
    apply (simp only: wp_bind)
    apply (rule wp_mono [OF wp_Gpio_read [OF assms(2,4,8) len it(1)]], simp only: wp_bind)
    apply (rule wp_mono [OF wp_Gpio_read [OF assms(3,5,8)]], simp add: simps, simp add: simps)
    apply (simp only: wp_bind)
    apply (rule wp_mono [OF wp_irq], simp add: simps, rule assms(4))
    apply (elim exE conjE, simp only: wp_bind)
    apply (rule wp_mono [OF wp_Gpio_read_woken [OF assms(9)]], simp add: simps, simp add: simps)
    apply (simp only: wp_bind)
    apply (rule wp_mono [OF wp_irq], simp add: simps, rule assms(5))
    apply (elim exE conjE, simp only: wp_bind)
    apply (rule wp_mono [OF wp_Gpio_read_woken [OF assms(9)]], simp add: simps, simp add: simps)
    apply (auto simp: simps wp_return)
    done
qed

theorem two_readers_share_minor_witness:
  "\<exists>m. gpio_reach gpio_board m \<and> wp (do { r1 \<leftarrow> Gpio_read gpio_board 5 0x1000 2;
      r2 \<leftarrow> Gpio_read gpio_board 6 0x2000 2; GpioIrqHandler gpio_board 5;
      r3 \<leftarrow> Gpio_read_woken gpio_board 0x1000; GpioIrqHandler gpio_board 6;
      r4 \<leftarrow> Gpio_read_woken gpio_board 0x1000; ret (r1, r2, r3, r4) })
    (\<lambda>(r1, r2, r3, r4) s'. r1 = Sleeping \<and> r2 = Sleeping \<and> r3 = Sleeping \<and>
      (\<exists>l left. klog s' = l @ [(sent 0x1000 (bValue (attrs 6 s')), left)] \<and> r4 = read_answer left) \<and>
      bDone (attrs 5 s') = 1 \<and> bDone (attrs 6 s') = 0) (gdrv m)"
proof -
  obtain m where m: "board_owned m" "\<forall>k \<in> {5, 6}. bMode (attrs k (gdrv m)) = IT_MODE \<and>
    bDone (attrs k (gdrv m)) = 0 \<and> bIsOpened (attrs k (gdrv m)) = 1"
    by (rule board_two_armed)
  then have reach: "gpio_reach gpio_board m" by (simp add: board_owned_def)
  have "\<forall>l. gpio_answer l (KSched Signal_pending) = 0" by (simp add: gpio_answer_def board_answer_def)
  from two_readers_share_minor [OF reach, of 5 5 6 6 2 "0x1000" "0x2000"] this reach m(2)
  show ?thesis by (intro exI [of _ m]) simp
qed

section \<open>Resources and failures\<close>

text \<open>C27: With a kernel that grants a gpio line exactly when nobody has it and gives every line one
  interrupt, which nothing else in the module's log holds (\<open>gpio_fair\<close>, \<open>gpio_clean\<close>), and in a run
  in which no \<open>request_irq\<close> and no setting of a direction fails, an open line holds exactly its gpio
  (IO mode) or its interrupt (IT mode) and a closed line nothing, after any events of both drivers;
  and the driver never gives back what it does not hold, nor opens a line that other code uses.
  The two failures are excluded because the driver loses track after them: see
  \<open>failed_interrupt_request\<close> and \<open>failed_direction_leaks\<close>.\<close>

theorem lines_own_their_resources:
  assumes "gpio_fair e irq_of taken" "gpio_inserted e m" "R = held e (klog (gdrv m))"
    and "gpio_clean irq_of R" "gpio_runs e m evs m'" "never_fails e \<or> \<not> failed (klog (gdrv m'))"
  shows "held e (klog (gdrv m')) = R \<union> lines_res irq_of (m_pGpioAttributesTab (gdrv m')) \<and>
    bad_releases e (klog (gdrv m')) = bad_releases e (klog (gdrv m)) \<and>
    (\<forall>n < 192. bIsOpened (attrs n (gdrv m')) \<noteq> 0 \<longrightarrow>
       word_of_nat n \<notin> taken \<and> Gpio_line (word_of_nat n) \<notin> R)"
proof -
  have "gpio_reach e m" by (rule reach_start) (rule assms(2))
  then have "gpio_inv (gdrv m)" using gpio.reach_inv by (auto simp: gpio_ok_def)
  then have "owned e irq_of taken R (bad_releases e (klog (gdrv m))) (gdrv m)"
    unfolding assms(3) using gpio_inserted_idle [OF assms(2)]
    by (intro owned_start) (simp_all add: all_idle_def)
  from gpio_runs_owned [OF assms(5,1,4) disjI2 [OF this]] assms(6) show ?thesis
    by (auto simp: owned_def holding_def line_good_def)
qed

theorem lines_own_their_resources_witness:
  "\<exists>m'. gpio_runs gpio_board gpio_board_machine [Open_gpio 5 1] m' \<and>
     held gpio_board (klog (gdrv m')) = board_rest \<union>
       lines_res (\<lambda>n. n + 160) (m_pGpioAttributesTab (gdrv m')) \<and>
     bad_releases gpio_board (klog (gdrv m')) = bad_releases gpio_board (klog (gdrv gpio_board_machine))"
proof -
  let ?m = "gafter (Gpio_open gpio_board 5 1) gpio_board_machine"
  have run: "gpio_runs gpio_board gpio_board_machine [Open_gpio 5 1] ?m"
    by (auto simp: gpio_step_def gpio_exec_def intro!: runs.intros)
  from lines_own_their_resources [OF gpio_board_fair gpio_board_inserted refl gpio_board_clean
      run disjI1 [OF gpio_board_never_fails]] run
  show ?thesis by blast
qed

text \<open>When \<open>request_irq\<close> fails in \<open>GPIO_IOCTL_SET_INTERRUPT\<close>, the ioctl reports it but has
  already given the gpio back and put the line in IT mode; closing the node then frees an interrupt
  that the driver does not hold.\<close>

theorem failed_interrupt_request:
  fixes s :: gpio_state
  assumes "gpio_inv s" "k_MINOR e d = k" "unat k < 192" "arg \<in> {1, 2}"
    and "bMode (attrs (unat k) s) = IO_MODE" "\<forall>l. answer e l (KGpio (Gpio_to_irq k)) = irq"
    and "\<forall>l h t. answer e l (KIrq (Request_irq irq h t k)) \<noteq> 0"
    and "Irq_line irq k \<notin> held e (klog s)"
  shows "wp (do { r \<leftarrow> Gpio_ioctl e d GPIO_IOCTL_SET_INTERRUPT arg; Gpio_close e d; ret r })
    (\<lambda>r s'. r = gpio_err ERR_GPIO_IOCTL_INTERRUPTION_REQUEST \<and>
       Irq_line irq k \<in> set (bad_releases e (klog s'))) s"
proof -
  have k: "\<not> k <s 0" using assms(3) sint_u32_small [of k] by (simp add: word_sless_alt)
  have len: "unat k < length (m_pGpioAttributesTab s)"
    using assms(1,3) by (simp add: gpio_inv_def)
  have failed: "wp (Gpio_ioctl e d GPIO_IOCTL_SET_INTERRUPT arg)
      (\<lambda>r s'. r = gpio_err ERR_GPIO_IOCTL_INTERRUPTION_REQUEST \<and>
        bMode (attrs (unat k) s') = IT_MODE \<and> Irq_line irq k \<notin> held e (klog s')) s"
    using assms(2-8) len
    by (auto simp: Gpio_ioctl_def CheckMinor_def gpio_ioctl_set_interrupt_def
        release_for_interrupt_def wp_simps resp_def held_step_def)
  have close: "wp (Gpio_close e d) (\<lambda>_ s'. Irq_line irq k \<in> set (bad_releases e (klog s'))) s'"
    if "bMode (attrs (unat k) s') = IT_MODE" "Irq_line irq k \<notin> held e (klog s')" for s' :: gpio_state
    using that assms(2,3,6) k
    by (auto simp: Gpio_close_def CheckMinor_def Let_def close_line_def free_line_irq_def wp_simps
        resp_def intro!: wp_bad_stays)
  show ?thesis
    by (simp only: wp_bind, rule wp_mono [OF failed], simp only: wp_bind)
      (rule wp_mono [OF close], auto simp: wp_return)
qed

definition failing_board :: kernel where
  "failing_board = gpio_board\<lparr>answer := \<lambda>l c. case c of
     KIrq r \<Rightarrow> - EBUSY | KGpio (Gpio_direction_input n) \<Rightarrow> - EIO | _ \<Rightarrow> gpio_answer l c\<rparr>"

lemma failing_board_simps [simp]:
  "answer failing_board l (KIrq r) = - EBUSY"
  "answer failing_board l (KGpio (Gpio_direction_input n)) = - EIO"
  "answer failing_board l (KGpio (Gpio_to_irq n)) = n + 160"
  "answer failing_board l (KGpio (Gpio_request n x)) = gpio_answer l (KGpio (Gpio_request n x))"
  "k_MINOR failing_board d = d AND 0xFFFFF"
  by (simp_all add: failing_board_def gpio_answer_def)

lemma failing_board_held: "held failing_board l = held gpio_board l"
proof -
  have "k_IS_ERR failing_board = k_IS_ERR gpio_board" by (simp add: failing_board_def)
  then have "held_step failing_board = held_step gpio_board"
    by (intro ext) (simp only: held_step_def acquired_def)
  then show ?thesis by (simp add: held_from_def)
qed

theorem failed_interrupt_request_witness:
  "\<exists>m. wp (do { r \<leftarrow> Gpio_ioctl failing_board 5 GPIO_IOCTL_SET_INTERRUPT 1;
       Gpio_close failing_board 5; ret r })
     (\<lambda>r s'. r = gpio_err ERR_GPIO_IOCTL_INTERRUPTION_REQUEST \<and>
        Irq_line 165 5 \<in> set (bad_releases failing_board (klog s'))) (gdrv (m :: gpio_machine))"
proof -
  have inv: "gpio_inv (gdrv gpio_board_machine)"
    using gpio.reach_inv [OF gpio_board_reach] by (simp add: gpio_ok_def)
  have io: "bMode (attrs (unat (5 :: u32)) (gdrv gpio_board_machine)) = IO_MODE"
    using gpio_board_idle by (simp add: all_idle_def)
  have "Irq_line 165 5 \<notin> held failing_board (klog (gdrv gpio_board_machine))"
    using gpio_board_held(3) [of "Irq_line 165 5" 165 5] by (auto simp: failing_board_held)
  with failed_interrupt_request [OF inv _ _ _ io, of failing_board 5 1 165] show ?thesis
    by (intro exI [of _ gpio_board_machine]) simp
qed

text \<open>When a line cannot be made an input, \<open>open\<close> reports it and leaves the line closed, but
  keeps the gpio: nothing gives it back, since the node was never opened.\<close>

theorem failed_direction_leaks:
  fixes s :: gpio_state
  assumes "gpio_inv s" "k_MINOR e d = k" "unat k < 192" "bIsOpened (attrs (unat k) s) = 0"
    and "md AND 1 \<noteq> 0" "\<forall>l. answer e l (KGpio (Gpio_direction_input k)) <s 0"
  shows "wp (Gpio_open e d md) (\<lambda>r s'. bIsOpened (attrs (unat k) s') = 0 \<and>
    (r = gpio_err ERR_GPIO_OPEN_GPIO_BUSY_OUT_DRIVER \<or>
     r = gpio_err ERR_GPIO_OPEN_GPIO_SET_DIRECTION_INPUT \<and> Gpio_line k \<in> held e (klog s'))) s"
proof -
  have k: "\<not> k <s 0" using assms(3) sint_u32_small [of k] by (simp add: word_sless_alt)
  have len: "unat k < length (m_pGpioAttributesTab s)" using assms(1,3) by (simp add: gpio_inv_def)
  have tail: "wp (kcall e (KGpio (Gpio_request k x)) \<bind> (\<lambda>busy.
      if busy \<noteq> 0 then do { set_attrs (unat k) (\<lambda>g. g\<lparr>bIsOpened := 0\<rparr>);
         ret (gpio_err ERR_GPIO_OPEN_GPIO_BUSY_OUT_DRIVER) }
      else if md AND 1 \<noteq> 0 then do { iRet \<leftarrow> make_input e k;
         (if iRet <s 0 then ret (gpio_err ERR_GPIO_OPEN_GPIO_SET_DIRECTION_INPUT) else finish_open k) }
      else do { iRet \<leftarrow> make_output e k;
         (if iRet <s 0 then ret (gpio_err ERR_GPIO_OPEN_GPIO_SET_DIRECTION_OUTPUT)
          else finish_open k) }))
    (\<lambda>r s'. bIsOpened (attrs (unat k) s') = 0 \<and> (r = gpio_err ERR_GPIO_OPEN_GPIO_BUSY_OUT_DRIVER \<or>
      r = gpio_err ERR_GPIO_OPEN_GPIO_SET_DIRECTION_INPUT \<and> Gpio_line k \<in> held e (klog s'))) t"
    if "line_by (unat k) (\<lambda>g. g) (m_pGpioAttributesTab s) t" for x t
  proof -
    have "unat k < length (m_pGpioAttributesTab t)" "bIsOpened (attrs (unat k) t) = 0"
      using that len assms(4) line_by_fields(1) [OF that] by (simp_all add: line_by_def)
    then show ?thesis
      using assms(5,6) by (auto simp: make_input_def wp_simps resp_def held_step_def)
  qed
  have "wp (open_line e k md) (\<lambda>r s'. bIsOpened (attrs (unat k) s') = 0 \<and>
      (r = gpio_err ERR_GPIO_OPEN_GPIO_BUSY_OUT_DRIVER \<or>
       r = gpio_err ERR_GPIO_OPEN_GPIO_SET_DIRECTION_INPUT \<and> Gpio_line k \<in> held e (klog s'))) s"
    unfolding open_line_def wp_bind [of "rd _"] wp_rd
    apply (rule wp_ifI, use assms(4) in simp)
    apply (simp only: wp_bind [of "ForceGpioMode _ _ _"])
    apply (rule wp_mono [OF keepsD [OF keeps_line_by_Force [OF len] line_by_start]])
    apply (erule tail)
    done
  then show ?thesis
    using assms(2,3) k by (simp add: Gpio_open_def CheckMinor_def with_line_def)
qed

theorem failed_direction_leaks_witness:
  "wp (Gpio_open failing_board 5 1) (\<lambda>r s'. bIsOpened (attrs 5 s') = 0 \<and>
    (r = gpio_err ERR_GPIO_OPEN_GPIO_BUSY_OUT_DRIVER \<or>
     r = gpio_err ERR_GPIO_OPEN_GPIO_SET_DIRECTION_INPUT \<and> Gpio_line 5 \<in> held failing_board (klog s')))
   (gdrv gpio_board_machine)"
proof -
  have inv: "gpio_inv (gdrv gpio_board_machine)"
    using gpio.reach_inv [OF gpio_board_reach] by (simp add: gpio_ok_def)
  from failed_direction_leaks [OF inv, of failing_board 5 5 1] show ?thesis
    by (simp add: board_closed word_sless_alt)
qed

text \<open>\<open>write\<close> on an open node: too short a size, no buffer, a line in IT mode and an input are
  refused in that order and change nothing; otherwise the first byte, NUL or the digit 0 against
  anything else, becomes the level of the line, in one call, and the whole size is reported
  as written.\<close>

theorem Gpio_write_cases:
  fixes s :: gpio_state
  assumes "gpio_inv s" "k_MINOR e d = k" "unat k < 192"
  shows "wp (Gpio_write e d buf c sz) (\<lambda>r s'.
    let v = (if c = 0 \<or> c = 0x30 then 0 else 1); g = attrs (unat k) s in
    if sz < 2 then r = gpio_err ERR_GPIO_WRITE_SPECIFIED_SIZE \<and> s' = s
    else if buf = 0 then r = gpio_err ERR_GPIO_WRITE_SPECIFIED_BUFFER \<and> s' = s
    else if bMode g \<noteq> IO_MODE then r = gpio_err ERR_GPIO_WRITE_WRONG_GPIO_MODE \<and> s' = s
    else if bDirection g \<noteq> OUTPUT then r = gpio_err ERR_GPIO_WRITE_WRONG_GPIO_DIRECTION \<and> s' = s
    else r = sz \<and> (\<exists>x. s' = (put_attrs (unat k) (\<lambda>g. g\<lparr>bValue := v\<rparr>) s)
      \<lparr>klog := klog s @ [(KGpio (Gpio_set_value k v), x)]\<rparr>)) s"
proof -
  have k: "\<not> k <s 0" using assms(3) sint_u32_small [of k] by (simp add: word_sless_alt)
  have len: "unat k < length (m_pGpioAttributesTab s)" using assms(1,3) by (simp add: gpio_inv_def)
  show ?thesis
    using assms(2,3) k len
    by (auto simp: Gpio_write_def CheckMinor_def Let_def with_line_def write_line_def wp_simps)
qed

theorem Gpio_write_cases_witness:
  "\<exists>m. gpio_reach gpio_board m \<and> bDirection (attrs 5 (gdrv m)) = OUTPUT \<and>
     wp (Gpio_write gpio_board 5 0x1000 0x31 2) (\<lambda>r s'. r = 2 \<and> (\<exists>x. s' =
       (put_attrs 5 (\<lambda>g. g\<lparr>bValue := 1\<rparr>) (gdrv m))
       \<lparr>klog := klog (gdrv m) @ [(KGpio (Gpio_set_value 5 1), x)]\<rparr>)) (gdrv m)"
proof -
  have closed: "bIsOpened (attrs (unat (5 :: u32)) (gdrv gpio_board_machine)) = 0"
    using board_closed [of 5] by simp
  obtain m1 where m1: "board_owned m1"
    "line_by (unat (5 :: u32)) (opened_as (if (2 :: u32) AND 1 \<noteq> 0 then INPUT else OUTPUT)
       (bValue (attrs (unat (5 :: u32)) (gdrv m1)))) (m_pGpioAttributesTab (gdrv gpio_board_machine)) (gdrv m1)"
    by (rule board_open [OF board_owned_start _ closed, of 2]) (simp add: board_line_def)
  have reach: "gpio_reach gpio_board m1" using m1(1) by (simp add: board_owned_def)
  then have inv: "gpio_inv (gdrv m1)" using gpio.reach_inv by (auto simp: gpio_ok_def)
  from Gpio_write_cases [OF inv, of gpio_board 5 5 "0x1000" "0x31" 2] reach line_by_fields(2,4) [OF m1(2)]
  show ?thesis by (intro exI [of _ m1]) (simp add: opened_as_def Let_def)
qed

end
