(* ===== verification/Memory.thy ===== *)
theory Memory
  imports Kernel
begin

text \<open>
  The memory that the SPI drivers allocate with \<open>kmalloc\<close>: the sizes of the live blocks and the
  bytes behind every address, which keep their content through allocation and release as in C. An
  access outside a live block and the release of one that is not live are undefined behaviour and
  logged as such. With it the C string functions the drivers call.
\<close>

record memory = kstate +
  blocks :: "u32 \<Rightarrow> nat option"
  ram :: "u32 \<Rightarrow> u8"

section \<open>Allocation\<close>

definition kmalloc :: "kernel \<Rightarrow> nat \<Rightarrow> ('a memory_scheme, u32) state" where
  "kmalloc e n = do {
     p \<leftarrow> kcall e (KMem (Kmalloc (word_of_nat n)));
     (if p \<noteq> 0 then wr (\<lambda>s. s\<lparr>blocks := (blocks s)(p := Some n)\<rparr>) else skip);
     ret p }"

definition kfree :: "kernel \<Rightarrow> u32 \<Rightarrow> ('a memory_scheme, unit) state" where
  "kfree e p = (if p = 0 then skip else do {
     b \<leftarrow> rd blocks;
     kdo e (KMem (Kfree p));
     (if b p = None then kdo e (UB Bad_free)
      else wr (\<lambda>s. s\<lparr>blocks := (blocks s)(p := None)\<rparr>)) })"

section \<open>Access\<close>

definition fits :: "u32 \<Rightarrow> nat \<Rightarrow> 'a memory_scheme \<Rightarrow> bool" where
  "fits p n s \<longleftrightarrow> (case blocks s p of None \<Rightarrow> False | Some sz \<Rightarrow> n \<le> sz)"

definition bytes_at :: "u32 \<Rightarrow> nat \<Rightarrow> 'a memory_scheme \<Rightarrow> u8 list" where
  "bytes_at p n s = map (\<lambda>i. ram s (p + word_of_nat i)) [0..<n]"

definition poke :: "u32 \<Rightarrow> u8 list \<Rightarrow> (u32 \<Rightarrow> u8) \<Rightarrow> u32 \<Rightarrow> u8" where
  "poke p bs r = (\<lambda>a. if unat (a - p) < length bs then bs ! unat (a - p) else r a)"

text \<open>The bytes \<open>bs\<close> from the start of the block at \<open>p\<close> on.\<close>

definition store :: "kernel \<Rightarrow> u32 \<Rightarrow> u8 list \<Rightarrow> ('a memory_scheme, unit) state" where
  "store e p bs = do {
     ok \<leftarrow> rd (fits p (length bs));
     (if ok then wr (\<lambda>s. s\<lparr>ram := poke p bs (ram s)\<rparr>) else out_of_bounds e) }"

definition load :: "kernel \<Rightarrow> u32 \<Rightarrow> nat \<Rightarrow> ('a memory_scheme, u8 list) state" where
  "load e p n = do {
     ok \<leftarrow> rd (fits p n);
     (if ok then skip else out_of_bounds e);
     rd (bytes_at p n) }"

text \<open>\<open>strlen\<close> of the string in the block at \<open>p\<close>; without a NUL in the block it leaves it.\<close>

definition strlen :: "kernel \<Rightarrow> u32 \<Rightarrow> ('a memory_scheme, u32) state" where
  "strlen e p = do {
     bs \<leftarrow> rd (\<lambda>s. case blocks s p of None \<Rightarrow> [] | Some n \<Rightarrow> bytes_at p n s);
     (if 0 \<in> set bs then ret (word_of_nat (length (takeWhile (\<lambda>b. b \<noteq> 0) bs)))
      else kcall e (UB Out_of_bounds)) }"

section \<open>Strings\<close>

definition c_bytes :: "string \<Rightarrow> u8 list" where
  "c_bytes s = map of_char s @ [0]"

definition sprintf :: "kernel \<Rightarrow> u32 \<Rightarrow> string \<Rightarrow> ('a memory_scheme, unit) state" where
  "sprintf e p s = store e p (c_bytes s)"

definition tolower :: "u8 \<Rightarrow> u8" where
  "tolower b = (if 65 \<le> b \<and> b \<le> 90 then b + 32 else b)"

text \<open>\<open>!strnicmp (s, t, n)\<close>\<close>

fun same_nocase :: "nat \<Rightarrow> u8 list \<Rightarrow> u8 list \<Rightarrow> bool" where
  "same_nocase (Suc n) (a # s) (b # t) =
     (if a = 0 \<or> b = 0 then a = b
      else tolower a = tolower b \<and> same_nocase n s t)"
| "same_nocase n s t = True"

section \<open>Bytes that come in\<close>

text \<open>What the user had at the address, less the last \<open>left\<close> bytes that could not be copied.\<close>

definition copy_from_user ::
    "kernel \<Rightarrow> u32 \<Rightarrow> u32 \<Rightarrow> u8 list \<Rightarrow> nat \<Rightarrow> ('a memory_scheme, u32) state" where
  "copy_from_user e p buf user n = do {
     left \<leftarrow> kcall e (KUser (Copy_from_user buf (word_of_nat n)));
     store e p (take (n - unat left) user);
     ret left }"

text \<open>The bytes of an SPI transfer.\<close>

fun rx_bytes :: "kernel \<Rightarrow> nat \<Rightarrow> ('a memory_scheme, u8 list) state" where
  "rx_bytes e 0 = ret []"
| "rx_bytes e (Suc n) = do {
     bs \<leftarrow> rx_bytes e n;
     b \<leftarrow> kcall e (KSpi (Spi_rx_byte n));
     ret (bs @ [ucast b]) }"

definition receive :: "kernel \<Rightarrow> u32 \<Rightarrow> nat \<Rightarrow> ('a memory_scheme, unit) state" where
  "receive e p n = do { bs \<leftarrow> rx_bytes e n; store e p bs }"

section \<open>Facts\<close>

lemma fits_simps [simp]:
  "fits p n (s\<lparr>klog := l\<rparr>) = fits p n s"
  "fits p n (s\<lparr>ram := r\<rparr>) = fits p n s"
  by (simp_all add: fits_def)

lemma length_bytes_at [simp]: "length (bytes_at p n s) = n"
  by (simp add: bytes_at_def)

lemma poke_same:
  assumes "length bs < 2 ^ 32" "i < length bs"
  shows "poke p bs r (p + word_of_nat i) = bs ! i"
proof -
  have "unat (p + word_of_nat i - p) = i" using assms by (simp add: unat_word_of_nat_u32)
  then show ?thesis using assms(2) by (simp add: poke_def)
qed

lemma bytes_at_poke:
  assumes "length bs < 2 ^ 32" "n \<le> length bs"
  shows "bytes_at p n (s\<lparr>ram := poke p bs r\<rparr>) = take n bs"
  using assms by (intro nth_equalityI) (simp_all add: bytes_at_def poke_same)

lemma wp_rx_bytes:
  "wp (rx_bytes e n) (\<lambda>bs s'. length bs = n \<and> (\<exists>l. s' = s\<lparr>klog := klog s @ l\<rparr> \<and> safe_log l)) s"
proof (induction n)
  case 0
  have "s = s\<lparr>klog := klog s @ []\<rparr>" by simp
  then show ?case unfolding rx_bytes.simps wp_return by (metis list.size(3) safe_log_Nil)
next
  case (Suc n)
  show ?case
    unfolding rx_bytes.simps wp_bind
    by (rule wp_mono [OF Suc]) (auto simp: wp_simps)
qed

lemma wp_receive:
  assumes "fits p n s"
    and "\<And>bs l. length bs = n \<Longrightarrow> safe_log l \<Longrightarrow> Q () (s\<lparr>klog := klog s @ l, ram := poke p bs (ram s)\<rparr>)"
  shows "wp (receive e p n) Q s"
  unfolding receive_def wp_bind
  by (rule wp_mono [OF wp_rx_bytes]) (use assms in \<open>auto simp: store_def wp_simps\<close>)

end
