(* ===== verification/Can_Spi.thy ===== *)
theory Can_Spi
  imports Memory
begin

text \<open>
  The driver of the CAN board on the SPI bus, \<open>ifsttar_can_spi.c\<close>. A transfer is queued by an
  ioctl and completes in a callback; a read waits for it and sends the receive buffer to the user.
  The transfer and its completion are the kernel's: \<open>can_spi_transfer_done\<close> is the moment where the
  controller has put the bytes into \<open>transfer.rx_buf\<close> and calls the completion handler. A read that
  sleeps gives way there and goes on in \<open>can_spi_read_woken\<close>.
\<close>

section \<open>State\<close>

abbreviation CAN_BUFF_SIZE :: nat where "CAN_BUFF_SIZE \<equiv> 4000"
abbreviation USER_BUFF_SIZE :: nat where "USER_BUFF_SIZE \<equiv> 128"
abbreviation SPI_BUS :: u32 where "SPI_BUS \<equiv> 1"
abbreviation SPI_BUS_CS1 :: u32 where "SPI_BUS_CS1 \<equiv> 1"
abbreviation SPI_MODE_0 :: u32 where "SPI_MODE_0 \<equiv> 0"
abbreviation CAN_BUS_SPEED :: u32 where "CAN_BUS_SPEED \<equiv> 100000"
abbreviation CAN_BITS_PER_WORD :: u32 where "CAN_BITS_PER_WORD \<equiv> 16"

abbreviation can_driver_name :: string where "can_driver_name \<equiv> ''ifsttar_can_spi''"

text \<open>
  \<open>can_spi_device\<close> is the file's global \<open>spi_device\<close>, \<open>can_dev_spi\<close> the one in the driver's
  structure; \<open>can_max_speed_hz\<close> and \<open>can_bits_per_word\<close> are the fields of the device that
  are used after they are set.
\<close>

record can_spi = memory +
  running :: u32
  rxbuff :: u32
  can_busy :: u32
  spi_callbacks :: u32
  busy_counter :: u32
  can_tx_buff :: u32
  can_rx_buff :: u32
  can_transfer_rx_buf :: u32
  can_transfer_len :: u32
  can_devt :: u32
  can_class :: u32
  can_dev_spi :: u32
  can_user_buff :: u32
  can_spi_device :: u32
  can_spi_master :: u32
  can_pdev :: u32
  can_max_speed_hz :: u32
  can_bits_per_word :: u32

section \<open>Transfers\<close>

definition ifsttar_can_spi_completion_handler :: "kernel \<Rightarrow> ('a can_spi_scheme, unit) state" where
  "ifsttar_can_spi_completion_handler e = do {
     wr (\<lambda>s. s\<lparr>spi_callbacks := spi_callbacks s + 1\<rparr>);
     wr (\<lambda>s. s\<lparr>can_busy := 0\<rparr>);
     wr (\<lambda>s. s\<lparr>rxbuff := can_transfer_rx_buf s\<rparr>);
     kdo e (KSched (Wake_up_interruptible Spi_Read_wait));
     wr (\<lambda>s. s\<lparr>running := 0\<rparr>) }"

definition can_spi_transfer_done :: "kernel \<Rightarrow> ('a can_spi_scheme, unit) state" where
  "can_spi_transfer_done e = do {
     p \<leftarrow> rd can_transfer_rx_buf;
     n \<leftarrow> rd can_transfer_len;
     receive e p (unat n);
     ifsttar_can_spi_completion_handler e }"

definition spi_poll :: "kernel \<Rightarrow> ('a can_spi_scheme, u32) state" where
  "spi_poll e = do { kdo e (KSched (Poll_wait Spi_Read_wait)); ret 0 }"

definition ifsttar_can_spi_queue_spi_write :: "kernel \<Rightarrow> ('a can_spi_scheme, u32) state" where
  "ifsttar_can_spi_queue_spi_write e = do {
     wr (\<lambda>s. s\<lparr>can_transfer_rx_buf := can_rx_buff s\<rparr>);
     kdo e (KLock Spin_lock_irqsave);
     d \<leftarrow> rd can_dev_spi;
     n \<leftarrow> rd can_transfer_len;
     status \<leftarrow> (if d \<noteq> 0 then kcall e (KSpi (Spi_async d n)) else ret (- ENODEV));
     kdo e (KLock Spin_unlock_irqrestore);
     (if status = 0 then wr (\<lambda>s. s\<lparr>can_busy := 1\<rparr>) else skip);
     wr (\<lambda>s. s\<lparr>running := 1\<rparr>);
     ret status }"

section \<open>File operations\<close>

text \<open>The result of a call that may sleep.\<close>

datatype spi_result = Spi_sleeping | Spi_returned u32

definition can_spi_read_finish :: "kernel \<Rightarrow> u32 \<Rightarrow> u32 \<Rightarrow> ('a can_spi_scheme, spi_result) state" where
  "can_spi_read_finish e buff count = do {
     p \<leftarrow> rd rxbuff;
     bs \<leftarrow> load e p (unat count);
     left \<leftarrow> kcall e (KUser (Copy_to_user buff (Raw bs) count));
     kdo e (KLock (Up Fop_sem));
     wr (\<lambda>s. s\<lparr>running := 1\<rparr>);
     ret (Spi_returned (if left \<noteq> 0 then - EFAULT else count)) }"

definition ifsttar_can_spi_read ::
    "kernel \<Rightarrow> u32 \<Rightarrow> u32 \<Rightarrow> ('a can_spi_scheme, spi_result) state" where
  "ifsttar_can_spi_read e buff count =
     (if buff = 0 then ret (Spi_returned (- EFAULT))
      else do {
        busy \<leftarrow> kcall e (KLock (Down_interruptible Fop_sem));
        (if busy \<noteq> 0 then ret (Spi_returned (- k_ERESTARTSYS e))
         else do {
           r \<leftarrow> rd running;
           (if r = 0 then can_spi_read_finish e buff count
            else do {
              kdo e (KSched (Interruptible_sleep_on Spi_Read_wait));
              ret Spi_sleeping }) }) })"

definition can_spi_read_woken ::
    "kernel \<Rightarrow> u32 \<Rightarrow> u32 \<Rightarrow> ('a can_spi_scheme, spi_result) state" where
  "can_spi_read_woken e buff count = do {
     pending \<leftarrow> kcall e (KSched Signal_pending);
     (if pending \<noteq> 0 then ret (Spi_returned (- EINTR))
      else can_spi_read_finish e buff count) }"

definition can_spi_command :: "u8 list \<Rightarrow> ('a can_spi_scheme, unit) state" where
  "can_spi_command bs =
     (if same_nocase 5 bs (c_bytes ''start'') then do {
        busy \<leftarrow> rd can_busy;
        (if busy \<noteq> 0 then skip
         else wr (\<lambda>s. s\<lparr>spi_callbacks := 0, busy_counter := 0\<rparr>)) }
      else skip)"

text \<open>\<open>user\<close> are the bytes at \<open>buff\<close>.\<close>

definition ifsttar_can_spi_write ::
    "kernel \<Rightarrow> u32 \<Rightarrow> u8 list \<Rightarrow> u32 \<Rightarrow> ('a can_spi_scheme, u32) state" where
  "ifsttar_can_spi_write e buff user count = do {
     busy \<leftarrow> kcall e (KLock (Down_interruptible Fop_sem));
     (if busy \<noteq> 0 then ret (- k_ERESTARTSYS e)
      else do {
        p \<leftarrow> rd can_user_buff;
        store e p (replicate 16 0);
        left \<leftarrow> copy_from_user e p buff user (if count > 8 then 8 else unat count);
        (if left \<noteq> 0 then do { kdo e (KLock (Up Fop_sem)); ret (- EFAULT) }
         else do {
           bs \<leftarrow> load e p 5;
           can_spi_command bs;
           kdo e (KLock (Up Fop_sem));
           ret count }) }) }"

definition ifsttar_can_spi_open :: "kernel \<Rightarrow> ('a can_spi_scheme, u32) state" where
  "ifsttar_can_spi_open e = do {
     busy \<leftarrow> kcall e (KLock (Down_interruptible Fop_sem));
     (if busy \<noteq> 0 then ret (- k_ERESTARTSYS e)
      else do {
        p \<leftarrow> rd can_user_buff;
        status \<leftarrow> (if p = 0 then do {
            q \<leftarrow> kmalloc e USER_BUFF_SIZE;
            wr (\<lambda>s. s\<lparr>can_user_buff := q\<rparr>);
            ret (if q = 0 then - ENOMEM else 0) }
          else ret 0);
        kdo e (KSched (Init_waitqueue_head Spi_Read_wait));
        kdo e (KLock (Up Fop_sem));
        ret status }) }"

definition ifsttar_can_spi_close :: "kernel \<Rightarrow> ('a can_spi_scheme, unit) state" where
  "ifsttar_can_spi_close e = do { p \<leftarrow> rd can_user_buff; kfree e p }"

definition can_spi_setup :: "kernel \<Rightarrow> ('a can_spi_scheme, unit) state" where
  "can_spi_setup e = do {
     s \<leftarrow> rd id;
     kdo e (KSpi (Spi_setup (can_spi_device s) (can_max_speed_hz s) (can_bits_per_word s))) }"

definition Spi_ioctl :: "kernel \<Rightarrow> u32 \<Rightarrow> u32 \<Rightarrow> ('a can_spi_scheme, u32) state" where
  "Spi_ioctl e cmd arg =
     (if cmd = CMD_SPI_START then ifsttar_can_spi_queue_spi_write e
      else if cmd = CMD_SPI_STOP then do { wr (\<lambda>s. s\<lparr>can_transfer_len := 0\<rparr>); ret 0 }
      else if cmd = CMD_SPI_FREQUENCY then do {
        wr (\<lambda>s. s\<lparr>can_max_speed_hz := can_bits_per_word s * arg\<rparr>);
        can_spi_setup e;
        ret 0 }
      else if cmd = CMD_SPI_BITS_PER_WORD then
        (if arg \<noteq> 8 \<and> arg \<noteq> 16 \<and> arg \<noteq> 32 then ret (- 1)
         else do {
           wr (\<lambda>s. s\<lparr>can_bits_per_word := arg\<rparr>);
           can_spi_setup e;
           ret 0 })
      else if cmd = CMD_SPI_NB_ECH then
        (if arg < 160 \<or> arg > 10000 then ret (- 1)
         else do { wr (\<lambda>s. s\<lparr>can_transfer_len := arg\<rparr>); ret 0 })
      else if cmd = CMD_TEST then ret 0
      else ret (- 1))"

section \<open>The device on the bus\<close>

definition ifsttar_can_spi_probe :: "kernel \<Rightarrow> u32 \<Rightarrow> ('a can_spi_scheme, u32) state" where
  "ifsttar_can_spi_probe e d = do {
     kdo e (KLock Spin_lock_irqsave);
     wr (\<lambda>s. s\<lparr>can_dev_spi := d\<rparr>);
     kdo e (KLock Spin_unlock_irqrestore);
     ret 0 }"

definition ifsttar_can_spi_remove :: "kernel \<Rightarrow> ('a can_spi_scheme, u32) state" where
  "ifsttar_can_spi_remove e = do {
     kdo e (KLock Spin_lock_irqsave);
     wr (\<lambda>s. s\<lparr>can_dev_spi := 0\<rparr>);
     kdo e (KLock Spin_unlock_irqrestore);
     ret 0 }"

text \<open>A device with the chip select is there already: it is fine if its driver is this one.\<close>

definition can_spi_use_pdev :: "kernel \<Rightarrow> u32 \<Rightarrow> u32 \<Rightarrow> ('a can_spi_scheme, u32) state" where
  "can_spi_use_pdev e d p = do {
     kdo e (KSpi (Spi_dev_put d));
     other \<leftarrow> kcall e (KSpi (Other_driver p can_driver_name));
     ret (if other \<noteq> 0 then - 1 else 0) }"

definition can_spi_new_device :: "kernel \<Rightarrow> u32 \<Rightarrow> ('a can_spi_scheme, u32) state" where
  "can_spi_new_device e d = do {
     wr (\<lambda>s. s\<lparr>can_max_speed_hz := CAN_BUS_SPEED, can_bits_per_word := CAN_BITS_PER_WORD\<rparr>);
     status \<leftarrow> kcall e (KSpi (Spi_add_device d CAN_BUS_SPEED SPI_MODE_0 CAN_BITS_PER_WORD));
     (if status <s 0 then kdo e (KSpi (Spi_dev_put d)) else skip);
     ret status }"

definition add_ifsttar_can_spi_device_to_bus :: "kernel \<Rightarrow> ('a can_spi_scheme, u32) state" where
  "add_ifsttar_can_spi_device_to_bus e = do {
     m \<leftarrow> kcall e (KSpi (Spi_busnum_to_master SPI_BUS));
     wr (\<lambda>s. s\<lparr>can_spi_master := m\<rparr>);
     (if m = 0 then ret (- 1)
      else do {
        d \<leftarrow> kcall e (KSpi (Spi_alloc_device m));
        wr (\<lambda>s. s\<lparr>can_spi_device := d\<rparr>);
        (if d = 0 then do { kdo e (KSpi (Put_device m)); ret (- 1) }
         else do {
           p \<leftarrow> kcall e (KSpi (Bus_find_device_by_name SPI_BUS_CS1));
           wr (\<lambda>s. s\<lparr>can_pdev := p\<rparr>);
           status \<leftarrow> (if p \<noteq> 0 then can_spi_use_pdev e d p else can_spi_new_device e d);
           kdo e (KSpi (Put_device m));
           ret status }) }) }"

section \<open>Insertion and removal\<close>

definition can_spi_init_error :: "kernel \<Rightarrow> u32 \<Rightarrow> ('a can_spi_scheme, u32) state" where
  "can_spi_init_error e error = do {
     tx \<leftarrow> rd can_tx_buff;
     (if tx \<noteq> 0 then do { kfree e tx; wr (\<lambda>s. s\<lparr>can_tx_buff := 0\<rparr>) } else skip);
     ret error }"

definition can_spi_register :: "kernel \<Rightarrow> ('a can_spi_scheme, u32) state" where
  "can_spi_register e = do {
     error \<leftarrow> kcall e (KSpi (Spi_register_driver can_driver_name));
     (if error <s 0 then can_spi_init_error e error
      else do {
        error \<leftarrow> add_ifsttar_can_spi_device_to_bus e;
        (if error <s 0 then do {
           kdo e (KSpi (Spi_unregister_driver can_driver_name));
           can_spi_init_error e error }
         else ret 0) }) }"

definition ifsttar_can_spi_init_spi :: "kernel \<Rightarrow> ('a can_spi_scheme, u32) state" where
  "ifsttar_can_spi_init_spi e = do {
     tx \<leftarrow> kmalloc e CAN_BUFF_SIZE;
     wr (\<lambda>s. s\<lparr>can_tx_buff := tx\<rparr>);
     (if tx = 0 then can_spi_init_error e (- ENOMEM)
      else do {
        rx \<leftarrow> kmalloc e CAN_BUFF_SIZE;
        wr (\<lambda>s. s\<lparr>can_rx_buff := rx\<rparr>);
        (if rx = 0 then can_spi_init_error e (- ENOMEM) else can_spi_register e) }) }"

definition ifsttar_can_spi_init_cdev :: "kernel \<Rightarrow> ('a can_spi_scheme, u32) state" where
  "ifsttar_can_spi_init_cdev e = do {
     error \<leftarrow> kcall e (KDev (Alloc_chrdev_region 1 can_driver_name));
     (if error <s 0 then ret (- 1)
      else do {
        dev \<leftarrow> kcall e (KDev Allocated_dev);
        wr (\<lambda>s. s\<lparr>can_devt := dev\<rparr>);
        kdo e (KDev Cdev_init);
        error \<leftarrow> kcall e (KDev (Cdev_add dev 1));
        (if error \<noteq> 0 then do {
           kdo e (KDev (Unregister_chrdev_region dev 1));
           ret (- 1) }
         else ret 0) }) }"

definition ifsttar_can_spi_init_class :: "kernel \<Rightarrow> ('a can_spi_scheme, u32) state" where
  "ifsttar_can_spi_init_class e = do {
     cl \<leftarrow> kcall e (KDev (Class_create can_driver_name));
     wr (\<lambda>s. s\<lparr>can_class := cl\<rparr>);
     (if cl = 0 then ret (- 1)
      else do {
        dev \<leftarrow> rd can_devt;
        p \<leftarrow> kcall e (KDev (Device_create cl dev can_driver_name));
        (if p = 0 then do { kdo e (KDev (Class_destroy cl)); ret (- 1) } else ret 0) }) }"

definition can_spi_fail_2 :: "kernel \<Rightarrow> ('a can_spi_scheme, u32) state" where
  "can_spi_fail_2 e = do {
     kdo e (KDev Cdev_del);
     dev \<leftarrow> rd can_devt;
     kdo e (KDev (Unregister_chrdev_region dev 1));
     ret (- 1) }"

definition can_spi_fail_3 :: "kernel \<Rightarrow> ('a can_spi_scheme, u32) state" where
  "can_spi_fail_3 e = do {
     s \<leftarrow> rd id;
     kdo e (KDev (Device_destroy (can_class s) (can_devt s)));
     kdo e (KDev (Class_destroy (can_class s)));
     can_spi_fail_2 e }"

text \<open>The two \<open>memset\<close> calls; the other globals keep what the loader gave them, 0.\<close>

definition can_spi_zero :: "'a can_spi_scheme \<Rightarrow> 'a can_spi_scheme" where
  "can_spi_zero s = s\<lparr>can_busy := 0, spi_callbacks := 0, busy_counter := 0, can_tx_buff := 0,
     can_rx_buff := 0, can_transfer_rx_buf := 0, can_transfer_len := 0, can_devt := 0,
     can_class := 0, can_dev_spi := 0, can_user_buff := 0\<rparr>"

definition ifsttar_can_spi_init :: "kernel \<Rightarrow> ('a can_spi_scheme, u32) state" where
  "ifsttar_can_spi_init e = do {
     wr can_spi_zero;
     kdo e (KLock Spin_lock_init);
     kdo e (KLock (Sema_init Fop_sem));
     r1 \<leftarrow> ifsttar_can_spi_init_cdev e;
     (if r1 <s 0 then ret (- 1)
      else do {
        r2 \<leftarrow> ifsttar_can_spi_init_class e;
        (if r2 <s 0 then can_spi_fail_2 e
         else do {
           r3 \<leftarrow> ifsttar_can_spi_init_spi e;
           (if r3 <s 0 then can_spi_fail_3 e else ret 0) }) }) }"

definition ifsttar_can_spi_exit :: "kernel \<Rightarrow> ('a can_spi_scheme, unit) state" where
  "ifsttar_can_spi_exit e = do {
     s \<leftarrow> rd id;
     kdo e (KSpi (Spi_unregister_device (can_dev_spi s)));
     kdo e (KSpi (Spi_unregister_driver can_driver_name));
     kdo e (KDev (Device_destroy (can_class s) (can_devt s)));
     kdo e (KDev (Class_destroy (can_class s)));
     kdo e (KDev Cdev_del);
     kdo e (KDev (Unregister_chrdev_region (can_devt s) 1));
     kfree e (can_tx_buff s);
     kfree e (can_user_buff s) }"

end
