(* ===== verification/Can_Machine.thy ===== *)
theory Can_Machine
  imports Can_Spi
begin

text \<open>
  The CAN driver while it is inserted: its system calls, the end of a transfer and the probing and
  removal of its device come in any order. A read that sleeps holds \<open>fop_sem\<close>, so at most one does;
  \<open>can_reader\<close> is the address and the size it was given.
\<close>

section \<open>The machine\<close>

record can_machine =
  can_drv :: can_spi
  can_reader :: "(u32 \<times> u32) option"

datatype can_event =
    Can_read u32 u32 | Can_read_woken | Can_write u32 "u8 list" u32 | Can_poll | Can_open
  | Can_close | Can_ioctl u32 u32 | Can_transfer_done | Can_probe u32 | Can_remove

definition can_after :: "(can_spi, 'r) state \<Rightarrow> can_machine \<Rightarrow> can_machine" where
  "can_after f m = m\<lparr>can_drv := snd (run_state f (can_drv m))\<rparr>"

definition can_read_outcome ::
    "can_machine \<Rightarrow> u32 \<times> u32 \<Rightarrow> spi_result \<times> can_spi \<Rightarrow> can_machine" where
  "can_read_outcome m a rs = \<lparr>can_drv = snd rs,
     can_reader = (case fst rs of Spi_sleeping \<Rightarrow> Some a | Spi_returned r \<Rightarrow> can_reader m)\<rparr>"

definition can_exec :: "kernel \<Rightarrow> can_event \<Rightarrow> can_machine \<Rightarrow> can_machine option" where
  "can_exec e ev m = (case ev of
     Can_read buff n \<Rightarrow>
       Some (can_read_outcome m (buff, n) (run_state (ifsttar_can_spi_read e buff n) (can_drv m)))
   | Can_read_woken \<Rightarrow> (case can_reader m of
       None \<Rightarrow> None
     | Some (buff, n) \<Rightarrow> Some (can_read_outcome (m\<lparr>can_reader := None\<rparr>) (buff, n)
         (run_state (can_spi_read_woken e buff n) (can_drv m))))
   | Can_write buff user n \<Rightarrow> Some (can_after (ifsttar_can_spi_write e buff user n) m)
   | Can_poll \<Rightarrow> Some (can_after (spi_poll e) m)
   | Can_open \<Rightarrow> Some (can_after (ifsttar_can_spi_open e) m)
   | Can_close \<Rightarrow> Some (can_after (ifsttar_can_spi_close e) m)
   | Can_ioctl cmd arg \<Rightarrow> Some (can_after (Spi_ioctl e cmd arg) m)
   | Can_transfer_done \<Rightarrow> Some (can_after (can_spi_transfer_done e) m)
   | Can_probe d \<Rightarrow> Some (can_after (ifsttar_can_spi_probe e d) m)
   | Can_remove \<Rightarrow> Some (can_after (ifsttar_can_spi_remove e) m))"

definition can_step :: "kernel \<Rightarrow> can_machine \<Rightarrow> can_event \<Rightarrow> can_machine \<Rightarrow> bool" where
  "can_step e m ev m' \<longleftrightarrow> can_exec e ev m = Some m'"

abbreviation can_runs :: "kernel \<Rightarrow> can_machine \<Rightarrow> can_event list \<Rightarrow> can_machine \<Rightarrow> bool" where
  "can_runs e \<equiv> runs (can_step e)"

section \<open>The semaphore\<close>

text \<open>A semaphore that is held is not granted again.\<close>

definition semaphores_exclude :: "kernel \<Rightarrow> bool" where
  "semaphores_exclude e \<longleftrightarrow> (\<forall>l x. Semaphore x \<in> held e l \<longrightarrow> answer e l (KLock (Down_interruptible x)) \<noteq> 0)"

definition sem_held :: "kernel \<Rightarrow> 'a can_spi_scheme \<Rightarrow> bool" where
  "sem_held e s \<longleftrightarrow> Semaphore Fop_sem \<in> held e (klog s)"

lemma sem_held_put [simp]:
  "sem_held e (s\<lparr>blocks := b\<rparr>) = sem_held e s" "sem_held e (s\<lparr>ram := r\<rparr>) = sem_held e s"
  "sem_held e (s\<lparr>running := x\<rparr>) = sem_held e s" "sem_held e (s\<lparr>rxbuff := x\<rparr>) = sem_held e s"
  "sem_held e (s\<lparr>can_busy := x\<rparr>) = sem_held e s"
  "sem_held e (s\<lparr>spi_callbacks := x\<rparr>) = sem_held e s"
  "sem_held e (s\<lparr>can_transfer_rx_buf := x\<rparr>) = sem_held e s"
  "sem_held e (s\<lparr>can_transfer_len := x\<rparr>) = sem_held e s"
  "sem_held e (s\<lparr>can_dev_spi := x\<rparr>) = sem_held e s"
  "sem_held e (s\<lparr>can_max_speed_hz := x\<rparr>) = sem_held e s"
  "sem_held e (s\<lparr>can_bits_per_word := x\<rparr>) = sem_held e s"
  by (simp_all add: sem_held_def)

lemma keeps_sem_call:
  assumes "c \<noteq> KLock (Up Fop_sem)"
  shows "keeps (sem_held e) (kcall e' c)" "keeps (sem_held e) (kdo e' c)"
proof -
  have "released (c, r) \<noteq> Some (Semaphore Fop_sem)" for r
    using assms by (cases c) (auto split: io_call.splits gpiolib_call.splits irq_call.splits
      sched_call.splits timer_call.splits dev_call.splits mem_call.splits lock_call.splits
      spi_call.splits reg_call.splits dma_call.splits plat_call.splits)
  then show "keeps (sem_held e) (kcall e' c)" "keeps (sem_held e) (kdo e' c)"
    by (auto intro!: keeps_kcall keeps_kdo simp: sem_held_def held_step_def
        simp del: released_pair acquired_pair split: option.splits)
qed

lemma keeps_sem_wr: "(\<And>s. sem_held e s \<Longrightarrow> sem_held e (f s)) \<Longrightarrow> keeps (sem_held e) (wr f)"
  by (rule keeps_wr)

lemmas sem_rules = keeps_return keeps_rd keeps_if keeps_let keeps_sem_call keeps_sem_wr keeps_bind

lemma keeps_sem_store: "keeps (sem_held e) (store e' p bs)"
  unfolding store_def out_of_bounds_def by (intro sem_rules) simp_all

lemma keeps_sem_rx: "keeps (sem_held e) (rx_bytes e' n)"
  by (induction n) (auto intro!: sem_rules)

lemma keeps_sem_parts:
  "keeps (sem_held e) (spi_poll e')" "keeps (sem_held e) (ifsttar_can_spi_close e')"
  "keeps (sem_held e) (Spi_ioctl e' cmd arg)" "keeps (sem_held e) (can_spi_transfer_done e')"
  "keeps (sem_held e) (ifsttar_can_spi_probe e' d)" "keeps (sem_held e) (ifsttar_can_spi_remove e')"
  unfolding spi_poll_def ifsttar_can_spi_close_def kfree_def Spi_ioctl_def can_spi_setup_def
    ifsttar_can_spi_queue_spi_write_def can_spi_transfer_done_def receive_def
    ifsttar_can_spi_completion_handler_def ifsttar_can_spi_probe_def ifsttar_can_spi_remove_def
  by (intro keeps_sem_store keeps_sem_rx sem_rules; simp)+

text \<open>While it is held, the calls that need it fail and change nothing.\<close>

lemma sem_refused:
  assumes "semaphores_exclude e" "sem_held e s"
  shows "\<exists>s'. run_state (ifsttar_can_spi_open e) s = (- k_ERESTARTSYS e, s') \<and> sem_held e s'"
    "\<exists>s'. run_state (ifsttar_can_spi_write e buff user n) s = (- k_ERESTARTSYS e, s') \<and> sem_held e s'"
    "\<exists>s'. run_state (ifsttar_can_spi_read e buff n) s =
       (Spi_returned (if buff = 0 then - EFAULT else - k_ERESTARTSYS e), s') \<and> sem_held e s'"
proof -
  have busy: "answer e (klog s) (KLock (Down_interruptible Fop_sem)) \<noteq> 0"
    using assms by (simp add: semaphores_exclude_def sem_held_def)
  have down: "sem_held e (s\<lparr>klog := klog s @ [(KLock (Down_interruptible Fop_sem), r)]\<rparr>)" for r
    using assms(2) by (simp add: sem_held_def held_step_def)
  show "\<exists>s'. run_state (ifsttar_can_spi_open e) s = (- k_ERESTARTSYS e, s') \<and> sem_held e s'"
    "\<exists>s'. run_state (ifsttar_can_spi_write e buff user n) s = (- k_ERESTARTSYS e, s') \<and> sem_held e s'"
    "\<exists>s'. run_state (ifsttar_can_spi_read e buff n) s =
       (Spi_returned (if buff = 0 then - EFAULT else - k_ERESTARTSYS e), s') \<and> sem_held e s'"
    using busy down assms(2)
    by (simp_all add: ifsttar_can_spi_open_def ifsttar_can_spi_write_def ifsttar_can_spi_read_def)
qed

text \<open>The semaphore is held, by the reader \<open>a\<close> that sleeps or by nobody.\<close>

definition can_stuck :: "kernel \<Rightarrow> (u32 \<times> u32) option \<Rightarrow> can_machine \<Rightarrow> bool" where
  "can_stuck e a m \<longleftrightarrow> can_reader m = a \<and> sem_held e (can_drv m)"

lemma can_exec_stuck:
  assumes "semaphores_exclude e" "can_stuck e a m" "can_exec e ev m = Some m'"
    and "ev \<noteq> Can_read_woken \<or> a = None"
  shows "can_stuck e a m'"
proof -
  have s: "sem_held e (can_drv m)" "can_reader m = a" using assms(2) by (simp_all add: can_stuck_def)
  have parts: "sem_held e (snd (run_state f (can_drv m)))" if "keeps (sem_held e) f"
    for f :: "(can_spi, 'r) state"
    using keeps_snd [OF that s(1)] .
  have refused: "sem_held e (snd (run_state f (can_drv m)))"
    if "\<exists>s'. run_state f (can_drv m) = (r, s') \<and> sem_held e s'" for f :: "(can_spi, 'r) state" and r
    using that by auto
  have returned: "fst (run_state (ifsttar_can_spi_read e buff n) (can_drv m)) \<noteq> Spi_sleeping" for buff n
    using sem_refused(3) [OF assms(1) s(1), of buff n] by auto
  note calls = refused [OF sem_refused(1) [OF assms(1) s(1)]]
    refused [OF sem_refused(2) [OF assms(1) s(1)]] refused [OF sem_refused(3) [OF assms(1) s(1)]]
  show ?thesis
  proof (cases ev)
    case (Can_read buff n)
    then show ?thesis
      using assms(3) s(2) calls(3) [of buff n] returned [of buff n]
      by (auto simp: can_exec_def can_stuck_def can_read_outcome_def split: spi_result.splits)
  qed (use assms(3,4) s(2) in \<open>auto simp: can_exec_def can_stuck_def can_after_def
      intro!: parts keeps_sem_parts calls\<close>)
qed

lemma can_runs_stuck:
  "can_runs e m evs m' \<Longrightarrow> semaphores_exclude e \<Longrightarrow> can_stuck e a m \<Longrightarrow>
     Can_read_woken \<notin> set evs \<or> a = None \<Longrightarrow> can_stuck e a m'"
  by (induction rule: runs.induct) (auto simp: can_step_def dest: can_exec_stuck)

lemma can_read_sleeps:
  assumes "can_exec e (Can_read buff n) m = Some m'" "can_reader m = None" "can_reader m' = Some a"
  shows "can_stuck e (Some a) m'"
  using assms
  by (auto simp: can_exec_def can_read_outcome_def can_stuck_def sem_held_def held_step_def
      ifsttar_can_spi_read_def can_spi_read_finish_def load_def out_of_bounds_def split: if_splits)

lemma can_woken_interrupted:
  assumes "can_exec e Can_read_woken m = Some m'" "can_stuck e a m"
    and "answer e (klog (can_drv m)) (KSched Signal_pending) \<noteq> 0"
  shows "can_stuck e None m'"
  using assms
  by (auto simp: can_exec_def can_read_outcome_def can_stuck_def sem_held_def held_step_def
      can_spi_read_woken_def split: option.splits)

section \<open>Transfers\<close>

text \<open>
  A start followed by the end of the transfer writes \<open>can_transfer_len\<close> bytes into the receive
  buffer, and nothing else of it can go wrong.
\<close>

lemma wp_can_transfer_done:
  "wp (can_spi_transfer_done e)
     (\<lambda>_ s'. safe_log (klog s') \<longleftrightarrow>
        safe_log (klog s) \<and> fits (can_transfer_rx_buf s) (unat (can_transfer_len s)) s) s"
  unfolding can_spi_transfer_done_def receive_def wp_bind wp_rd
  by (rule wp_mono [OF wp_rx_bytes])
    (auto simp: ifsttar_can_spi_completion_handler_def store_def wp_simps)

lemma wp_can_start:
  "wp (Spi_ioctl e CMD_SPI_START arg)
     (\<lambda>_ s'. (safe_log (klog s') \<longleftrightarrow> safe_log (klog s)) \<and> blocks s' = blocks s \<and>
        can_transfer_rx_buf s' = can_rx_buff s \<and> can_transfer_len s' = can_transfer_len s) s"
  by (simp add: Spi_ioctl_def ifsttar_can_spi_queue_spi_write_def wp_simps)

lemma wp_can_nb_ech:
  assumes "160 \<le> n" "n \<le> 10000"
  shows "run_state (Spi_ioctl e CMD_SPI_NB_ECH n) s = (0, s\<lparr>can_transfer_len := n\<rparr>)"
  using assms by (simp add: Spi_ioctl_def not_less [symmetric])

end
