(* ===== verification/Spike.thy ===== *)
theory Spike
  imports Memory Sync_Fops
begin

text \<open>
  The temperature sensor driver \<open>spike.c\<close>: every read does one two-byte transfer on the SPI bus and
  an ioctl sends a four-byte configuration message. The transfers are synchronous, so every call
  runs to its end. The file's buffers are blocks of \<open>Memory\<close>: after a read \<open>user_buff\<close> is the receive
  buffer, and the properties depend on that alias. The messages it prints are left out.
\<close>

section \<open>State\<close>

abbreviation SPIKE_BUFF_SIZE :: nat where "SPIKE_BUFF_SIZE \<equiv> 4"
abbreviation SPIKE_USER_BUFF_SIZE :: nat where "SPIKE_USER_BUFF_SIZE \<equiv> 128"
abbreviation SPIKE_BUS :: u32 where "SPIKE_BUS \<equiv> 1"
abbreviation SPIKE_BUS_CS1 :: u32 where "SPIKE_BUS_CS1 \<equiv> 1"

abbreviation SPI_MODE_1 :: u32 where "SPI_MODE_1 \<equiv> 1"
abbreviation SPIKE_BUS_SPEED :: u32 where "SPIKE_BUS_SPEED \<equiv> 1000"

abbreviation spike_driver_name :: string where "spike_driver_name \<equiv> ''spike''"

record spike = memory +
  spike_tx_buff :: u32
  spike_rx_buff :: u32
  spike_devt :: u32
  spike_class :: u32
  spike_spi_device :: u32
  spike_user_buff :: u32

section \<open>Transfers\<close>

text \<open>\<open>%d\<close>\<close>

definition signed_dec :: "u32 \<Rightarrow> string" where
  "signed_dec x = (if x <s 0 then CHR ''-'' # dec (nat (- sint x)) else dec (unat x))"

text \<open>The bytes \<open>tx\<close> go into the transmit buffer and the receive buffer is cleared.\<close>

definition spike_prepare :: "kernel \<Rightarrow> u8 list \<Rightarrow> ('a spike_scheme, unit) state" where
  "spike_prepare e tx = do {
     t \<leftarrow> rd spike_tx_buff;
     store e t tx;
     r \<leftarrow> rd spike_rx_buff;
     store e r (replicate SPIKE_BUFF_SIZE 0) }"

definition spike_prepare_spi_message :: "kernel \<Rightarrow> ('a spike_scheme, nat) state" where
  "spike_prepare_spi_message e = do { spike_prepare e [0, 0]; ret 2 }"

definition spike_prepare_lm74_config_message :: "kernel \<Rightarrow> u32 \<Rightarrow> ('a spike_scheme, nat) state" where
  "spike_prepare_lm74_config_message e mode = do {
     spike_prepare e [0, 0, 0, ucast mode]; ret 4 }"

text \<open>\<open>spi_sync\<close>: when it returns, the bytes received are in the receive buffer.\<close>

definition spike_sync :: "kernel \<Rightarrow> nat \<Rightarrow> ('a spike_scheme, u32) state" where
  "spike_sync e n = do {
     s \<leftarrow> rd id;
     tx \<leftarrow> load e (spike_tx_buff s) n;
     status \<leftarrow> kcall e (KSpi (Spi_sync (spike_spi_device s) tx (word_of_nat n)));
     got \<leftarrow> (if status = 0 then ret (word_of_nat n) else kcall e (KSpi Spi_received));
     receive e (spike_rx_buff s) (min n (unat got));
     ret status }"

definition spike_do_one_message :: "kernel \<Rightarrow> ('a spike_scheme, u32) state" where
  "spike_do_one_message e = do {
     busy \<leftarrow> kcall e (KLock (Down_interruptible Spi_sem));
     (if busy \<noteq> 0 then ret (- k_ERESTARTSYS e)
      else do {
        d \<leftarrow> rd spike_spi_device;
        (if d = 0 then do { kdo e (KLock (Up Spi_sem)); ret (- ENODEV) }
         else do {
           n \<leftarrow> spike_prepare_spi_message e;
           status \<leftarrow> spike_sync e n;
           kdo e (KLock (Up Spi_sem));
           ret status }) }) }"

definition spike_do_one_lm74_config_message :: "kernel \<Rightarrow> u32 \<Rightarrow> ('a spike_scheme, u32) state" where
  "spike_do_one_lm74_config_message e mode =
     (if mode \<noteq> 0xFF \<and> mode \<noteq> 0 then ret (- ENOTTY)
      else do {
        busy \<leftarrow> kcall e (KLock (Down_interruptible Spi_sem));
        (if busy \<noteq> 0 then ret (- k_ERESTARTSYS e)
         else do {
           d \<leftarrow> rd spike_spi_device;
           (if d = 0 then do { kdo e (KLock (Up Spi_sem)); ret (- ENODEV) }
            else do {
              n \<leftarrow> spike_prepare_lm74_config_message e mode;
              status \<leftarrow> spike_sync e n;
              kdo e (KLock (Up Spi_sem));
              ret status }) }) })"

section \<open>File operations\<close>

text \<open>What a read leaves in \<open>user_buff\<close>: an error message, or the receive buffer itself.\<close>

definition spike_read_result :: "kernel \<Rightarrow> u32 \<Rightarrow> ('a spike_scheme, unit) state" where
  "spike_read_result e status = do {
     s \<leftarrow> rd id;
     (if status \<noteq> 0
      then sprintf e (spike_user_buff s)
        (''spike_do_one_message failed : '' @ signed_dec status @ [CHR 0x0A])
      else wr (\<lambda>s. s\<lparr>spike_user_buff := spike_rx_buff s\<rparr>)) }"

definition spike_clear_buffers :: "kernel \<Rightarrow> ('a spike_scheme, unit) state" where
  "spike_clear_buffers e = do {
     s \<leftarrow> rd id;
     store e (spike_user_buff s) [0, 0];
     store e (spike_rx_buff s) [0, 0] }"

text \<open>The second component is the file offset.\<close>

definition spike_read ::
    "kernel \<Rightarrow> u32 \<Rightarrow> u32 \<Rightarrow> u64 \<Rightarrow> ('a spike_scheme, u32 \<times> u64) state" where
  "spike_read e buff count offp =
     (if buff = 0 then ret (- EFAULT, offp)
      else if 0 <s offp then ret (0, offp)
      else do {
        busy \<leftarrow> kcall e (KLock (Down_interruptible Fop_sem));
        (if busy \<noteq> 0 then ret (- k_ERESTARTSYS e, offp)
         else do {
           status \<leftarrow> spike_do_one_message e;
           spike_read_result e status;
           p \<leftarrow> rd spike_user_buff;
           len \<leftarrow> strlen e p;
           let n = (if len < count then len else count);
           bs \<leftarrow> load e p (unat n);
           left \<leftarrow> kcall e (KUser (Copy_to_user buff (Raw bs) n));
           kdo e (KLock (Up Fop_sem));
           spike_clear_buffers e;
           ret (if left \<noteq> 0 then (- EFAULT, offp) else (n, offp + ucast n)) }) })"

definition spike_ioctl_message :: "kernel \<Rightarrow> u32 \<Rightarrow> ('a spike_scheme, unit) state" where
  "spike_ioctl_message e status = do {
     s \<leftarrow> rd id;
     (if status \<noteq> 0
      then sprintf e (spike_user_buff s)
        (''spike_do_one_lm74_config_message failed : '' @ signed_dec status @ [CHR 0x0A])
      else do {
        st \<leftarrow> kcall e (KSpi Spi_msg_status);
        rx \<leftarrow> load e (spike_rx_buff s) 4;
        sprintf e (spike_user_buff s)
          (''Status: '' @ signed_dec st @ [CHR 0x0A] @ ''RX:'' @
           concat (map (\<lambda>b. '' '' @ dec (unat b)) rx) @ [CHR 0x0A]) }) }"

definition spike_ioctl :: "kernel \<Rightarrow> u32 \<Rightarrow> u32 \<Rightarrow> ('a spike_scheme, u32) state" where
  "spike_ioctl e cmd arg =
     (if cmd = LM74_IOCTL_SET_MODE then do {
        status \<leftarrow> spike_do_one_lm74_config_message e arg;
        spike_ioctl_message e status;
        ret 0 }
      else ret (- ENOTTY))"

definition spike_open :: "kernel \<Rightarrow> ('a spike_scheme, u32) state" where
  "spike_open e = do {
     busy \<leftarrow> kcall e (KLock (Down_interruptible Fop_sem));
     (if busy \<noteq> 0 then ret (- k_ERESTARTSYS e)
      else do {
        p \<leftarrow> rd spike_user_buff;
        status \<leftarrow> (if p = 0 then do {
            q \<leftarrow> kmalloc e SPIKE_USER_BUFF_SIZE;
            wr (\<lambda>s. s\<lparr>spike_user_buff := q\<rparr>);
            ret (if q = 0 then - ENOMEM else 0) }
          else ret 0);
        kdo e (KLock (Up Fop_sem));
        ret status }) }"

section \<open>The device on the bus\<close>

definition spike_set_device :: "kernel \<Rightarrow> u32 \<Rightarrow> ('a spike_scheme, u32) state" where
  "spike_set_device e d = do {
     busy \<leftarrow> kcall e (KLock (Down_interruptible Spi_sem));
     (if busy \<noteq> 0 then ret (- EBUSY)
      else do {
        wr (\<lambda>s. s\<lparr>spike_spi_device := d\<rparr>);
        kdo e (KLock (Up Spi_sem));
        ret 0 }) }"

definition spike_probe :: "kernel \<Rightarrow> u32 \<Rightarrow> ('a spike_scheme, u32) state" where
  "spike_probe e d = spike_set_device e d"

definition spike_remove :: "kernel \<Rightarrow> ('a spike_scheme, u32) state" where
  "spike_remove e = spike_set_device e 0"

text \<open>A device with the chip select is there already: it is fine if its driver is this one.\<close>

definition spike_use_pdev :: "kernel \<Rightarrow> u32 \<Rightarrow> u32 \<Rightarrow> ('a spike_scheme, u32) state" where
  "spike_use_pdev e d p = do {
     kdo e (KSpi (Spi_dev_put d));
     other \<leftarrow> kcall e (KSpi (Other_driver p spike_driver_name));
     ret (if other \<noteq> 0 then - 1 else 0) }"

definition spike_new_device :: "kernel \<Rightarrow> u32 \<Rightarrow> ('a spike_scheme, u32) state" where
  "spike_new_device e d = do {
     status \<leftarrow> kcall e (KSpi (Spi_add_device d SPIKE_BUS_SPEED SPI_MODE_1 8));
     (if status <s 0 then kdo e (KSpi (Spi_dev_put d)) else skip);
     ret status }"

definition add_spike_device_to_bus :: "kernel \<Rightarrow> ('a spike_scheme, u32) state" where
  "add_spike_device_to_bus e = do {
     m \<leftarrow> kcall e (KSpi (Spi_busnum_to_master SPIKE_BUS));
     (if m = 0 then ret (- 1)
      else do {
        d \<leftarrow> kcall e (KSpi (Spi_alloc_device m));
        (if d = 0 then do { kdo e (KSpi (Put_device m)); ret (- 1) }
         else do {
           p \<leftarrow> kcall e (KSpi (Bus_find_device_by_name SPIKE_BUS_CS1));
           status \<leftarrow> (if p \<noteq> 0 then spike_use_pdev e d p else spike_new_device e d);
           kdo e (KSpi (Put_device m));
           ret status }) }) }"

section \<open>Insertion and removal\<close>

definition spike_init_error :: "kernel \<Rightarrow> u32 \<Rightarrow> ('a spike_scheme, u32) state" where
  "spike_init_error e error = do {
     tx \<leftarrow> rd spike_tx_buff;
     (if tx \<noteq> 0 then do { kfree e tx; wr (\<lambda>s. s\<lparr>spike_tx_buff := 0\<rparr>) } else skip);
     rx \<leftarrow> rd spike_rx_buff;
     (if rx \<noteq> 0 then do { kfree e rx; wr (\<lambda>s. s\<lparr>spike_rx_buff := 0\<rparr>) } else skip);
     ret error }"

definition spike_register :: "kernel \<Rightarrow> ('a spike_scheme, u32) state" where
  "spike_register e = do {
     error \<leftarrow> kcall e (KSpi (Spi_register_driver spike_driver_name));
     (if error <s 0 then spike_init_error e error
      else do {
        error \<leftarrow> add_spike_device_to_bus e;
        (if error <s 0 then do {
           kdo e (KSpi (Spi_unregister_driver spike_driver_name));
           spike_init_error e error }
         else ret 0) }) }"

definition spike_init_spi :: "kernel \<Rightarrow> ('a spike_scheme, u32) state" where
  "spike_init_spi e = do {
     tx \<leftarrow> kmalloc e SPIKE_BUFF_SIZE;
     wr (\<lambda>s. s\<lparr>spike_tx_buff := tx\<rparr>);
     (if tx = 0 then spike_init_error e (- ENOMEM)
      else do {
        rx \<leftarrow> kmalloc e SPIKE_BUFF_SIZE;
        wr (\<lambda>s. s\<lparr>spike_rx_buff := rx\<rparr>);
        (if rx = 0 then spike_init_error e (- ENOMEM) else spike_register e) }) }"

definition spike_init_cdev :: "kernel \<Rightarrow> ('a spike_scheme, u32) state" where
  "spike_init_cdev e = do {
     error \<leftarrow> kcall e (KDev (Alloc_chrdev_region 1 spike_driver_name));
     (if error <s 0 then ret (- 1)
      else do {
        dev \<leftarrow> kcall e (KDev Allocated_dev);
        wr (\<lambda>s. s\<lparr>spike_devt := dev\<rparr>);
        kdo e (KDev Cdev_init);
        error \<leftarrow> kcall e (KDev (Cdev_add dev 1));
        (if error \<noteq> 0 then do {
           kdo e (KDev (Unregister_chrdev_region dev 1));
           ret (- 1) }
         else ret 0) }) }"

definition spike_init_class :: "kernel \<Rightarrow> ('a spike_scheme, u32) state" where
  "spike_init_class e = do {
     cl \<leftarrow> kcall e (KDev (Class_create spike_driver_name));
     wr (\<lambda>s. s\<lparr>spike_class := cl\<rparr>);
     (if cl = 0 then ret (- 1)
      else do {
        dev \<leftarrow> rd spike_devt;
        p \<leftarrow> kcall e (KDev (Device_create cl dev spike_driver_name));
        (if p = 0 then do { kdo e (KDev (Class_destroy cl)); ret (- 1) } else ret 0) }) }"

definition spike_fail_2 :: "kernel \<Rightarrow> ('a spike_scheme, u32) state" where
  "spike_fail_2 e = do {
     kdo e (KDev Cdev_del);
     dev \<leftarrow> rd spike_devt;
     kdo e (KDev (Unregister_chrdev_region dev 1));
     ret (- 1) }"

definition spike_fail_3 :: "kernel \<Rightarrow> ('a spike_scheme, u32) state" where
  "spike_fail_3 e = do {
     s \<leftarrow> rd id;
     kdo e (KDev (Device_destroy (spike_class s) (spike_devt s)));
     kdo e (KDev (Class_destroy (spike_class s)));
     spike_fail_2 e }"

text \<open>The two \<open>memset\<close> calls.\<close>

definition spike_zero :: "'a spike_scheme \<Rightarrow> 'a spike_scheme" where
  "spike_zero s = s\<lparr>spike_tx_buff := 0, spike_rx_buff := 0, spike_devt := 0, spike_class := 0,
     spike_spi_device := 0, spike_user_buff := 0\<rparr>"

definition spike_init :: "kernel \<Rightarrow> ('a spike_scheme, u32) state" where
  "spike_init e = do {
     wr spike_zero;
     kdo e (KLock (Sema_init Spi_sem));
     kdo e (KLock (Sema_init Fop_sem));
     r1 \<leftarrow> spike_init_cdev e;
     (if r1 <s 0 then ret (- 1)
      else do {
        r2 \<leftarrow> spike_init_class e;
        (if r2 <s 0 then spike_fail_2 e
         else do {
           r3 \<leftarrow> spike_init_spi e;
           (if r3 <s 0 then spike_fail_3 e else ret 0) }) }) }"

definition spike_exit :: "kernel \<Rightarrow> ('a spike_scheme, unit) state" where
  "spike_exit e = do {
     s \<leftarrow> rd id;
     kdo e (KSpi (Spi_unregister_device (spike_spi_device s)));
     kdo e (KSpi (Spi_unregister_driver spike_driver_name));
     kdo e (KDev (Device_destroy (spike_class s) (spike_devt s)));
     kdo e (KDev (Class_destroy (spike_class s)));
     kdo e (KDev Cdev_del);
     kdo e (KDev (Unregister_chrdev_region (spike_devt s) 1));
     kfree e (spike_tx_buff s);
     kfree e (spike_rx_buff s);
     kfree e (spike_user_buff s) }"

end
