(* ===== verification/Spike_Facts.thy ===== *)
theory Spike_Facts
  imports Spike
begin

text \<open>
  What the spike driver holds after an insertion, failed or not, and what a read sends to the user
  and leaves behind.
\<close>

section \<open>What an insertion holds\<close>

text \<open>The device that a log found on the bus, and the one that it added to the bus.\<close>

definition spike_found :: "event list \<Rightarrow> resource set" where
  "spike_found l = {Dev_ref p | p.
     (KSpi (Bus_find_device_by_name SPIKE_BUS_CS1), p) \<in> set l \<and> p \<noteq> 0}"

definition spike_added :: "event list \<Rightarrow> resource set" where
  "spike_added l = {Spi_dev d | d r.
     (KSpi (Spi_add_device d SPIKE_BUS_SPEED SPI_MODE_1 8), r) \<in> set l \<and> \<not> r <s 0}"

lemma spike_found_simps [simp]:
  "spike_found [] = {}"
  "spike_found ((c, r) # l) = (case c of KSpi (Bus_find_device_by_name n) \<Rightarrow>
     if n = SPIKE_BUS_CS1 \<and> r \<noteq> 0 then {Dev_ref r} else {} | _ \<Rightarrow> {}) \<union> spike_found l"
  "spike_found (l @ l') = spike_found l \<union> spike_found l'"
  by (auto simp: spike_found_def split: kcall.splits spi_call.splits)

lemma spike_added_simps [simp]:
  "spike_added [] = {}"
  "spike_added ((c, r) # l) = (case c of KSpi (Spi_add_device d hz m b) \<Rightarrow>
     if hz = SPIKE_BUS_SPEED \<and> m = SPI_MODE_1 \<and> b = 8 \<and> \<not> r <s 0 then {Spi_dev d} else {}
     | _ \<Rightarrow> {}) \<union> spike_added l"
  "spike_added (l @ l') = spike_added l \<union> spike_added l'"
  by (auto simp: spike_added_def split: kcall.splits spi_call.splits)

text \<open>
  Since the log \<open>l0\<close> the driver has found \<open>F\<close> and added \<open>A\<close>, and holds exactly these and \<open>X\<close>.
\<close>

definition spike_holds ::
    "kernel \<Rightarrow> event list \<Rightarrow> resource set \<Rightarrow> resource set \<Rightarrow> resource set \<Rightarrow> spike \<Rightarrow> bool" where
  "spike_holds e l0 X F A s \<longleftrightarrow> (\<exists>l. klog s = l0 @ l \<and> held e (klog s) = X \<union> F \<union> A \<and>
     spike_found l = F \<and> spike_added l = A)"

text \<open>
  A kernel that reports a class or node it cannot make with an error pointer, never with NULL; and
  whose buses are not devices on a bus.
\<close>

definition error_pointers :: "kernel \<Rightarrow> bool" where
  "error_pointers e \<longleftrightarrow> (\<forall>l n. answer e l (KDev (Class_create n)) \<noteq> 0) \<and>
     (\<forall>l c d n. answer e l (KDev (Device_create c d n)) \<noteq> 0)"

definition buses_differ :: "kernel \<Rightarrow> bool" where
  "buses_differ e \<longleftrightarrow> (\<forall>l l' n d. answer e l (KSpi (Bus_find_device_by_name d)) \<noteq> 0 \<longrightarrow>
     answer e l (KSpi (Bus_find_device_by_name d)) \<noteq> answer e l' (KSpi (Spi_busnum_to_master n)))"

definition spike_node :: "spike \<Rightarrow> resource set" where
  "spike_node s = {Sys_class (spike_class s), Dev_node (spike_devt s)}"

definition spike_bufs :: "spike \<Rightarrow> resource set" where
  "spike_bufs s = {Memory p | p. p \<in> {spike_tx_buff s, spike_rx_buff s} \<and> p \<noteq> 0}"

definition same_node :: "spike \<Rightarrow> spike \<Rightarrow> bool" where
  "same_node s s' \<longleftrightarrow> spike_class s' = spike_class s \<and> spike_devt s' = spike_devt s"

definition same_bufs :: "spike \<Rightarrow> spike \<Rightarrow> bool" where
  "same_bufs s s' \<longleftrightarrow> spike_tx_buff s' = spike_tx_buff s \<and> spike_rx_buff s' = spike_rx_buff s"

lemma same_bufs: "same_bufs s s' \<Longrightarrow> spike_bufs s' = spike_bufs s"
  by (simp add: same_bufs_def spike_bufs_def)

lemma wp_spike_init_cdev:
  assumes "spike_holds e l0 {} {} {} s"
  shows "wp (spike_init_cdev e) (\<lambda>r s'. if r <s 0 then spike_holds e l0 {} {} {} s'
    else spike_holds e l0 {Dev_numbers, Char_dev} {} {} s') s"
  using assms
  by (auto simp: spike_init_cdev_def wp_simps spike_holds_def held_step_def word_sless_alt)

lemma wp_spike_init_class:
  assumes "spike_holds e l0 {Dev_numbers, Char_dev} {} {} s" "error_pointers e"
  shows "wp (spike_init_class e) (\<lambda>r s'. r = 0 \<and> (\<exists>N \<subseteq> spike_node s'.
    spike_holds e l0 ({Dev_numbers, Char_dev} \<union> N) {} {} s')) s"
proof -
  have made: "\<exists>N \<subseteq> spike_node s'. spike_holds e l0 (insert Dev_numbers (insert Char_dev N)) {} {} s'"
    if "s' = s\<lparr>spike_class := c, klog := klog s @
        [(KDev (Class_create n), c), (KDev (Device_create c (spike_devt s) n), p)]\<rparr>" for c p n s'
    by (rule exI [of _ "(if k_IS_ERR e c then {} else {Sys_class c}) \<union>
        (if k_IS_ERR e p then {} else {Dev_node (spike_devt s)})"])
      (use assms(1) that in \<open>auto simp: spike_holds_def held_step_def spike_node_def\<close>)
  have nonzero: "resp e l (KDev (Class_create n)) r \<Longrightarrow> r \<noteq> 0"
    "resp e l (KDev (Device_create c d n)) r \<Longrightarrow> r \<noteq> 0" for l n c d r
    using assms(2) by (auto simp: error_pointers_def resp_def)
  show ?thesis
    unfolding spike_init_class_def
    by (simp add: wp_simps nonzero) (intro allI impI made [OF refl])
qed


lemma wp_spike_init_error:
  assumes "spike_holds e l0 (N \<union> spike_bufs s) F A s" "\<forall>p. Memory p \<notin> N \<union> F \<union> A"
  shows "wp (spike_init_error e x) (\<lambda>r s'. r = x \<and> spike_holds e l0 N F A s' \<and> same_node s s') s"
  using assms
  by (auto simp: spike_init_error_def kfree_def wp_simps spike_holds_def spike_bufs_def same_node_def
      held_step_def)

text \<open>What the bus may have been asked for: a reference to a device, or a new device.\<close>

definition bus_refs :: "u32 \<Rightarrow> resource set \<Rightarrow> resource set \<Rightarrow> bool" where
  "bus_refs r F A \<longleftrightarrow> F \<subseteq> range Dev_ref \<and> A \<subseteq> range Spi_dev \<and> (r <s 0 \<longrightarrow> A = {})"

lemma wp_add_spike_device:
  assumes "spike_holds e l0 X {} {} s" "buses_differ e" "\<forall>p. Dev_ref p \<notin> X \<and> Spi_dev p \<notin> X"
  shows "wp (add_spike_device_to_bus e) (\<lambda>r s'. (\<exists>F A. bus_refs r F A \<and> spike_holds e l0 X F A s') \<and>
    same_node s s' \<and> same_bufs s s') s"
proof -
  have differ: "resp e l (KSpi (Bus_find_device_by_name d)) p \<Longrightarrow> p \<noteq> 0 \<Longrightarrow>
      resp e l' (KSpi (Spi_busnum_to_master n)) m \<Longrightarrow> p \<noteq> m" for l l' d p n m
    using assms(2) by (auto simp: buses_differ_def resp_def)
  have minus: "X - {Dev_ref p} = X" "X - {Spi_dev p} = X" for p
    using assms(3) by auto
  obtain l where l: "klog s = l0 @ l" "held_from e (held e l0) l = X" "spike_found l = {}" "spike_added l = {}"
    using assms(1) by (auto simp: spike_holds_def)
  show ?thesis
    using assms(3)
    by (auto simp: add_spike_device_to_bus_def spike_use_pdev_def spike_new_device_def wp_simps
        spike_holds_def same_node_def same_bufs_def held_step_def word_sless_alt bus_refs_def
        l minus insert_Diff_if dest: differ)
qed

text \<open>How the last part of the insertion ends, \<open>N\<close> being what the parts before it have made.\<close>

definition spi_done :: "kernel \<Rightarrow> event list \<Rightarrow> resource set \<Rightarrow> spike \<Rightarrow> u32 \<Rightarrow> spike \<Rightarrow> bool" where
  "spi_done e l0 N s r s' \<longleftrightarrow> same_node s s' \<and> (\<exists>F A. bus_refs r F A \<and>
     (if r <s 0 then spike_holds e l0 N F A s'
      else r = 0 \<and> spike_tx_buff s' \<noteq> 0 \<and> spike_rx_buff s' \<noteq> 0 \<and>
        spike_holds e l0 (insert (Spi_driver spike_driver_name) (N \<union> spike_bufs s')) F A s'))"

definition dev_res :: "resource set \<Rightarrow> bool" where
  "dev_res N \<longleftrightarrow> (\<forall>p. Dev_ref p \<notin> N \<and> Spi_dev p \<notin> N \<and> Memory p \<notin> N) \<and> (\<forall>n. Spi_driver n \<notin> N)"

lemma wp_spike_init_error_done:
  assumes "spike_holds e l0 (N \<union> spike_bufs t) F {} t" "F \<subseteq> range Dev_ref" "dev_res N" "same_node s t" "x <s 0"
  shows "wp (spike_init_error e x) (spi_done e l0 N s) t"
proof -
  have "\<forall>p. Memory p \<notin> N \<union> F \<union> {}" using assms(2,3) by (auto simp: dev_res_def)
  from wp_spike_init_error [OF assms(1) this, of x] show ?thesis
    by (rule wp_mono) (use assms(2,4,5) in \<open>auto simp: spi_done_def same_node_def bus_refs_def\<close>)
qed

lemma spike_holds_driver:
  assumes "spike_holds e l0 X F A s" "Spi_driver spike_driver_name \<notin> X" "F \<subseteq> range Dev_ref" "A \<subseteq> range Spi_dev"
  shows "spike_holds e l0 (if r <s 0 then X else insert (Spi_driver spike_driver_name) X) F A
    (s\<lparr>klog := klog s @ [(KSpi (Spi_register_driver spike_driver_name), r)]\<rparr>)"
  using assms(1) by (auto simp: spike_holds_def held_step_def)

lemma spike_holds_no_driver:
  assumes "spike_holds e l0 (insert (Spi_driver spike_driver_name) X) F A s"
    "Spi_driver spike_driver_name \<notin> X" "F \<subseteq> range Dev_ref" "A \<subseteq> range Spi_dev"
  shows "spike_holds e l0 X F A
    (s\<lparr>klog := klog s @ [(KSpi (Spi_unregister_driver spike_driver_name), r)]\<rparr>)"
proof -
  have "F - {Spi_driver spike_driver_name} = F" "A - {Spi_driver spike_driver_name} = A"
    "X - {Spi_driver spike_driver_name} = X" using assms(2-4) by auto
  then show ?thesis
    using assms(1) by (auto simp: spike_holds_def held_step_def Un_Diff)
qed

lemma wp_spike_register:
  assumes "spike_holds e l0 (N \<union> spike_bufs s) {} {} s" "buses_differ e" "dev_res N"
    "spike_tx_buff s \<noteq> 0" "spike_rx_buff s \<noteq> 0"
  shows "wp (spike_register e) (spi_done e l0 N s) s"
proof -
  let ?X = "N \<union> spike_bufs s" and ?d = "Spi_driver spike_driver_name"
  let ?t = "\<lambda>r. s\<lparr>klog := klog s @ [(KSpi (Spi_register_driver spike_driver_name), r)]\<rparr>"
  have X: "?d \<notin> ?X" "\<forall>p. Dev_ref p \<notin> insert ?d ?X \<and> Spi_dev p \<notin> insert ?d ?X"
    using assms(3) by (auto simp: dev_res_def spike_bufs_def)
  have same: "same_node s (?t r)" "spike_bufs (?t r) = spike_bufs s" for r
    by (simp_all add: same_node_def spike_bufs_def)
  have refused: "wp (spike_init_error e r) (spi_done e l0 N s) (?t r)" if "r <s 0" for r
    by (rule wp_spike_init_error_done [where F = "{}"])
      (use spike_holds_driver [OF assms(1) X(1), of r] that assms(3) same in simp_all)
  have undo: "wp (spike_init_error e x) (spi_done e l0 N s)
      (u\<lparr>klog := klog u @ [(KSpi (Spi_unregister_driver spike_driver_name), r)]\<rparr>)"
    if "spike_holds e l0 (insert ?d ?X) F A u" "bus_refs x F A" "x <s 0" "same_node s u" "same_bufs s u" for x F A u r
  proof -
    have F: "A = {}" "F \<subseteq> range Dev_ref" using that(2,3) by (auto simp: bus_refs_def)
    let ?u = "u\<lparr>klog := klog u @ [(KSpi (Spi_unregister_driver spike_driver_name), r)]\<rparr>"
    have "spike_holds e l0 ?X F {} ?u"
      using spike_holds_no_driver [OF that(1) X(1) F(2)] F(1) by simp
    moreover have "spike_bufs ?u = spike_bufs s" "same_node s ?u"
      using that(4,5) by (simp_all add: spike_bufs_def same_bufs_def same_node_def)
    ultimately show ?thesis
      using F(2) assms(3) that(3) by (intro wp_spike_init_error_done) simp_all
  qed
  have fine: "spi_done e l0 N s 0 u"
    if "spike_holds e l0 (insert ?d ?X) F A u" "bus_refs x F A" "\<not> x <s 0" "same_node s u" "same_bufs s u" for x F A u
    using that assms(4,5) same_bufs [OF that(5)]
    by (auto simp: spi_done_def same_bufs_def bus_refs_def)
  have bus: "wp (add_spike_device_to_bus e \<bind> (\<lambda>error. if error <s 0
      then kdo e (KSpi (Spi_unregister_driver spike_driver_name)) \<bind> (\<lambda>_. spike_init_error e error)
      else ret 0)) (spi_done e l0 N s) (?t r)" if "\<not> r <s 0" for r
    unfolding wp_bind [of "add_spike_device_to_bus e"]
    by (rule wp_mono [OF wp_add_spike_device [OF _ assms(2) X(2)]])
      (use spike_holds_driver [OF assms(1) X(1), of r] that same in
        \<open>auto simp: wp_bind wp_kdo wp_return same_node_def same_bufs_def intro!: wp_ifI intro: undo fine\<close>)
  show ?thesis
    unfolding spike_register_def wp_bind [of "kcall _ _"] wp_kcall
    by (intro allI impI wp_ifI refused bus)
qed

lemma wp_kmalloc_holds:
  assumes "spike_holds e l0 X {} {} s"
  shows "wp (kmalloc e n) (\<lambda>p t. spike_holds e l0 (if p = 0 then X else insert (Memory p) X) {} {} t \<and>
    same_node s t \<and> same_bufs s t) s"
  using assms by (auto simp: kmalloc_def wp_simps spike_holds_def same_node_def same_bufs_def held_step_def)

lemma spi_done_from: "spi_done e l0 N t r u \<Longrightarrow> same_node s t \<Longrightarrow> spi_done e l0 N s r u"
  by (auto simp: spi_done_def same_node_def)

lemma wp_spike_init_spi:
  assumes "spike_holds e l0 N {} {} s" "spike_tx_buff s = 0" "spike_rx_buff s = 0"
    and "buses_differ e" "dev_res N"
  shows "wp (spike_init_spi e) (spi_done e l0 N s) s"
proof -
  have neg: "(- ENOMEM :: u32) <s 0" by (simp add: word_sless_alt)
  have put: "spike_holds e l0 X {} {} (t\<lparr>spike_tx_buff := a\<rparr>) = spike_holds e l0 X {} {} t"
    "spike_holds e l0 X {} {} (t\<lparr>spike_rx_buff := a\<rparr>) = spike_holds e l0 X {} {} t"
    "same_node u (t\<lparr>spike_tx_buff := a\<rparr>) = same_node u t"
    "same_node u (t\<lparr>spike_rx_buff := a\<rparr>) = same_node u t" for X t a u
    by (simp_all add: spike_holds_def same_node_def)
  have fail: "wp (spike_init_error e (- ENOMEM)) (spi_done e l0 N s) t"
    if "spike_holds e l0 (N \<union> spike_bufs t) {} {} t" "same_node s t" for t
    by (rule wp_spike_init_error_done [OF that(1) _ assms(5) that(2) neg]) simp
  have register: "wp (spike_register e) (spi_done e l0 N s) t"
    if "spike_holds e l0 (N \<union> spike_bufs t) {} {} t" "same_node s t" "spike_tx_buff t \<noteq> 0" "spike_rx_buff t \<noteq> 0" for t
    by (rule wp_mono [OF wp_spike_register [OF that(1) assms(4,5) that(3,4)]])
      (rule spi_done_from [OF _ that(2)])
  have second: "wp (kmalloc e SPIKE_BUFF_SIZE \<bind> (\<lambda>rx. wr (\<lambda>s. s\<lparr>spike_rx_buff := rx\<rparr>) \<bind>
      (\<lambda>_. if rx = 0 then spike_init_error e (- ENOMEM) else spike_register e))) (spi_done e l0 N s) u"
    if u: "spike_holds e l0 (insert (Memory p) N) {} {} u" "spike_tx_buff u = p" "p \<noteq> 0"
      "spike_rx_buff u = 0" "same_node s u" for p u
  proof -
    have one: "N \<union> spike_bufs (t\<lparr>spike_rx_buff := 0\<rparr>) = insert (Memory p) N"
      "q \<noteq> 0 \<Longrightarrow> N \<union> spike_bufs (t\<lparr>spike_rx_buff := q\<rparr>) = insert (Memory q) (insert (Memory p) N)"
      if "same_bufs u t" for t q
      using that u(2-4) by (auto simp: spike_bufs_def same_bufs_def)
    have node: "same_node s t" if "same_node u t" for t
      using u(5) that by (simp add: same_node_def)
    have tx: "spike_tx_buff t \<noteq> 0" if "same_bufs u t" for t
      using that u(2,3) by (simp add: same_bufs_def)
    show ?thesis
      unfolding wp_bind
      by (rule wp_mono [OF wp_kmalloc_holds [OF u(1)]])
        (auto simp: wp_wr one put node tx intro!: fail register)
  qed
  have zero: "N \<union> spike_bufs (t\<lparr>spike_tx_buff := 0\<rparr>) = N" if "same_bufs s t" for t
    using that assms(3) by (auto simp: spike_bufs_def same_bufs_def)
  have rx: "spike_rx_buff t = 0" if "same_bufs s t" for t
    using that assms(3) by (simp add: same_bufs_def)
  show ?thesis
    unfolding spike_init_spi_def wp_bind [of "kmalloc _ _"]
    apply (rule wp_mono [OF wp_kmalloc_holds [OF assms(1)]])
    apply (simp only: wp_bind [of "wr _"] wp_wr)
    apply (rule wp_ifI)
     apply (rule fail; simp add: put zero)
    apply (rule second; simp add: put rx)
    done
qed

text \<open>
  How an insertion ends: with an error and nothing but the reference to the device it has found, or
  with what the driver means to hold, and the class and node if they could be made.
\<close>

definition init_holds :: "kernel \<Rightarrow> event list \<Rightarrow> u32 \<Rightarrow> spike \<Rightarrow> bool" where
  "init_holds e l r s \<longleftrightarrow>
     (if r = 0 then \<exists>N \<subseteq> spike_node s. held e (klog s) =
        {Dev_numbers, Char_dev, Spi_driver spike_driver_name, Memory (spike_tx_buff s),
         Memory (spike_rx_buff s)} \<union> N \<union> spike_found l \<union> spike_added l
      else r = - 1 \<and> held e (klog s) = spike_found l)"

lemma wp_spike_init:
  assumes "error_pointers e" "buses_differ e" "held e (klog s) = {}"
  shows "wp (spike_init e) (\<lambda>r s'. \<exists>l. klog s' = klog s @ l \<and> init_holds e l r s') s"
proof -
  let ?l0 = "klog s"
  let ?done = "\<lambda>r s'. \<exists>l. klog s' = ?l0 @ l \<and> init_holds e l r s'"
  let ?zero = "\<lambda>t. spike_tx_buff t = 0 \<and> spike_rx_buff t = 0"
  let ?D = "{Dev_numbers, Char_dev}"
  have bare: "?done (- 1) t" if "spike_holds e ?l0 {} F {} t" for F t
    using that by (auto simp: spike_holds_def init_holds_def)
  have fail_2: "wp (spike_fail_2 e) ?done t" if "spike_holds e ?l0 ?D {} {} t" for t
    using that by (auto simp: spike_fail_2_def wp_simps spike_holds_def held_step_def init_holds_def)
  have fail_3: "wp (spike_fail_3 e) ?done t"
    if "spike_holds e ?l0 (?D \<union> N) F {} t" "N \<subseteq> spike_node t" "F \<subseteq> range Dev_ref" for t F N
  proof -
    have "?D \<union> N \<union> F - {Dev_node (spike_devt t)} - {Sys_class (spike_class t)} - {Char_dev} - {Dev_numbers} = F"
      using that(2,3) by (auto simp: spike_node_def)
    then show ?thesis
      using that(1) by (auto simp: spike_fail_3_def spike_fail_2_def wp_simps spike_holds_def
          held_step_def init_holds_def)
  qed
  have bufs: "wp (spike_init_cdev e) (\<lambda>_. ?zero) t" "wp (spike_init_class e) (\<lambda>_. ?zero) t"
    if "?zero t" for t :: spike
    using that by (simp_all add: spike_init_cdev_def spike_init_class_def wp_simps)
  have inserted: "wp (if r <s 0 then spike_fail_3 e else ret 0) ?done u"
    if fin: "spi_done e ?l0 (?D \<union> N) t r u" and N: "N \<subseteq> spike_node t" for r u t N
  proof -
    obtain F A where F: "same_node t u" "bus_refs r F A" "if r <s 0 then spike_holds e ?l0 (?D \<union> N) F A u
      else r = 0 \<and> spike_tx_buff u \<noteq> 0 \<and> spike_rx_buff u \<noteq> 0 \<and>
        spike_holds e ?l0 (insert (Spi_driver spike_driver_name) (?D \<union> N \<union> spike_bufs u)) F A u"
      using fin unfolding spi_done_def by blast
    have node: "spike_node u = spike_node t" using F(1) by (simp add: spike_node_def same_node_def)
    show ?thesis
    proof (cases "r <s 0")
      case True
      then show ?thesis using F N by (auto simp: bus_refs_def node intro!: fail_3)
    next
      case False
      have "spike_bufs u = {Memory (spike_tx_buff u), Memory (spike_rx_buff u)}"
        using F(3) False by (auto simp: spike_bufs_def)
      moreover have "spike_holds e ?l0 (insert (Spi_driver spike_driver_name) (?D \<union> N \<union> spike_bufs u)) F A u"
        using F(3) False by simp
      ultimately obtain l where "klog u = ?l0 @ l" "held e (klog u) = insert (Spi_driver spike_driver_name)
          (?D \<union> N \<union> {Memory (spike_tx_buff u), Memory (spike_rx_buff u)}) \<union> spike_found l \<union> spike_added l"
        by (auto simp: spike_holds_def)
      then have "?done 0 u"
        using N by (intro exI [of _ l] conjI) (auto simp: init_holds_def node simp del: held_from_simps intro!: exI [of _ N])
      then show ?thesis using False by (simp add: wp_return)
    qed
  qed
  have cl: "wp (spike_init_class e) (\<lambda>r. wp (if r <s 0 then spike_fail_2 e
      else spike_init_spi e \<bind> (\<lambda>r. if r <s 0 then spike_fail_3 e else ret 0)) ?done) t"
    if "spike_holds e ?l0 ?D {} {} t" "?zero t" for t
  proof (rule wp_mono [OF wp_conj [OF wp_spike_init_class [OF that(1) assms(1)] bufs(2) [OF that(2)]]], elim conjE exE)
    fix r :: u32 and u N
    assume u: "r = 0" "N \<subseteq> spike_node u" "spike_holds e ?l0 (?D \<union> N) {} {} u" "spike_tx_buff u = 0" "spike_rx_buff u = 0"
    have dev: "dev_res (?D \<union> N)" using u(2) by (auto simp: dev_res_def spike_node_def)
    show "wp (if r <s 0 then spike_fail_2 e
      else spike_init_spi e \<bind> (\<lambda>r. if r <s 0 then spike_fail_3 e else ret 0)) ?done u"
      using u(1) wp_mono [OF wp_spike_init_spi [OF u(3-5) assms(2) dev] inserted [OF _ u(2)]]
      by (simp add: wp_bind)
  qed
  have cdev: "wp (spike_init_cdev e \<bind> (\<lambda>r. if r <s 0 then ret (- 1) else spike_init_class e \<bind>
      (\<lambda>r. if r <s 0 then spike_fail_2 e
        else spike_init_spi e \<bind> (\<lambda>r. if r <s 0 then spike_fail_3 e else ret 0)))) ?done t"
    if "spike_holds e ?l0 {} {} {} t" "?zero t" for t
    unfolding wp_bind [of "spike_init_cdev e"]
    by (rule wp_mono [OF wp_conj [OF wp_spike_init_cdev [OF that(1)] bufs(1) [OF that(2)]]])
      (auto simp: wp_return wp_bind intro: cl bare intro!: wp_ifI)
  have sema: "wp (kdo e (KLock (Sema_init x))) (\<lambda>_ t. spike_holds e ?l0 {} {} {} t \<and> ?zero t) t"
    if "spike_holds e ?l0 {} {} {} t" "?zero t" for x t
    using that by (auto simp: wp_kdo spike_holds_def held_step_def)
  have zero: "spike_holds e ?l0 {} {} {} (spike_zero s)" "?zero (spike_zero s)"
    using assms(3) by (auto simp: spike_holds_def spike_zero_def)
  show ?thesis
    unfolding spike_init_def
    apply (subst wp_bind, subst wp_wr, subst wp_bind)
    apply (rule wp_mono [OF sema [OF zero]], subst wp_bind)
    apply (rule wp_mono [OF sema], blast, blast)
    apply (rule cdev, blast, blast)
    done
qed

section \<open>A read\<close>

definition spike_ready :: "spike \<Rightarrow> bool" where
  "spike_ready s \<longleftrightarrow> spike_spi_device s \<noteq> 0 \<and> spike_rx_buff s \<noteq> 0 \<and>
     blocks s (spike_tx_buff s) = Some 4 \<and> blocks s (spike_rx_buff s) = Some 4"

text \<open>
  A kernel and a controller on which every step of a read succeeds, with semaphores that are granted
  when they are free; \<open>rx i\<close> is the byte the sensor sends at position \<open>i\<close>.
\<close>

definition reads_work :: "kernel \<Rightarrow> (nat \<Rightarrow> u8) \<Rightarrow> bool" where
  "reads_work e rx \<longleftrightarrow>
     (\<forall>l x. Semaphore x \<notin> held e l \<longrightarrow> answer e l (KLock (Down_interruptible x)) = 0) \<and>
     (\<forall>l d tx n. answer e l (KSpi (Spi_sync d tx n)) = 0) \<and>
     (\<forall>l i. answer e l (KSpi (Spi_rx_byte i)) = ucast (rx i)) \<and>
     (\<forall>l a p n. answer e l (KUser (Copy_to_user a p n)) = 0)"

lemma reads_work_resp [simp]:
  assumes "reads_work e rx"
  shows "Semaphore x \<notin> held e l \<Longrightarrow> resp e l (KLock (Down_interruptible x)) r \<longleftrightarrow> r = 0"
    "resp e l (KSpi (Spi_sync d tx n)) r \<longleftrightarrow> r = 0"
    "resp e l (KSpi (Spi_rx_byte i)) r \<longleftrightarrow> r = ucast (rx i)"
    "resp e l (KUser (Copy_to_user a p n)) r \<longleftrightarrow> r = 0"
  using assms by (simp_all add: reads_work_def resp_def)

lemma fits_le: "blocks s p = Some k \<Longrightarrow> n \<le> k \<Longrightarrow> fits p n s"
  by (simp add: fits_def)

lemma bytes_at_received:
  "ram s = poke p [a, b] (poke p [0, 0, 0, 0] r) \<Longrightarrow> bytes_at p 4 s = [a, b, 0, 0]"
  by (simp add: bytes_at_def poke_def upt_rec)

lemma ucast_ucast_u8 [simp]: "ucast (ucast (b :: u8) :: u32) = b"
  by (simp add: unsigned_ucast_eq take_bit_word_eq_self)

text \<open>The transfer: the two bytes arrive in the receive buffer, with zeros behind them.\<close>

lemma wp_spike_do_one_message:
  assumes "reads_work e rx" "spike_ready s" "safe_log (klog s)" "Semaphore Spi_sem \<notin> held e (klog s)"
  shows "wp (spike_do_one_message e) (\<lambda>r s'. r = 0 \<and> safe_log (klog s') \<and>
    bytes_at (spike_rx_buff s') 4 s' = [rx 0, rx 1, 0, 0] \<and> spike_ready s') s"
proof -
  have four: "replicate 4 0 = [0, 0, 0, 0 :: u8]" by (simp add: numeral_eq_Suc)
  have two: "rx_bytes e 2 = rx_bytes e (Suc (Suc 0))" by (simp add: numeral_eq_Suc)
  show ?thesis
    using assms
    by (auto simp: spike_do_one_message_def spike_prepare_spi_message_def spike_prepare_def
        spike_sync_def wp_simps spike_ready_def store_def load_def fits_le four receive_def two fits_def
        intro!: bytes_at_received)
qed

lemma take_bytes_at: "n \<le> m \<Longrightarrow> bytes_at p n s = take n (bytes_at p m s)"
  by (simp add: bytes_at_def take_map)

text \<open>The bytes of a string of at most two characters that a read sends.\<close>

definition spike_sent :: "(nat \<Rightarrow> u8) \<Rightarrow> u32 \<Rightarrow> u8 list" where
  "spike_sent rx count = take (unat count) (takeWhile (\<lambda>b. b \<noteq> 0) [rx 0, rx 1])"

lemma spike_sent_length:
  fixes count :: u32 and rx :: "nat \<Rightarrow> u8"
  defines "w \<equiv> word_of_nat (length (takeWhile (\<lambda>b. b \<noteq> 0) [rx 0, rx 1])) :: u32"
  shows "(if w < count then w else count) = word_of_nat (length (spike_sent rx count))"
    "unat (if w < count then w else count) \<le> 2"
    "take (unat (if w < count then w else count)) [rx 0, rx 1, 0, 0] = spike_sent rx count"
proof -
  let ?t = "takeWhile (\<lambda>b. b \<noteq> 0) [rx 0, rx 1]"
  have le: "length ?t \<le> 2" using length_takeWhile_le [of "\<lambda>b. b \<noteq> 0" "[rx 0, rx 1]"] by simp
  then have w: "unat w = length ?t" unfolding w_def by (intro unat_word_of_nat_u32) simp
  have n: "unat (if w < count then w else count) = min (length ?t) (unat count)"
    by (simp add: word_less_nat_alt w min_def)
  show "(if w < count then w else count) = word_of_nat (length (spike_sent rx count))"
  proof -
    have len: "length (spike_sent rx count) = min (length ?t) (unat count)"
      unfolding spike_sent_def length_take by (rule refl)
    with le have "unat (word_of_nat (length (spike_sent rx count)) :: u32) = length (spike_sent rx count)"
      by (intro unat_word_of_nat_u32) simp
    then show ?thesis by (simp only: word_unat_eq_iff n len)
  qed
  show "unat (if w < count then w else count) \<le> 2"
    unfolding n using le by simp
  have split: "take (min k j) xs = take j (take k xs)" for k j and xs :: "u8 list"
    by (simp add: min.commute)
  have "take (length ?t) [rx 0, rx 1, 0, 0] = ?t" by simp
  then show "take (unat (if w < count then w else count)) [rx 0, rx 1, 0, 0] = spike_sent rx count"
    unfolding n spike_sent_def split by (simp only:)
qed

lemma wp_spike_read:
  assumes "reads_work e rx" "spike_ready s" "safe_log (klog s)" "buff \<noteq> 0" "\<not> 0 <s offp"
    and free: "Semaphore Fop_sem \<notin> held e (klog s)" "Semaphore Spi_sem \<notin> held e (klog s)"
  shows "wp (spike_read e buff count offp) (\<lambda>r s'. let n = word_of_nat (length (spike_sent rx count)) in
    r = (n, offp + ucast n) \<and> safe_log (klog s') \<and>
    (KUser (Copy_to_user buff (Raw (spike_sent rx count)) n), 0) \<in> set (klog s') \<and>
    spike_user_buff s' = spike_rx_buff s' \<and> spike_ready s') s"
proof -
  note sent = spike_sent_length [of rx count]
  have start: "spike_ready (t\<lparr>klog := l\<rparr>) = spike_ready t" for t l by (simp add: spike_ready_def)
  have bytes: "bytes_at p n (t\<lparr>klog := l\<rparr>) = bytes_at p n t"
    "bytes_at p n (t\<lparr>spike_user_buff := u\<rparr>) = bytes_at p n t" for p n t l u
    by (simp_all add: bytes_at_def)
  have take: "bytes_at p n t = take n [rx 0, rx 1, 0, 0]"
    if "bytes_at p 4 t = [rx 0, rx 1, 0, 0]" "n \<le> 4" for p n t
    using take_bytes_at [OF that(2), of p t] that(1) by simp
  have finish: "wp (do {
           spike_read_result e 0;
           p \<leftarrow> rd spike_user_buff;
           len \<leftarrow> strlen e p;
           let n = (if len < count then len else count);
           bs \<leftarrow> load e p (unat n);
           left \<leftarrow> kcall e (KUser (Copy_to_user buff (Raw bs) n));
           kdo e (KLock (Up Fop_sem));
           spike_clear_buffers e;
           ret (if left \<noteq> 0 then (- EFAULT, offp) else (n, offp + ucast n)) }) (\<lambda>r s'.
      let n = word_of_nat (length (spike_sent rx count)) in
      r = (n, offp + ucast n) \<and> safe_log (klog s') \<and>
      (KUser (Copy_to_user buff (Raw (spike_sent rx count)) n), 0) \<in> set (klog s') \<and>
      spike_user_buff s' = spike_rx_buff s' \<and> spike_ready s') t"
    if "bytes_at (spike_rx_buff t) 4 t = [rx 0, rx 1, 0, 0]" "spike_ready t" "safe_log (klog t)" for t
  proof -
    let ?w = "word_of_nat (length (takeWhile (\<lambda>b. b \<noteq> 0) [rx 0, rx 1])) :: u32"
    let ?n = "if ?w < count then ?w else count"
    have strlen: "wp (strlen e (spike_rx_buff t)) (\<lambda>r t'. r = ?w \<and> t' = u) u"
      if "u = t\<lparr>spike_user_buff := spike_rx_buff t\<rparr>" for u
      using \<open>spike_ready t\<close> \<open>bytes_at _ 4 t = _\<close> that
      by (auto simp: strlen_def wp_simps spike_ready_def bytes)
    have user: "spike_user_buff (t\<lparr>spike_user_buff := u\<rparr>) = u" for u by simp
    have n: "unat ?n \<le> 4" using sent(2) by linarith
    have got: "bytes_at (spike_rx_buff t) (unat ?n) t = spike_sent rx count"
      using take [OF that(1) n] sent(3) by (simp only:)
    have load: "wp (load e (spike_rx_buff t) (unat ?n)) (\<lambda>r t'. r = spike_sent rx count \<and> t' = u) u"
      if "u = t\<lparr>spike_user_buff := spike_rx_buff t\<rparr>" for u
      unfolding load_def wp_bind wp_rd
      using \<open>spike_ready t\<close> that got n
      by (auto simp: wp_simps spike_ready_def bytes fits_def simp del: takeWhile.simps)
    show ?thesis
      apply (simp only: spike_read_result_def wp_bind wp_rd id_apply simp_thms if_False wp_wr user)
      apply (rule wp_mono [OF strlen], simp)
      apply (simp only: Let_def wp_bind)
      apply (rule wp_mono [OF load], simp)
      using that assms(1) sent(1)
      apply (simp add: wp_simps spike_clear_buffers_def store_def fits_def spike_ready_def)
      done
  qed
  show ?thesis
    using assms(3,4,5)
    apply (simp only: spike_read_def if_False wp_bind wp_kcall reads_work_resp(1) [OF assms(1) free(1)])
    apply (simp add: wp_bind)
    apply (rule wp_mono [OF wp_spike_do_one_message [OF assms(1)]], simp add: start assms, simp,
        simp add: held_step_def free)
    apply (elim conjE, simp only:, rule finish; assumption)
    done
qed

section \<open>Removal\<close>

text \<open>The receive buffer is freed twice when \<open>user_buff\<close> is an alias of it.\<close>

lemma wp_spike_exit_alias:
  assumes "spike_user_buff s = spike_rx_buff s" "spike_rx_buff s \<noteq> 0"
  shows "wp (spike_exit e) (\<lambda>_ s'. UB Bad_free \<in> fst ` set (klog s')) s"
  using assms by (auto simp: spike_exit_def kfree_def wp_simps)

end
