(* ===== verification/Spi_Props.thy ===== *)
theory Spi_Props
  imports Board Can_Machine Spike_Facts
begin

text \<open>
  The properties of the two SPI drivers, with their witnesses on the kernel \<open>spi_board\<close>: the board
  of \<open>Board\<close> with an allocator that never fails, an SPI bus, semaphores that exclude, a sensor that
  sends 65, 66, \<open>\<dots>\<close>, and a signal pending for whoever wakes up.
\<close>

definition spi_answer :: "event list \<Rightarrow> kcall \<Rightarrow> u32" where
  "spi_answer l c = (case c of
     KMem (Kmalloc n) \<Rightarrow> 0x10000 * (1 + word_of_nat (length l))
   | KSpi (Spi_busnum_to_master n) \<Rightarrow> 0x6000
   | KSpi (Spi_alloc_device m) \<Rightarrow> 0x7000
   | KSpi (Spi_rx_byte i) \<Rightarrow> ucast (65 + word_of_nat i :: u8)
   | KLock (Down_interruptible x) \<Rightarrow> (if Semaphore x \<in> held board l then 1 else 0)
   | KSched Signal_pending \<Rightarrow> 1
   | _ \<Rightarrow> board_answer l c)"

definition spi_board :: kernel where
  "spi_board = board\<lparr>answer := spi_answer\<rparr>"

lemma spi_board_simps [simp]:
  "answer spi_board = spi_answer" "k_ERESTARTSYS spi_board = 512"
  by (simp_all add: spi_board_def)

lemma held_spi_board: "held_from spi_board R l = held_from board R l"
proof -
  have "k_IS_ERR spi_board = k_IS_ERR board" by (simp add: spi_board_def)
  then have "acquired spi_board = acquired board" by (intro ext) (simp only: acquired_def)
  then have "held_step spi_board R ev = held_step board R ev" for R ev by (simp only: held_step_def)
  then show ?thesis by (induction l arbitrary: R) simp_all
qed

lemma spi_board_excludes: "semaphores_exclude spi_board"
  by (simp add: semaphores_exclude_def held_spi_board spi_answer_def)

section \<open>The CAN driver\<close>

definition can_globals :: can_spi where
  "can_globals = \<lparr>klog = [], blocks = (\<lambda>_. None), ram = (\<lambda>_. 0), running = 0, rxbuff = 0,
     can_busy = 0, spi_callbacks = 0, busy_counter = 0, can_tx_buff = 0, can_rx_buff = 0,
     can_transfer_rx_buf = 0, can_transfer_len = 0, can_devt = 0, can_class = 0, can_dev_spi = 0,
     can_user_buff = 0, can_spi_device = 0, can_spi_master = 0, can_pdev = 0, can_max_speed_hz = 0,
     can_bits_per_word = 0\<rparr>"

text \<open>Inserted, probed, opened and with a transfer started.\<close>

definition can_board :: can_machine where
  "can_board = \<lparr>can_drv = snd (run_state (do {
     ifsttar_can_spi_init spi_board;
     ifsttar_can_spi_probe spi_board 0x7000;
     ifsttar_can_spi_open spi_board;
     Spi_ioctl spi_board CMD_SPI_NB_ECH 2000;
     Spi_ioctl spi_board CMD_SPI_START 0 }) can_globals), can_reader = None\<rparr>"

lemmas can_board_run = ifsttar_can_spi_init_def ifsttar_can_spi_init_cdev_def
  ifsttar_can_spi_init_class_def ifsttar_can_spi_init_spi_def kmalloc_def can_spi_register_def
  add_ifsttar_can_spi_device_to_bus_def can_spi_new_device_def ifsttar_can_spi_probe_def
  ifsttar_can_spi_open_def Spi_ioctl_def ifsttar_can_spi_queue_spi_write_def can_spi_zero_def
  spi_answer_def board_answer_def can_globals_def held_step_def word_sless_alt

lemma can_board_state:
  "can_reader can_board = None" "running (can_drv can_board) = 1"
  "can_rx_buff (can_drv can_board) = 0xA0000" "blocks (can_drv can_board) 0xA0000 = Some 4000"
  "safe_log (klog (can_drv can_board))" "\<not> sem_held spi_board (can_drv can_board)"
  by (simp_all add: can_board_def can_board_run sem_held_def held_spi_board)

text \<open>C28: A read of the CAN board that a signal interrupts keeps the semaphore of the file operations for
  ever. On a kernel whose semaphores exclude, the read sleeps holding it; whatever happens before the
  signal, waking up returns -EINTR without giving it back; whatever happens afterwards, every open and every
  write fails with -ERESTARTSYS and every read fails too.\<close>

theorem can_interrupted_read_blocks:
  assumes "semaphores_exclude e" "can_reader m = None"
    and "can_exec e (Can_read buff n) m = Some m1" "can_reader m1 = Some a"
    and "can_runs e m1 evs m2" "Can_read_woken \<notin> set evs"
    and "answer e (klog (can_drv m2)) (KSched Signal_pending) \<noteq> 0"
    and "can_exec e Can_read_woken m2 = Some m3" "can_runs e m3 evs' m4"
  shows "fst (run_state (can_spi_read_woken e (fst a) (snd a)) (can_drv m2)) = Spi_returned (- EINTR) \<and>
    fst (run_state (ifsttar_can_spi_open e) (can_drv m4)) = - k_ERESTARTSYS e \<and>
    fst (run_state (ifsttar_can_spi_write e buff' user k) (can_drv m4)) = - k_ERESTARTSYS e \<and>
    fst (run_state (ifsttar_can_spi_read e buff' k) (can_drv m4)) =
      Spi_returned (if buff' = 0 then - EFAULT else - k_ERESTARTSYS e)"
proof -
  have "can_stuck e (Some a) m1" by (rule can_read_sleeps [OF assms(3,2,4)])
  then have m2: "can_stuck e (Some a) m2" using can_runs_stuck [OF assms(5,1)] assms(6) by simp
  then have m3: "can_stuck e None m3" by (rule can_woken_interrupted [OF assms(8) _ assms(7)])
  have m4: "sem_held e (can_drv m4)"
    using can_runs_stuck [OF assms(9,1) m3] by (simp add: can_stuck_def)
  have "fst (run_state (can_spi_read_woken e (fst a) (snd a)) (can_drv m2)) = Spi_returned (- EINTR)"
    using assms(7) by (simp add: can_spi_read_woken_def)
  then show ?thesis using sem_refused [OF assms(1) m4] by (metis fst_conv)
qed

theorem can_interrupted_read_blocks_witness:
  "\<exists>m1 m3. can_exec spi_board (Can_read 0x8000 100) can_board = Some m1 \<and>
     can_exec spi_board Can_read_woken m1 = Some m3 \<and>
     fst (run_state (ifsttar_can_spi_open spi_board) (can_drv m3)) = - 512"
proof -
  let ?s = "can_drv can_board"
  let ?s1 = "snd (run_state (ifsttar_can_spi_read spi_board 0x8000 100) ?s)"
  have free: "spi_answer (klog ?s) (KLock (Down_interruptible Fop_sem)) = 0"
    using can_board_state(6) by (simp add: sem_held_def held_spi_board spi_answer_def)
  have m1: "can_exec spi_board (Can_read 0x8000 100) can_board =
      Some \<lparr>can_drv = ?s1, can_reader = Some (0x8000, 100)\<rparr>"
    using free can_board_state(2)
    by (simp add: can_exec_def can_read_outcome_def ifsttar_can_spi_read_def)
  have m3: "\<exists>m3. can_exec spi_board Can_read_woken \<lparr>can_drv = ?s1, can_reader = Some (0x8000, 100)\<rparr> = Some m3"
    by (simp add: can_exec_def)
  then obtain m3 where
    "can_exec spi_board Can_read_woken \<lparr>can_drv = ?s1, can_reader = Some (0x8000, 100)\<rparr> = Some m3" ..
  with can_interrupted_read_blocks [OF spi_board_excludes can_board_state(1) m1 _ runs_Nil _ _ this runs_Nil]
  show ?thesis using m1 by (simp add: spi_answer_def)
qed

text \<open>C29: The number of bytes of a transfer is taken from the user, and the driver's check lets it exceed the
  receive buffer of 4000 bytes: CMD_SPI_NB_ECH refuses what is below 160 or above 10000, changing nothing, and a
  transfer of the size it accepted stays within memory exactly if the size is at most 4000.\<close>

theorem can_spi_transfer_bounds:
  assumes "blocks s (can_rx_buff s) = Some CAN_BUFF_SIZE" "safe_log (klog s)"
  shows "(if n < 160 \<or> 10000 < n
      then run_state (Spi_ioctl e CMD_SPI_NB_ECH n) s = (- 1, s)
      else wp (do { r \<leftarrow> Spi_ioctl e CMD_SPI_NB_ECH n; Spi_ioctl e CMD_SPI_START arg;
                    can_spi_transfer_done e; ret r })
             (\<lambda>r s'. r = 0 \<and> (safe_log (klog s') \<longleftrightarrow> n \<le> 4000)) s)"
proof (cases "n < 160 \<or> 10000 < n")
  case True
  then show ?thesis by (auto simp: Spi_ioctl_def)
next
  case False
  then have nb_ech: "run_state (Spi_ioctl e CMD_SPI_NB_ECH n) s = (0, s\<lparr>can_transfer_len := n\<rparr>)"
    by (intro wp_can_nb_ech) (simp_all add: not_less)
  have transfer: "wp (do { Spi_ioctl e CMD_SPI_START arg; can_spi_transfer_done e; ret r })
      (\<lambda>r' s'. r' = r \<and> (safe_log (klog s') \<longleftrightarrow> n \<le> 4000)) (s\<lparr>can_transfer_len := n\<rparr>)" for r
    unfolding wp_bind wp_return
    by (rule wp_mono [OF wp_can_start], rule wp_mono [OF wp_can_transfer_done])
      (use assms in \<open>simp add: fits_def word_le_nat_alt\<close>)
  have "wp (Spi_ioctl e CMD_SPI_NB_ECH n) Q s \<longleftrightarrow> Q 0 (s\<lparr>can_transfer_len := n\<rparr>)" for Q
    unfolding wp_def nb_ech by simp
  then show ?thesis using False transfer by (simp add: wp_bind)
qed

theorem can_spi_transfer_bounds_witness:
  "wp (do { r \<leftarrow> Spi_ioctl spi_board CMD_SPI_NB_ECH 5000; Spi_ioctl spi_board CMD_SPI_START 0;
            can_spi_transfer_done spi_board; ret r })
     (\<lambda>r s'. r = 0 \<and> \<not> safe_log (klog s')) (can_drv can_board)"
  using can_spi_transfer_bounds [of "can_drv can_board" 5000 spi_board 0] can_board_state by simp

section \<open>The temperature sensor\<close>

definition spike_globals :: spike where
  "spike_globals = \<lparr>klog = [], blocks = (\<lambda>_. None), ram = (\<lambda>_. 0), spike_tx_buff = 0,
     spike_rx_buff = 0, spike_devt = 0, spike_class = 0, spike_spi_device = 0, spike_user_buff = 0\<rparr>"

definition spike_board :: spike where
  "spike_board = snd (run_state (do {
     spike_init spi_board;
     spike_probe spi_board 0x7000;
     spike_open spi_board }) spike_globals)"

lemmas spike_board_run = spike_init_def spike_init_cdev_def spike_init_class_def spike_init_spi_def
  kmalloc_def spike_register_def add_spike_device_to_bus_def spike_new_device_def spike_probe_def
  spike_set_device_def spike_open_def spike_zero_def spi_answer_def board_answer_def
  spike_globals_def held_step_def word_sless_alt

lemma spike_board_state: "spike_ready spike_board" "safe_log (klog spike_board)"
  by (simp_all add: spike_board_def spike_board_run spike_ready_def)

lemma spike_board_free:
  "Semaphore Fop_sem \<notin> held spi_board (klog spike_board)"
  "Semaphore Spi_sem \<notin> held spi_board (klog spike_board)"
  by (simp_all add: spike_board_def spike_board_run held_spi_board)

lemma spi_board_reads: "reads_work spi_board (\<lambda>i. 65 + word_of_nat i)"
  by (simp add: reads_work_def held_spi_board spi_answer_def board_answer_def)

text \<open>C30: A read of the sensor sends its two bytes as a C string: of the bytes received, those before the
  first zero byte and at most as many as were asked for go to the user, and the file offset moves by their
  number, so a temperature with a zero byte is cut or lost. The read leaves user_buff an alias of the
  receive buffer, and removing the driver after it frees that buffer twice.\<close>

theorem spike_read_sends_string:
  assumes "reads_work e rx" "spike_ready s" "safe_log (klog s)"
    and "Semaphore Fop_sem \<notin> held e (klog s)" "Semaphore Spi_sem \<notin> held e (klog s)"
    and "buff \<noteq> 0" "\<not> 0 <s offp"
  shows "wp (spike_read e buff count offp)
    (\<lambda>r s'. let sent = take (unat count) (takeWhile (\<lambda>b. b \<noteq> 0) [rx 0, rx 1]);
           n = word_of_nat (length sent) in
       r = (n, offp + ucast n) \<and> safe_log (klog s') \<and>
       (KUser (Copy_to_user buff (Raw sent) n), 0) \<in> set (klog s') \<and>
       wp (spike_exit e) (\<lambda>_ s''. UB Bad_free \<in> fst ` set (klog s'')) s') s"
proof -
  have "wp (spike_exit e) (\<lambda>_ s''. UB Bad_free \<in> fst ` set (klog s'')) s'"
    if "spike_user_buff s' = spike_rx_buff s'" "spike_ready s'" for s'
    using that by (intro wp_spike_exit_alias) (simp_all add: spike_ready_def)
  then show ?thesis
    unfolding spike_sent_def [symmetric]
    by (intro wp_mono [OF wp_spike_read [OF assms(1-3,6,7,4,5)]]) (simp add: Let_def)
qed

theorem spike_read_sends_string_witness:
  "wp (spike_read spi_board 0x8000 100 0)
     (\<lambda>r s'. r = (2, 2) \<and> (KUser (Copy_to_user 0x8000 (Raw [65, 66]) 2), 0) \<in> set (klog s')) spike_board"
  by (rule wp_mono [OF spike_read_sends_string [OF spi_board_reads spike_board_state spike_board_free]])
    (simp_all add: Let_def)

text \<open>C31: Inserting the sensor's driver is all or nothing but for a reference: it returns 0 or -1. When it
  returns -1 it holds exactly the reference to the device it has found on the bus, if it has found one, and
  nothing else. When it returns 0 it holds its device numbers, character device, SPI driver and both buffers,
  that reference if it has found a device, the device it has added if it has found none, and nothing else but
  the class and the node, which are not checked for error pointers. So the reference is given back in no case.
  The kernel is one that reports a class or a node it cannot make by an error pointer, and whose buses are
  not devices on a bus.\<close>

theorem failed_spike_init_releases:
  fixes s :: spike
  assumes "error_pointers e" "buses_differ e" "held e (klog s) = {}"
  shows "wp (spike_init e) (\<lambda>r s'. \<exists>l. klog s' = klog s @ l \<and>
    (if r = 0 then \<exists>N \<subseteq> {Sys_class (spike_class s'), Dev_node (spike_devt s')}. held e (klog s') =
       {Dev_numbers, Char_dev, Spi_driver spike_driver_name, Memory (spike_tx_buff s'),
        Memory (spike_rx_buff s')} \<union> N \<union> spike_found l \<union> spike_added l
     else r = - 1 \<and> held e (klog s') = spike_found l)) s"
  using wp_spike_init [OF assms] unfolding init_holds_def spike_node_def .

text \<open>A board on which another driver has the device on the bus.\<close>

definition shared_board :: kernel where
  "shared_board = board\<lparr>answer := \<lambda>l c. case c of
     KSpi (Bus_find_device_by_name n) \<Rightarrow> 0x7700 | KSpi (Other_driver p n) \<Rightarrow> 1 | _ \<Rightarrow> spi_answer l c\<rparr>"

lemma shared_board_run:
  "fst (run_state (spike_init shared_board) spike_globals) = - 1 \<and>
   spike_found (klog (snd (run_state (spike_init shared_board) spike_globals))) = {Dev_ref 0x7700}"
  by (simp add: spike_board_run shared_board_def spike_use_pdev_def spike_init_error_def kfree_def
      spike_fail_3_def spike_fail_2_def)

theorem failed_spike_init_releases_witness:
  "fst (run_state (spike_init shared_board) spike_globals) = - 1 \<and>
   held shared_board (klog (snd (run_state (spike_init shared_board) spike_globals))) = {Dev_ref 0x7700}"
proof -
  have "error_pointers shared_board" "buses_differ shared_board"
    by (simp_all add: shared_board_def error_pointers_def buses_differ_def spi_answer_def board_answer_def)
  moreover have "klog spike_globals = []" by (simp add: spike_globals_def)
  ultimately show ?thesis
    using failed_spike_init_releases [of shared_board spike_globals] shared_board_run
    by (auto simp: wp_fst_snd)
qed

end
