(* ===== verification/Mcspi_State.thy ===== *)
theory Mcspi_State
  imports Memory
begin

text \<open>
  The SPI controller driver \<open>omap2_mcspi.c\<close> (the version in \<open>new/\<close>): its state, its registers and
  the functions that change one register. The controller's registers are reached with
  \<open>__raw_readl\<close> and \<open>__raw_writel\<close>, calls of the kernel's log; what a device's channel is configured
  to is kept in a shadow register \<open>chconf0\<close> too.
\<close>

section \<open>Registers and their fields\<close>

abbreviation OMAP2_MCSPI_MAX_FREQ :: u32 where "OMAP2_MCSPI_MAX_FREQ \<equiv> 48000000"
abbreviation SPI_AUTOSUSPEND_TIMEOUT :: u32 where "SPI_AUTOSUSPEND_TIMEOUT \<equiv> 2000"

abbreviation OMAP2_MCSPI_WAKEUPENABLE :: u32 where "OMAP2_MCSPI_WAKEUPENABLE \<equiv> 0x20"
abbreviation OMAP2_MCSPI_MODULCTRL :: u32 where "OMAP2_MCSPI_MODULCTRL \<equiv> 0x28"
abbreviation OMAP2_MCSPI_CHCONF0 :: u32 where "OMAP2_MCSPI_CHCONF0 \<equiv> 0x2C"
abbreviation OMAP2_MCSPI_CHSTAT0 :: u32 where "OMAP2_MCSPI_CHSTAT0 \<equiv> 0x30"
abbreviation OMAP2_MCSPI_CHCTRL0 :: u32 where "OMAP2_MCSPI_CHCTRL0 \<equiv> 0x34"
abbreviation OMAP2_MCSPI_TX0 :: u32 where "OMAP2_MCSPI_TX0 \<equiv> 0x38"
abbreviation OMAP2_MCSPI_RX0 :: u32 where "OMAP2_MCSPI_RX0 \<equiv> 0x3C"

definition BIT :: "nat \<Rightarrow> u32" where "BIT n = push_bit n 1"

definition OMAP2_MCSPI_MODULCTRL_SINGLE :: u32 where "OMAP2_MCSPI_MODULCTRL_SINGLE = BIT 0"
definition OMAP2_MCSPI_MODULCTRL_MS :: u32 where "OMAP2_MCSPI_MODULCTRL_MS = BIT 2"
definition OMAP2_MCSPI_MODULCTRL_STEST :: u32 where "OMAP2_MCSPI_MODULCTRL_STEST = BIT 3"

definition OMAP2_MCSPI_CHCONF_PHA :: u32 where "OMAP2_MCSPI_CHCONF_PHA = BIT 0"
definition OMAP2_MCSPI_CHCONF_POL :: u32 where "OMAP2_MCSPI_CHCONF_POL = BIT 1"
definition OMAP2_MCSPI_CHCONF_CLKD_MASK :: u32 where "OMAP2_MCSPI_CHCONF_CLKD_MASK = push_bit 2 0x0F"
definition OMAP2_MCSPI_CHCONF_EPOL :: u32 where "OMAP2_MCSPI_CHCONF_EPOL = BIT 6"
definition OMAP2_MCSPI_CHCONF_WL_MASK :: u32 where "OMAP2_MCSPI_CHCONF_WL_MASK = push_bit 7 0x1F"
definition OMAP2_MCSPI_CHCONF_TRM_RX_ONLY :: u32 where "OMAP2_MCSPI_CHCONF_TRM_RX_ONLY = BIT 12"
definition OMAP2_MCSPI_CHCONF_TRM_TX_ONLY :: u32 where "OMAP2_MCSPI_CHCONF_TRM_TX_ONLY = BIT 13"
definition OMAP2_MCSPI_CHCONF_TRM_MASK :: u32 where "OMAP2_MCSPI_CHCONF_TRM_MASK = push_bit 12 0x03"
definition OMAP2_MCSPI_CHCONF_DMAW :: u32 where "OMAP2_MCSPI_CHCONF_DMAW = BIT 14"
definition OMAP2_MCSPI_CHCONF_DMAR :: u32 where "OMAP2_MCSPI_CHCONF_DMAR = BIT 15"
definition OMAP2_MCSPI_CHCONF_DPE0 :: u32 where "OMAP2_MCSPI_CHCONF_DPE0 = BIT 16"
definition OMAP2_MCSPI_CHCONF_DPE1 :: u32 where "OMAP2_MCSPI_CHCONF_DPE1 = BIT 17"
definition OMAP2_MCSPI_CHCONF_IS :: u32 where "OMAP2_MCSPI_CHCONF_IS = BIT 18"
definition OMAP2_MCSPI_CHCONF_TURBO :: u32 where "OMAP2_MCSPI_CHCONF_TURBO = BIT 19"
definition OMAP2_MCSPI_CHCONF_FORCE :: u32 where "OMAP2_MCSPI_CHCONF_FORCE = BIT 20"

definition OMAP2_MCSPI_CHSTAT_RXS :: u32 where "OMAP2_MCSPI_CHSTAT_RXS = BIT 0"
definition OMAP2_MCSPI_CHSTAT_TXS :: u32 where "OMAP2_MCSPI_CHSTAT_TXS = BIT 1"
definition OMAP2_MCSPI_CHSTAT_EOT :: u32 where "OMAP2_MCSPI_CHSTAT_EOT = BIT 2"

definition OMAP2_MCSPI_CHCTRL_EN :: u32 where "OMAP2_MCSPI_CHCTRL_EN = BIT 0"
definition OMAP2_MCSPI_WAKEUPENABLE_WKEN :: u32 where "OMAP2_MCSPI_WAKEUPENABLE_WKEN = BIT 0"

abbreviation DMA_MIN_BYTES :: u32 where "DMA_MIN_BYTES \<equiv> 160"

text \<open>\<open>linux/spi/spi.h\<close>\<close>

abbreviation SPI_CPHA :: u32 where "SPI_CPHA \<equiv> 1"
abbreviation SPI_CPOL :: u32 where "SPI_CPOL \<equiv> 2"
abbreviation SPI_CS_HIGH :: u32 where "SPI_CS_HIGH \<equiv> 4"

definition MOD_REG_BIT :: "u32 \<Rightarrow> u32 \<Rightarrow> bool \<Rightarrow> u32" where
  "MOD_REG_BIT val bits on = (if on then val OR bits else val AND NOT bits)"

section \<open>State\<close>

text \<open>
  The addresses of the structures that the driver allocates are those of \<open>Memory\<close>; their content is
  in \<open>cs_heap\<close> and \<open>dma_table\<close>. \<open>controller_state\<close> is the field of the SPI device at an address,
  \<open>ctx_cs\<close> the list of \<open>ctx.cs\<close>. \<open>dma_tx_done\<close> and \<open>dma_rx_done\<close> count completions that nobody has
  waited for yet.
\<close>

record omap2_mcspi_cs =
  cs_base :: u32
  cs_phys :: u32
  cs_word_len :: u32
  chconf0 :: u32

record omap2_mcspi_dma =
  dma_tx_channel :: u32
  dma_rx_channel :: u32
  dma_tx_sync_dev :: u32
  dma_rx_sync_dev :: u32
  dma_tx_done :: nat
  dma_rx_done :: nat

record mcspi = memory +
  mcspi_base :: u32
  mcspi_phys :: u32
  mcspi_master :: u32
  dma_channels :: u32
  dma_table :: "omap2_mcspi_dma list"
  ctx_modulctrl :: u32
  ctx_wakeupenable :: u32
  ctx_cs :: "u32 list"
  cs_heap :: "u32 \<Rightarrow> omap2_mcspi_cs"
  controller_state :: "u32 \<Rightarrow> u32"
  num_chipselect :: u32
  bus_num :: u32
  master_bus_num :: u32

text \<open>What the driver uses of \<open>struct spi_device\<close>, \<open>spi_transfer\<close> and \<open>spi_message\<close>.\<close>

record spi_device =
  sd_addr :: u32
  chip_select :: nat
  sd_mode :: u32
  sd_bits_per_word :: u8
  sd_max_speed_hz :: u32
  turbo_mode :: bool

record spi_transfer =
  tx_buf :: u32
  rx_buf :: u32
  t_len :: u32
  tx_dma :: u32
  rx_dma :: u32
  t_speed_hz :: u32
  t_bits_per_word :: u8
  delay_usecs :: u32
  cs_change :: bool

record spi_message =
  transfers :: "spi_transfer list"
  is_dma_mapped :: bool

section \<open>Access to registers\<close>

definition raw_readl :: "kernel \<Rightarrow> u32 \<Rightarrow> ('a kstate_scheme, u32) state" where
  "raw_readl e a = kcall e (KReg (Readl a))"

definition raw_writel :: "kernel \<Rightarrow> u32 \<Rightarrow> u32 \<Rightarrow> ('a kstate_scheme, unit) state" where
  "raw_writel e v a = kdo e (KReg (Writel v a))"

definition mcspi_write_reg :: "kernel \<Rightarrow> u32 \<Rightarrow> u32 \<Rightarrow> ('a mcspi_scheme, unit) state" where
  "mcspi_write_reg e idx val = do { base \<leftarrow> rd mcspi_base; raw_writel e val (base + idx) }"

definition mcspi_read_reg :: "kernel \<Rightarrow> u32 \<Rightarrow> ('a mcspi_scheme, u32) state" where
  "mcspi_read_reg e idx = do { base \<leftarrow> rd mcspi_base; raw_readl e (base + idx) }"

text \<open>\<open>spi->controller_state\<close>, with what is behind it.\<close>

definition cs_pointer :: "spi_device \<Rightarrow> 'a mcspi_scheme \<Rightarrow> u32" where
  "cs_pointer spi s = controller_state s (sd_addr spi)"

definition cs_at :: "kernel \<Rightarrow> u32 \<Rightarrow> ('a mcspi_scheme, omap2_mcspi_cs) state" where
  "cs_at e p = do {
     live \<leftarrow> rd (\<lambda>s. blocks s p \<noteq> None);
     (if live then skip else out_of_bounds e);
     rd (\<lambda>s. cs_heap s p) }"

definition get_cs :: "kernel \<Rightarrow> spi_device \<Rightarrow> ('a mcspi_scheme, omap2_mcspi_cs) state" where
  "get_cs e spi = do { p \<leftarrow> rd (cs_pointer spi); cs_at e p }"

definition set_cs ::
    "spi_device \<Rightarrow> (omap2_mcspi_cs \<Rightarrow> omap2_mcspi_cs) \<Rightarrow> ('a mcspi_scheme, unit) state" where
  "set_cs spi f = wr (\<lambda>s. s\<lparr>cs_heap := (cs_heap s)(cs_pointer spi s := f (cs_heap s (cs_pointer spi s)))\<rparr>)"

definition mcspi_write_cs_reg ::
    "kernel \<Rightarrow> spi_device \<Rightarrow> u32 \<Rightarrow> u32 \<Rightarrow> ('a mcspi_scheme, unit) state" where
  "mcspi_write_cs_reg e spi idx val = do { cs \<leftarrow> get_cs e spi; raw_writel e val (cs_base cs + idx) }"

definition mcspi_read_cs_reg :: "kernel \<Rightarrow> spi_device \<Rightarrow> u32 \<Rightarrow> ('a mcspi_scheme, u32) state" where
  "mcspi_read_cs_reg e spi idx = do { cs \<leftarrow> get_cs e spi; raw_readl e (cs_base cs + idx) }"

definition mcspi_cached_chconf0 :: "kernel \<Rightarrow> spi_device \<Rightarrow> ('a mcspi_scheme, u32) state" where
  "mcspi_cached_chconf0 e spi = do { cs \<leftarrow> get_cs e spi; ret (chconf0 cs) }"

definition mcspi_write_chconf0 :: "kernel \<Rightarrow> spi_device \<Rightarrow> u32 \<Rightarrow> ('a mcspi_scheme, unit) state" where
  "mcspi_write_chconf0 e spi val = do {
     get_cs e spi;
     set_cs spi (\<lambda>cs. cs\<lparr>chconf0 := val\<rparr>);
     mcspi_write_cs_reg e spi OMAP2_MCSPI_CHCONF0 val;
     mcspi_read_cs_reg e spi OMAP2_MCSPI_CHCONF0;
     skip }"

definition omap2_mcspi_set_dma_req ::
    "kernel \<Rightarrow> spi_device \<Rightarrow> bool \<Rightarrow> bool \<Rightarrow> ('a mcspi_scheme, unit) state" where
  "omap2_mcspi_set_dma_req e spi is_read enable = do {
     l \<leftarrow> mcspi_cached_chconf0 e spi;
     let rw = (if is_read then OMAP2_MCSPI_CHCONF_DMAR else OMAP2_MCSPI_CHCONF_DMAW);
     mcspi_write_chconf0 e spi (MOD_REG_BIT l rw enable) }"

definition omap2_mcspi_set_enable :: "kernel \<Rightarrow> spi_device \<Rightarrow> bool \<Rightarrow> ('a mcspi_scheme, unit) state" where
  "omap2_mcspi_set_enable e spi enable = do {
     mcspi_write_cs_reg e spi OMAP2_MCSPI_CHCTRL0 (if enable then OMAP2_MCSPI_CHCTRL_EN else 0);
     mcspi_read_cs_reg e spi OMAP2_MCSPI_CHCTRL0;
     skip }"

definition omap2_mcspi_force_cs :: "kernel \<Rightarrow> spi_device \<Rightarrow> bool \<Rightarrow> ('a mcspi_scheme, unit) state" where
  "omap2_mcspi_force_cs e spi cs_active = do {
     l \<leftarrow> mcspi_cached_chconf0 e spi;
     mcspi_write_chconf0 e spi (MOD_REG_BIT l OMAP2_MCSPI_CHCONF_FORCE cs_active) }"

definition omap2_mcspi_set_master_mode :: "kernel \<Rightarrow> ('a mcspi_scheme, unit) state" where
  "omap2_mcspi_set_master_mode e = do {
     l \<leftarrow> mcspi_read_reg e OMAP2_MCSPI_MODULCTRL;
     let l = MOD_REG_BIT l OMAP2_MCSPI_MODULCTRL_STEST False;
     let l = MOD_REG_BIT l OMAP2_MCSPI_MODULCTRL_MS False;
     let l = MOD_REG_BIT l OMAP2_MCSPI_MODULCTRL_SINGLE True;
     mcspi_write_reg e OMAP2_MCSPI_MODULCTRL l;
     wr (\<lambda>s. s\<lparr>ctx_modulctrl := l\<rparr>) }"

text \<open>The entry of the list at \<open>p\<close>.\<close>

definition restore_cs :: "kernel \<Rightarrow> u32 \<Rightarrow> ('a mcspi_scheme, unit) state" where
  "restore_cs e p = do {
     cs \<leftarrow> cs_at e p;
     raw_writel e (chconf0 cs) (cs_base cs + OMAP2_MCSPI_CHCONF0) }"

definition omap2_mcspi_restore_ctx :: "kernel \<Rightarrow> ('a mcspi_scheme, unit) state" where
  "omap2_mcspi_restore_ctx e = do {
     s \<leftarrow> rd id;
     mcspi_write_reg e OMAP2_MCSPI_MODULCTRL (ctx_modulctrl s);
     mcspi_write_reg e OMAP2_MCSPI_WAKEUPENABLE (ctx_wakeupenable s);
     do_each (ctx_cs s) (restore_cs e) }"

section \<open>Clocks\<close>

definition omap2_mcspi_disable_clocks :: "kernel \<Rightarrow> ('a kstate_scheme, unit) state" where
  "omap2_mcspi_disable_clocks e = do {
     kdo e (KPlat Pm_mark_last_busy);
     kdo e (KPlat Pm_put_autosuspend) }"

definition omap2_mcspi_enable_clocks :: "kernel \<Rightarrow> ('a kstate_scheme, u32) state" where
  "omap2_mcspi_enable_clocks e = kcall e (KPlat Pm_get_sync)"

definition omap2_prepare_transfer :: "kernel \<Rightarrow> ('a kstate_scheme, u32) state" where
  "omap2_prepare_transfer e = do { kdo e (KPlat Pm_get_sync); ret 0 }"

definition omap2_unprepare_transfer :: "kernel \<Rightarrow> ('a kstate_scheme, u32) state" where
  "omap2_unprepare_transfer e = do {
     kdo e (KPlat Pm_mark_last_busy);
     kdo e (KPlat Pm_put_autosuspend);
     ret 0 }"

section \<open>Waiting for a bit\<close>

text \<open>
  The loop polls until the second is over. How many more polls fit into it is the kernel's answer to
  \<open>Jiffies_left\<close>; the clock tick goes on during the loop, so it is a number.
\<close>

fun poll_reg :: "kernel \<Rightarrow> u32 \<Rightarrow> u32 \<Rightarrow> nat \<Rightarrow> ('a kstate_scheme, u32) state" where
  "poll_reg e reg flag 0 = do {
     v \<leftarrow> raw_readl e reg;
     ret (if v AND flag \<noteq> 0 then 0 else - 1) }"
| "poll_reg e reg flag (Suc n) = do {
     v \<leftarrow> raw_readl e reg;
     (if v AND flag \<noteq> 0 then ret 0 else poll_reg e reg flag n) }"

definition mcspi_wait_for_reg_bit :: "kernel \<Rightarrow> u32 \<Rightarrow> u32 \<Rightarrow> ('a kstate_scheme, u32) state" where
  "mcspi_wait_for_reg_bit e reg flag = do {
     n \<leftarrow> kcall e (KPlat (Jiffies_left 1000));
     poll_reg e reg flag (unat n) }"

end
