(* ===== verification/Mcspi_Transfer.thy ===== *)
theory Mcspi_Transfer
  imports Mcspi_State
begin

text \<open>
  Transfers of \<open>omap2_mcspi.c\<close>: word by word by the processor, or by DMA, and the loop over the
  transfers of a message. The three copies of the transfer loop, for words of 8, 16 and 32 bits, are
  one definition with the width as a parameter.
\<close>

section \<open>Buffers\<close>

datatype word_size = W8 | W16 | W32

fun width :: "word_size \<Rightarrow> nat" where
  "width W8 = 1" | "width W16 = 2" | "width W32 = 4"

definition size_of_word :: "u32 \<Rightarrow> word_size" where
  "size_of_word word_len = (if word_len \<le> 8 then W8 else if word_len \<le> 16 then W16 else W32)"

definition le_bytes :: "nat \<Rightarrow> u32 \<Rightarrow> u8 list" where
  "le_bytes n v = map (\<lambda>i. ucast (drop_bit (8 * i) v)) [0..<n]"

fun of_le_bytes :: "u8 list \<Rightarrow> u32" where
  "of_le_bytes [] = 0"
| "of_le_bytes (b # bs) = ucast b OR push_bit 8 (of_le_bytes bs)"

text \<open>Element \<open>i\<close> of the array of words at \<open>p\<close>.\<close>

definition store_word ::
    "kernel \<Rightarrow> word_size \<Rightarrow> u32 \<Rightarrow> nat \<Rightarrow> u32 \<Rightarrow> ('a memory_scheme, unit) state" where
  "store_word e w p i v = do {
     ok \<leftarrow> rd (fits p (width w * Suc i));
     (if ok then wr (\<lambda>s. s\<lparr>ram := poke (p + word_of_nat (width w * i)) (le_bytes (width w) v) (ram s)\<rparr>)
      else out_of_bounds e) }"

definition load_word :: "kernel \<Rightarrow> word_size \<Rightarrow> u32 \<Rightarrow> nat \<Rightarrow> ('a memory_scheme, u32) state" where
  "load_word e w p i = do {
     ok \<leftarrow> rd (fits p (width w * Suc i));
     (if ok then skip else out_of_bounds e);
     rd (\<lambda>s. of_le_bytes (bytes_at (p + word_of_nat (width w * i)) (width w) s)) }"

section \<open>Transfers by the processor\<close>

text \<open>What does not change during a transfer.\<close>

record pio =
  pio_dev :: spi_device
  pio_tx :: u32
  pio_rx :: u32
  pio_size :: word_size
  pio_conf :: u32
  pio_base :: u32

text \<open>How a turn of the loop ends: \<open>goto out\<close>, the last turn of a turbo transfer (\<open>c = 0\<close>), or the test
  of the loop.\<close>

datatype pio_next = Pio_out | Pio_turbo | Pio_test

definition pio_write :: "kernel \<Rightarrow> pio \<Rightarrow> nat \<Rightarrow> ('a mcspi_scheme, u32) state" where
  "pio_write e x i =
     (if pio_tx x = 0 then ret 0
      else do {
        r \<leftarrow> mcspi_wait_for_reg_bit e (pio_base x + OMAP2_MCSPI_CHSTAT0) OMAP2_MCSPI_CHSTAT_TXS;
        (if r <s 0 then ret r
         else do {
           v \<leftarrow> load_word e (pio_size x) (pio_tx x) i;
           raw_writel e v (pio_base x + OMAP2_MCSPI_TX0);
           ret 0 }) })"

definition pio_read_word :: "kernel \<Rightarrow> pio \<Rightarrow> nat \<Rightarrow> ('a mcspi_scheme, unit) state" where
  "pio_read_word e x i = do {
     v \<leftarrow> raw_readl e (pio_base x + OMAP2_MCSPI_RX0);
     store_word e (pio_size x) (pio_rx x) i v }"

definition pio_wait_rx :: "kernel \<Rightarrow> pio \<Rightarrow> ('a mcspi_scheme, u32) state" where
  "pio_wait_rx e x =
     mcspi_wait_for_reg_bit e (pio_base x + OMAP2_MCSPI_CHSTAT0) OMAP2_MCSPI_CHSTAT_RXS"

definition pio_read :: "kernel \<Rightarrow> pio \<Rightarrow> u32 \<Rightarrow> nat \<Rightarrow> ('a mcspi_scheme, pio_next) state" where
  "pio_read e x c i =
     (if pio_rx x = 0 then ret Pio_test
      else do {
        r \<leftarrow> pio_wait_rx e x;
        (if r <s 0 then ret Pio_out
         else if c = word_of_nat (width (pio_size x)) \<and> pio_tx x = 0 \<and>
                 pio_conf x AND OMAP2_MCSPI_CHCONF_TURBO \<noteq> 0
         then do {
           omap2_mcspi_set_enable e (pio_dev x) False;
           pio_read_word e x i;
           r \<leftarrow> pio_wait_rx e x;
           (if r <s 0 then ret Pio_out
            else do { pio_read_word e x (Suc i); ret Pio_turbo }) }
         else do {
           (if c = 0 \<and> pio_tx x = 0 then omap2_mcspi_set_enable e (pio_dev x) False else skip);
           pio_read_word e x i;
           ret Pio_test }) })"

definition pio_turn :: "kernel \<Rightarrow> pio \<Rightarrow> u32 \<Rightarrow> nat \<Rightarrow> ('a mcspi_scheme, pio_next) state" where
  "pio_turn e x c i = do {
     r \<leftarrow> pio_write e x i;
     (if r <s 0 then ret Pio_out else pio_read e x c i) }"

lemma width_pos [simp]: "0 < width w" "width w \<noteq> 0"
  by (cases w; simp)+

lemma width_le [simp]: "width w \<le> 4" "width w < 4294967296"
  by (cases w; simp)+

lemma unat_width [simp]: "unat (word_of_nat (width w) :: u32) = width w"
  by (cases w) simp_all

text \<open>A measure of the bytes left: less than a word counts as the \<open>2 ^ 32\<close> it wraps around to.\<close>

definition pio_left :: "word_size \<Rightarrow> u32 \<Rightarrow> nat" where
  "pio_left w c = (if c < word_of_nat (width w) then 2 ^ 32 else unat c)"

lemma pio_left_less:
  assumes "word_of_nat (width w) \<le> c - word_of_nat (width w)"
  shows "pio_left w (c - word_of_nat (width w)) < pio_left w c"
proof (cases "c < word_of_nat (width w)")
  case True
  then show ?thesis
    using assms unat_u32_less [of "c - word_of_nat (width w)"] by (simp add: pio_left_def)
next
  case False
  then have "unat (c - word_of_nat (width w)) = unat c - width w" "width w \<le> unat c"
    by (simp_all add: unat_sub word_le_nat_alt not_less)
  then have "unat (c - word_of_nat (width w)) < unat c" using width_pos(1) [of w] by linarith
  moreover have "\<not> c - word_of_nat (width w) < word_of_nat (width w)"
    using assms by (simp only: not_less)
  ultimately show ?thesis using False by (simp add: pio_left_def)
qed

text \<open>
  The loop, which subtracts before it tests: with less than a word to transfer \<open>c\<close> wraps around. The
  first component tells whether it was left by \<open>goto out\<close>.
\<close>

function pio_loop :: "kernel \<Rightarrow> pio \<Rightarrow> u32 \<Rightarrow> nat \<Rightarrow> ('a mcspi_scheme, bool \<times> u32) state" where
  "pio_loop e x c i = do {
     let w = word_of_nat (width (pio_size x));
     turn \<leftarrow> pio_turn e x (c - w) i;
     (case turn of
        Pio_out \<Rightarrow> ret (True, c - w)
      | Pio_turbo \<Rightarrow> ret (False, 0)
      | Pio_test \<Rightarrow> if w \<le> c - w then pio_loop e x (c - w) (Suc i) else ret (False, c - w)) }"
  by auto

termination
  by (relation "measure (\<lambda>(e, x, c, i). pio_left (pio_size x) c)") (auto intro: pio_left_less)

declare pio_loop.simps [simp del]

text \<open>Every word of a transfer without a receive buffer has to be shifted out.\<close>

definition wait_shifted_out :: "kernel \<Rightarrow> u32 \<Rightarrow> ('a mcspi_scheme, unit) state" where
  "wait_shifted_out e chstat_reg = do {
     r \<leftarrow> mcspi_wait_for_reg_bit e chstat_reg OMAP2_MCSPI_CHSTAT_TXS;
     (if r <s 0 then skip
      else do { mcspi_wait_for_reg_bit e chstat_reg OMAP2_MCSPI_CHSTAT_EOT; skip }) }"

definition omap2_mcspi_txrx_pio ::
    "kernel \<Rightarrow> spi_device \<Rightarrow> spi_transfer \<Rightarrow> ('a mcspi_scheme, u32) state" where
  "omap2_mcspi_txrx_pio e spi xfer = do {
     cs \<leftarrow> get_cs e spi;
     l \<leftarrow> mcspi_cached_chconf0 e spi;
     let count = t_len xfer;
     let x = \<lparr>pio_dev = spi, pio_tx = tx_buf xfer, pio_rx = rx_buf xfer,
              pio_size = size_of_word (cs_word_len cs), pio_conf = l, pio_base = cs_base cs\<rparr>;
     (if count < drop_bit 3 (cs_word_len cs) then ret 0
      else do {
        (out, c) \<leftarrow> (if cs_word_len cs \<le> 32 then pio_loop e x count 0 else ret (False, count));
        (if \<not> out \<and> rx_buf xfer = 0 then do {
           wait_shifted_out e (cs_base cs + OMAP2_MCSPI_CHSTAT0);
           omap2_mcspi_set_enable e spi False }
         else skip);
        omap2_mcspi_set_enable e spi True;
        ret (count - c) }) }"

section \<open>Transfers by DMA\<close>

definition dma_of :: "spi_device \<Rightarrow> 'a mcspi_scheme \<Rightarrow> omap2_mcspi_dma" where
  "dma_of spi s = dma_table s ! chip_select spi"

definition set_dma ::
    "spi_device \<Rightarrow> (omap2_mcspi_dma \<Rightarrow> omap2_mcspi_dma) \<Rightarrow> ('a mcspi_scheme, unit) state" where
  "set_dma spi f = wr (\<lambda>s. s\<lparr>dma_table := (dma_table s)[chip_select spi := f (dma_of spi s)]\<rparr>)"

text \<open>\<open>mcspi->dma_channels[spi->chip_select]\<close>\<close>

definition get_dma :: "kernel \<Rightarrow> spi_device \<Rightarrow> ('a mcspi_scheme, omap2_mcspi_dma) state" where
  "get_dma e spi = do {
     ok \<leftarrow> rd (\<lambda>s. chip_select spi < length (dma_table s));
     (if ok then skip else out_of_bounds e);
     rd (dma_of spi) }"

definition omap2_mcspi_dma_rx_callback :: "kernel \<Rightarrow> spi_device \<Rightarrow> ('a mcspi_scheme, unit) state" where
  "omap2_mcspi_dma_rx_callback e spi = do {
     get_dma e spi;
     set_dma spi (\<lambda>d. d\<lparr>dma_rx_done := Suc (dma_rx_done d)\<rparr>);
     omap2_mcspi_set_dma_req e spi True False }"

definition omap2_mcspi_dma_tx_callback :: "kernel \<Rightarrow> spi_device \<Rightarrow> ('a mcspi_scheme, unit) state" where
  "omap2_mcspi_dma_tx_callback e spi = do {
     get_dma e spi;
     set_dma spi (\<lambda>d. d\<lparr>dma_tx_done := Suc (dma_tx_done d)\<rparr>);
     omap2_mcspi_set_dma_req e spi False False }"

text \<open>
  The end of a reception: the bytes are in the buffer and the channel's callback runs. The callbacks
  come while the driver waits; the answer to the first wait tells which of two comes first.
\<close>

definition dma_rx_arrives :: "kernel \<Rightarrow> spi_device \<Rightarrow> u32 \<Rightarrow> nat \<Rightarrow> ('a mcspi_scheme, unit) state" where
  "dma_rx_arrives e spi rx n = do { receive e rx n; omap2_mcspi_dma_rx_callback e spi }"

definition wait_for_dma_tx ::
    "kernel \<Rightarrow> spi_device \<Rightarrow> u32 \<Rightarrow> nat \<Rightarrow> ('a mcspi_scheme, unit) state" where
  "wait_for_dma_tx e spi rx n = do {
     rx_first \<leftarrow> kcall e (KDma (Wait_for_completion False));
     (if rx \<noteq> 0 \<and> rx_first \<noteq> 0 then dma_rx_arrives e spi rx n else skip);
     omap2_mcspi_dma_tx_callback e spi;
     set_dma spi (\<lambda>d. d\<lparr>dma_tx_done := dma_tx_done d - 1\<rparr>) }"

definition wait_for_dma_rx ::
    "kernel \<Rightarrow> spi_device \<Rightarrow> u32 \<Rightarrow> nat \<Rightarrow> ('a mcspi_scheme, unit) state" where
  "wait_for_dma_rx e spi rx n = do {
     kdo e (KDma (Wait_for_completion True));
     d \<leftarrow> rd (dma_of spi);
     (if dma_rx_done d = 0 then dma_rx_arrives e spi rx n else skip);
     set_dma spi (\<lambda>d. d\<lparr>dma_rx_done := dma_rx_done d - 1\<rparr>) }"

definition data_type_of :: "word_size \<Rightarrow> dma_data_type" where
  "data_type_of w = (case w of W8 \<Rightarrow> DATA_TYPE_S8 | W16 \<Rightarrow> DATA_TYPE_S16 | W32 \<Rightarrow> DATA_TYPE_S32)"

definition element_count :: "word_size \<Rightarrow> u32 \<Rightarrow> u32" where
  "element_count w count = (case w of W8 \<Rightarrow> count | W16 \<Rightarrow> drop_bit 1 count | W32 \<Rightarrow> drop_bit 2 count)"

definition dma_setup_tx ::
    "kernel \<Rightarrow> spi_device \<Rightarrow> spi_transfer \<Rightarrow> word_size \<Rightarrow> u32 \<Rightarrow> ('a mcspi_scheme, unit) state" where
  "dma_setup_tx e spi xfer w tx_reg = do {
     d \<leftarrow> rd (dma_of spi);
     kdo e (KDma (Set_transfer_params (dma_tx_channel d) (data_type_of w)
       (element_count w (t_len xfer)) (dma_tx_sync_dev d) False));
     kdo e (KDma (Set_dest_params (dma_tx_channel d) AMODE_CONSTANT tx_reg));
     kdo e (KDma (Set_src_params (dma_tx_channel d) AMODE_POST_INC (tx_dma xfer))) }"

definition dma_setup_rx ::
    "kernel \<Rightarrow> spi_device \<Rightarrow> spi_transfer \<Rightarrow> word_size \<Rightarrow> u32 \<Rightarrow> u32 \<Rightarrow> ('a mcspi_scheme, unit) state" where
  "dma_setup_rx e spi xfer w elements rx_reg = do {
     d \<leftarrow> rd (dma_of spi);
     kdo e (KDma (Set_transfer_params (dma_rx_channel d) (data_type_of w) elements
       (dma_rx_sync_dev d) True));
     kdo e (KDma (Set_src_params (dma_rx_channel d) AMODE_CONSTANT rx_reg));
     kdo e (KDma (Set_dest_params (dma_rx_channel d) AMODE_POST_INC (rx_dma xfer))) }"

text \<open>A word that the DMA channel has left in the receive register; \<open>False\<close> when there is none.\<close>

definition dma_rx_rest ::
    "kernel \<Rightarrow> spi_device \<Rightarrow> word_size \<Rightarrow> u32 \<Rightarrow> u32 \<Rightarrow> ('a mcspi_scheme, bool) state" where
  "dma_rx_rest e spi w rx elements = do {
     stat \<leftarrow> mcspi_read_cs_reg e spi OMAP2_MCSPI_CHSTAT0;
     (if stat AND OMAP2_MCSPI_CHSTAT_RXS \<noteq> 0 then do {
        v \<leftarrow> mcspi_read_cs_reg e spi OMAP2_MCSPI_RX0;
        store_word e w rx (unat elements) v;
        ret True }
      else ret False) }"

definition dma_rx_finish ::
    "kernel \<Rightarrow> spi_device \<Rightarrow> spi_transfer \<Rightarrow> word_size \<Rightarrow> u32 \<Rightarrow> u32 \<Rightarrow> ('a mcspi_scheme, u32) state" where
  "dma_rx_finish e spi xfer w l elements = do {
     let count = t_len xfer;
     let turbo = (l AND OMAP2_MCSPI_CHCONF_TURBO \<noteq> 0);
     wait_for_dma_rx e spi (rx_buf xfer) (width w * unat elements);
     kdo e (KDma (Dma_unmap_single (rx_dma xfer) count True));
     omap2_mcspi_set_enable e spi False;
     penultimate \<leftarrow> (if turbo then dma_rx_rest e spi w (rx_buf xfer) elements else ret True);
     (if \<not> penultimate then do {
        omap2_mcspi_set_enable e spi True;
        ret (count - word_of_nat (2 * width w)) }
      else do {
        last_word \<leftarrow> dma_rx_rest e spi w (rx_buf xfer) (if turbo then elements + 1 else elements);
        omap2_mcspi_set_enable e spi True;
        ret (if last_word then count else count - word_of_nat (width w)) }) }"

definition dma_start :: "kernel \<Rightarrow> spi_device \<Rightarrow> bool \<Rightarrow> ('a mcspi_scheme, unit) state" where
  "dma_start e spi is_rx = do {
     d \<leftarrow> rd (dma_of spi);
     kdo e (KDma (Start_dma (if is_rx then dma_rx_channel d else dma_tx_channel d)));
     omap2_mcspi_set_dma_req e spi is_rx True }"

text \<open>The channel that sends reads \<open>element_count\<close> elements of the buffer.\<close>

definition omap2_mcspi_txrx_dma ::
    "kernel \<Rightarrow> spi_device \<Rightarrow> spi_transfer \<Rightarrow> ('a mcspi_scheme, u32) state" where
  "omap2_mcspi_txrx_dma e spi xfer = do {
     cs \<leftarrow> get_cs e spi;
     get_dma e spi;
     l \<leftarrow> mcspi_cached_chconf0 e spi;
     let w = size_of_word (cs_word_len cs);
     let n = element_count w (t_len xfer);
     let elements = (if l AND OMAP2_MCSPI_CHCONF_TURBO \<noteq> 0 then n - 2 else n - 1);
     (if tx_buf xfer \<noteq> 0 then dma_setup_tx e spi xfer w (cs_phys cs + OMAP2_MCSPI_TX0) else skip);
     (if rx_buf xfer \<noteq> 0 then dma_setup_rx e spi xfer w elements (cs_phys cs + OMAP2_MCSPI_RX0) else skip);
     (if tx_buf xfer \<noteq> 0 then dma_start e spi False else skip);
     (if rx_buf xfer \<noteq> 0 then dma_start e spi True else skip);
     (if tx_buf xfer \<noteq> 0 then do {
        load e (tx_buf xfer) (width w * unat n);
        wait_for_dma_tx e spi (rx_buf xfer) (width w * unat elements);
        kdo e (KDma (Dma_unmap_single (tx_dma xfer) (t_len xfer) False));
        (if rx_buf xfer = 0 then wait_shifted_out e (cs_base cs + OMAP2_MCSPI_CHSTAT0) else skip) }
      else skip);
     (if rx_buf xfer \<noteq> 0 then dma_rx_finish e spi xfer w l elements else ret (t_len xfer)) }"

section \<open>Configuration of a transfer\<close>

fun first_divisor :: "u32 \<Rightarrow> nat list \<Rightarrow> nat" where
  "first_divisor speed_hz [] = 15"
| "first_divisor speed_hz (d # ds) =
     (if drop_bit d OMAP2_MCSPI_MAX_FREQ \<le> speed_hz then d else first_divisor speed_hz ds)"

definition omap2_mcspi_calc_divisor :: "u32 \<Rightarrow> nat" where
  "omap2_mcspi_calc_divisor speed_hz = first_divisor speed_hz [0..<15]"

text \<open>The value of the channel's configuration register for a word length, divisor and mode.\<close>

definition chconf_for :: "u32 \<Rightarrow> u8 \<Rightarrow> nat \<Rightarrow> u32 \<Rightarrow> u32" where
  "chconf_for l word_len divisor mode =
     (let l = l AND NOT (OMAP2_MCSPI_CHCONF_IS OR OMAP2_MCSPI_CHCONF_DPE1);
          l = l OR OMAP2_MCSPI_CHCONF_DPE0;
          l = l AND NOT OMAP2_MCSPI_CHCONF_WL_MASK;
          l = l OR push_bit 7 (ucast word_len - 1);
          l = MOD_REG_BIT l OMAP2_MCSPI_CHCONF_EPOL (mode AND SPI_CS_HIGH = 0);
          l = l AND NOT OMAP2_MCSPI_CHCONF_CLKD_MASK;
          l = l OR push_bit 2 (word_of_nat divisor);
          l = MOD_REG_BIT l OMAP2_MCSPI_CHCONF_POL (mode AND SPI_CPOL \<noteq> 0)
      in MOD_REG_BIT l OMAP2_MCSPI_CHCONF_PHA (mode AND SPI_CPHA \<noteq> 0))"

definition omap2_mcspi_setup_transfer ::
    "kernel \<Rightarrow> spi_device \<Rightarrow> spi_transfer option \<Rightarrow> ('a mcspi_scheme, u32) state" where
  "omap2_mcspi_setup_transfer e spi t = do {
     let word_len = (case t of None \<Rightarrow> sd_bits_per_word spi
       | Some t \<Rightarrow> if t_bits_per_word t \<noteq> 0 then t_bits_per_word t else sd_bits_per_word spi);
     get_cs e spi;
     set_cs spi (\<lambda>cs. cs\<lparr>cs_word_len := ucast word_len\<rparr>);
     let speed_hz = (case t of None \<Rightarrow> sd_max_speed_hz spi
       | Some t \<Rightarrow> if t_speed_hz t \<noteq> 0 then t_speed_hz t else sd_max_speed_hz spi);
     let divisor = omap2_mcspi_calc_divisor (min speed_hz OMAP2_MCSPI_MAX_FREQ);
     l \<leftarrow> mcspi_cached_chconf0 e spi;
     mcspi_write_chconf0 e spi (chconf_for l word_len divisor (sd_mode spi));
     ret 0 }"

section \<open>Messages\<close>

text \<open>The local variables of \<open>omap2_mcspi_work\<close> and what it has added to \<open>m->actual_length\<close>.\<close>

record work =
  cs_active :: bool
  par_override :: bool
  work_status :: u32
  actual_length :: u32

text \<open>The bits of the configuration register that depend on the direction of the transfer.\<close>

definition chconf_direction :: "u32 \<Rightarrow> spi_device \<Rightarrow> u32 \<Rightarrow> spi_transfer \<Rightarrow> u32" where
  "chconf_direction chconf spi word_len t =
     (let c = chconf AND NOT OMAP2_MCSPI_CHCONF_TRM_MASK AND NOT OMAP2_MCSPI_CHCONF_TURBO;
          c = (if tx_buf t = 0 then c OR OMAP2_MCSPI_CHCONF_TRM_RX_ONLY
               else if rx_buf t = 0 then c OR OMAP2_MCSPI_CHCONF_TRM_TX_ONLY else c)
      in if turbo_mode spi \<and> tx_buf t = 0 \<and> drop_bit 3 (word_len + 7) < t_len t
         then c OR OMAP2_MCSPI_CHCONF_TURBO else c)"

definition work_override ::
    "kernel \<Rightarrow> spi_device \<Rightarrow> spi_transfer \<Rightarrow> work \<Rightarrow> ('a mcspi_scheme, work) state" where
  "work_override e spi t w =
     (if par_override w \<or> t_speed_hz t \<noteq> 0 \<or> t_bits_per_word t \<noteq> 0 then do {
        status \<leftarrow> omap2_mcspi_setup_transfer e spi (Some t);
        ret (if status <s 0 then w\<lparr>par_override := True, work_status := status\<rparr>
             else w\<lparr>par_override := t_speed_hz t \<noteq> 0 \<or> t_bits_per_word t \<noteq> 0,
                    work_status := status\<rparr>) }
      else ret w)"

definition work_activate :: "kernel \<Rightarrow> spi_device \<Rightarrow> work \<Rightarrow> ('a mcspi_scheme, work) state" where
  "work_activate e spi w =
     (if cs_active w then ret w
      else do { omap2_mcspi_force_cs e spi True; ret (w\<lparr>cs_active := True\<rparr>) })"

text \<open>The bytes of the transfer; the second component says that the loop is left with an error.\<close>

definition work_bytes ::
    "kernel \<Rightarrow> spi_device \<Rightarrow> bool \<Rightarrow> spi_transfer \<Rightarrow> work \<Rightarrow> ('a mcspi_scheme, work \<times> bool) state" where
  "work_bytes e spi mapped t w =
     (if t_len t = 0 then ret (w, False)
      else do {
        (if tx_buf t = 0 then do {
           cs \<leftarrow> get_cs e spi;
           raw_writel e 0 (cs_base cs + OMAP2_MCSPI_TX0) }
         else skip);
        count \<leftarrow> (if mapped \<or> DMA_MIN_BYTES \<le> t_len t then omap2_mcspi_txrx_dma e spi t
                 else omap2_mcspi_txrx_pio e spi t);
        let w = w\<lparr>actual_length := actual_length w + count\<rparr>;
        ret (if count \<noteq> t_len t then (w\<lparr>work_status := - EIO\<rparr>, True) else (w, False)) })"

definition work_finish ::
    "kernel \<Rightarrow> spi_device \<Rightarrow> spi_transfer \<Rightarrow> work \<Rightarrow> ('a mcspi_scheme, work) state" where
  "work_finish e spi t w = do {
     (if delay_usecs t \<noteq> 0 then kdo e (KPlat (Udelay (delay_usecs t))) else skip);
     (if cs_change t then do { omap2_mcspi_force_cs e spi False; ret (w\<lparr>cs_active := False\<rparr>) }
      else ret w) }"

definition work_direction ::
    "kernel \<Rightarrow> spi_device \<Rightarrow> spi_transfer \<Rightarrow> ('a mcspi_scheme, unit) state" where
  "work_direction e spi t = do {
     chconf \<leftarrow> mcspi_cached_chconf0 e spi;
     cs \<leftarrow> get_cs e spi;
     mcspi_write_chconf0 e spi (chconf_direction chconf spi (cs_word_len cs) t) }"

text \<open>A turn of the loop over the transfers; \<open>True\<close> for \<open>break\<close>.\<close>

definition work_transfer ::
    "kernel \<Rightarrow> spi_device \<Rightarrow> bool \<Rightarrow> spi_transfer \<Rightarrow> work \<Rightarrow> ('a mcspi_scheme, work \<times> bool) state" where
  "work_transfer e spi mapped t w =
     (if tx_buf t = 0 \<and> rx_buf t = 0 \<and> t_len t \<noteq> 0 then ret (w\<lparr>work_status := - EINVAL\<rparr>, True)
      else do {
        w \<leftarrow> work_override e spi t w;
        (if work_status w <s 0 then ret (w, True)
         else do {
           w \<leftarrow> work_activate e spi w;
           work_direction e spi t;
           (w, stop) \<leftarrow> work_bytes e spi mapped t w;
           (if stop then ret (w, True)
            else do { w \<leftarrow> work_finish e spi t w; ret (w, False) }) }) })"

fun work_transfers ::
    "kernel \<Rightarrow> spi_device \<Rightarrow> bool \<Rightarrow> spi_transfer list \<Rightarrow> work \<Rightarrow> ('a mcspi_scheme, work) state" where
  "work_transfers e spi mapped [] w = ret w"
| "work_transfers e spi mapped (t # ts) w = do {
     (w, stop) \<leftarrow> work_transfer e spi mapped t w;
     (if stop then ret w else work_transfers e spi mapped ts w) }"

text \<open>\<open>m->status\<close> and \<open>m->actual_length\<close>\<close>

definition omap2_mcspi_work ::
    "kernel \<Rightarrow> spi_device \<Rightarrow> spi_message \<Rightarrow> ('a mcspi_scheme, u32 \<times> u32) state" where
  "omap2_mcspi_work e spi m = do {
     omap2_mcspi_set_enable e spi True;
     w \<leftarrow> work_transfers e spi (is_dma_mapped m) (transfers m)
       \<lparr>cs_active = False, par_override = False, work_status = 0, actual_length = 0\<rparr>;
     status \<leftarrow> (if par_override w then omap2_mcspi_setup_transfer e spi None
               else ret (work_status w));
     (if cs_active w then omap2_mcspi_force_cs e spi False else skip);
     omap2_mcspi_set_enable e spi False;
     ret (status, actual_length w) }"

text \<open>The checks of a transfer, the second of which the first does not cover.\<close>

definition invalid_transfer :: "spi_transfer \<Rightarrow> bool" where
  "invalid_transfer t \<longleftrightarrow>
     OMAP2_MCSPI_MAX_FREQ < t_speed_hz t \<or> (t_len t \<noteq> 0 \<and> rx_buf t = 0 \<and> tx_buf t = 0) \<or>
     (t_bits_per_word t \<noteq> 0 \<and> (t_bits_per_word t < 4 \<or> 32 < t_bits_per_word t)) \<or>
     (t_speed_hz t \<noteq> 0 \<and> t_speed_hz t < drop_bit 15 OMAP2_MCSPI_MAX_FREQ)"

definition map_tx :: "kernel \<Rightarrow> spi_transfer \<Rightarrow> ('a kstate_scheme, spi_transfer option) state" where
  "map_tx e t =
     (if tx_buf t = 0 then ret (Some t)
      else do {
        d \<leftarrow> kcall e (KDma (Dma_map_single (tx_buf t) (t_len t) False));
        failed \<leftarrow> kcall e (KDma (Dma_mapping_error d));
        ret (if failed \<noteq> 0 then None else Some (t\<lparr>tx_dma := d\<rparr>)) })"

definition map_rx :: "kernel \<Rightarrow> spi_transfer \<Rightarrow> ('a kstate_scheme, spi_transfer option) state" where
  "map_rx e t =
     (if rx_buf t = 0 then ret (Some t)
      else do {
        d \<leftarrow> kcall e (KDma (Dma_map_single (rx_buf t) (t_len t) True));
        failed \<leftarrow> kcall e (KDma (Dma_mapping_error d));
        (if failed \<noteq> 0 then do {
           (if tx_buf t \<noteq> 0 then kdo e (KDma (Dma_unmap_single (tx_dma t) (t_len t) False)) else skip);
           ret None }
         else ret (Some (t\<lparr>rx_dma := d\<rparr>))) })"

text \<open>A turn of the loop that checks and maps; \<open>None\<close> for \<open>return -EINVAL\<close>.\<close>

definition map_transfer ::
    "kernel \<Rightarrow> bool \<Rightarrow> spi_transfer \<Rightarrow> ('a kstate_scheme, spi_transfer option) state" where
  "map_transfer e mapped t =
     (if invalid_transfer t then ret None
      else if mapped \<or> t_len t < DMA_MIN_BYTES then ret (Some t)
      else do {
        t' \<leftarrow> map_tx e t;
        (case t' of None \<Rightarrow> ret None | Some t \<Rightarrow> map_rx e t) })"

fun map_transfers ::
    "kernel \<Rightarrow> bool \<Rightarrow> spi_transfer list \<Rightarrow> ('a kstate_scheme, spi_transfer list option) state" where
  "map_transfers e mapped [] = ret (Some [])"
| "map_transfers e mapped (t # ts) = do {
     t' \<leftarrow> map_transfer e mapped t;
     (case t' of
        None \<Rightarrow> ret None
      | Some t \<Rightarrow> do {
          ts' \<leftarrow> map_transfers e mapped ts;
          ret (map_option ((#) t) ts') }) }"

text \<open>The result of the call, and \<open>m->status\<close> and \<open>m->actual_length\<close>.\<close>

definition omap2_mcspi_transfer_one_message ::
    "kernel \<Rightarrow> spi_device \<Rightarrow> spi_message \<Rightarrow> ('a mcspi_scheme, u32 \<times> u32 \<times> u32) state" where
  "omap2_mcspi_transfer_one_message e spi m =
     (if transfers m = [] then ret (- EINVAL, 0, 0)
      else do {
        ts \<leftarrow> map_transfers e (is_dma_mapped m) (transfers m);
        (case ts of
           None \<Rightarrow> ret (- EINVAL, 0, 0)
         | Some ts \<Rightarrow> do {
             (status, n) \<leftarrow> omap2_mcspi_work e spi (m\<lparr>transfers := ts\<rparr>);
             kdo e (KPlat Finalize_current_message);
             ret (0, status, n) }) })"

end
