(* ===== verification/Mcspi_Setup.thy ===== *)
theory Mcspi_Setup
  imports Mcspi_Transfer Sync_Fops
begin

text \<open>
  The operations of \<open>omap2_mcspi.c\<close> that set up and release: DMA channels, a device on the bus, the
  controller itself (probe and remove), and what it does when power comes back.
\<close>

section \<open>A device\<close>

definition NO_CHANNEL :: u32 where "NO_CHANNEL = - 1"

definition omap2_mcspi_request_dma :: "kernel \<Rightarrow> spi_device \<Rightarrow> ('a mcspi_scheme, u32) state" where
  "omap2_mcspi_request_dma e spi = do {
     d \<leftarrow> get_dma e spi;
     failed \<leftarrow> kcall e (KDma (Request_dma (dma_rx_sync_dev d) True));
     (if failed \<noteq> 0 then ret (- EAGAIN)
      else do {
        rx \<leftarrow> kcall e (KDma Requested_channel);
        set_dma spi (\<lambda>d. d\<lparr>dma_rx_channel := rx\<rparr>);
        failed \<leftarrow> kcall e (KDma (Request_dma (dma_tx_sync_dev d) False));
        (if failed \<noteq> 0 then do {
           kdo e (KDma (Free_dma rx));
           set_dma spi (\<lambda>d. d\<lparr>dma_rx_channel := NO_CHANNEL\<rparr>);
           ret (- EAGAIN) }
         else do {
           tx \<leftarrow> kcall e (KDma Requested_channel);
           set_dma spi (\<lambda>d. d\<lparr>dma_tx_channel := tx\<rparr>);
           set_dma spi (\<lambda>d. d\<lparr>dma_rx_done := 0\<rparr>);
           set_dma spi (\<lambda>d. d\<lparr>dma_tx_done := 0\<rparr>);
           ret 0 }) }) }"

text \<open>A structure of 24 bytes for a device that is set up for the first time.\<close>

definition SIZEOF_CS :: nat where "SIZEOF_CS = 24"

definition new_cs :: "kernel \<Rightarrow> spi_device \<Rightarrow> ('a mcspi_scheme, u32) state" where
  "new_cs e spi = do {
     p \<leftarrow> kmalloc e SIZEOF_CS;
     (if p = 0 then ret (- ENOMEM)
      else do {
        let off = 0x14 * word_of_nat (chip_select spi);
        wr (\<lambda>s. s\<lparr>cs_heap := (cs_heap s)(p :=
              \<lparr>cs_base = mcspi_base s + off, cs_phys = mcspi_phys s + off, cs_word_len = 0, chconf0 = 0\<rparr>)\<rparr>);
        wr (\<lambda>s. s\<lparr>controller_state := (controller_state s)(sd_addr spi := p)\<rparr>);
        wr (\<lambda>s. s\<lparr>ctx_cs := ctx_cs s @ [p]\<rparr>);
        ret 0 }) }"

definition setup_dma :: "kernel \<Rightarrow> spi_device \<Rightarrow> ('a mcspi_scheme, u32) state" where
  "setup_dma e spi = do {
     d \<leftarrow> get_dma e spi;
     (if dma_rx_channel d = NO_CHANNEL \<or> dma_tx_channel d = NO_CHANNEL
      then omap2_mcspi_request_dma e spi else ret 0) }"

definition omap2_mcspi_setup :: "kernel \<Rightarrow> spi_device \<Rightarrow> ('a mcspi_scheme, u32) state" where
  "omap2_mcspi_setup e spi =
     (if sd_bits_per_word spi < 4 \<or> 32 < sd_bits_per_word spi then ret (- EINVAL)
      else do {
        p \<leftarrow> rd (cs_pointer spi);
        r \<leftarrow> (if p = 0 then new_cs e spi else ret 0);
        (if r <s 0 then ret r
         else do {
           r \<leftarrow> setup_dma e spi;
           (if r <s 0 then ret r
            else do {
              r \<leftarrow> omap2_mcspi_enable_clocks e;
              (if r <s 0 then ret r
               else do {
                 r \<leftarrow> omap2_mcspi_setup_transfer e spi None;
                 omap2_mcspi_disable_clocks e;
                 ret r }) }) }) })"

text \<open>The pointer in the device is not reset.\<close>

definition free_cs :: "kernel \<Rightarrow> spi_device \<Rightarrow> ('a mcspi_scheme, unit) state" where
  "free_cs e spi = do {
     p \<leftarrow> rd (cs_pointer spi);
     (if p = 0 then skip
      else do {
        wr (\<lambda>s. s\<lparr>ctx_cs := remove1 p (ctx_cs s)\<rparr>);
        kfree e p }) }"

definition free_channels :: "kernel \<Rightarrow> spi_device \<Rightarrow> ('a mcspi_scheme, unit) state" where
  "free_channels e spi = do {
     d \<leftarrow> get_dma e spi;
     (if dma_rx_channel d \<noteq> NO_CHANNEL then do {
        kdo e (KDma (Free_dma (dma_rx_channel d)));
        set_dma spi (\<lambda>d. d\<lparr>dma_rx_channel := NO_CHANNEL\<rparr>) }
      else skip);
     (if dma_tx_channel d \<noteq> NO_CHANNEL then do {
        kdo e (KDma (Free_dma (dma_tx_channel d)));
        set_dma spi (\<lambda>d. d\<lparr>dma_tx_channel := NO_CHANNEL\<rparr>) }
      else skip) }"

definition omap2_mcspi_cleanup :: "kernel \<Rightarrow> spi_device \<Rightarrow> ('a mcspi_scheme, unit) state" where
  "omap2_mcspi_cleanup e spi = do {
     free_cs e spi;
     n \<leftarrow> rd num_chipselect;
     (if chip_select spi < unat n then free_channels e spi else skip) }"

section \<open>Power\<close>

definition omap_mcspi_runtime_resume :: "kernel \<Rightarrow> ('a mcspi_scheme, u32) state" where
  "omap_mcspi_runtime_resume e = do { omap2_mcspi_restore_ctx e; ret 0 }"

text \<open>A chip select that was inactive is switched on and off.\<close>

definition resume_cs :: "kernel \<Rightarrow> u32 \<Rightarrow> ('a mcspi_scheme, unit) state" where
  "resume_cs e p = do {
     cs \<leftarrow> cs_at e p;
     (if chconf0 cs AND OMAP2_MCSPI_CHCONF_FORCE = 0 then do {
        let on = MOD_REG_BIT (chconf0 cs) OMAP2_MCSPI_CHCONF_FORCE True;
        let off = MOD_REG_BIT on OMAP2_MCSPI_CHCONF_FORCE False;
        raw_writel e on (cs_base cs + OMAP2_MCSPI_CHCONF0);
        wr (\<lambda>s. s\<lparr>cs_heap := (cs_heap s)(p := cs\<lparr>chconf0 := off\<rparr>)\<rparr>);
        raw_writel e off (cs_base cs + OMAP2_MCSPI_CHCONF0) }
      else skip) }"

definition omap2_mcspi_resume :: "kernel \<Rightarrow> ('a mcspi_scheme, u32) state" where
  "omap2_mcspi_resume e = do {
     omap2_mcspi_enable_clocks e;
     ps \<leftarrow> rd ctx_cs;
     do_each ps (resume_cs e);
     omap2_mcspi_disable_clocks e;
     ret 0 }"

section \<open>The controller\<close>

definition omap2_mcspi_master_setup :: "kernel \<Rightarrow> ('a mcspi_scheme, u32) state" where
  "omap2_mcspi_master_setup e = do {
     r \<leftarrow> omap2_mcspi_enable_clocks e;
     (if r <s 0 then ret r
      else do {
        mcspi_write_reg e OMAP2_MCSPI_WAKEUPENABLE OMAP2_MCSPI_WAKEUPENABLE_WKEN;
        wr (\<lambda>s. s\<lparr>ctx_wakeupenable := OMAP2_MCSPI_WAKEUPENABLE_WKEN\<rparr>);
        omap2_mcspi_set_master_mode e;
        omap2_mcspi_disable_clocks e;
        ret 0 }) }"

text \<open>The number of chip selects and of the bus, from the device tree or the platform data: both are kept in
  16 bits, the first without and the second with its sign.\<close>

definition as_s16 :: "u32 \<Rightarrow> u32" where
  "as_s16 i = scast (ucast i :: u16)"

definition probe_match :: "kernel \<Rightarrow> ('a mcspi_scheme, unit) state" where
  "probe_match e = do {
     match \<leftarrow> kcall e (KPlat Of_match_device);
     (if match \<noteq> 0 then do {
        n \<leftarrow> kcall e (KPlat Of_num_cs);
        wr (\<lambda>s. s\<lparr>num_chipselect := ucast (ucast n :: u16)\<rparr>);
        wr (\<lambda>s. s\<lparr>master_bus_num := as_s16 (bus_num s), bus_num := bus_num s + 1\<rparr>) }
      else do {
        n \<leftarrow> kcall e (KPlat Pdata_num_cs);
        wr (\<lambda>s. s\<lparr>num_chipselect := ucast (ucast n :: u16)\<rparr>);
        i \<leftarrow> kcall e (KPlat Pdev_id);
        (if i \<noteq> - 1 then wr (\<lambda>s. s\<lparr>master_bus_num := as_s16 i\<rparr>) else skip) }) }"

text \<open>A turn of the loop over the DMA channels; \<open>Some\<close> for \<open>break\<close>.\<close>

definition probe_channel :: "kernel \<Rightarrow> nat \<Rightarrow> ('a mcspi_scheme, u32 option) state" where
  "probe_channel e i = do {
     rx \<leftarrow> kcall e (KPlat (Get_dma_resource (''rx'' @ dec i)));
     (if rx = 0 then ret (Some (- ENODEV))
      else do {
        start \<leftarrow> kcall e (KPlat (Resource_start rx));
        wr (\<lambda>s. s\<lparr>dma_table := (dma_table s)[i := (dma_table s ! i)\<lparr>dma_rx_channel := NO_CHANNEL,
              dma_rx_sync_dev := start\<rparr>]\<rparr>);
        tx \<leftarrow> kcall e (KPlat (Get_dma_resource (''tx'' @ dec i)));
        (if tx = 0 then ret (Some (- ENODEV))
         else do {
           start \<leftarrow> kcall e (KPlat (Resource_start tx));
           wr (\<lambda>s. s\<lparr>dma_table := (dma_table s)[i := (dma_table s ! i)\<lparr>dma_tx_channel := NO_CHANNEL,
                 dma_tx_sync_dev := start\<rparr>]\<rparr>);
           ret None }) }) }"

definition SIZEOF_DMA :: nat where "SIZEOF_DMA = 48"

definition zero_dma :: omap2_mcspi_dma where
  "zero_dma = \<lparr>dma_tx_channel = 0, dma_rx_channel = 0, dma_tx_sync_dev = 0, dma_rx_sync_dev = 0,
     dma_tx_done = 0, dma_rx_done = 0\<rparr>"

text \<open>The labels at the end of \<open>omap2_mcspi_probe\<close>. The controller's state, with the pointer
  \<open>mcspi->dma_channels\<close>, is part of the master's block.\<close>

definition free_master :: "kernel \<Rightarrow> u32 \<Rightarrow> ('a mcspi_scheme, u32) state" where
  "free_master e status = do {
     master \<leftarrow> rd mcspi_master;
     kfree e master;
     kdo e (KPlat (Set_drvdata 0));
     ret status }"

definition dma_chnl_free :: "kernel \<Rightarrow> u32 \<Rightarrow> ('a mcspi_scheme, u32) state" where
  "dma_chnl_free e status = do {
     live \<leftarrow> rd (\<lambda>s. blocks s (mcspi_master s) \<noteq> None);
     (if live then skip else out_of_bounds e);
     p \<leftarrow> rd dma_channels;
     kfree e p;
     free_master e status }"

definition disable_pm :: "kernel \<Rightarrow> u32 \<Rightarrow> ('a mcspi_scheme, u32) state" where
  "disable_pm e status = do {
     kdo e (KPlat Pm_disable);
     dma_chnl_free e status }"

text \<open>\<open>spi_master_put\<close> gives back the last reference, so the master is released.\<close>

definition spi_master_put :: "kernel \<Rightarrow> ('a mcspi_scheme, unit) state" where
  "spi_master_put e = do {
     master \<leftarrow> rd mcspi_master;
     kdo e (KPlat (Spi_master_put master));
     wr (\<lambda>s. s\<lparr>blocks := (blocks s)(master := None)\<rparr>) }"

definition err_spi_register :: "kernel \<Rightarrow> u32 \<Rightarrow> ('a mcspi_scheme, u32) state" where
  "err_spi_register e status = do { spi_master_put e; disable_pm e status }"

definition probe_start :: "kernel \<Rightarrow> ('a mcspi_scheme, u32) state" where
  "probe_start e = do {
     kdo e (KPlat Pm_use_autosuspend);
     kdo e (KPlat (Pm_set_autosuspend_delay SPI_AUTOSUSPEND_TIMEOUT));
     kdo e (KPlat Pm_enable);
     r \<leftarrow> omap2_mcspi_master_setup e;
     (if r <s 0 then disable_pm e 0
      else do {
        master \<leftarrow> rd mcspi_master;
        status \<leftarrow> kcall e (KPlat (Spi_register_master master));
        (if status <s 0 then err_spi_register e status else ret status) }) }"

definition probe_channels :: "kernel \<Rightarrow> ('a mcspi_scheme, u32) state" where
  "probe_channels e = do {
     n \<leftarrow> rd num_chipselect;
     p \<leftarrow> kmalloc e (unat n * SIZEOF_DMA);
     wr (\<lambda>s. s\<lparr>dma_channels := p\<rparr>);
     (if p = 0 then free_master e 0
      else do {
        wr (\<lambda>s. s\<lparr>dma_table := replicate (unat n) zero_dma\<rparr>);
        failed \<leftarrow> for_each [0..<unat n] (probe_channel e);
        (case failed of Some status \<Rightarrow> dma_chnl_free e status | None \<Rightarrow> probe_start e) }) }"

definition SIZEOF_MASTER :: nat where "SIZEOF_MASTER = 512"

definition omap2_mcspi_probe :: "kernel \<Rightarrow> ('a mcspi_scheme, u32) state" where
  "omap2_mcspi_probe e = do {
     master \<leftarrow> kmalloc e SIZEOF_MASTER;
     (if master = 0 then ret (- ENOMEM)
      else do {
        probe_match e;
        regs_offset \<leftarrow> kcall e (KPlat Regs_offset);
        kdo e (KPlat (Set_drvdata master));
        wr (\<lambda>s. s\<lparr>mcspi_master := master\<rparr>);
        r \<leftarrow> kcall e (KPlat Get_mem_resource);
        (if r = 0 then free_master e (- ENODEV)
         else do {
           start \<leftarrow> kcall e (KPlat (Resource_start r));
           wr (\<lambda>s. s\<lparr>mcspi_phys := start + regs_offset\<rparr>);
           base \<leftarrow> kcall e (KPlat (Devm_request_and_ioremap (start + regs_offset)));
           wr (\<lambda>s. s\<lparr>mcspi_base := base\<rparr>);
           (if base = 0 then free_master e (- ENOMEM)
            else do {
              wr (\<lambda>s. s\<lparr>ctx_cs := []\<rparr>);
              probe_channels e }) }) }) }"

definition omap2_mcspi_remove :: "kernel \<Rightarrow> ('a mcspi_scheme, u32) state" where
  "omap2_mcspi_remove e = do {
     s \<leftarrow> rd id;
     omap2_mcspi_disable_clocks e;
     kdo e (KPlat Pm_disable);
     kdo e (KPlat (Spi_unregister_master (mcspi_master s)));
     kfree e (dma_channels s);
     kdo e (KPlat (Set_drvdata 0));
     ret 0 }"

end
