(* ===== verification/Mcspi_Config.thy ===== *)
theory Mcspi_Config
  imports Mcspi_Setup
begin

text \<open>
  What the configuration of a channel means: the clock divisor is the smallest that keeps the clock at
  the speed asked for, and every field of the configuration register has the value it should have.
\<close>

section \<open>The clock divisor\<close>

lemma first_divisor_least:
  "first_divisor hz [a..<15] = (if a < 15 then LEAST k. a \<le> k \<and> (k = 15 \<or> 48000000 div 2 ^ k \<le> unat hz) else 15)"
proof (induction "15 - a" arbitrary: a)
  case 0
  then show ?case by simp
next
  case (Suc n)
  have le: "drop_bit a OMAP2_MCSPI_MAX_FREQ \<le> hz \<longleftrightarrow> 48000000 div 2 ^ a \<le> unat hz"
    unfolding word_le_nat_alt unsigned_drop_bit_eq by (simp add: drop_bit_eq_div)
  let ?P = "\<lambda>a k. a \<le> k \<and> (k = (15::nat) \<or> 48000000 div 2 ^ k \<le> unat hz)"
  show ?case
  proof (cases "48000000 div 2 ^ a \<le> unat hz")
    case True
    have "(LEAST k. ?P a k) = a" using True by (intro Least_equality) auto
    then show ?thesis using Suc(2) True by (simp add: upt_rec le)
  next
    case False
    have "?P a k \<longleftrightarrow> ?P (Suc a) k" for k
      using False Suc(2) by (cases "k = a") auto
    then have P: "?P a = ?P (Suc a)" by (intro ext)
    have step: "first_divisor hz [a..<15] = first_divisor hz [Suc a..<15]" "a < 15"
      using Suc(2) False by (simp_all add: upt_conv_Cons le)
    have "first_divisor hz [Suc a..<15] = Least (?P (Suc a))"
    proof (cases "Suc a = 15")
      case True
      have "Least (?P (Suc a)) = 15" unfolding True by (intro Least_equality) auto
      then show ?thesis unfolding True by simp
    next
      case False
      then show ?thesis using Suc(1) [of "Suc a"] Suc(2) by simp
    qed
    then show ?thesis unfolding step(1) P using step(2) by simp
  qed
qed

lemma calc_divisor_least:
  "omap2_mcspi_calc_divisor hz = (LEAST k. k = 15 \<or> 48000000 div 2 ^ k \<le> unat hz)"
  using first_divisor_least [of hz 0] by (simp add: omap2_mcspi_calc_divisor_def)

lemma calc_divisor_le: "omap2_mcspi_calc_divisor hz \<le> 15"
  unfolding calc_divisor_least by (rule Least_le) simp

section \<open>The configuration register\<close>

lemmas field_defs = OMAP2_MCSPI_CHCONF_PHA_def OMAP2_MCSPI_CHCONF_POL_def
  OMAP2_MCSPI_CHCONF_CLKD_MASK_def OMAP2_MCSPI_CHCONF_EPOL_def OMAP2_MCSPI_CHCONF_WL_MASK_def
  OMAP2_MCSPI_CHCONF_TRM_RX_ONLY_def OMAP2_MCSPI_CHCONF_TRM_TX_ONLY_def
  OMAP2_MCSPI_CHCONF_TRM_MASK_def OMAP2_MCSPI_CHCONF_DMAW_def OMAP2_MCSPI_CHCONF_DMAR_def
  OMAP2_MCSPI_CHCONF_DPE0_def OMAP2_MCSPI_CHCONF_DPE1_def OMAP2_MCSPI_CHCONF_IS_def
  OMAP2_MCSPI_CHCONF_TURBO_def OMAP2_MCSPI_CHCONF_FORCE_def

lemma bit_BIT [simp]: "bit (BIT n) i \<longleftrightarrow> i = n \<and> n < 32"
  by (auto simp: BIT_def bit_exp_iff)

lemma bit_small_word:
  fixes x :: u32
  assumes "unat x < 2 ^ n" "n \<le> i"
  shows "\<not> bit x i"
proof -
  have "take_bit n (unat x) = unat x" using assms(1) by (simp add: take_bit_nat_eq_self)
  then have "\<not> bit (unat x) i" using assms(2) by (metis bit_take_bit_iff not_le)
  then show ?thesis by (simp add: bit_unsigned_iff)
qed

lemma unat_ucast_u8: "unat (ucast (b :: u8) :: u32) = unat b"
proof -
  have "unat b < 2 ^ LENGTH(8)" by (rule unsigned_less)
  then have "unat b < 2 ^ 32" by simp
  then show ?thesis by (simp add: unsigned_ucast_eq take_bit_nat_eq_self)
qed

lemma bit_masks:
  "bit OMAP2_MCSPI_CHCONF_CLKD_MASK i \<longleftrightarrow> 2 \<le> i \<and> i < 6"
  "bit OMAP2_MCSPI_CHCONF_WL_MASK i \<longleftrightarrow> 7 \<le> i \<and> i < 12"
  "bit OMAP2_MCSPI_CHCONF_TRM_MASK i \<longleftrightarrow> 12 \<le> i \<and> i < 14"
proof -
  have masks: "0x0F = (mask 4 :: u32)" "0x1F = (mask 5 :: u32)" "3 = (mask 2 :: u32)"
    by (simp_all add: mask_eq_exp_minus_1)
  show "bit OMAP2_MCSPI_CHCONF_CLKD_MASK i \<longleftrightarrow> 2 \<le> i \<and> i < 6"
    "bit OMAP2_MCSPI_CHCONF_WL_MASK i \<longleftrightarrow> 7 \<le> i \<and> i < 12"
    "bit OMAP2_MCSPI_CHCONF_TRM_MASK i \<longleftrightarrow> 12 \<le> i \<and> i < 14"
    unfolding OMAP2_MCSPI_CHCONF_CLKD_MASK_def OMAP2_MCSPI_CHCONF_WL_MASK_def
      OMAP2_MCSPI_CHCONF_TRM_MASK_def masks bit_push_bit_iff bit_mask_iff
    by auto
qed

lemma bit_MOD_REG_BIT:
  "bit (MOD_REG_BIT v (BIT n) b) i \<longleftrightarrow> (if i = n \<and> n < 32 then b else bit v i)"
  using bit_imp_le_length [of v i] by (auto simp: MOD_REG_BIT_def bit_simps)

text \<open>Bit by bit: the fields have their values and the other bits are those of before.\<close>

lemma bit_chconf_for:
  assumes "1 \<le> word_len" "word_len \<le> 32" "d \<le> 15"
  shows "bit (chconf_for l word_len d mode) i \<longleftrightarrow>
    (if i = 0 then mode AND SPI_CPHA \<noteq> 0
     else if i = 1 then mode AND SPI_CPOL \<noteq> 0
     else if i < 6 then bit d (i - 2)
     else if i = 6 then mode AND SPI_CS_HIGH = 0
     else if i < 12 then bit (unat word_len - 1) (i - 7)
     else if i = 16 then True
     else if i = 17 \<or> i = 18 then False
     else bit l i)"
proof -
  have wl: "unat (ucast word_len - 1 :: u32) = unat word_len - 1"
    using assms(1) by (subst unat_sub) (simp_all add: word_le_nat_alt unat_ucast_u8)
  have small: "\<not> bit n j" if "n < 2 ^ k" "k \<le> j" for n k j :: nat
    using that by (metis bit_take_bit_iff not_le take_bit_nat_eq_self)
  have w: "bit (ucast word_len - 1 :: u32) j \<longleftrightarrow> j < 5 \<and> bit (unat word_len - 1) j" for j
  proof -
    have "bit (ucast word_len - 1 :: u32) j \<longleftrightarrow> bit (unat word_len - 1) j"
      unfolding wl [symmetric] bit_unsigned_iff by simp
    moreover have "unat word_len - 1 < 2 ^ 5" using assms(2) by (simp add: word_le_nat_alt)
    ultimately show ?thesis using small [of "unat word_len - 1" 5 j]
      by (cases "5 \<le> j") auto
  qed
  have d: "bit (word_of_nat d :: u32) j \<longleftrightarrow> j < 4 \<and> bit d j" for j
  proof -
    have "unat (word_of_nat d :: u32) = d" using assms(3) by (simp add: unat_word_of_nat_u32)
    then have "bit (word_of_nat d :: u32) j \<longleftrightarrow> bit d j"
      by (metis bit_unsigned_iff possible_bit_nat)
    then show ?thesis using small [of d 4 j] assms(3) by (cases "4 \<le> j") auto
  qed
  show ?thesis
    unfolding chconf_for_def Let_def OMAP2_MCSPI_CHCONF_PHA_def OMAP2_MCSPI_CHCONF_POL_def
      OMAP2_MCSPI_CHCONF_EPOL_def bit_MOD_REG_BIT OMAP2_MCSPI_CHCONF_IS_def
      OMAP2_MCSPI_CHCONF_DPE0_def OMAP2_MCSPI_CHCONF_DPE1_def
    using bit_imp_le_length [of l i]
    by (auto simp: bit_or_iff bit_and_iff bit_not_iff bit_masks bit_push_bit_iff bit_MOD_REG_BIT w d)
qed

end
