(* ===== verification/Mcspi_Pio.thy ===== *)
theory Mcspi_Pio
  imports Mcspi_Config
begin

text \<open>
  A transfer by the processor moves every word exactly once: on a controller that is always ready, the
  words of the transmit buffer go to the transmit register in order and the words read from the
  receive register fill the receive buffer. \<open>writes_at\<close> and \<open>reads_at\<close> read both off the log.
\<close>

section \<open>Words and bytes\<close>

definition writes_at :: "u32 \<Rightarrow> event list \<Rightarrow> u32 list" where
  "writes_at a l = concat (map (\<lambda>ev. case fst ev of
     KReg (Writel v b) \<Rightarrow> if b = a then [v] else [] | _ \<Rightarrow> []) l)"

definition reads_at :: "u32 \<Rightarrow> event list \<Rightarrow> u32 list" where
  "reads_at a l = concat (map (\<lambda>ev. case fst ev of
     KReg (Readl b) \<Rightarrow> if b = a then [snd ev] else [] | _ \<Rightarrow> []) l)"

lemma writes_at_simps [simp]:
  "writes_at a [] = []" "writes_at a (l @ l') = writes_at a l @ writes_at a l'"
  "writes_at a ((KReg (Writel v b), r) # l) = (if b = a then [v] else []) @ writes_at a l"
  "writes_at a ((KReg (Readl b), r) # l) = writes_at a l"
  "writes_at a ((KPlat c, r) # l) = writes_at a l"
  by (simp_all add: writes_at_def)

lemma reads_at_simps [simp]:
  "reads_at a [] = []" "reads_at a (l @ l') = reads_at a l @ reads_at a l'"
  "reads_at a ((KReg (Writel v b), r) # l) = reads_at a l"
  "reads_at a ((KReg (Readl b), r) # l) = (if b = a then [r] else []) @ reads_at a l"
  "reads_at a ((KPlat c, r) # l) = reads_at a l"
  by (simp_all add: reads_at_def)

lemma length_le_bytes [simp]: "length (le_bytes n v) = n"
  by (simp add: le_bytes_def)

text \<open>The two halves of an array, and what a store behind it leaves.\<close>

lemma bytes_at_append:
  "bytes_at p (m + n) s = bytes_at p m s @ bytes_at (p + word_of_nat m) n s"
proof -
  have "[0..<m + n] = [0..<m] @ map (\<lambda>i. i + m) [0..<n]"
    unfolding map_add_upt by (subst upt_add_eq_append) (simp_all add: add.commute)
  then show ?thesis by (simp add: bytes_at_def comp_def ac_simps)
qed

lemma poke_behind:
  assumes "m + length bs \<le> 2 ^ 32"
  shows "bytes_at p m (s\<lparr>ram := poke (p + word_of_nat m) bs r\<rparr>) = bytes_at p m (s\<lparr>ram := r\<rparr>)"
proof -
  have "length bs \<le> unat (p + word_of_nat i - (p + word_of_nat m) :: u32)" if "i < m" for i
  proof (cases "length bs = 0")
    case False
    then have m: "m < 2 ^ 32" using assms by linarith
    have "p + word_of_nat i - (p + word_of_nat m) = (word_of_nat i - word_of_nat m :: u32)"
      by simp
    moreover have "unat (word_of_nat i - word_of_nat m :: u32) = 2 ^ 32 - (m - i)"
      using that m unat_sub_wrap [of "word_of_nat i" "word_of_nat m"]
      by (simp add: unat_word_of_nat_u32 word_less_nat_alt)
    ultimately show ?thesis using assms by simp
  qed simp
  then show ?thesis by (auto simp: bytes_at_def poke_def not_less [symmetric])
qed

text \<open>
  Calls that neither are undefined behaviour nor make or undo a DMA mapping; a transfer by the
  processor logs no others.
\<close>

definition dma_neutral :: "kcall \<Rightarrow> bool" where
  "dma_neutral c \<longleftrightarrow> (case c of UB u \<Rightarrow> False | KDma (Dma_mapping_error d) \<Rightarrow> False
     | KDma (Dma_unmap_single d n r) \<Rightarrow> False | _ \<Rightarrow> True)"

definition neutral_log :: "event list \<Rightarrow> bool" where
  "neutral_log l \<longleftrightarrow> (\<forall>ev \<in> set l. dma_neutral (fst ev))"

lemma dma_neutral_simps [simp]:
  "dma_neutral (KReg r)" "dma_neutral (KPlat p)" "dma_neutral (KSpi x)" "\<not> dma_neutral (UB u)"
  "dma_neutral (KDma d) = (case d of Dma_mapping_error a \<Rightarrow> False | Dma_unmap_single a n r \<Rightarrow> False | _ \<Rightarrow> True)"
  by (simp_all add: dma_neutral_def)

lemma neutral_log_simps [simp]:
  "neutral_log []" "neutral_log (ev # l) \<longleftrightarrow> dma_neutral (fst ev) \<and> neutral_log l"
  by (auto simp: neutral_log_def)

lemma neutral_log_append [simp]: "neutral_log (l @ l') \<longleftrightarrow> neutral_log l \<and> neutral_log l'"
  by (auto simp: neutral_log_def)

lemma neutral_log_safe: "neutral_log l \<Longrightarrow> safe_log l"
  by (auto simp: neutral_log_def safe_log_def is_ub_def split: kcall.splits)

section \<open>A controller that is always ready\<close>

definition always_ready :: "kernel \<Rightarrow> u32 \<Rightarrow> bool" where
  "always_ready e base \<longleftrightarrow> (\<forall>l. \<forall>flag \<in> {OMAP2_MCSPI_CHSTAT_RXS, OMAP2_MCSPI_CHSTAT_TXS, OMAP2_MCSPI_CHSTAT_EOT}.
     answer e l (KReg (Readl (base + OMAP2_MCSPI_CHSTAT0))) AND flag \<noteq> 0)"

lemma wp_poll_ready:
  assumes "\<forall>l. answer e l (KReg (Readl reg)) AND flag \<noteq> 0"
  shows "wp (poll_reg e reg flag n) Q s \<longleftrightarrow>
    (\<forall>v. resp e (klog s) (KReg (Readl reg)) v \<longrightarrow> Q 0 (s\<lparr>klog := klog s @ [(KReg (Readl reg), v)]\<rparr>))"
  using assms by (cases n) (auto simp: raw_readl_def wp_simps resp_def)

lemma wp_wait_ready:
  assumes "always_ready e base"
    and "flag \<in> {OMAP2_MCSPI_CHSTAT_RXS, OMAP2_MCSPI_CHSTAT_TXS, OMAP2_MCSPI_CHSTAT_EOT}"
    and "\<And>n v. Q 0 (s\<lparr>klog := klog s @ [(KPlat (Jiffies_left 1000), n),
      (KReg (Readl (base + OMAP2_MCSPI_CHSTAT0)), v)]\<rparr>)"
  shows "wp (mcspi_wait_for_reg_bit e (base + OMAP2_MCSPI_CHSTAT0) flag) Q s"
proof -
  have "\<forall>l. answer e l (KReg (Readl (base + OMAP2_MCSPI_CHSTAT0))) AND flag \<noteq> 0"
    using assms(1,2) by (auto simp: always_ready_def)
  then show ?thesis
    using assms(3) by (simp add: mcspi_wait_for_reg_bit_def wp_bind wp_kcall wp_poll_ready)
qed

section \<open>The loop\<close>

text \<open>
  Where a transfer is: from the state \<open>s0\<close> on, \<open>l\<close> has been logged and the memory is \<open>r\<close>, after \<open>i\<close> words
  of \<open>k\<close>.
\<close>

definition pio_done :: "pio \<Rightarrow> nat \<Rightarrow> 'a mcspi_scheme \<Rightarrow> event list \<Rightarrow> (u32 \<Rightarrow> u8) \<Rightarrow> nat \<Rightarrow> bool" where
  "pio_done x k s0 l r i \<longleftrightarrow> neutral_log l \<and>
     (pio_tx x \<noteq> 0 \<longrightarrow> writes_at (pio_base x + OMAP2_MCSPI_TX0) l =
        map (\<lambda>j. of_le_bytes (bytes_at (pio_tx x + word_of_nat (width (pio_size x) * j)) (width (pio_size x)) s0)) [0..<i]) \<and>
     (pio_rx x \<noteq> 0 \<longrightarrow> length (reads_at (pio_base x + OMAP2_MCSPI_RX0) l) = i \<and>
        bytes_at (pio_rx x) (width (pio_size x) * i) (s0\<lparr>ram := r\<rparr>) =
          concat (map (le_bytes (width (pio_size x))) (reads_at (pio_base x + OMAP2_MCSPI_RX0) l))) \<and>
     (\<forall>a. (pio_rx x \<noteq> 0 \<longrightarrow> width (pio_size x) * k \<le> unat (a - pio_rx x)) \<longrightarrow> r a = ram s0 a)"

text \<open>What a transfer of \<open>k\<close> words needs: room in the buffers, which do not overlap, and a device that is set up.\<close>

definition pio_ready :: "pio \<Rightarrow> nat \<Rightarrow> 'a mcspi_scheme \<Rightarrow> bool" where
  "pio_ready x k s0 \<longleftrightarrow> (let n = width (pio_size x) * k; p = cs_pointer (pio_dev x) s0 in
     0 < k \<and> n < 2 ^ 32 \<and> (pio_tx x \<noteq> 0 \<longrightarrow> fits (pio_tx x) n s0) \<and> (pio_rx x \<noteq> 0 \<longrightarrow> fits (pio_rx x) n s0) \<and>
     (pio_tx x \<noteq> 0 \<and> pio_rx x \<noteq> 0 \<longrightarrow> (\<forall>i < n. n \<le> unat (pio_tx x + word_of_nat i - pio_rx x))) \<and>
     blocks s0 p \<noteq> None \<and> cs_base (cs_heap s0 p) = pio_base x)"

definition pio_state :: "'a mcspi_scheme \<Rightarrow> event list \<Rightarrow> (u32 \<Rightarrow> u8) \<Rightarrow> 'a mcspi_scheme" where
  "pio_state s0 l r = s0\<lparr>klog := klog s0 @ l, ram := r\<rparr>"

lemma pio_state_simps [simp]:
  "klog (pio_state s0 l r) = klog s0 @ l" "ram (pio_state s0 l r) = r"
  "blocks (pio_state s0 l r) = blocks s0" "cs_heap (pio_state s0 l r) = cs_heap s0"
  "controller_state (pio_state s0 l r) = controller_state s0" "dma_table (pio_state s0 l r) = dma_table s0"
  "(pio_state s0 l r)\<lparr>klog := klog s0 @ l'\<rparr> = pio_state s0 l' r"
  "(pio_state s0 l r)\<lparr>ram := r'\<rparr> = pio_state s0 l r'"
  "cs_pointer spi (pio_state s0 l r) = cs_pointer spi s0"
  "fits p n (pio_state s0 l r) = fits p n s0"
  "bytes_at p n (pio_state s0 l r) = bytes_at p n (s0\<lparr>ram := r\<rparr>)"
  by (simp_all add: pio_state_def cs_pointer_def fits_def bytes_at_def)

lemma fits_less: "fits p n s \<Longrightarrow> m \<le> n \<Longrightarrow> fits p m s"
  by (auto simp: fits_def split: option.splits)

lemma wp_load_word:
  "fits p (width w * Suc i) s \<Longrightarrow>
     wp (load_word e w p i) Q s = Q (of_le_bytes (bytes_at (p + word_of_nat (width w * i)) (width w) s)) s"
  by (simp add: load_word_def wp_simps)

lemma wp_store_word:
  "fits p (width w * Suc i) s \<Longrightarrow> wp (store_word e w p i v) Q s =
     Q () (s\<lparr>ram := poke (p + word_of_nat (width w * i)) (le_bytes (width w) v) (ram s)\<rparr>)"
  by (simp add: store_word_def wp_simps)

lemma wp_pio_set_enable:
  assumes "pio_ready x k s0"
    and "\<And>l'. neutral_log l' \<Longrightarrow> (\<And>b. b \<noteq> pio_base x + OMAP2_MCSPI_CHCTRL0 \<Longrightarrow> writes_at b l' = []) \<Longrightarrow>
      (\<And>b. b \<noteq> pio_base x + OMAP2_MCSPI_CHCTRL0 \<Longrightarrow> reads_at b l' = []) \<Longrightarrow> Q () (pio_state s0 (l @ l') r)"
  shows "wp (omap2_mcspi_set_enable e (pio_dev x) on) Q (pio_state s0 l r)"
proof -
  have "Q () (pio_state s0 (l @ [(KReg (Writel v (pio_base x + OMAP2_MCSPI_CHCTRL0)), r1),
      (KReg (Readl (pio_base x + OMAP2_MCSPI_CHCTRL0)), r2)]) r)" for v r1 r2
    by (rule assms(2)) auto
  moreover have "blocks s0 (cs_pointer (pio_dev x) s0) \<noteq> None"
    "cs_base (cs_heap s0 (cs_pointer (pio_dev x) s0)) = pio_base x"
    using assms(1) by (simp_all add: pio_ready_def Let_def)
  ultimately show ?thesis
    by (simp add: omap2_mcspi_set_enable_def mcspi_write_cs_reg_def mcspi_read_cs_reg_def get_cs_def
        cs_at_def raw_writel_def raw_readl_def wp_simps)
qed

text \<open>One word out.\<close>

lemma wp_pio_write:
  assumes "always_ready e (pio_base x)" "pio_ready x k s0" "pio_done x k s0 l r i" "i < k"
    and "\<And>l'. neutral_log (l @ l') \<Longrightarrow> reads_at (pio_base x + OMAP2_MCSPI_RX0) l' = [] \<Longrightarrow>
      (pio_tx x \<noteq> 0 \<Longrightarrow> writes_at (pio_base x + OMAP2_MCSPI_TX0) (l @ l') =
        map (\<lambda>j. of_le_bytes (bytes_at (pio_tx x + word_of_nat (width (pio_size x) * j)) (width (pio_size x)) s0)) [0..<Suc i]) \<Longrightarrow>
      Q 0 (pio_state s0 (l @ l') r)"
  shows "wp (pio_write e x i) Q (pio_state s0 l r)"
proof (cases "pio_tx x = 0")
  case True
  then show ?thesis using assms(3) assms(5) [of "[]"] by (simp add: pio_write_def wp_simps pio_done_def)
next
  case False
  let ?n = "width (pio_size x)"
  have room: "fits (pio_tx x) (?n * Suc i) s0" "?n * Suc i \<le> ?n * k"
    using assms(2,4) False fits_less [of "pio_tx x" "?n * k" s0 "?n * Suc i"]
    by (simp_all add: pio_ready_def Let_def del: mult_Suc_right)
  have bytes: "bytes_at (pio_tx x + word_of_nat (?n * i)) ?n (s0\<lparr>ram := r\<rparr>) =
      bytes_at (pio_tx x + word_of_nat (?n * i)) ?n s0"
  proof -
    have "r (pio_tx x + word_of_nat (?n * i) + word_of_nat j) = ram s0 (pio_tx x + word_of_nat (?n * i) + word_of_nat j)"
      if "j < ?n" for j
    proof -
      have "?n * i + j < ?n * k" using that room(2) by simp
      then have "pio_rx x \<noteq> 0 \<longrightarrow> ?n * k \<le> unat (pio_tx x + word_of_nat (?n * i + j) - pio_rx x)"
        using assms(2) False unfolding pio_ready_def Let_def by blast
      then show ?thesis
        using assms(3) unfolding pio_done_def add.assoc of_nat_add [symmetric] by blast
    qed
    then show ?thesis by (simp add: bytes_at_def)
  qed
  show ?thesis
    unfolding pio_write_def if_not_P [OF False] wp_bind
    using assms(3,5) room(1) False
    by (intro wp_wait_ready [OF assms(1)])
      (auto simp: wp_simps wp_load_word bytes raw_writel_def pio_done_def simp del: of_nat_mult)
qed

text \<open>One word in.\<close>

lemma wp_pio_read_word:
  assumes "pio_ready x k s0" "pio_rx x \<noteq> 0" "i < k"
    and "length (reads_at (pio_base x + OMAP2_MCSPI_RX0) l) = i"
    and "bytes_at (pio_rx x) (width (pio_size x) * i) (s0\<lparr>ram := r\<rparr>) =
      concat (map (le_bytes (width (pio_size x))) (reads_at (pio_base x + OMAP2_MCSPI_RX0) l))"
    and "\<forall>a. width (pio_size x) * k \<le> unat (a - pio_rx x) \<longrightarrow> r a = ram s0 a"
    and Q: "\<And>l' r'. neutral_log l' \<Longrightarrow> writes_at (pio_base x + OMAP2_MCSPI_TX0) l' = [] \<Longrightarrow>
      length (reads_at (pio_base x + OMAP2_MCSPI_RX0) (l @ l')) = Suc i \<Longrightarrow>
      bytes_at (pio_rx x) (width (pio_size x) * Suc i) (s0\<lparr>ram := r'\<rparr>) =
        concat (map (le_bytes (width (pio_size x))) (reads_at (pio_base x + OMAP2_MCSPI_RX0) (l @ l'))) \<Longrightarrow>
      \<forall>a. width (pio_size x) * k \<le> unat (a - pio_rx x) \<longrightarrow> r' a = ram s0 a \<Longrightarrow>
      Q () (pio_state s0 (l @ l') r')"
  shows "wp (pio_read_word e x i) Q (pio_state s0 l r)"
proof -
  let ?n = "width (pio_size x)"
  have room: "fits (pio_rx x) (?n * Suc i) s0" and le: "?n * i + ?n \<le> ?n * k" "?n * k < 2 ^ 32"
  proof -
    show "?n * i + ?n \<le> ?n * k" using assms(3) by (metis Suc_leI mult_Suc_right add.commute mult_le_mono2)
    then show "fits (pio_rx x) (?n * Suc i) s0"
      using assms(1,2) fits_less [of "pio_rx x" "?n * k" s0 "?n * Suc i"] by (simp add: pio_ready_def Let_def add.commute)
    show "?n * k < 2 ^ 32" using assms(1) by (simp add: pio_ready_def Let_def)
  qed
  define r' where "r' v = poke (pio_rx x + word_of_nat (?n * i)) (le_bytes ?n v) r" for v
  have bytes: "bytes_at (pio_rx x) (?n * i + ?n) (s0\<lparr>ram := r' v\<rparr>) =
      bytes_at (pio_rx x) (?n * i) (s0\<lparr>ram := r\<rparr>) @ le_bytes ?n v" for v
  proof -
    have "bytes_at (pio_rx x) (?n * i) (s0\<lparr>ram := r' v\<rparr>) = bytes_at (pio_rx x) (?n * i) (s0\<lparr>ram := r\<rparr>)"
      unfolding r'_def using le by (intro poke_behind) simp
    moreover have "bytes_at (pio_rx x + word_of_nat (?n * i)) ?n (s0\<lparr>ram := r' v\<rparr>) = le_bytes ?n v"
      unfolding r'_def using bytes_at_poke [of "le_bytes ?n v" ?n "pio_rx x + word_of_nat (?n * i)" r s0] by simp
    ultimately show ?thesis by (simp only: bytes_at_append)
  qed
  have outside: "r' v a = ram s0 a" if "?n * k \<le> unat (a - pio_rx x)" for a v
  proof -
    have "\<not> unat (a - (pio_rx x + word_of_nat (?n * i))) < ?n"
    proof -
      have i: "unat (word_of_nat (?n * i) :: u32) = ?n * i" using le by (intro unat_word_of_nat_u32) linarith
      have "a - (pio_rx x + word_of_nat (?n * i)) = (a - pio_rx x) - word_of_nat (?n * i)" by simp
      moreover have "unat ((a - pio_rx x) - word_of_nat (?n * i)) = unat (a - pio_rx x) - ?n * i"
        using that le i by (subst unat_sub) (simp_all add: word_le_nat_alt del: of_nat_mult)
      ultimately have "unat (a - (pio_rx x + word_of_nat (?n * i))) = unat (a - pio_rx x) - ?n * i"
        by (simp only:)
      then show ?thesis using that le by linarith
    qed
    then show ?thesis using assms(6) that by (simp add: r'_def poke_def)
  qed
  show ?thesis
    unfolding pio_read_word_def raw_readl_def wp_bind wp_kcall
  proof (intro allI impI)
    fix v
    have "Q () (pio_state s0 (l @ [(KReg (Readl (pio_base x + OMAP2_MCSPI_RX0)), v)]) (r' v))"
      by (rule Q) (use assms(4,5) bytes outside in \<open>simp_all add: add.commute\<close>)
    then show "wp (store_word e (pio_size x) (pio_rx x) i v) Q ((pio_state s0 l r)
        \<lparr>klog := klog (pio_state s0 l r) @ [(KReg (Readl (pio_base x + OMAP2_MCSPI_RX0)), v)]\<rparr>)"
      using room by (simp add: wp_store_word r'_def del: of_nat_mult mult_Suc_right)
  qed
qed

text \<open>What a transfer has written and read, apart.\<close>

definition pio_sent :: "pio \<Rightarrow> 'a mcspi_scheme \<Rightarrow> event list \<Rightarrow> nat \<Rightarrow> bool" where
  "pio_sent x s0 l i \<longleftrightarrow> neutral_log l \<and>
     (pio_tx x \<noteq> 0 \<longrightarrow> writes_at (pio_base x + OMAP2_MCSPI_TX0) l =
        map (\<lambda>j. of_le_bytes (bytes_at (pio_tx x + word_of_nat (width (pio_size x) * j)) (width (pio_size x)) s0)) [0..<i])"

definition pio_received :: "pio \<Rightarrow> nat \<Rightarrow> 'a mcspi_scheme \<Rightarrow> event list \<Rightarrow> (u32 \<Rightarrow> u8) \<Rightarrow> nat \<Rightarrow> bool" where
  "pio_received x k s0 l r i \<longleftrightarrow>
     length (reads_at (pio_base x + OMAP2_MCSPI_RX0) l) = i \<and>
     bytes_at (pio_rx x) (width (pio_size x) * i) (s0\<lparr>ram := r\<rparr>) =
       concat (map (le_bytes (width (pio_size x))) (reads_at (pio_base x + OMAP2_MCSPI_RX0) l)) \<and>
     (\<forall>a. width (pio_size x) * k \<le> unat (a - pio_rx x) \<longrightarrow> r a = ram s0 a)"

lemma pio_done_parts:
  "pio_done x k s0 l r i \<longleftrightarrow> pio_sent x s0 l i \<and>
     (if pio_rx x = 0 then r = ram s0 else pio_received x k s0 l r i)"
  by (auto simp: pio_done_def pio_sent_def pio_received_def)

lemma pio_sent_quiet:
  "pio_sent x s0 l i \<Longrightarrow> neutral_log l' \<Longrightarrow> pio_tx x = 0 \<or> writes_at (pio_base x + OMAP2_MCSPI_TX0) l' = [] \<Longrightarrow>
     pio_sent x s0 (l @ l') i"
  by (auto simp: pio_sent_def)

lemma pio_received_quiet:
  "pio_received x k s0 l r i \<Longrightarrow> reads_at (pio_base x + OMAP2_MCSPI_RX0) l' = [] \<Longrightarrow>
     pio_received x k s0 (l @ l') r i"
  by (simp add: pio_received_def)

lemma wp_pio_word_in:
  assumes "pio_ready x k s0" "pio_rx x \<noteq> 0" "i < k" "pio_received x k s0 l r i" "pio_sent x s0 l j"
    and "\<And>l' r'. pio_received x k s0 l' r' (Suc i) \<Longrightarrow> pio_sent x s0 l' j \<Longrightarrow> Q () (pio_state s0 l' r')"
  shows "wp (pio_read_word e x i) Q (pio_state s0 l r)"
  using assms(4) unfolding pio_received_def
  by (intro wp_pio_read_word [OF assms(1-3)])
    (auto intro!: assms(6) pio_sent_quiet [OF assms(5)] simp: pio_received_def)

lemma wp_pio_enable:
  assumes "pio_ready x k s0" "pio_received x k s0 l r i" "pio_sent x s0 l j"
    and "\<And>l'. pio_received x k s0 l' r i \<Longrightarrow> pio_sent x s0 l' j \<Longrightarrow> Q () (pio_state s0 l' r)"
  shows "wp (omap2_mcspi_set_enable e (pio_dev x) on) Q (pio_state s0 l r)"
  by (rule wp_pio_set_enable [OF assms(1)])
    (auto intro!: assms(4) pio_sent_quiet [OF assms(3)] pio_received_quiet [OF assms(2)])

lemma wp_pio_wait_rx:
  assumes "always_ready e (pio_base x)" "pio_received x k s0 l r i" "pio_sent x s0 l j"
    and "\<And>l'. pio_received x k s0 l' r i \<Longrightarrow> pio_sent x s0 l' j \<Longrightarrow> Q 0 (pio_state s0 l' r)"
  shows "wp (pio_wait_rx e x) Q (pio_state s0 l r)"
  unfolding pio_wait_rx_def
  by (rule wp_wait_ready [OF assms(1)])
    (auto intro!: assms(4) pio_sent_quiet [OF assms(3)] pio_received_quiet [OF assms(2)])

lemma wp_pio_read:
  assumes "always_ready e (pio_base x)" "pio_ready x k s0" "pio_rx x \<noteq> 0" "i < k"
    and "c = word_of_nat (width (pio_size x)) \<Longrightarrow> Suc i < k"
    and "pio_received x k s0 l r i" "pio_sent x s0 l (Suc i)"
    and Q: "\<And>l' r'. pio_received x k s0 l' r' (Suc i) \<Longrightarrow> pio_sent x s0 l' (Suc i) \<Longrightarrow> Q Pio_test (pio_state s0 l' r')"
      "\<And>l' r'. pio_tx x = 0 \<Longrightarrow> c = word_of_nat (width (pio_size x)) \<Longrightarrow>
        pio_received x k s0 l' r' (Suc (Suc i)) \<Longrightarrow> pio_sent x s0 l' (Suc i) \<Longrightarrow> Q Pio_turbo (pio_state s0 l' r')"
  shows "wp (pio_read e x c i) Q (pio_state s0 l r)"
proof -
  note enable = wp_pio_enable [OF assms(2)] and wait = wp_pio_wait_rx [OF assms(1)]
    and word = wp_pio_word_in [OF assms(2,3)]
  show ?thesis
    unfolding pio_read_def if_not_P [OF assms(3)] wp_bind
    apply (rule wait [OF assms(6,7)])
    apply (simp only: wp_if wp_bind)
    apply (intro conjI impI)
      apply simp
     apply (rule enable, assumption+, simp only: wp_bind)
     apply (rule word [OF assms(4)], assumption+, simp only: wp_bind)
     apply (rule wait, assumption+)
     apply (simp add: wp_bind)
     apply (rule word [OF assms(5)], simp, assumption+)
     apply (simp add: wp_return Q)
    apply (auto simp: wp_return wp_bind intro!: enable word [OF assms(4)] Q)
    done
qed

lemma wp_pio_turn:
  assumes "always_ready e (pio_base x)" "pio_ready x k s0" "pio_done x k s0 l r i" "i < k"
    and "c = word_of_nat (width (pio_size x)) \<Longrightarrow> Suc i < k"
    and test: "\<And>l' r'. pio_done x k s0 l' r' (Suc i) \<Longrightarrow> Q Pio_test (pio_state s0 l' r')"
    and turbo: "\<And>l' r'. c = word_of_nat (width (pio_size x)) \<Longrightarrow> pio_done x k s0 l' r' (Suc (Suc i)) \<Longrightarrow>
      Q Pio_turbo (pio_state s0 l' r')"
  shows "wp (pio_turn e x c i) Q (pio_state s0 l r)"
  unfolding pio_turn_def wp_bind
proof (rule wp_pio_write [OF assms(1-4)])
  fix l'
  assume l': "neutral_log (l @ l')" "reads_at (pio_base x + OMAP2_MCSPI_RX0) l' = []"
    "pio_tx x \<noteq> 0 \<Longrightarrow> writes_at (pio_base x + OMAP2_MCSPI_TX0) (l @ l') =
      map (\<lambda>j. of_le_bytes (bytes_at (pio_tx x + word_of_nat (width (pio_size x) * j)) (width (pio_size x)) s0)) [0..<Suc i]"
  then have sent: "pio_sent x s0 (l @ l') (Suc i)" by (simp add: pio_sent_def del: neutral_log_append)
  have "wp (pio_read e x c i) Q (pio_state s0 (l @ l') r)"
  proof (cases "pio_rx x = 0")
    case True
    then show ?thesis
      using assms(3) sent test [of "l @ l'" r] by (simp add: pio_read_def wp_return pio_done_parts)
  next
    case False
    have received: "pio_received x k s0 (l @ l') r i"
      using assms(3) False l'(2) by (simp add: pio_done_parts pio_received_quiet)
    have any: "pio_tx x = 0 \<Longrightarrow> pio_sent x s0 l'' m \<Longrightarrow> pio_sent x s0 l'' m'" for l'' m m'
      by (simp add: pio_sent_def)
    show ?thesis
      by (rule wp_pio_read [OF assms(1,2) False assms(4,5) received sent])
        (auto intro!: test turbo simp: pio_done_parts False intro: any)
  qed
  then show "wp (if 0 <s 0 then ret Pio_out else pio_read e x c i) Q (pio_state s0 (l @ l') r)"
    by simp
qed

lemma width_word_pos: "(0 :: u32) < word_of_nat (width w)"
  by (cases w) simp_all

text \<open>All words of a transfer, from the start of any turn.\<close>

lemma wp_pio_loop:
  assumes "always_ready e (pio_base x)" "pio_ready x k s0" "pio_done x k s0 l r i" "i < k"
    and "c = word_of_nat (width (pio_size x) * (k - i))"
  shows "wp (pio_loop e x c i) (\<lambda>res s. res = (False, 0) \<and> (\<exists>l' r'. s = pio_state s0 l' r' \<and>
    pio_done x k s0 l' r' k)) (pio_state s0 l r)"
  using assms(3-)
proof (induction "k - i" arbitrary: i c l r rule: less_induct)
  case less
  let ?w = "word_of_nat (width (pio_size x)) :: u32"
  let ?m = "k - Suc i"
  let ?Q = "\<lambda>res s. res = (False, 0) \<and> (\<exists>l' r'. s = pio_state s0 l' r' \<and> pio_done x k s0 l' r' k)"
  have size: "width (pio_size x) * k < 2 ^ 32" using assms(2) by (simp add: pio_ready_def Let_def)
  have c: "c - ?w = word_of_nat (width (pio_size x) * ?m)"
  proof -
    have "width (pio_size x) * (k - i) = width (pio_size x) + width (pio_size x) * ?m"
      using less.prems(2) by (simp add: Suc_diff_Suc [symmetric] del: Suc_diff_Suc)
    then show ?thesis using less.prems(3) by simp
  qed
  have "width (pio_size x) * ?m \<le> width (pio_size x) * k" by simp
  then have u: "unat (c - ?w) = width (pio_size x) * ?m"
    unfolding c using size by (intro unat_word_of_nat_u32) linarith
  have w: "c - ?w = ?w \<longleftrightarrow> ?m = 1" and le: "?w \<le> c - ?w \<longleftrightarrow> 1 \<le> ?m"
  proof -
    show "c - ?w = ?w \<longleftrightarrow> ?m = 1" using u by (simp add: word_unat_eq_iff)
    show "?w \<le> c - ?w \<longleftrightarrow> 1 \<le> ?m" using u by (cases ?m) (simp_all add: word_le_nat_alt)
  qed
  show ?case
    unfolding pio_loop.simps [of e x c i] Let_def wp_bind
  proof (rule wp_pio_turn [OF assms(1,2) less.prems(1,2)])
    show "Suc i < k" if "c - ?w = ?w" using that w by simp
  next
    fix l' r'
    assume words: "pio_done x k s0 l' r' (Suc i)"
    show "wp (case Pio_test of Pio_out \<Rightarrow> ret (True, c - ?w) | Pio_turbo \<Rightarrow> ret (False, 0)
      | Pio_test \<Rightarrow> if ?w \<le> c - ?w then pio_loop e x (c - ?w) (Suc i) else ret (False, c - ?w)) ?Q
      (pio_state s0 l' r')"
    proof (cases "Suc i < k")
      case True
      have "wp (pio_loop e x (c - ?w) (Suc i)) ?Q (pio_state s0 l' r')"
        by (rule less.hyps [OF _ words True c]) (use True in simp)
      moreover have "?w \<le> c - ?w" using True unfolding le by simp
      ultimately show ?thesis by simp
    next
      case False
      then have "Suc i = k" using less.prems(2) by simp
      then show ?thesis using words c le by (auto simp: wp_return)
    qed
  next
    fix l' r'
    assume "c - ?w = ?w" "pio_done x k s0 l' r' (Suc (Suc i))"
    moreover have "Suc (Suc i) = k" using calculation(1) w by simp
    ultimately show "wp (case Pio_turbo of Pio_out \<Rightarrow> ret (True, c - ?w) | Pio_turbo \<Rightarrow> ret (False, 0)
      | Pio_test \<Rightarrow> if ?w \<le> c - ?w then pio_loop e x (c - ?w) (Suc i) else ret (False, c - ?w)) ?Q
      (pio_state s0 l' r')"
      by (auto simp: wp_return)
  qed
qed

section \<open>A whole transfer\<close>

lemma drop_bit_word_len:
  assumes "word_len \<le> 32"
  shows "drop_bit 3 word_len \<le> (word_of_nat (width (size_of_word word_len)) :: u32)"
proof -
  have "unat word_len div 8 \<le> width (size_of_word word_len)"
    using assms by (auto simp: size_of_word_def word_le_nat_alt)
  then show ?thesis
    unfolding word_le_nat_alt unsigned_drop_bit_eq
    by (simp add: drop_bit_eq_div take_bit_nat_eq_self [OF unat_u32_less])
qed

definition pio_of :: "spi_device \<Rightarrow> spi_transfer \<Rightarrow> 'a mcspi_scheme \<Rightarrow> pio" where
  "pio_of spi t s = (let cs = cs_heap s (cs_pointer spi s) in
     \<lparr>pio_dev = spi, pio_tx = tx_buf t, pio_rx = rx_buf t, pio_size = size_of_word (cs_word_len cs),
      pio_conf = chconf0 cs, pio_base = cs_base cs\<rparr>)"

lemma txrx_pio_unfold:
  assumes "blocks s (cs_pointer spi s) \<noteq> None" "cs_word_len (cs_heap s (cs_pointer spi s)) \<le> 32"
    and "drop_bit 3 (cs_word_len (cs_heap s (cs_pointer spi s))) \<le> t_len t"
    and "wp (pio_loop e (pio_of spi t s) (t_len t) 0)
      (\<lambda>res. wp (do {
        (if \<not> fst res \<and> rx_buf t = 0 then do {
           wait_shifted_out e (cs_base (cs_heap s (cs_pointer spi s)) + OMAP2_MCSPI_CHSTAT0);
           omap2_mcspi_set_enable e spi False }
         else skip);
        omap2_mcspi_set_enable e spi True;
        ret (t_len t - snd res) }) Q) s"
  shows "wp (omap2_mcspi_txrx_pio e spi t) Q s"
  using assms
  by (simp add: omap2_mcspi_txrx_pio_def get_cs_def cs_at_def mcspi_cached_chconf0_def wp_bind wp_rd
      wp_return Let_def pio_of_def case_prod_beta not_less [symmetric])

lemma pio_done_quiet:
  assumes "pio_done x k s0 l r i" "neutral_log l'"
    and "writes_at (pio_base x + OMAP2_MCSPI_TX0) l' = []" "reads_at (pio_base x + OMAP2_MCSPI_RX0) l' = []"
  shows "pio_done x k s0 (l @ l') r i"
  using assms by (auto simp: pio_done_parts intro: pio_sent_quiet pio_received_quiet)

lemma wp_pio_done_enable:
  assumes "pio_ready x k s0" "pio_done x k s0 l r i"
    and "\<And>l'. pio_done x k s0 l' r i \<Longrightarrow> Q () (pio_state s0 l' r)"
  shows "wp (omap2_mcspi_set_enable e (pio_dev x) on) Q (pio_state s0 l r)"
  by (rule wp_pio_set_enable [OF assms(1)]) (auto intro!: assms(3) pio_done_quiet [OF assms(2)])

lemma wp_pio_shifted_out:
  assumes "always_ready e (pio_base x)" "pio_done x k s0 l r i"
    and "\<And>l'. pio_done x k s0 l' r i \<Longrightarrow> Q () (pio_state s0 l' r)"
  shows "wp (wait_shifted_out e (pio_base x + OMAP2_MCSPI_CHSTAT0)) Q (pio_state s0 l r)"
proof -
  have quiet: "pio_done x k s0 (l' @ [(KPlat (Jiffies_left 1000), n), (KReg (Readl (pio_base x + OMAP2_MCSPI_CHSTAT0)), v)]) r i"
    if "pio_done x k s0 l' r i" for l' n v
    by (rule pio_done_quiet [OF that]) simp_all
  show ?thesis
    unfolding wait_shifted_out_def wp_bind
    by (rule wp_wait_ready [OF assms(1)], simp,
        simp add: wp_bind, rule wp_wait_ready [OF assms(1)], simp,
        simp add: wp_return assms(3) quiet [OF quiet [OF assms(2)], simplified])
qed

lemma wp_txrx_pio:
  assumes "always_ready e (pio_base (pio_of spi t s))" "pio_ready (pio_of spi t s) k s"
    and "cs_word_len (cs_heap s (cs_pointer spi s)) \<le> 32"
    and "t_len t = word_of_nat (width (pio_size (pio_of spi t s)) * k)"
  shows "wp (omap2_mcspi_txrx_pio e spi t) (\<lambda>n s'. n = t_len t \<and>
    (\<exists>l r. s' = pio_state s l r \<and> pio_done (pio_of spi t s) k s l r k)) s"
proof -
  let ?x = "pio_of spi t s"
  let ?Q = "\<lambda>n s'. n = t_len t \<and> (\<exists>l r. s' = pio_state s l r \<and> pio_done ?x k s l r k)"
  have x: "pio_dev ?x = spi" "pio_rx ?x = rx_buf t" "pio_base ?x = cs_base (cs_heap s (cs_pointer spi s))"
    by (simp_all add: pio_of_def Let_def)
  have start: "pio_state s [] (ram s) = s" "pio_done ?x k s [] (ram s) 0"
    by (simp_all add: pio_state_def pio_done_def bytes_at_def)
  have pos: "0 < k" "width (pio_size ?x) * k < 2 ^ 32"
    using assms(2) by (simp_all add: pio_ready_def Let_def)
  have len: "drop_bit 3 (cs_word_len (cs_heap s (cs_pointer spi s))) \<le> t_len t"
  proof -
    have "unat (t_len t) = width (pio_size ?x) * k"
      unfolding assms(4) by (rule unat_word_of_nat_u32 [OF pos(2)])
    moreover have "width (pio_size ?x) * 1 \<le> width (pio_size ?x) * k"
      using pos(1) by (intro mult_le_mono2) simp
    ultimately have "word_of_nat (width (pio_size ?x)) \<le> t_len t" by (simp add: word_le_nat_alt)
    then show ?thesis
      using drop_bit_word_len [OF assms(3)] by (simp add: pio_of_def Let_def)
  qed
  note enable = wp_pio_done_enable [OF assms(2), unfolded x]
  have rest: "wp (do {
        (if \<not> False \<and> rx_buf t = 0 then do {
           wait_shifted_out e (pio_base ?x + OMAP2_MCSPI_CHSTAT0);
           omap2_mcspi_set_enable e spi False }
         else skip);
        omap2_mcspi_set_enable e spi True;
        ret (t_len t - 0) }) ?Q (pio_state s l r)" if "pio_done ?x k s l r k" for l r
    using that
    by (auto simp: wp_bind wp_return intro!: enable wp_pio_shifted_out [OF assms(1)]; blast)
  show ?thesis
  proof (rule txrx_pio_unfold [OF _ assms(3) len])
    show "blocks s (cs_pointer spi s) \<noteq> None"
      using assms(2) x(1) by (simp add: pio_ready_def Let_def)
    have "wp (pio_loop e ?x (t_len t) 0) (\<lambda>res s'. res = (False, 0) \<and> (\<exists>l' r'. s' = pio_state s l' r' \<and>
        pio_done ?x k s l' r' k)) s"
      using wp_pio_loop [OF assms(1,2) start(2) pos(1), of "t_len t"] assms(4) start(1) by simp
    then show "wp (pio_loop e ?x (t_len t) 0) (\<lambda>res. wp (do {
        (if \<not> fst res \<and> rx_buf t = 0 then do {
           wait_shifted_out e (cs_base (cs_heap s (cs_pointer spi s)) + OMAP2_MCSPI_CHSTAT0);
           omap2_mcspi_set_enable e spi False }
         else skip);
        omap2_mcspi_set_enable e spi True;
        ret (t_len t - snd res) }) ?Q) s"
      by (rule wp_mono) (use rest x(3) in auto)
  qed
qed

end
