(* ===== verification/Mcspi_Bounds.thy ===== *)
theory Mcspi_Bounds
  imports Mcspi_Pio
begin

text \<open>
  A transfer by the processor stays within its buffers whatever the controller answers, if its length
  is a whole number of words; with less than a word it runs on behind them.
\<close>

section \<open>Whole words\<close>

text \<open>What no step of a transfer changes, beside being safe.\<close>

definition pio_frame :: "'a mcspi_scheme \<Rightarrow> 'a mcspi_scheme \<Rightarrow> bool" where
  "pio_frame s0 s \<longleftrightarrow> safe_log (klog s) \<and> blocks s = blocks s0 \<and> cs_heap s = cs_heap s0 \<and>
     controller_state s = controller_state s0"

lemma pio_frame_put [simp]:
  "pio_frame s0 (s\<lparr>ram := r\<rparr>) = pio_frame s0 s"
  "pio_frame s0 (s\<lparr>klog := klog s @ l\<rparr>) \<longleftrightarrow> pio_frame s0 s \<and> safe_log l"
  by (auto simp: pio_frame_def)

lemma pio_frame_kcall: "(\<And>u. c \<noteq> UB u) \<Longrightarrow> keeps (pio_frame s0) (kcall e c)"
  by (rule keeps_kcall) (auto split: kcall.splits)

lemma pio_frame_kdo: "(\<And>u. c \<noteq> UB u) \<Longrightarrow> keeps (pio_frame s0) (kdo e c)"
  by (rule keeps_kdo) (auto split: kcall.splits)

lemmas pio_frame_rules = keeps_return keeps_rd keeps_if keeps_let pio_frame_kcall pio_frame_kdo keeps_bind

lemma pio_frame_poll: "keeps (pio_frame s0) (poll_reg e reg flag n)"
  by (induction n) (simp_all add: raw_readl_def; intro pio_frame_rules; simp)+

lemma pio_frame_wait: "keeps (pio_frame s0) (mcspi_wait_for_reg_bit e reg flag)"
  unfolding mcspi_wait_for_reg_bit_def by (intro pio_frame_poll pio_frame_rules) simp

lemma pio_frame_wait_shifted_out: "keeps (pio_frame s0) (wait_shifted_out e reg)"
  unfolding wait_shifted_out_def by (intro pio_frame_wait pio_frame_rules)

lemma pio_frame_enable:
  assumes "blocks s0 (cs_pointer spi s0) \<noteq> None"
  shows "keeps (pio_frame s0) (omap2_mcspi_set_enable e spi on)"
proof (rule keepsI)
  fix s assume "pio_frame s0 s"
  then have "blocks s (controller_state s (sd_addr spi)) \<noteq> None" "safe_log (klog s)"
    using assms by (simp_all add: pio_frame_def cs_pointer_def)
  then show "wp (omap2_mcspi_set_enable e spi on) (\<lambda>_. pio_frame s0) s"
    using \<open>pio_frame s0 s\<close>
    by (simp add: omap2_mcspi_set_enable_def mcspi_write_cs_reg_def mcspi_read_cs_reg_def get_cs_def
        cs_at_def cs_pointer_def raw_writel_def raw_readl_def wp_simps pio_frame_def)
qed

lemma pio_frame_load:
  assumes "fits p (width w * Suc i) s0"
  shows "keeps (pio_frame s0) (load_word e w p i)"
  using assms by (auto simp: keeps_def load_word_def wp_simps pio_frame_def fits_def)

lemma pio_frame_store:
  assumes "fits p (width w * Suc i) s0"
  shows "keeps (pio_frame s0) (store_word e w p i v)"
  using assms by (auto simp: keeps_def store_word_def wp_simps pio_frame_def fits_def)

text \<open>The buffers have room for \<open>k\<close> words and the device is set up.\<close>

definition pio_room :: "pio \<Rightarrow> nat \<Rightarrow> 'a mcspi_scheme \<Rightarrow> bool" where
  "pio_room x k s0 \<longleftrightarrow> (let n = width (pio_size x) * k in
     (pio_tx x \<noteq> 0 \<longrightarrow> fits (pio_tx x) n s0) \<and> (pio_rx x \<noteq> 0 \<longrightarrow> fits (pio_rx x) n s0) \<and>
     blocks s0 (cs_pointer (pio_dev x) s0) \<noteq> None)"

lemma pio_room_fits:
  assumes "pio_room x k s0" "i < k"
  shows "pio_tx x \<noteq> 0 \<Longrightarrow> fits (pio_tx x) (width (pio_size x) * Suc i) s0"
    "pio_rx x \<noteq> 0 \<Longrightarrow> fits (pio_rx x) (width (pio_size x) * Suc i) s0"
proof -
  have "width (pio_size x) * Suc i \<le> width (pio_size x) * k" using assms(2) by (intro mult_le_mono2) simp
  then show "pio_tx x \<noteq> 0 \<Longrightarrow> fits (pio_tx x) (width (pio_size x) * Suc i) s0"
    "pio_rx x \<noteq> 0 \<Longrightarrow> fits (pio_rx x) (width (pio_size x) * Suc i) s0"
    using assms(1) by (auto simp: pio_room_def Let_def intro: fits_less)
qed

lemma pio_frame_turn:
  assumes "pio_room x k s0" "i < k" "c = word_of_nat (width (pio_size x)) \<Longrightarrow> Suc i < k"
  shows "keeps (pio_frame s0) (pio_turn e x c i)"
proof -
  have live: "blocks s0 (cs_pointer (pio_dev x) s0) \<noteq> None"
    using assms(1) by (simp add: pio_room_def Let_def)
  have word: "keeps (pio_frame s0) (pio_read_word e x j)" if "j < k" "pio_rx x \<noteq> 0" for j
    unfolding pio_read_word_def raw_readl_def
    by (intro pio_frame_rules pio_frame_store pio_room_fits(2) [OF assms(1) that]) simp
  have out: "keeps (pio_frame s0) (pio_write e x i)"
    unfolding pio_write_def raw_writel_def
    by (intro pio_frame_wait pio_frame_load pio_room_fits(1) [OF assms(1,2)] pio_frame_rules) simp_all
  have inp: "keeps (pio_frame s0) (pio_read e x c i)"
    unfolding pio_read_def pio_wait_rx_def
    by (intro pio_frame_wait pio_frame_enable [OF live] word pio_frame_rules) (use assms(2,3) in simp_all)
  show ?thesis
    unfolding pio_turn_def by (intro out inp pio_frame_rules)
qed

text \<open>\<open>k - i\<close> words and less than a word more are left.\<close>

lemma pio_frame_loop:
  assumes "pio_room x k s0" "i < k" "unat c = width (pio_size x) * (k - i) + r" "r < width (pio_size x)"
    and "pio_frame s0 s"
  shows "wp (pio_loop e x c i) (\<lambda>res s'. pio_frame s0 s' \<and> snd res \<le> c) s"
  using assms(2,3,5)
proof (induction "k - i" arbitrary: i c s rule: less_induct)
  case less
  let ?n = "width (pio_size x)" and ?m = "k - Suc i"
  let ?w = "word_of_nat ?n :: u32"
  have "k - i = Suc ?m" using less.prems(1) by simp
  then have c: "unat c = ?n * ?m + ?n + r" unfolding less.prems(2) by simp
  then have "?w \<le> c" by (simp add: word_le_nat_alt)
  then have u: "unat (c - ?w) = ?n * ?m + r" and le: "c - ?w \<le> c"
    using c by (simp_all add: unat_sub word_le_nat_alt)
  have more: "Suc i < k" if "?w \<le> c - ?w"
    using that assms(4) by (cases ?m) (simp_all add: word_le_nat_alt u)
  have "c - ?w = ?w \<Longrightarrow> ?w \<le> c - ?w" by simp
  then have turn: "keeps (pio_frame s0) (pio_turn e x (c - ?w) i)"
    using more by (intro pio_frame_turn [OF assms(1) less.prems(1)]) blast
  show ?case
    unfolding pio_loop.simps [of e x c i] Let_def wp_bind
  proof (rule wp_mono [OF keepsD [OF turn less.prems(3)]])
    fix t s'
    assume s': "pio_frame s0 s'"
    have "wp (pio_loop e x (c - ?w) (Suc i)) (\<lambda>res s'. pio_frame s0 s' \<and> snd res \<le> c) s'" if "?w \<le> c - ?w"
      by (rule wp_mono [OF less.hyps [OF _ more [OF that] u s']]) (use less.prems(1) le in auto)
    then show "wp (case t of Pio_out \<Rightarrow> ret (True, c - ?w) | Pio_turbo \<Rightarrow> ret (False, 0)
        | Pio_test \<Rightarrow> if ?w \<le> c - ?w then pio_loop e x (c - ?w) (Suc i) else ret (False, c - ?w))
        (\<lambda>res s'. pio_frame s0 s' \<and> snd res \<le> c) s'"
      using s' le by (auto simp: wp_return split: pio_next.split)
  qed
qed

section \<open>Less than a word\<close>

text \<open>What has been undefined stays so.\<close>

definition overran :: "'a kstate_scheme \<Rightarrow> bool" where
  "overran s \<longleftrightarrow> \<not> safe_log (klog s)"

lemma overran_kcall: "keeps overran (kcall e c)"
  by (rule keeps_kcall) (simp add: overran_def)

lemma overran_kdo: "keeps overran (kdo e c)"
  by (rule keeps_kdo) (simp add: overran_def)

lemmas overran_rules = keeps_return keeps_rd keeps_if keeps_let overran_kcall overran_kdo keeps_bind

lemma overran_poll: "keeps overran (poll_reg e reg flag n)"
  by (induction n) (simp_all add: raw_readl_def; intro overran_rules; simp)+

lemma overran_wait: "keeps overran (mcspi_wait_for_reg_bit e reg flag)"
  unfolding mcspi_wait_for_reg_bit_def by (intro overran_poll overran_rules)

lemma overran_words:
  "keeps overran (load_word e w p i)" "keeps overran (store_word e w p i v)"
  by (auto simp: keeps_def load_word_def store_word_def wp_simps overran_def)

lemma overran_enable: "keeps overran (omap2_mcspi_set_enable e spi on)"
  unfolding omap2_mcspi_set_enable_def mcspi_write_cs_reg_def mcspi_read_cs_reg_def get_cs_def cs_at_def
    raw_writel_def raw_readl_def out_of_bounds_def
  by (intro overran_rules)

lemma overran_turn: "keeps overran (pio_turn e x c i)"
  unfolding pio_turn_def pio_write_def pio_read_def pio_read_word_def pio_wait_rx_def
    raw_writel_def raw_readl_def
  by (intro overran_words overran_wait overran_enable overran_rules)

lemma overran_loop: "keeps overran (pio_loop e x c i)"
proof (induction e x c i rule: pio_loop.induct)
  case (1 e x c i)
  show ?case
    unfolding pio_loop.simps [of e x c i] Let_def
    by (intro keeps_bind overran_turn) (auto intro!: keeps_return 1 split: pio_next.split)
qed

lemma overran_shifted_out: "keeps overran (wait_shifted_out e reg)"
  unfolding wait_shifted_out_def by (intro overran_wait overran_rules)

text \<open>The first word leaves the buffer.\<close>

lemma wp_turn_overruns:
  fixes s :: "'a mcspi_scheme"
  assumes "always_ready e (pio_base x)" "pio_tx x \<noteq> 0 \<or> pio_rx x \<noteq> 0"
    and "pio_tx x \<noteq> 0 \<Longrightarrow> \<not> fits (pio_tx x) (width (pio_size x)) s"
    and "pio_rx x \<noteq> 0 \<Longrightarrow> \<not> fits (pio_rx x) (width (pio_size x)) s"
    and "c \<noteq> word_of_nat (width (pio_size x))" "c \<noteq> 0"
  shows "wp (pio_turn e x c 0) (\<lambda>_. overran) s"
proof (cases "pio_tx x = 0")
  case True
  then have rx: "pio_rx x \<noteq> 0" "\<not> fits (pio_rx x) (width (pio_size x)) s" using assms(2,4) by auto
  have "wp (pio_read e x c 0) (\<lambda>_. overran) s"
    unfolding pio_read_def if_not_P [OF rx(1)] wp_bind pio_wait_rx_def
    by (rule wp_wait_ready [OF assms(1)])
      (simp_all add: assms(5,6) rx pio_read_word_def raw_readl_def store_word_def wp_simps overran_def)
  then show ?thesis using True by (simp add: pio_turn_def pio_write_def wp_simps)
next
  case False
  have "wp (pio_write e x 0) (\<lambda>_. overran) s"
    unfolding pio_write_def if_not_P [OF False] wp_bind
    by (rule wp_wait_ready [OF assms(1)])
      (simp_all add: assms(3) [OF False] load_word_def raw_writel_def wp_simps overran_def)
  then show ?thesis
    unfolding pio_turn_def wp_bind
  proof (rule wp_mono)
    fix r and s :: "'a mcspi_scheme"
    assume "overran s"
    moreover have "keeps overran (pio_read e x c 0)"
      unfolding pio_read_def pio_read_word_def pio_wait_rx_def raw_readl_def
      by (intro overran_words overran_wait overran_enable overran_rules)
    ultimately show "wp (if r <s 0 then ret Pio_out else pio_read e x c 0) (\<lambda>_. overran) s"
      by (auto simp: wp_return intro: keepsD)
  qed
qed

lemma wp_loop_overruns:
  fixes s :: "'a mcspi_scheme"
  assumes "always_ready e (pio_base x)" "pio_tx x \<noteq> 0 \<or> pio_rx x \<noteq> 0"
    and "pio_tx x \<noteq> 0 \<Longrightarrow> \<not> fits (pio_tx x) (width (pio_size x)) s"
    and "pio_rx x \<noteq> 0 \<Longrightarrow> \<not> fits (pio_rx x) (width (pio_size x)) s"
    and "c < word_of_nat (width (pio_size x))"
  shows "wp (pio_loop e x c 0) (\<lambda>_. overran) s"
proof -
  let ?w = "word_of_nat (width (pio_size x)) :: u32"
  have "unat (c - ?w) = 4294967296 - (width (pio_size x) - unat c)"
    using assms(5) by (subst unat_sub_wrap) (simp_all add: word_less_nat_alt)
  then have "4 < unat (c - ?w)" using width_le(1) [of "pio_size x"] by linarith
  then have c: "c - ?w \<noteq> ?w" "c - ?w \<noteq> 0"
    using width_le(1) [of "pio_size x"] by (auto simp: word_unat_eq_iff simp del: width_le)
  show ?thesis
    unfolding pio_loop.simps [of e x c 0] Let_def wp_bind
  proof (rule wp_mono [OF wp_turn_overruns [OF assms(1-4) c]])
    fix t and s :: "'a mcspi_scheme"
    assume "overran s"
    then show "wp (case t of Pio_out \<Rightarrow> ret (True, c - ?w) | Pio_turbo \<Rightarrow> ret (False, 0)
        | Pio_test \<Rightarrow> if ?w \<le> c - ?w then pio_loop e x (c - ?w) (Suc 0) else ret (False, c - ?w))
        (\<lambda>_. overran) s"
      by (auto simp: wp_return intro: keepsD [OF overran_loop] split: pio_next.split)
  qed
qed

section \<open>The whole transfer\<close>

text \<open>Buffers of exactly the length of the transfer, for a device that is set up.\<close>

definition exact_buffers :: "spi_device \<Rightarrow> spi_transfer \<Rightarrow> 'a mcspi_scheme \<Rightarrow> bool" where
  "exact_buffers spi t s \<longleftrightarrow> blocks s (cs_pointer spi s) \<noteq> None \<and>
     (\<forall>p \<in> {tx_buf t, rx_buf t} - {0}. blocks s p = Some (unat (t_len t))) \<and>
     (tx_buf t \<noteq> 0 \<or> rx_buf t \<noteq> 0)"

lemma wp_pio_whole_words:
  assumes "exact_buffers spi t s" "safe_log (klog s)" "cs_word_len (cs_heap s (cs_pointer spi s)) \<le> 32"
    and "word_of_nat (width (pio_size (pio_of spi t s))) \<le> t_len t"
  shows "wp (omap2_mcspi_txrx_pio e spi t) (\<lambda>n s'. n \<le> t_len t \<and> safe_log (klog s')) s"
proof -
  let ?x = "pio_of spi t s"
  let ?n = "width (pio_size ?x)"
  define k where "k = unat (t_len t) div ?n"
  have x: "pio_dev ?x = spi" "pio_rx ?x = rx_buf t" "pio_tx ?x = tx_buf t"
    by (simp_all add: pio_of_def Let_def)
  have len: "unat (t_len t) = ?n * (k - 0) + unat (t_len t) mod ?n" "0 < k"
    using assms(4) by (simp_all add: k_def word_le_nat_alt div_greater_zero_iff)
  have room: "pio_room ?x k s"
  proof -
    have "?n * k \<le> unat (t_len t)" by (simp add: k_def)
    then show ?thesis using assms(1) by (auto simp: pio_room_def Let_def x exact_buffers_def fits_def)
  qed
  have live: "blocks s (cs_pointer spi s) \<noteq> None" using assms(1) by (simp add: exact_buffers_def)
  have long: "drop_bit 3 (cs_word_len (cs_heap s (cs_pointer spi s))) \<le> t_len t"
    using drop_bit_word_len [OF assms(3)] assms(4) by (simp add: pio_of_def Let_def)
  have loop: "wp (pio_loop e ?x (t_len t) 0) (\<lambda>res s'. pio_frame s s' \<and> snd res \<le> t_len t) s"
    by (rule pio_frame_loop [OF room len(2,1)]) (use assms(2) in \<open>simp_all add: pio_frame_def\<close>)
  note enable = pio_frame_enable [OF live]
  show ?thesis
  proof (rule txrx_pio_unfold [OF live assms(3) long wp_mono [OF loop]])
    fix res :: "bool \<times> u32" and s'
    assume res: "pio_frame s s' \<and> snd res \<le> t_len t"
    have first: "keeps (pio_frame s)
        (if \<not> fst res \<and> rx_buf t = 0 then do {
           wait_shifted_out e (cs_base (cs_heap s (cs_pointer spi s)) + OMAP2_MCSPI_CHSTAT0);
           omap2_mcspi_set_enable e spi False }
         else skip)"
      by (intro enable pio_frame_wait_shifted_out pio_frame_rules)
    show "wp (do {
        (if \<not> fst res \<and> rx_buf t = 0 then do {
           wait_shifted_out e (cs_base (cs_heap s (cs_pointer spi s)) + OMAP2_MCSPI_CHSTAT0);
           omap2_mcspi_set_enable e spi False }
         else skip);
        omap2_mcspi_set_enable e spi True;
        ret (t_len t - snd res) }) (\<lambda>n s'. n \<le> t_len t \<and> safe_log (klog s')) s'"
      by (subst wp_bind, rule wp_mono [OF keepsD [OF first]], use res in simp,
          subst wp_bind, rule wp_mono [OF keepsD [OF enable]], assumption)
        (use res in \<open>auto simp: wp_return pio_frame_def word_sub_le\<close>)
  qed
qed

lemma wp_pio_overruns:
  fixes s :: "'a mcspi_scheme"
  assumes "exact_buffers spi t s" "cs_word_len (cs_heap s (cs_pointer spi s)) \<le> 32"
    and "always_ready e (cs_base (cs_heap s (cs_pointer spi s)))"
    and "drop_bit 3 (cs_word_len (cs_heap s (cs_pointer spi s))) \<le> t_len t"
    and "t_len t < word_of_nat (width (pio_size (pio_of spi t s)))"
  shows "wp (omap2_mcspi_txrx_pio e spi t) (\<lambda>_ s'. \<not> safe_log (klog s')) s"
proof -
  let ?x = "pio_of spi t s"
  have x: "pio_base ?x = cs_base (cs_heap s (cs_pointer spi s))" "pio_rx ?x = rx_buf t" "pio_tx ?x = tx_buf t"
    by (simp_all add: pio_of_def Let_def)
  have live: "blocks s (cs_pointer spi s) \<noteq> None" using assms(1) by (simp add: exact_buffers_def)
  have loop: "wp (pio_loop e ?x (t_len t) 0) (\<lambda>_. overran) s"
    by (rule wp_loop_overruns) (use assms(1,3,5) in \<open>auto simp: x exact_buffers_def fits_def word_less_nat_alt\<close>)
  show ?thesis
    unfolding overran_def [symmetric]
  proof (rule txrx_pio_unfold [OF live assms(2,4) wp_mono [OF loop]])
    fix res :: "bool \<times> u32" and s' :: "'a mcspi_scheme"
    assume "overran s'"
    moreover have "keeps overran (do {
        (if \<not> fst res \<and> rx_buf t = 0 then do {
           wait_shifted_out e (cs_base (cs_heap s (cs_pointer spi s)) + OMAP2_MCSPI_CHSTAT0);
           omap2_mcspi_set_enable e spi False }
         else skip);
        omap2_mcspi_set_enable e spi True;
        ret (t_len t - snd res) })"
      by (intro overran_enable overran_shifted_out overran_rules)
    ultimately show "wp (do {
        (if \<not> fst res \<and> rx_buf t = 0 then do {
           wait_shifted_out e (cs_base (cs_heap s (cs_pointer spi s)) + OMAP2_MCSPI_CHSTAT0);
           omap2_mcspi_set_enable e spi False }
         else skip);
        omap2_mcspi_set_enable e spi True;
        ret (t_len t - snd res) }) (\<lambda>_. overran) s'"
      by (blast intro: keepsD)
  qed
qed

lemma wp_pio_refused:
  assumes "blocks s (cs_pointer spi s) \<noteq> None"
    and "t_len t < drop_bit 3 (cs_word_len (cs_heap s (cs_pointer spi s)))"
  shows "run_state (omap2_mcspi_txrx_pio e spi t) s = (0, s)"
  using assms by (simp add: omap2_mcspi_txrx_pio_def get_cs_def cs_at_def mcspi_cached_chconf0_def Let_def)

end
