(* ===== verification/Mcspi_Steps.thy ===== *)
theory Mcspi_Steps
  imports Mcspi_Bounds "HOL-Library.Multiset"
begin

text \<open>
  What the steps of a message between the bytes of its transfers leave: the device stays set up, and the log
  is extended by calls that a property of the log does not see. \<open>pending\<close> is such a property: which DMA
  mappings have been made and not undone.
\<close>

section \<open>What the steps between the transfers leave\<close>

text \<open>Logs that a neutral call other than a write to the transmit register extends.\<close>

definition quiet_closed :: "u32 \<Rightarrow> (event list \<Rightarrow> bool) \<Rightarrow> bool" where
  "quiet_closed b L \<longleftrightarrow> (\<forall>l c r. L l \<longrightarrow> dma_neutral c \<longrightarrow>
     (\<forall>v. c \<noteq> KReg (Writel v (b + OMAP2_MCSPI_TX0))) \<longrightarrow> L (l @ [(c, r)]))"

lemma quiet_closed_writes: "quiet_closed b (\<lambda>l. c \<longrightarrow> writes_at (b + OMAP2_MCSPI_TX0) l = ws)"
  by (auto simp: quiet_closed_def writes_at_def split: kcall.split reg_call.split)

text \<open>
  DMA mappings that were made and undone, and logs that extend \<open>l0\<close> without undefined behaviour and leave
  the mappings \<open>P\<close> besides those that \<open>l0\<close> leaves.
\<close>

definition dma_made :: "event list \<Rightarrow> u32 multiset" where
  "dma_made l = mset (concat (map (\<lambda>ev. case fst ev of
     KDma (Dma_mapping_error d) \<Rightarrow> if snd ev = 0 then [d] else [] | _ \<Rightarrow> []) l))"

definition dma_undone :: "event list \<Rightarrow> u32 multiset" where
  "dma_undone l = mset (concat (map (\<lambda>ev. case fst ev of
     KDma (Dma_unmap_single d n b) \<Rightarrow> [d] | _ \<Rightarrow> []) l))"

definition pending :: "event list \<Rightarrow> u32 multiset \<Rightarrow> event list \<Rightarrow> bool" where
  "pending l0 P l \<longleftrightarrow> (\<exists>l'. l = l0 @ l' \<and> safe_log l' \<and> dma_made l' = dma_undone l' + P)"

lemma dma_made_simps [simp]:
  "dma_made [] = {#}" "dma_made (l @ l') = dma_made l + dma_made l'"
  "dma_made ((c, r) # l) = (case c of KDma (Dma_mapping_error d) \<Rightarrow> if r = 0 then {#d#} else {#} | _ \<Rightarrow> {#}) + dma_made l"
  by (auto simp: dma_made_def split: kcall.split dma_call.split)

lemma dma_undone_simps [simp]:
  "dma_undone [] = {#}" "dma_undone (l @ l') = dma_undone l + dma_undone l'"
  "dma_undone ((c, r) # l) = (case c of KDma (Dma_unmap_single d n b) \<Rightarrow> {#d#} | _ \<Rightarrow> {#}) + dma_undone l"
  by (auto simp: dma_undone_def split: kcall.split dma_call.split)

lemma neutral_log_dma:
  "neutral_log l \<Longrightarrow> dma_made l = {#} \<and> dma_undone l = {#}"
  by (induction l) (auto simp: dma_neutral_def split: kcall.splits dma_call.splits)

lemma pending_neutral:
  assumes "pending l0 P l" "neutral_log l'"
  shows "pending l0 P (l @ l')"
proof -
  obtain k where "l = l0 @ k" "safe_log k" "dma_made k = dma_undone k + P"
    using assms(1) by (auto simp: pending_def)
  then show ?thesis
    using neutral_log_dma [OF assms(2)] neutral_log_safe [OF assms(2)]
    unfolding pending_def by (intro exI [of _ "k @ l'"]) simp
qed

lemma quiet_closed_pending: "quiet_closed b (pending l0 P)"
  by (simp add: quiet_closed_def pending_neutral)

lemma pending_undo:
  assumes "pending l0 (add_mset d P) l"
  shows "pending l0 P (l @ [(KDma (Dma_unmap_single d n b), r)])"
proof -
  obtain l' where "l = l0 @ l'" "safe_log l'" "dma_made l' = dma_undone l' + add_mset d P"
    using assms by (auto simp: pending_def)
  then show ?thesis
    unfolding pending_def by (intro exI [of _ "l' @ [(KDma (Dma_unmap_single d n b), r)]"]) simp
qed

text \<open>A device at \<open>p\<close> that is set up for words of \<open>wl\<close> bits.\<close>

definition dev_at ::
    "spi_device \<Rightarrow> u32 \<Rightarrow> u32 \<Rightarrow> (u32 \<Rightarrow> nat option) \<Rightarrow> (event list \<Rightarrow> bool) \<Rightarrow> u32 \<Rightarrow> 'a mcspi_scheme \<Rightarrow> bool" where
  "dev_at spi p b bl L wl s \<longleftrightarrow> cs_pointer spi s = p \<and> blocks s = bl \<and> bl p \<noteq> None \<and>
     chip_select spi < length (dma_table s) \<and>
     cs_base (cs_heap s p) = b \<and> cs_word_len (cs_heap s p) = wl \<and> L (klog s)"

lemma keeps_at_call:
  assumes "quiet_closed b L" "dma_neutral c" "\<forall>v. c \<noteq> KReg (Writel v (b + OMAP2_MCSPI_TX0))"
  shows "keeps (dev_at spi p b bl L wl) (kcall e c)" "keeps (dev_at spi p b bl L wl) (kdo e c)"
proof -
  have "L (l @ [(c, r)])" if "L l" for l r
    using assms that by (simp add: quiet_closed_def)
  then show "keeps (dev_at spi p b bl L wl) (kcall e c)" "keeps (dev_at spi p b bl L wl) (kdo e c)"
    by (auto intro!: keeps_kcall keeps_kdo simp: dev_at_def cs_pointer_def)
qed

lemma wp_at_chconf0:
  assumes "quiet_closed b L" "dev_at spi p b bl L wl s"
    and "\<And>s'. dev_at spi p b bl L wl s' \<Longrightarrow> Q () s'"
  shows "wp (mcspi_write_chconf0 e spi v) Q s"
proof -
  have L: "L (l @ [(KReg (Writel v (b + OMAP2_MCSPI_CHCONF0)), r), (KReg (Readl a), r')])" if "L l" for l r r' a
  proof -
    have "L (l @ [(KReg (Writel v (b + OMAP2_MCSPI_CHCONF0)), r)])"
      using assms(1) that by (simp add: quiet_closed_def)
    then have "L ((l @ [(KReg (Writel v (b + OMAP2_MCSPI_CHCONF0)), r)]) @ [(KReg (Readl a), r')])"
      using assms(1) by (simp add: quiet_closed_def del: append_assoc)
    then show ?thesis by simp
  qed
  have eqs: "controller_state s (sd_addr spi) = p" "blocks s = bl" "\<exists>n. bl p = Some n"
    "cs_base (cs_heap s p) = b" "cs_word_len (cs_heap s p) = wl" "L (klog s)" "chip_select spi < length (dma_table s)"
    using assms(2) by (auto simp: dev_at_def cs_pointer_def)
  show ?thesis
    by (simp add: mcspi_write_chconf0_def get_cs_def cs_at_def set_cs_def mcspi_write_cs_reg_def
        mcspi_read_cs_reg_def raw_writel_def raw_readl_def cs_pointer_def wp_simps eqs)
      (auto intro!: assms(3) L simp: dev_at_def cs_pointer_def eqs)
qed

lemma wp_at_get_cs:
  assumes "dev_at spi p b bl L wl s"
    and "\<And>cs. cs_base cs = b \<Longrightarrow> cs_word_len cs = wl \<Longrightarrow> Q cs s"
  shows "wp (get_cs e spi) Q s"
  using assms by (auto simp: get_cs_def cs_at_def dev_at_def wp_simps)

lemma keeps_at_chconf0:
  "quiet_closed b L \<Longrightarrow> keeps (dev_at spi p b bl L wl) (mcspi_write_chconf0 e spi v)"
  by (blast intro: keepsI wp_at_chconf0)

lemma keeps_at_cached: "keeps (dev_at spi p b bl L wl) (mcspi_cached_chconf0 e spi)"
  unfolding mcspi_cached_chconf0_def by (intro keepsI, subst wp_bind) (rule wp_at_get_cs, auto simp: wp_return)

lemma keeps_at_get_cs: "keeps (dev_at spi p b bl L wl) (get_cs e spi)"
  by (intro keepsI wp_at_get_cs)

lemma keeps_at_force: "quiet_closed b L \<Longrightarrow> keeps (dev_at spi p b bl L wl) (omap2_mcspi_force_cs e spi on)"
  unfolding omap2_mcspi_force_cs_def by (intro keeps_bind keeps_at_cached keeps_at_chconf0)

lemma keeps_at_direction: "quiet_closed b L \<Longrightarrow> keeps (dev_at spi p b bl L wl) (work_direction e spi t)"
  unfolding work_direction_def by (intro keeps_bind keeps_at_cached keeps_at_get_cs keeps_at_chconf0)

lemma keeps_at_enable:
  assumes "quiet_closed b L"
  shows "keeps (dev_at spi p b bl L wl) (omap2_mcspi_set_enable e spi on)"
proof -
  have ctrl: "wp (mcspi_write_cs_reg e spi OMAP2_MCSPI_CHCTRL0 v) (\<lambda>_. dev_at spi p b bl L wl) s"
    if "dev_at spi p b bl L wl s" for v s
    unfolding mcspi_write_cs_reg_def raw_writel_def
    by (subst wp_bind, rule wp_at_get_cs [OF that])
      (rule keepsD [OF keeps_at_call(2) [OF assms] that], simp_all)
  have read: "keeps (dev_at spi p b bl L wl) (mcspi_read_cs_reg e spi i)" for i
    unfolding mcspi_read_cs_reg_def raw_readl_def
    by (intro keeps_bind keeps_at_get_cs keeps_at_call assms) simp_all
  show ?thesis
    unfolding omap2_mcspi_set_enable_def by (intro keeps_bind keeps_return read) (rule keepsI, rule ctrl)
qed

text \<open>A transfer's own word length, or the device's.\<close>

definition bits_of :: "spi_device \<Rightarrow> spi_transfer option \<Rightarrow> u8" where
  "bits_of spi t = (case t of None \<Rightarrow> sd_bits_per_word spi
     | Some t \<Rightarrow> if t_bits_per_word t \<noteq> 0 then t_bits_per_word t else sd_bits_per_word spi)"

definition speed_of :: "spi_device \<Rightarrow> spi_transfer option \<Rightarrow> u32" where
  "speed_of spi t = (case t of None \<Rightarrow> sd_max_speed_hz spi
     | Some t \<Rightarrow> if t_speed_hz t \<noteq> 0 then t_speed_hz t else sd_max_speed_hz spi)"

lemma wp_setup_transfer_exact:
  assumes "blocks s (cs_pointer spi s) \<noteq> None"
  shows "wp (omap2_mcspi_setup_transfer e spi t) (\<lambda>r s'. let p = cs_pointer spi s; cs = cs_heap s p;
      v = chconf_for (chconf0 cs) (bits_of spi t) (omap2_mcspi_calc_divisor (min (speed_of spi t) OMAP2_MCSPI_MAX_FREQ))
        (sd_mode spi) in
    r = 0 \<and> cs_heap s' = (cs_heap s)(p := cs\<lparr>cs_word_len := ucast (bits_of spi t), chconf0 := v\<rparr>) \<and>
    (\<exists>a b. klog s' = klog s @ [(KReg (Writel v (cs_base cs + OMAP2_MCSPI_CHCONF0)), a),
      (KReg (Readl (cs_base cs + OMAP2_MCSPI_CHCONF0)), b)])) s"
  using assms
  by (auto simp: omap2_mcspi_setup_transfer_def mcspi_cached_chconf0_def mcspi_write_chconf0_def
      mcspi_write_cs_reg_def mcspi_read_cs_reg_def raw_readl_def raw_writel_def get_cs_def cs_at_def
      set_cs_def cs_pointer_def wp_simps Let_def bits_of_def [symmetric] speed_of_def [symmetric])

lemma unat_min_speed: "unat (min hz 48000000 :: u32) = min (unat hz) 48000000"
  by (simp add: min_def word_le_nat_alt)

lemma wp_at_setup_transfer:
  assumes "quiet_closed b L" "dev_at spi p b bl L wl s"
  shows "wp (omap2_mcspi_setup_transfer e spi t) (\<lambda>r s'. r = 0 \<and> dev_at spi p b bl L (ucast (bits_of spi t)) s') s"
proof -
  let ?D = "dev_at spi p b bl L (ucast (bits_of spi t))"
  have "?D (s\<lparr>cs_heap := (cs_heap s)(cs_pointer spi s := cs_heap s (cs_pointer spi s)
      \<lparr>cs_word_len := ucast (bits_of spi t)\<rparr>)\<rparr>)"
    using assms(2) by (simp add: dev_at_def cs_pointer_def)
  then have word_len: "wp (set_cs spi (\<lambda>cs. cs\<lparr>cs_word_len := ucast (bits_of spi t)\<rparr>)) (\<lambda>_. ?D) s"
    by (simp add: set_cs_def wp_wr)
  have conf: "wp (do { l \<leftarrow> mcspi_cached_chconf0 e spi; mcspi_write_chconf0 e spi (f l); ret 0 })
      (\<lambda>r s'. r = 0 \<and> ?D s') s" if "?D s" for f s
    by (rule wp_keeps_bind [OF keeps_at_cached that])
      (auto simp: wp_bind wp_return intro!: wp_at_chconf0 [OF assms(1)])
  show ?thesis
    unfolding omap2_mcspi_setup_transfer_def Let_def bits_of_def [symmetric]
    by (subst wp_bind, rule wp_at_get_cs [OF assms(2)], subst wp_bind, rule wp_mono [OF word_len], rule conf)
qed

end
