(* ===== verification/Mcspi_Dma.thy ===== *)
theory Mcspi_Dma
  imports Mcspi_Steps
begin

text \<open>
  Transfers by DMA on a controller that is always ready: they transfer the whole length within their buffers
  and undo the mappings of their buffers.
\<close>

section \<open>Steps\<close>

lemma keeps_at_set_dma: "keeps (dev_at spi p b bl L wl) (set_dma spi f)"
  unfolding set_dma_def by (rule keeps_wr) (simp add: dev_at_def cs_pointer_def)

lemma keeps_at_get_dma: "keeps (dev_at spi p b bl L wl) (get_dma e spi)"
  by (rule keepsI) (auto simp: get_dma_def wp_simps dev_at_def)

lemma keeps_at_set_dma_req:
  "quiet_closed b L \<Longrightarrow> keeps (dev_at spi p b bl L wl) (omap2_mcspi_set_dma_req e spi is_read on)"
  unfolding omap2_mcspi_set_dma_req_def by (intro keeps_bind keeps_let keeps_at_cached keeps_at_chconf0)

lemmas keeps_at_dma = keeps_at_set_dma keeps_at_get_dma keeps_at_set_dma_req keeps_at_call

lemma keeps_at_callbacks:
  "quiet_closed b L \<Longrightarrow> keeps (dev_at spi p b bl L wl) (omap2_mcspi_dma_rx_callback e spi)"
  "quiet_closed b L \<Longrightarrow> keeps (dev_at spi p b bl L wl) (omap2_mcspi_dma_tx_callback e spi)"
  unfolding omap2_mcspi_dma_rx_callback_def omap2_mcspi_dma_tx_callback_def
  by (intro keeps_bind keeps_at_dma; assumption)+

text \<open>A buffer with room for \<open>n\<close> bytes.\<close>

definition room :: "(u32 \<Rightarrow> nat option) \<Rightarrow> u32 \<Rightarrow> nat \<Rightarrow> bool" where
  "room bl q n \<longleftrightarrow> (\<exists>m. bl q = Some m \<and> n \<le> m)"

lemma dev_at_fits: "dev_at spi p b bl L wl s \<Longrightarrow> room bl q n \<Longrightarrow> fits q n s"
  by (auto simp: dev_at_def room_def fits_def)

lemma keeps_at_receive:
  assumes "quiet_closed b L" "room bl q n"
  shows "keeps (dev_at spi p b bl L wl) (receive e q n)"
proof -
  have bytes: "wp (rx_bytes e k) (\<lambda>bs s'. length bs = k \<and> dev_at spi p b bl L wl s') s"
    if "dev_at spi p b bl L wl s" for k s
  proof (induction k)
    case 0
    then show ?case using that by (simp add: wp_return)
  next
    case (Suc k)
    have one: "wp (do { v \<leftarrow> kcall e (KSpi (Spi_rx_byte k)); ret (bs @ [ucast v]) })
        (\<lambda>bs s'. length bs = Suc k \<and> dev_at spi p b bl L wl s') s'"
      if "length bs = k \<and> dev_at spi p b bl L wl s'" for bs s'
      by (rule wp_keeps_bind [OF keeps_at_call(1) [OF assms(1)] conjunct2 [OF that]])
        (use that in \<open>simp_all add: wp_return\<close>)
    show ?case unfolding rx_bytes.simps by (subst wp_bind) (rule wp_mono [OF Suc one])
  qed
  have store: "wp (store e q bs) (\<lambda>_. dev_at spi p b bl L wl) s" if "length bs = n \<and> dev_at spi p b bl L wl s" for bs s
    using that dev_at_fits [OF conjunct2 [OF that] assms(2)] by (simp add: store_def wp_simps dev_at_def cs_pointer_def)
  show ?thesis
    unfolding receive_def by (rule keepsI, subst wp_bind, rule wp_mono [OF bytes], assumption, rule store)
qed

lemma keeps_at_arrives:
  "quiet_closed b L \<Longrightarrow> room bl q n \<Longrightarrow> keeps (dev_at spi p b bl L wl) (dma_rx_arrives e spi q n)"
  unfolding dma_rx_arrives_def by (intro keeps_bind keeps_at_receive keeps_at_callbacks)

lemma keeps_at_waits:
  assumes "quiet_closed b L" "q \<noteq> 0 \<longrightarrow> room bl q n"
  shows "keeps (dev_at spi p b bl L wl) (wait_for_dma_tx e spi q n)"
    "q \<noteq> 0 \<Longrightarrow> keeps (dev_at spi p b bl L wl) (wait_for_dma_rx e spi q n)"
proof -
  have arrives: "q \<noteq> 0 \<Longrightarrow> keeps (dev_at spi p b bl L wl) (dma_rx_arrives e spi q n)"
    using assms by (simp add: keeps_at_arrives)
  have first: "keeps (dev_at spi p b bl L wl) (if q \<noteq> 0 \<and> r \<noteq> 0 then dma_rx_arrives e spi q n else skip)" for r
    by (cases "q \<noteq> 0 \<and> r \<noteq> 0") (simp_all add: keeps_return arrives)
  show "keeps (dev_at spi p b bl L wl) (wait_for_dma_tx e spi q n)"
    unfolding wait_for_dma_tx_def
    by (intro keeps_bind first keeps_at_callbacks keeps_at_set_dma keeps_at_call assms(1)) simp_all
  show "keeps (dev_at spi p b bl L wl) (wait_for_dma_rx e spi q n)" if "q \<noteq> 0"
    unfolding wait_for_dma_rx_def
    by (intro keeps_bind keeps_if keeps_return keeps_rd arrives that keeps_at_set_dma keeps_at_call assms(1)) simp_all
qed

lemma keeps_at_wait_ready:
  assumes "always_ready e b" "quiet_closed b L"
    and "flag \<in> {OMAP2_MCSPI_CHSTAT_RXS, OMAP2_MCSPI_CHSTAT_TXS, OMAP2_MCSPI_CHSTAT_EOT}"
  shows "keeps (dev_at spi p b bl L wl) (mcspi_wait_for_reg_bit e (b + OMAP2_MCSPI_CHSTAT0) flag)"
proof (rule keepsI, rule wp_wait_ready [OF assms(1,3)])
  fix s :: "'a mcspi_scheme" and n v
  assume s: "dev_at spi p b bl L wl s"
  have "L (klog s @ [(KPlat (Jiffies_left 1000), n)])"
    using s assms(2) by (simp add: dev_at_def quiet_closed_def)
  then have "L ((klog s @ [(KPlat (Jiffies_left 1000), n)]) @ [(KReg (Readl (b + OMAP2_MCSPI_CHSTAT0)), v)])"
    using assms(2) by (simp add: quiet_closed_def del: append_assoc)
  then show "dev_at spi p b bl L wl (s\<lparr>klog := klog s @ [(KPlat (Jiffies_left 1000), n),
      (KReg (Readl (b + OMAP2_MCSPI_CHSTAT0)), v)]\<rparr>)"
    using s by (simp add: dev_at_def cs_pointer_def)
qed

lemma keeps_at_shifted_out:
  "always_ready e b \<Longrightarrow> quiet_closed b L \<Longrightarrow>
     keeps (dev_at spi p b bl L wl) (wait_shifted_out e (b + OMAP2_MCSPI_CHSTAT0))"
  unfolding wait_shifted_out_def by (intro keeps_bind keeps_if keeps_return keeps_at_wait_ready) simp_all

text \<open>Undoing a mapping.\<close>

lemma wp_at_unmap:
  assumes "dev_at spi p b bl (pending l0 (add_mset d P)) wl s"
  shows "wp (kdo e (KDma (Dma_unmap_single d n r))) (\<lambda>_. dev_at spi p b bl (pending l0 P) wl) s"
  using assms pending_undo [of l0 d P "klog s"] by (auto simp: wp_kdo dev_at_def cs_pointer_def)

section \<open>A transfer\<close>

text \<open>The words that the channel has left in the register: on a controller that is ready there is one.\<close>

lemma wp_at_rx_rest:
  assumes "always_ready e b" "quiet_closed b L" "dev_at spi p b bl L wl s" "room bl q (width w * Suc (unat i))"
  shows "wp (dma_rx_rest e spi w q i) (\<lambda>r s'. r \<and> dev_at spi p b bl L wl s') s"
proof -
  have eqs: "cs_base (cs_heap s (cs_pointer spi s)) = b" "\<exists>n. blocks s (cs_pointer spi s) = Some n"
    using assms(3) by (auto simp: dev_at_def)
  have L: "L (klog s @ [(KReg (Readl (b + OMAP2_MCSPI_CHSTAT0)), v), (KReg (Readl (b + OMAP2_MCSPI_RX0)), v')])" for v v'
  proof -
    have "L (klog s @ [(KReg (Readl (b + OMAP2_MCSPI_CHSTAT0)), v)])"
      using assms(2,3) by (simp add: quiet_closed_def dev_at_def)
    then have "L ((klog s @ [(KReg (Readl (b + OMAP2_MCSPI_CHSTAT0)), v)]) @ [(KReg (Readl (b + OMAP2_MCSPI_RX0)), v')])"
      using assms(2) by (simp add: quiet_closed_def del: append_assoc)
    then show ?thesis by simp
  qed
  have stat: "answer e l (KReg (Readl (b + OMAP2_MCSPI_CHSTAT0))) AND OMAP2_MCSPI_CHSTAT_RXS \<noteq> 0" for l
    using assms(1) by (simp add: always_ready_def)
  show ?thesis
    using dev_at_fits [OF assms(3,4)] assms(3) L stat
    by (auto simp: dma_rx_rest_def mcspi_read_cs_reg_def raw_readl_def get_cs_def cs_at_def wp_simps eqs resp_def
        wp_store_word dev_at_def cs_pointer_def simp del: mult_Suc_right)
qed

lemma wp_at_rx_finish:
  assumes "always_ready e b" "dev_at spi p b bl (pending l0 (add_mset (rx_dma t) P)) wl s" "rx_buf t \<noteq> 0"
    and "room bl (rx_buf t) (width w * unat n)" "2 \<le> n"
    and "elements = (if l AND OMAP2_MCSPI_CHCONF_TURBO \<noteq> 0 then n - 2 else n - 1)"
  shows "wp (dma_rx_finish e spi t w l elements) (\<lambda>r s'. r = t_len t \<and> dev_at spi p b bl (pending l0 P) wl s') s"
proof -
  have n: "2 \<le> unat n" using assms(5) by (simp add: word_le_nat_alt)
  have u: "unat (n - 1) = unat n - 1" "unat (n - 2) = unat n - 2"
    using assms(5) n by (simp_all add: unat_sub word_le_nat_alt)
  have less: "room bl (rx_buf t) (width w * m)" if "m \<le> unat n" for m
  proof -
    have le: "width w * m \<le> width w * unat n" using that by (rule mult_le_mono2)
    show ?thesis using assms(4) unfolding room_def by (blast intro: order_trans [OF le])
  qed
  have fit: "room bl (rx_buf t) (width w * unat elements)" "room bl (rx_buf t) (width w * Suc (unat elements))"
    and fit2: "l AND OMAP2_MCSPI_CHCONF_TURBO \<noteq> 0 \<Longrightarrow> room bl (rx_buf t) (width w * Suc (unat (elements + 1)))"
    using n u by (auto simp: assms(6) intro!: less simp del: mult_Suc_right)
  note quiet = quiet_closed_pending
  have rest: "wp (do {
        last_word \<leftarrow> dma_rx_rest e spi w (rx_buf t) (if l AND OMAP2_MCSPI_CHCONF_TURBO \<noteq> 0 then elements + 1 else elements);
        omap2_mcspi_set_enable e spi True;
        ret (if last_word then t_len t else t_len t - word_of_nat (width w)) })
      (\<lambda>r s'. r = t_len t \<and> dev_at spi p b bl (pending l0 P) wl s') s" if "dev_at spi p b bl (pending l0 P) wl s" for s
    by (subst wp_bind, rule wp_mono [OF wp_at_rx_rest [OF assms(1) quiet that]])
      (use fit fit2 in \<open>auto simp: wp_return intro!: wp_keeps_bind [OF keeps_at_enable [OF quiet]] simp del: mult_Suc_right\<close>)
  have first: "wp (if l AND OMAP2_MCSPI_CHCONF_TURBO \<noteq> 0 then dma_rx_rest e spi w (rx_buf t) elements else ret True)
      (\<lambda>r s'. r \<and> dev_at spi p b bl (pending l0 P) wl s') s" if "dev_at spi p b bl (pending l0 P) wl s" for s
    using wp_at_rx_rest [OF assms(1) quiet that fit(2)] that by (simp add: wp_return)
  show ?thesis
    unfolding dma_rx_finish_def Let_def
    by (rule wp_keeps_bind [OF keeps_at_waits(2) [OF quiet] assms(2)], simp add: fit, rule assms(3),
        subst wp_bind, rule wp_mono [OF wp_at_unmap], assumption,
        rule wp_keeps_bind [OF keeps_at_enable [OF quiet]], assumption,
        subst wp_bind, rule wp_mono [OF first], assumption)
      (simp add: rest)
qed

lemma element_count_words:
  assumes "unat (t_len t) = width w * k"
  shows "unat (element_count w (t_len t)) = k"
proof -
  have "k < 2 ^ 32"
    using assms unat_u32_less [of "t_len t"] width_pos(1) [of w] by (cases w) auto
  then show ?thesis
    using assms by (cases w) (simp_all add: element_count_def unsigned_drop_bit_eq drop_bit_eq_div take_bit_nat_eq_self unat_div_distrib)
qed

text \<open>The mappings of a transfer that is long enough for DMA.\<close>

definition dma_addresses :: "spi_transfer \<Rightarrow> u32 multiset" where
  "dma_addresses t = (if tx_buf t = 0 then {#} else {#tx_dma t#}) + (if rx_buf t = 0 then {#} else {#rx_dma t#})"

lemma wp_at_dma:
  assumes "always_ready e b" "dev_at spi p b bl (pending l0 (dma_addresses t + P)) wl s"
    and "tx_buf t \<noteq> 0 \<or> rx_buf t \<noteq> 0" "unat (t_len t) = width (size_of_word wl) * k" "2 \<le> k"
    and "\<forall>q \<in> {tx_buf t, rx_buf t} - {0}. room bl q (unat (t_len t))"
  shows "wp (omap2_mcspi_txrx_dma e spi t) (\<lambda>r s'. r = t_len t \<and> dev_at spi p b bl (pending l0 P) wl s') s"
proof -
  let ?w = "size_of_word wl"
  let ?n = "element_count ?w (t_len t)"
  have n: "unat ?n = k" by (rule element_count_words [OF assms(4)])
  then have n2: "2 \<le> ?n" using assms(5) by (simp add: word_le_nat_alt)
  have fit: "q \<in> {tx_buf t, rx_buf t} - {0} \<Longrightarrow> room bl q (width ?w * unat ?n)" for q
    using assms(4,6) n by simp
  note quiet = quiet_closed_pending
  let ?D = "\<lambda>P. dev_at spi p b bl (pending l0 P) wl"
  let ?R = "(if rx_buf t = 0 then {#} else {#rx_dma t#}) + P"
  note steps = keeps_bind keeps_if keeps_return keeps_rd keeps_at_call [OF quiet] keeps_at_set_dma_req [OF quiet]
  have setups: "keeps (?D Q) (dma_setup_tx e spi t w a)" "keeps (?D Q) (dma_setup_rx e spi t w m a)"
    "keeps (?D Q) (dma_start e spi is_rx)" for Q w a m is_rx
    unfolding dma_setup_tx_def dma_setup_rx_def dma_start_def by (intro steps; simp)+
  have load: "keeps (?D Q) (load e q (width ?w * unat ?n))" if "q \<in> {tx_buf t, rx_buf t} - {0}" for Q q
    by (rule keepsI) (simp add: load_def wp_simps dev_at_fits [OF _ fit [OF that]])
  have elements: "rx_buf t \<noteq> 0 \<longrightarrow> room bl (rx_buf t) (width ?w * unat m)" if "unat m \<le> unat ?n" for m
  proof
    assume "rx_buf t \<noteq> 0"
    then have "room bl (rx_buf t) (width ?w * unat ?n)" by (intro fit) simp
    moreover have "width ?w * unat m \<le> width ?w * unat ?n" using that by (rule mult_le_mono2)
    ultimately show "room bl (rx_buf t) (width ?w * unat m)" unfolding room_def by (blast intro: order_trans)
  qed
  have sent: "wp (if tx_buf t \<noteq> 0 then do {
        load e (tx_buf t) (width ?w * unat ?n);
        wait_for_dma_tx e spi (rx_buf t) (width ?w * unat m);
        kdo e (KDma (Dma_unmap_single (tx_dma t) (t_len t) False));
        (if rx_buf t = 0 then wait_shifted_out e (b + OMAP2_MCSPI_CHSTAT0) else skip) }
      else skip) (\<lambda>_. ?D ?R) s" if "?D (dma_addresses t + P) s" "unat m \<le> unat ?n" for m s
  proof (cases "tx_buf t = 0")
    case True
    then show ?thesis using that(1) by (simp add: wp_return dma_addresses_def)
  next
    case False
    then have "dma_addresses t + P = add_mset (tx_dma t) ?R" by (simp add: dma_addresses_def)
    then have s: "?D (add_mset (tx_dma t) ?R) s" using that(1) by simp
    have close: "keeps (?D ?R) (if rx_buf t = 0 then wait_shifted_out e (b + OMAP2_MCSPI_CHSTAT0) else skip)"
      by (intro keeps_if keeps_return keeps_at_shifted_out assms(1) quiet)
    show ?thesis
      unfolding if_P [OF False]
      by (rule wp_keeps_bind [OF load s], use False in simp,
          rule wp_keeps_bind [OF keeps_at_waits(1) [OF quiet elements [OF that(2)]]], assumption,
          subst wp_bind, rule wp_mono [OF wp_at_unmap], assumption, erule keepsD [OF close])
  qed
  have received: "wp (if rx_buf t \<noteq> 0 then dma_rx_finish e spi t ?w l m else ret (t_len t))
      (\<lambda>r s'. r = t_len t \<and> ?D P s') s"
    if "?D ?R s" "m = (if l AND OMAP2_MCSPI_CHCONF_TURBO \<noteq> 0 then ?n - 2 else ?n - 1)" for l m s
    using that(1) fit [of "rx_buf t"] wp_at_rx_finish [OF assms(1) _ _ _ n2 that(2), of spi p bl l0 t P wl s ?w]
    by (cases "rx_buf t = 0") (simp_all add: wp_return)
  have less: "unat (if l AND OMAP2_MCSPI_CHCONF_TURBO \<noteq> 0 then ?n - 2 else ?n - 1) \<le> unat ?n" for l :: u32
    using n2 by (auto simp: unat_sub word_le_nat_alt)
  show ?thesis
    unfolding omap2_mcspi_txrx_dma_def Let_def
    apply (subst wp_bind, rule wp_at_get_cs [OF assms(2)])
    apply (simp only:)
    apply (rule wp_keeps_bind [OF keeps_at_get_dma assms(2)])
    apply (rule wp_keeps_bind [OF keeps_at_cached], assumption)
    apply (rule wp_keeps_bind [OF keeps_if [OF setups(1) keeps_return]], assumption)
    apply (rule wp_keeps_bind [OF keeps_if [OF setups(2) keeps_return]], assumption)
    apply (rule wp_keeps_bind [OF keeps_if [OF setups(3) keeps_return]], assumption)
    apply (rule wp_keeps_bind [OF keeps_if [OF setups(3) keeps_return]], assumption)
    apply (subst wp_bind, rule wp_mono [OF sent [OF _ less]], assumption)
    apply (rule received, assumption, rule refl)
    done
qed

end
