(* ===== verification/Mcspi_Messages.thy ===== *)
theory Mcspi_Messages
  imports Mcspi_Dma
begin

text \<open>
  Messages to a controller that is always ready, which are transferred completely, and to one that is
  never ready, whose timeouts the driver partly reports as success.
\<close>

section \<open>A turn of the loop\<close>

definition overrides :: "spi_transfer \<Rightarrow> bool" where
  "overrides t \<longleftrightarrow> t_speed_hz t \<noteq> 0 \<or> t_bits_per_word t \<noteq> 0"

lemma wp_at_override:
  assumes "quiet_closed b L" "dev_at spi p b bl L wl s" "work_status w = 0"
    and "par_override w \<or> wl = ucast (sd_bits_per_word spi)"
  shows "wp (work_override e spi t w) (\<lambda>w' s'. dev_at spi p b bl L (ucast (bits_of spi (Some t))) s' \<and>
    w' = w\<lparr>par_override := overrides t\<rparr>) s"
proof (cases "par_override w \<or> overrides t")
  case True
  then show ?thesis
    unfolding work_override_def overrides_def [symmetric] disj_assoc [symmetric]
    by (auto simp: wp_simps assms(3) overrides_def intro!: wp_mono [OF wp_at_setup_transfer [OF assms(1,2)]])
next
  case False
  then show ?thesis
    using assms(2,4) by (auto simp: work_override_def overrides_def bits_of_def wp_return)
qed

text \<open>From the start of a turn to its bytes.\<close>

lemma wp_at_work_transfer:
  assumes "quiet_closed b L" "dev_at spi p b bl L wl s" "work_status w = 0"
    and "par_override w \<or> wl = ucast (sd_bits_per_word spi)" "\<not> (tx_buf t = 0 \<and> rx_buf t = 0 \<and> t_len t \<noteq> 0)"
    and bytes: "\<And>s'. dev_at spi p b bl L (ucast (bits_of spi (Some t))) s' \<Longrightarrow>
      wp (do { (w, stop) \<leftarrow> work_bytes e spi mapped t (w\<lparr>par_override := overrides t, cs_active := True\<rparr>);
        (if stop then ret (w, True) else do { w \<leftarrow> work_finish e spi t w; ret (w, False) }) }) Q s'"
  shows "wp (work_transfer e spi mapped t w) Q s"
proof -
  let ?D = "dev_at spi p b bl L (ucast (bits_of spi (Some t)))"
  have activate: "wp (work_activate e spi w) (\<lambda>w' s'. w' = w\<lparr>cs_active := True\<rparr> \<and> ?D s') s" if "?D s" for w s
    unfolding work_activate_def wp_if wp_bind wp_return
    by (intro conjI impI wp_mono [OF keepsD [OF keeps_at_force [OF assms(1)] that]])
      (use that in simp_all)
  show ?thesis
    unfolding work_transfer_def if_not_P [OF assms(5)]
    by (subst wp_bind, rule wp_mono [OF wp_at_override [OF assms(1-4)]], elim conjE)
      (simp add: assms(3) wp_bind [of "work_activate e spi x" for x], rule wp_mono [OF activate], assumption,
        elim conjE, simp, rule wp_keeps_bind [OF keeps_at_direction [OF assms(1)]], assumption, rule bytes)
qed

section \<open>A controller that is always ready\<close>

text \<open>A transfer of whole words for which there is room. Short ones are moved by the processor.\<close>

definition transfer_ok :: "spi_device \<Rightarrow> (u32 \<Rightarrow> nat option) \<Rightarrow> spi_transfer \<Rightarrow> bool" where
  "transfer_ok spi bl t \<longleftrightarrow> (let n = unat (t_len t) in
     \<not> invalid_transfer t \<and> n mod width (size_of_word (ucast (bits_of spi (Some t)))) = 0 \<and>
     (\<forall>q \<in> {tx_buf t, rx_buf t} - {0}. room bl q n) \<and>
     (t_len t < DMA_MIN_BYTES \<and> tx_buf t \<noteq> 0 \<and> rx_buf t \<noteq> 0 \<longrightarrow>
        (\<forall>i < n. n \<le> unat (tx_buf t + word_of_nat i - rx_buf t))))"

lemma transfer_ok_dma [simp]:
  "transfer_ok spi bl (t\<lparr>tx_dma := d\<rparr>) = transfer_ok spi bl t"
  "transfer_ok spi bl (t\<lparr>rx_dma := d\<rparr>) = transfer_ok spi bl t"
  by (simp_all add: transfer_ok_def Let_def invalid_transfer_def bits_of_def)

lemma bits_of_range:
  assumes "\<not> invalid_transfer t" "sd_bits_per_word spi \<le> 32"
  shows "(ucast (bits_of spi (Some t)) :: u32) \<le> 32"
  using assms by (auto simp: bits_of_def invalid_transfer_def not_less word_le_nat_alt unat_ucast_u8)

text \<open>The mappings that are made for a transfer.\<close>

definition addresses :: "spi_transfer \<Rightarrow> u32 multiset" where
  "addresses t = (if t_len t < DMA_MIN_BYTES then {#} else dma_addresses t)"

lemma words_of_transfer:
  assumes "transfer_ok spi bl t" "t_len t \<noteq> 0"
  obtains k where "unat (t_len t) = width (size_of_word (ucast (bits_of spi (Some t)))) * k" "0 < k"
    "DMA_MIN_BYTES \<le> t_len t \<Longrightarrow> 2 \<le> k"
proof
  let ?w = "width (size_of_word (ucast (bits_of spi (Some t))))"
  show k: "unat (t_len t) = ?w * (unat (t_len t) div ?w)"
    using assms(1) by (auto simp: transfer_ok_def Let_def)
  show "0 < unat (t_len t) div ?w" using k assms(2) by (cases "unat (t_len t) div ?w") (simp_all add: unat_eq_0)
  show "2 \<le> unat (t_len t) div ?w" if "DMA_MIN_BYTES \<le> t_len t"
  proof -
    have "160 \<le> ?w * (unat (t_len t) div ?w)" using that k by (simp add: word_le_nat_alt)
    also have "\<dots> \<le> 4 * (unat (t_len t) div ?w)" by (intro mult_le_mono1) simp
    finally show ?thesis by simp
  qed
qed

lemma wp_at_pio:
  fixes s :: "'a mcspi_scheme"
  assumes "always_ready e b" "dev_at spi p b bl (pending l0 P) (ucast (bits_of spi (Some t))) s"
    and "transfer_ok spi bl t" "sd_bits_per_word spi \<le> 32" "t_len t \<noteq> 0" "t_len t < DMA_MIN_BYTES"
  shows "wp (omap2_mcspi_txrx_pio e spi t)
    (\<lambda>n s'. n = t_len t \<and> dev_at spi p b bl (pending l0 P) (ucast (bits_of spi (Some t))) s') s"
proof -
  let ?x = "pio_of spi t s"
  have at: "cs_pointer spi s = p" "blocks s = bl" "bl p \<noteq> None" "cs_base (cs_heap s p) = b"
    "cs_word_len (cs_heap s p) = ucast (bits_of spi (Some t))" "pending l0 P (klog s)"
    "chip_select spi < length (dma_table s)"
    using assms(2) by (simp_all add: dev_at_def)
  have x: "pio_base ?x = b" "pio_dev ?x = spi" "pio_tx ?x = tx_buf t" "pio_rx ?x = rx_buf t"
    "pio_size ?x = size_of_word (ucast (bits_of spi (Some t)))"
    by (simp_all add: pio_of_def Let_def at)
  obtain k where k: "unat (t_len t) = width (pio_size ?x) * k" "0 < k"
    using words_of_transfer [OF assms(3,5)] unfolding x by blast
  have fits: "fits q (unat (t_len t)) s" if "q \<in> {tx_buf t, rx_buf t}" "q \<noteq> 0" for q
    using assms(3) that by (intro dev_at_fits [OF assms(2)]) (auto simp: transfer_ok_def Let_def)
  have "pio_ready ?x k s"
    unfolding pio_ready_def Let_def k(1) [symmetric]
    using assms(3,6) k(2) unat_u32_less [of "t_len t"] at
    by (auto simp: x transfer_ok_def Let_def intro!: fits)
  then have "wp (omap2_mcspi_txrx_pio e spi t) (\<lambda>n s'. n = t_len t \<and>
      (\<exists>l r. s' = pio_state s l r \<and> pio_done ?x k s l r k)) s"
    using bits_of_range [of t spi] assms(3,4) k(1) [symmetric]
    by (intro wp_txrx_pio) (use assms(1) in \<open>simp_all add: x(1) at transfer_ok_def Let_def\<close>)
  then show ?thesis
    by (rule wp_mono) (auto simp: dev_at_def at pio_done_def intro: pending_neutral [OF at(6)])
qed

lemma wp_at_bytes:
  assumes "always_ready e b" "dev_at spi p b bl (pending l0 (addresses t + P)) (ucast (bits_of spi (Some t))) s"
    and "transfer_ok spi bl t" "sd_bits_per_word spi \<le> 32"
  shows "wp (work_bytes e spi False t w) (\<lambda>r s'. r = (w\<lparr>actual_length := actual_length w + t_len t\<rparr>, False) \<and>
    dev_at spi p b bl (pending l0 P) (ucast (bits_of spi (Some t))) s') s"
proof (cases "t_len t = 0")
  case True
  then show ?thesis using assms(2) by (simp add: work_bytes_def wp_return addresses_def)
next
  case False
  let ?D = "\<lambda>P. dev_at spi p b bl (pending l0 P) (ucast (bits_of spi (Some t)))"
  have dummy: "wp (if tx_buf t = 0 then do { cs \<leftarrow> get_cs e spi; raw_writel e 0 (cs_base cs + OMAP2_MCSPI_TX0) }
      else skip) (\<lambda>_. ?D (addresses t + P)) s"
    using assms(2) pending_neutral [of l0 "addresses t + P" "klog s" "[(KReg (Writel 0 (b + OMAP2_MCSPI_TX0)), r)]" for r]
    by (auto simp: get_cs_def cs_at_def dev_at_def cs_pointer_def raw_writel_def wp_simps)
  have buffers: "tx_buf t \<noteq> 0 \<or> rx_buf t \<noteq> 0" "\<forall>q \<in> {tx_buf t, rx_buf t} - {0}. room bl q (unat (t_len t))"
    using assms(3) False by (auto simp: transfer_ok_def Let_def invalid_transfer_def)
  have bytes: "wp (if False \<or> DMA_MIN_BYTES \<le> t_len t then omap2_mcspi_txrx_dma e spi t else omap2_mcspi_txrx_pio e spi t)
      (\<lambda>n s'. n = t_len t \<and> ?D P s') s" if "?D (addresses t + P) s" for s
  proof (cases "DMA_MIN_BYTES \<le> t_len t")
    case True
    then have "?D (dma_addresses t + P) s" using that by (simp add: addresses_def not_less [symmetric])
    moreover obtain k where "unat (t_len t) = width (size_of_word (ucast (bits_of spi (Some t)))) * k" "2 \<le> k"
      using words_of_transfer [OF assms(3) False] True by blast
    ultimately have "wp (omap2_mcspi_txrx_dma e spi t) (\<lambda>n s'. n = t_len t \<and> ?D P s') s"
      by (rule wp_at_dma [OF assms(1) _ buffers(1) _ _ buffers(2)])
    then show ?thesis using True by simp
  next
    case False
    then have short: "t_len t < DMA_MIN_BYTES" by (simp only: not_le)
    then have "?D P s" using that by (simp add: addresses_def)
    from wp_at_pio [OF assms(1) this assms(3,4) \<open>t_len t \<noteq> 0\<close> short] False show ?thesis by simp
  qed
  show ?thesis
    unfolding work_bytes_def if_not_P [OF False]
    by (subst wp_bind, rule wp_mono [OF dummy], subst wp_bind, rule wp_mono [OF bytes], assumption)
      (auto simp: wp_return)
qed

lemma keeps_at_delay:
  "quiet_closed b L \<Longrightarrow> keeps (dev_at spi p b bl L wl)
     (if d \<noteq> 0 then kdo e (KPlat (Udelay d)) else skip)"
  by (intro keeps_if keeps_return keeps_at_call) simp_all

lemma wp_at_finish:
  assumes "quiet_closed b L" "dev_at spi p b bl L wl s"
  shows "wp (work_finish e spi t w) (\<lambda>w' s'. dev_at spi p b bl L wl s' \<and> par_override w' = par_override w \<and>
    work_status w' = work_status w \<and> actual_length w' = actual_length w) s"
proof -
  have "wp (if cs_change t then do { omap2_mcspi_force_cs e spi False; ret (w\<lparr>cs_active := False\<rparr>) } else ret w)
      (\<lambda>w' s'. dev_at spi p b bl L wl s' \<and> par_override w' = par_override w \<and>
        work_status w' = work_status w \<and> actual_length w' = actual_length w) s" if "dev_at spi p b bl L wl s" for s
    unfolding wp_if wp_bind wp_return
    by (intro conjI impI wp_mono [OF keepsD [OF keeps_at_force [OF assms(1)] that]]) (use that in simp_all)
  then show ?thesis
    unfolding work_finish_def
    by (intro wp_keeps_bind [OF keeps_at_delay [OF assms(1)] assms(2)])
qed

lemma wp_at_transfers:
  fixes s :: "'a mcspi_scheme"
  assumes "always_ready e b" "sd_bits_per_word spi \<le> 32" "\<forall>t \<in> set ts. transfer_ok spi bl t"
    and "dev_at spi p b bl (pending l0 (sum_list (map addresses ts))) wl s" "work_status w = 0"
    and "par_override w \<or> wl = ucast (sd_bits_per_word spi)"
  shows "wp (work_transfers e spi False ts w) (\<lambda>w' s'. work_status w' = 0 \<and>
    actual_length w' = actual_length w + sum_list (map t_len ts) \<and>
    (\<exists>wl'. dev_at spi p b bl (pending l0 {#}) wl' s')) s"
  using assms(3-)
proof (induction ts arbitrary: wl w s)
  case Nil
  then show ?case by (auto simp: wp_return)
next
  case (Cons t ts)
  have t: "transfer_ok spi bl t" "\<not> (tx_buf t = 0 \<and> rx_buf t = 0 \<and> t_len t \<noteq> 0)"
    using Cons.prems(1) by (auto simp: transfer_ok_def Let_def invalid_transfer_def)
  let ?P = "sum_list (map addresses ts)"
  let ?D = "\<lambda>P. dev_at spi p b bl (pending l0 P) (ucast (bits_of spi (Some t)))"
  have s: "dev_at spi p b bl (pending l0 (addresses t + ?P)) wl s" using Cons.prems(2) by simp
  have "wp (work_transfer e spi False t w) (\<lambda>r s'. \<not> snd r \<and> ?D ?P s' \<and> work_status (fst r) = 0 \<and>
      par_override (fst r) = overrides t \<and> actual_length (fst r) = actual_length w + t_len t) s"
  proof (rule wp_at_work_transfer [OF quiet_closed_pending s Cons.prems(3,4) t(2)])
    fix s' :: "'a mcspi_scheme" assume s': "?D (addresses t + ?P) s'"
    show "wp (do { (w, stop) \<leftarrow> work_bytes e spi False t (w\<lparr>par_override := overrides t, cs_active := True\<rparr>);
        (if stop then ret (w, True) else do { w \<leftarrow> work_finish e spi t w; ret (w, False) }) })
        (\<lambda>r s'. \<not> snd r \<and> ?D ?P s' \<and> work_status (fst r) = 0 \<and> par_override (fst r) = overrides t \<and>
          actual_length (fst r) = actual_length w + t_len t) s'"
      by (subst wp_bind, rule wp_mono [OF wp_at_bytes [OF assms(1) s' t(1) assms(2)]], simp, subst wp_bind,
          rule wp_mono [OF wp_at_finish [OF quiet_closed_pending]]) (auto simp: wp_return Cons.prems(3))
  qed
  then show ?case
    unfolding work_transfers.simps wp_bind
  proof (rule wp_mono)
    fix r :: "work \<times> bool" and s' :: "'a mcspi_scheme"
    assume r: "\<not> snd r \<and> ?D ?P s' \<and> work_status (fst r) = 0 \<and> par_override (fst r) = overrides t \<and>
      actual_length (fst r) = actual_length w + t_len t"
    have "par_override (fst r) \<or> ucast (bits_of spi (Some t)) = (ucast (sd_bits_per_word spi) :: u32)"
      using r by (auto simp: overrides_def bits_of_def)
    then have "wp (work_transfers e spi False ts (fst r)) (\<lambda>w' s'. work_status w' = 0 \<and>
        actual_length w' = actual_length (fst r) + sum_list (map t_len ts) \<and>
        (\<exists>wl'. dev_at spi p b bl (pending l0 {#}) wl' s')) s'"
      using r Cons.prems(1) by (intro Cons.IH) auto
    then show "wp (case r of (w, stop) \<Rightarrow> if stop then ret w else work_transfers e spi False ts w)
        (\<lambda>w' s'. work_status w' = 0 \<and> actual_length w' = actual_length w + sum_list (map t_len (t # ts)) \<and>
          (\<exists>wl'. dev_at spi p b bl (pending l0 {#}) wl' s')) s'"
      using r by (cases r) (simp add: ac_simps)
  qed
qed

text \<open>The end of a message.\<close>

lemma wp_at_work_end:
  assumes "quiet_closed b L" "dev_at spi p b bl L wl s"
  shows "wp (do {
      status \<leftarrow> (if par_override w then omap2_mcspi_setup_transfer e spi None else ret (work_status w));
      (if cs_active w then omap2_mcspi_force_cs e spi False else skip);
      omap2_mcspi_set_enable e spi False;
      ret (status, actual_length w) })
    (\<lambda>r s'. r = (if par_override w then 0 else work_status w, actual_length w) \<and> L (klog s')) s"
proof -
  have status: "wp (if par_override w then omap2_mcspi_setup_transfer e spi None else ret (work_status w))
      (\<lambda>r s'. r = (if par_override w then 0 else work_status w) \<and> (\<exists>wl. dev_at spi p b bl L wl s')) s"
    using assms(2) by (cases "par_override w")
      (auto simp: wp_return intro!: wp_mono [OF wp_at_setup_transfer [OF assms]])
  have close: "keeps (dev_at spi p b bl L wl) (if cs_active w then omap2_mcspi_force_cs e spi False else skip)" for wl
    by (intro keeps_if keeps_return keeps_at_force assms(1))
  show ?thesis
    by (subst wp_bind, rule wp_mono [OF status], elim conjE exE,
        rule wp_keeps_bind [OF close], assumption,
        rule wp_keeps_bind [OF keeps_at_enable [OF assms(1)]], assumption)
      (simp add: wp_return dev_at_def)
qed

lemma wp_at_work:
  fixes s :: "'a mcspi_scheme"
  assumes "always_ready e b" "sd_bits_per_word spi \<le> 32" "\<forall>t \<in> set (transfers m). transfer_ok spi bl t"
    and "\<not> is_dma_mapped m"
    and "dev_at spi p b bl (pending l0 (sum_list (map addresses (transfers m)))) (ucast (sd_bits_per_word spi)) s"
  shows "wp (omap2_mcspi_work e spi m) (\<lambda>r s'. r = (0, sum_list (map t_len (transfers m))) \<and>
    pending l0 {#} (klog s')) s"
proof -
  let ?w = "\<lparr>cs_active = False, par_override = False, work_status = 0, actual_length = 0\<rparr>"
  let ?D = "dev_at spi p b bl (pending l0 (sum_list (map addresses (transfers m)))) (ucast (sd_bits_per_word spi))"
  have transfers: "wp (work_transfers e spi (is_dma_mapped m) (transfers m) ?w) (\<lambda>w' s'. work_status w' = 0 \<and>
      actual_length w' = sum_list (map t_len (transfers m)) \<and> (\<exists>wl'. dev_at spi p b bl (pending l0 {#}) wl' s')) s'"
    if "?D s'" for s' :: "'a mcspi_scheme"
    using wp_at_transfers [OF assms(1-3) that, of ?w] assms(4) by simp
  show ?thesis
    unfolding omap2_mcspi_work_def
    by (rule wp_keeps_bind [OF keeps_at_enable [OF quiet_closed_pending] assms(5)], subst wp_bind,
        rule wp_mono [OF transfers], assumption, elim conjE exE,
        rule wp_mono [OF wp_at_work_end [OF quiet_closed_pending]], assumption) auto
qed

text \<open>The mappings that a message makes before its first transfer.\<close>

lemma pending_made:
  assumes "pending l0 P l"
  shows "pending l0 (add_mset d P) (l @ [(KDma (Dma_map_single q n x), r), (KDma (Dma_mapping_error d), 0)])"
proof -
  obtain k where "l = l0 @ k" "safe_log k" "dma_made k = dma_undone k + P"
    using assms by (auto simp: pending_def)
  then show ?thesis
    unfolding pending_def
    by (intro exI [of _ "k @ [(KDma (Dma_map_single q n x), r), (KDma (Dma_mapping_error d), 0)]"]) simp
qed

lemma dev_at_made:
  "dev_at spi p b bl (pending l0 P) wl s \<Longrightarrow> dev_at spi p b bl (pending l0 (add_mset d P)) wl
     (s\<lparr>klog := klog s @ [(KDma (Dma_map_single q n x), r), (KDma (Dma_mapping_error d), 0)]\<rparr>)"
  by (simp add: dev_at_def cs_pointer_def pending_made)

lemma wp_at_map:
  assumes "\<forall>l d. answer e l (KDma (Dma_mapping_error d)) = 0" "dev_at spi p b bl (pending l0 P) wl s"
    and "transfer_ok spi bl t"
  shows "wp (map_transfer e False t) (\<lambda>r s'. \<exists>t'. r = Some t' \<and> transfer_ok spi bl t' \<and> t_len t' = t_len t \<and>
    dev_at spi p b bl (pending l0 (addresses t' + P)) wl s') s"
proof (cases "t_len t < DMA_MIN_BYTES")
  case True
  then show ?thesis
    using assms by (simp add: map_transfer_def wp_return transfer_ok_def Let_def addresses_def)
next
  case False
  then have valid: "\<not> invalid_transfer t" using assms(3) by (simp add: transfer_ok_def Let_def)
  let ?D = "\<lambda>P. dev_at spi p b bl (pending l0 P) wl"
  have tx: "wp (map_tx e t) (\<lambda>r s'. \<exists>d. r = Some (t\<lparr>tx_dma := d\<rparr>) \<and> ?D ((if tx_buf t = 0 then {#} else {#d#}) + P) s') s"
    using assms(1,2)
    by (cases "tx_buf t = 0")
      (auto simp: map_tx_def wp_simps resp_def intro: dev_at_made exI [of _ "tx_dma t"])
  have rx: "wp (map_rx e t) (\<lambda>r s'. \<exists>d. r = Some (t\<lparr>rx_dma := d\<rparr>) \<and> ?D ((if rx_buf t = 0 then {#} else {#d#}) + P) s') s"
    if "?D P s" for P t s
    using assms(1) that
    by (cases "rx_buf t = 0")
      (auto simp: map_rx_def wp_simps resp_def intro: dev_at_made exI [of _ "rx_dma t"])
  have sum: "addresses (t\<lparr>tx_dma := d, rx_dma := d'\<rparr>) =
      (if rx_buf t = 0 then {#} else {#d'#}) + (if tx_buf t = 0 then {#} else {#d#})" for d d'
    using False by (simp add: addresses_def dma_addresses_def)
  have "wp (case r of None \<Rightarrow> ret None | Some t \<Rightarrow> map_rx e t) (\<lambda>r s'. \<exists>t'. r = Some t' \<and> transfer_ok spi bl t' \<and>
      t_len t' = t_len t \<and> ?D (addresses t' + P) s') s'"
    if mapped: "\<exists>d. r = Some (t\<lparr>tx_dma := d\<rparr>) \<and> ?D ((if tx_buf t = 0 then {#} else {#d#}) + P) s'" for r s'
  proof -
    obtain d where r: "r = Some (t\<lparr>tx_dma := d\<rparr>)" and "?D ((if tx_buf t = 0 then {#} else {#d#}) + P) s'"
      using mapped by blast
    from rx [OF this(2)] have "wp (map_rx e (t\<lparr>tx_dma := d\<rparr>)) (\<lambda>r s'. \<exists>t'. r = Some t' \<and> transfer_ok spi bl t' \<and>
        t_len t' = t_len t \<and> ?D (addresses t' + P) s') s'"
    proof (rule wp_mono, elim exE conjE)
      fix r s' d'
      assume "r = Some (t\<lparr>tx_dma := d\<rparr>\<lparr>rx_dma := d'\<rparr>)"
        "?D ((if rx_buf (t\<lparr>tx_dma := d\<rparr>) = 0 then {#} else {#d'#}) + ((if tx_buf t = 0 then {#} else {#d#}) + P)) s'"
      then show "\<exists>t'. r = Some t' \<and> transfer_ok spi bl t' \<and> t_len t' = t_len t \<and> ?D (addresses t' + P) s'"
        using assms(3) by (intro exI [of _ "t\<lparr>tx_dma := d, rx_dma := d'\<rparr>"]) (simp add: sum add.assoc)
    qed
    then show ?thesis by (simp add: r)
  qed
  from wp_mono [OF tx this] show ?thesis
    unfolding map_transfer_def using False valid by (simp add: wp_bind)
qed

lemma wp_at_maps:
  assumes "\<forall>l d. answer e l (KDma (Dma_mapping_error d)) = 0" "dev_at spi p b bl (pending l0 P) wl s"
    and "\<forall>t \<in> set ts. transfer_ok spi bl t"
  shows "wp (map_transfers e False ts) (\<lambda>r s'. \<exists>ts'. r = Some ts' \<and> (\<forall>t \<in> set ts'. transfer_ok spi bl t) \<and>
    map t_len ts' = map t_len ts \<and> dev_at spi p b bl (pending l0 (sum_list (map addresses ts') + P)) wl s') s"
  using assms(2,3)
proof (induction ts arbitrary: P s)
  case Nil
  then show ?case by (simp add: wp_return)
next
  case (Cons t ts)
  have t: "transfer_ok spi bl t" and ts: "\<forall>t \<in> set ts. transfer_ok spi bl t"
    using Cons.prems(2) by simp_all
  show ?case
    unfolding map_transfers.simps
    by (subst wp_bind, rule wp_mono [OF wp_at_map [OF assms(1) Cons.prems(1) t]], elim exE conjE)
      (auto simp: wp_bind wp_return intro!: wp_mono [OF Cons.IH [OF _ ts]] simp: ac_simps)
qed

lemma wp_map_transfers_pio:
  "\<forall>t \<in> set ts. \<not> invalid_transfer t \<and> t_len t < DMA_MIN_BYTES \<Longrightarrow>
     map_transfers e mapped ts = ret (Some ts)"
  by (induction ts) (simp_all add: map_transfer_def)

lemma wp_message_completes:
  fixes s :: "'a mcspi_scheme"
  assumes "always_ready e b" "\<forall>l d. answer e l (KDma (Dma_mapping_error d)) = 0" "sd_bits_per_word spi \<le> 32"
    and "\<forall>t \<in> set (transfers m). transfer_ok spi bl t" "\<not> is_dma_mapped m"
    and "dev_at spi p b bl (pending l0 {#}) (ucast (sd_bits_per_word spi)) s" "transfers m \<noteq> []"
  shows "wp (omap2_mcspi_transfer_one_message e spi m) (\<lambda>r s'. r = (0, 0, sum_list (map t_len (transfers m))) \<and>
    pending l0 {#} (klog s') \<and> fst (List.last (klog s')) = KPlat Finalize_current_message) s"
proof -
  have end_message: "wp (kdo e (KPlat Finalize_current_message)) (\<lambda>_ s'. pending l0 {#} (klog s') \<and>
      fst (List.last (klog s')) = KPlat Finalize_current_message) s'"
    if "pending l0 {#} (klog s')" for s' :: "'a mcspi_scheme"
    using pending_neutral [OF that] by (simp add: wp_kdo)
  have work: "wp (do { (status, n) \<leftarrow> omap2_mcspi_work e spi (m\<lparr>transfers := ts\<rparr>);
        kdo e (KPlat Finalize_current_message); ret (0, status, n) })
      (\<lambda>r s'. r = (0, 0, sum_list (map t_len (transfers m))) \<and> pending l0 {#} (klog s') \<and>
        fst (List.last (klog s')) = KPlat Finalize_current_message) s'"
    if "\<forall>t \<in> set ts. transfer_ok spi bl t" "map t_len ts = map t_len (transfers m)"
      "dev_at spi p b bl (pending l0 (sum_list (map addresses ts))) (ucast (sd_bits_per_word spi)) s'"
    for ts and s' :: "'a mcspi_scheme"
  proof (subst wp_bind, rule wp_mono [OF wp_at_work [OF assms(1,3)]])
    show "\<forall>t \<in> set (transfers (m\<lparr>transfers := ts\<rparr>)). transfer_ok spi bl t" using that(1) by simp
    show "\<not> is_dma_mapped (m\<lparr>transfers := ts\<rparr>)" using assms(5) by simp
    show "dev_at spi p b bl (pending l0 (sum_list (map addresses (transfers (m\<lparr>transfers := ts\<rparr>)))))
      (ucast (sd_bits_per_word spi)) s'" using that(3) by simp
  next
    fix r :: "u32 \<times> u32" and s'' :: "'a mcspi_scheme"
    assume r: "r = (0, sum_list (map t_len (transfers (m\<lparr>transfers := ts\<rparr>)))) \<and> pending l0 {#} (klog s'')"
    then show "wp (case r of (status, n) \<Rightarrow> do { kdo e (KPlat Finalize_current_message); ret (0, status, n) })
      (\<lambda>r s'. r = (0, 0, sum_list (map t_len (transfers m))) \<and> pending l0 {#} (klog s') \<and>
        fst (List.last (klog s')) = KPlat Finalize_current_message) s''"
      using that(2) wp_mono [OF end_message [OF conjunct2 [OF r]]]
      by (simp add: wp_bind wp_return)
  qed
  have "is_dma_mapped m = False" using assms(5) by simp
  then show ?thesis
    unfolding omap2_mcspi_transfer_one_message_def if_not_P [OF assms(7)]
    by (simp only:, subst wp_bind, intro wp_mono [OF wp_at_maps [OF assms(2,6,4)]]) (auto intro!: work)
qed

section \<open>A controller that is never ready\<close>

definition never_ready :: "kernel \<Rightarrow> u32 \<Rightarrow> bool" where
  "never_ready e base \<longleftrightarrow> (\<forall>l. \<forall>flag \<in> {OMAP2_MCSPI_CHSTAT_RXS, OMAP2_MCSPI_CHSTAT_TXS, OMAP2_MCSPI_CHSTAT_EOT}.
     answer e l (KReg (Readl (base + OMAP2_MCSPI_CHSTAT0))) AND flag = 0)"

lemma wp_wait_never:
  assumes "never_ready e b" "quiet_closed b L" "dev_at spi p b bl L wl s"
    and "flag \<in> {OMAP2_MCSPI_CHSTAT_RXS, OMAP2_MCSPI_CHSTAT_TXS, OMAP2_MCSPI_CHSTAT_EOT}"
  shows "wp (mcspi_wait_for_reg_bit e (b + OMAP2_MCSPI_CHSTAT0) flag) (\<lambda>r s'. r = - 1 \<and> dev_at spi p b bl L wl s') s"
proof -
  have zero: "answer e l (KReg (Readl (b + OMAP2_MCSPI_CHSTAT0))) AND flag = 0" for l
    using assms(1,4) by (auto simp: never_ready_def)
  have readl: "wp (raw_readl e (b + OMAP2_MCSPI_CHSTAT0)) (\<lambda>v s'. v AND flag = 0 \<and> dev_at spi p b bl L wl s') s"
    if "dev_at spi p b bl L wl s" for s
    unfolding raw_readl_def
    by (rule wp_conj [OF _ keepsD [OF keeps_at_call(1) [OF assms(2)] that]]) (simp_all add: wp_kcall resp_def zero)
  have "wp (poll_reg e (b + OMAP2_MCSPI_CHSTAT0) flag n) (\<lambda>r s'. r = - 1 \<and> dev_at spi p b bl L wl s') s"
    if "dev_at spi p b bl L wl s" for n s
    using that
  proof (induction n arbitrary: s)
    case 0
    then show ?case unfolding poll_reg.simps by (subst wp_bind) (rule wp_mono [OF readl], auto simp: wp_return)
  next
    case (Suc n)
    then show ?case unfolding poll_reg.simps by (subst wp_bind) (rule wp_mono [OF readl], auto)
  qed
  then show ?thesis
    unfolding mcspi_wait_for_reg_bit_def
    by (intro wp_keeps_bind [OF keeps_at_call(1) [OF assms(2)] assms(3)]) simp_all
qed

text \<open>A timeout at the first word: the number returned counts it.\<close>

lemma wp_turn_never:
  assumes "never_ready e b" "quiet_closed b L" "dev_at spi p b bl L wl s"
    and "pio_base x = b" "pio_tx x \<noteq> 0 \<or> pio_rx x \<noteq> 0"
  shows "wp (pio_turn e x c i) (\<lambda>r s'. r = Pio_out \<and> dev_at spi p b bl L wl s') s"
proof -
  note wait = wp_wait_never [OF assms(1-3)]
  show ?thesis
  proof (cases "pio_tx x = 0")
    case True
    then have rx: "pio_rx x \<noteq> 0" using assms(5) by simp
    have "wp (pio_read e x c i) (\<lambda>r s'. r = Pio_out \<and> dev_at spi p b bl L wl s') s"
      unfolding pio_read_def if_not_P [OF rx] pio_wait_rx_def assms(4)
      by (subst wp_bind) (rule wp_mono [OF wait], simp_all add: wp_return word_sless_alt)
    then show ?thesis using True by (simp add: pio_turn_def pio_write_def wp_bind wp_return)
  next
    case False
    then show ?thesis
      unfolding pio_turn_def pio_write_def if_not_P [OF False] assms(4)
      by (simp only: wp_bind) (rule wp_mono [OF wait], simp_all add: wp_return word_sless_alt)
  qed
qed

lemma wp_txrx_pio_never:
  assumes "never_ready e b" "quiet_closed b L" "dev_at spi p b bl L wl s"
    and "tx_buf t \<noteq> 0 \<or> rx_buf t \<noteq> 0" "wl \<le> 32" "drop_bit 3 wl \<le> t_len t"
  shows "wp (omap2_mcspi_txrx_pio e spi t)
    (\<lambda>n s'. n = word_of_nat (width (size_of_word wl)) \<and> dev_at spi p b bl L wl s') s"
proof -
  have at: "cs_pointer spi s = p" "blocks s p \<noteq> None" "cs_base (cs_heap s p) = b" "cs_word_len (cs_heap s p) = wl"
    using assms(3) by (simp_all add: dev_at_def)
  let ?x = "pio_of spi t s"
  have x: "pio_base ?x = b" "pio_tx ?x = tx_buf t" "pio_rx ?x = rx_buf t" "pio_size ?x = size_of_word wl"
    by (simp_all add: pio_of_def Let_def at)
  have loop: "wp (pio_loop e ?x c 0) (\<lambda>r s'. r = (True, c - word_of_nat (width (size_of_word wl))) \<and>
      dev_at spi p b bl L wl s') s" for c
    unfolding pio_loop.simps [of e ?x c 0] Let_def
    by (subst wp_bind, rule wp_mono [OF wp_turn_never [OF assms(1-3) x(1)]])
      (use assms(4) in \<open>simp_all add: x wp_return\<close>)
  show ?thesis
    by (rule txrx_pio_unfold; (simp only: at assms(5,6) not_False_eq_True)?)
      (rule wp_mono [OF loop], simp,
        rule wp_keeps_bind [OF keeps_at_enable [OF assms(2)]], simp, simp add: wp_return)
qed

text \<open>A message of one transfer, none of whose words is sent.\<close>

definition unsent :: "u32 \<Rightarrow> spi_transfer \<Rightarrow> u32 list \<Rightarrow> event list \<Rightarrow> bool" where
  "unsent b t ws l \<longleftrightarrow> (tx_buf t \<noteq> 0 \<longrightarrow> writes_at (b + OMAP2_MCSPI_TX0) l = ws)"

lemma quiet_closed_unsent: "quiet_closed b (unsent b t ws)"
  unfolding unsent_def [abs_def] by (rule quiet_closed_writes)

lemma wp_bytes_never:
  assumes "never_ready e b" "dev_at spi p b bl (unsent b t ws) wl s" "tx_buf t \<noteq> 0 \<or> rx_buf t \<noteq> 0"
    and "wl \<le> 32" "t_len t < DMA_MIN_BYTES" "word_of_nat (width (size_of_word wl)) \<le> t_len t"
  shows "wp (work_bytes e spi False t w) (\<lambda>r s'. dev_at spi p b bl (unsent b t ws) wl s' \<and>
    r = (let n = word_of_nat (width (size_of_word wl)); w = w\<lparr>actual_length := actual_length w + n\<rparr>
         in if n = t_len t then (w, False) else (w\<lparr>work_status := - EIO\<rparr>, True))) s"
proof -
  have some: "t_len t \<noteq> 0" using assms(6) width_word_pos [of "size_of_word wl"] by auto
  have short: "\<not> DMA_MIN_BYTES \<le> t_len t" using assms(5) by (simp add: not_le)
  have dummy: "wp (if tx_buf t = 0 then do { cs \<leftarrow> get_cs e spi; raw_writel e 0 (cs_base cs + OMAP2_MCSPI_TX0) }
      else skip) (\<lambda>_. dev_at spi p b bl (unsent b t ws) wl) s"
    using assms(2) by (auto simp: get_cs_def cs_at_def dev_at_def cs_pointer_def raw_writel_def wp_simps unsent_def)
  have "drop_bit 3 wl \<le> t_len t" using drop_bit_word_len [OF assms(4)] assms(6) by simp
  note pio = wp_txrx_pio_never [OF assms(1) quiet_closed_unsent _ assms(3,4) this]
  show ?thesis
    unfolding work_bytes_def if_not_P [OF some]
    by (subst wp_bind, rule wp_mono [OF dummy], simp add: short, subst wp_bind,
        rule wp_mono [OF pio], assumption) (auto simp: wp_return Let_def)
qed

lemma wp_work_never:
  fixes s :: "'a mcspi_scheme"
  defines "n t spi \<equiv> word_of_nat (width (size_of_word (ucast (bits_of spi (Some t))))) :: u32"
  assumes "never_ready e b" "dev_at spi p b bl (unsent b t ws) (ucast (sd_bits_per_word spi)) s"
    and "tx_buf t \<noteq> 0 \<or> rx_buf t \<noteq> 0" "ucast (bits_of spi (Some t)) \<le> (32 :: u32)"
    and "t_len t < DMA_MIN_BYTES" "n t spi \<le> t_len t"
  shows "wp (omap2_mcspi_work e spi \<lparr>transfers = [t], is_dma_mapped = False\<rparr>) (\<lambda>r s'.
    r = (if overrides t \<or> n t spi = t_len t then 0 else - EIO, n t spi) \<and> unsent b t ws (klog s')) s"
proof -
  let ?D = "dev_at spi p b bl (unsent b t ws) (ucast (bits_of spi (Some t)))"
  let ?w = "\<lparr>cs_active = False, par_override = False, work_status = 0, actual_length = 0\<rparr>"
  let ?R = "\<lambda>w s'. ?D s' \<and> par_override w = overrides t \<and> actual_length w = n t spi \<and>
    work_status w = (if n t spi = t_len t then 0 else - EIO)"
  have "wp (work_transfer e spi False t ?w) (\<lambda>r s'. ?R (fst r) s') s'"
    if "dev_at spi p b bl (unsent b t ws) (ucast (sd_bits_per_word spi)) s'" for s' :: "'a mcspi_scheme"
  proof (rule wp_at_work_transfer [OF quiet_closed_unsent that])
    fix s' :: "'a mcspi_scheme" assume s': "?D s'"
    have fin: "wp (do { w \<leftarrow> work_finish e spi t w; ret (w, False) }) (\<lambda>r s'. ?R (fst r) s') s'"
      if "?R w s'" for w and s' :: "'a mcspi_scheme"
      by (subst wp_bind, rule wp_mono [OF wp_at_finish [OF quiet_closed_unsent]]) (use that in \<open>auto simp: wp_return\<close>)
    show "wp (do { (w, stop) \<leftarrow> work_bytes e spi False t (?w\<lparr>par_override := overrides t, cs_active := True\<rparr>);
        (if stop then ret (w, True) else do { w \<leftarrow> work_finish e spi t w; ret (w, False) }) })
        (\<lambda>r s'. ?R (fst r) s') s'"
      by (subst wp_bind, rule wp_mono [OF wp_bytes_never [OF assms(2) s' assms(4,5,6) assms(7) [unfolded n_def]]])
        (cases "n t spi = t_len t"; use fin in \<open>auto simp: Let_def n_def [symmetric] wp_return\<close>)
  qed (use assms(4) in auto)
  then have "wp (work_transfers e spi False [t] ?w) ?R s'"
    if "dev_at spi p b bl (unsent b t ws) (ucast (sd_bits_per_word spi)) s'" for s' :: "'a mcspi_scheme"
    using that unfolding work_transfers.simps by (subst wp_bind) (rule wp_mono, blast, auto simp: wp_return)
  note transfers = this
  show ?thesis
    unfolding omap2_mcspi_work_def
    by (rule wp_keeps_bind [OF keeps_at_enable [OF quiet_closed_unsent] assms(3)], subst wp_bind, simp only: spi_message.simps,
        rule wp_mono [OF transfers], assumption, elim conjE,
        rule wp_mono [OF wp_at_work_end [OF quiet_closed_unsent]], assumption) auto
qed

section \<open>Rejected messages\<close>

text \<open>
  The buffers of a transfer that the driver maps, with their length and direction, and the calls that map
  them at the addresses \<open>ds\<close>.
\<close>

definition buffers_mapped :: "bool \<Rightarrow> spi_transfer \<Rightarrow> (u32 \<times> u32 \<times> bool) list" where
  "buffers_mapped mapped t = (if mapped \<or> t_len t < DMA_MIN_BYTES then []
     else (if tx_buf t = 0 then [] else [(tx_buf t, t_len t, False)]) @
          (if rx_buf t = 0 then [] else [(rx_buf t, t_len t, True)]))"

fun mapping_calls :: "(u32 \<times> u32 \<times> bool) list \<Rightarrow> u32 list \<Rightarrow> event list" where
  "mapping_calls ((p, n, r) # bs) (d # ds) =
     (KDma (Dma_map_single p n r), d) # (KDma (Dma_mapping_error d), 0) # mapping_calls bs ds"
| "mapping_calls bs ds = []"

lemma mapping_calls_append:
  "length bs = length ds \<Longrightarrow> mapping_calls (bs @ bs') (ds @ ds') = mapping_calls bs ds @ mapping_calls bs' ds'"
  by (induction bs ds rule: mapping_calls.induct) simp_all

text \<open>Mapping calls make each mapping, undo none and do not report the end of a message.\<close>

lemma mapping_calls_facts:
  assumes "length bs = length ds"
  shows "held_from e R (mapping_calls bs ds) = Dma_mapping ` set ds \<union> R"
    "dma_made (mapping_calls bs ds) = mset ds" "dma_undone (mapping_calls bs ds) = {#}"
    "KPlat Finalize_current_message \<notin> fst ` set (mapping_calls bs ds)"
  using assms
  by (induction bs ds arbitrary: R rule: mapping_calls.induct) (auto simp: held_step_def)

text \<open>\<open>s'\<close> differs from \<open>s\<close> in the calls that map the buffers \<open>bs\<close>.\<close>

definition mapped_in :: "(u32 \<times> u32 \<times> bool) list \<Rightarrow> 'a mcspi_scheme \<Rightarrow> 'a mcspi_scheme \<Rightarrow> bool" where
  "mapped_in bs s s' \<longleftrightarrow> (\<exists>ds. length bs = length ds \<and> s' = s\<lparr>klog := klog s @ mapping_calls bs ds\<rparr>)"

lemma mapped_in_trans:
  assumes "mapped_in bs s s'" "mapped_in bs' s' s''"
  shows "mapped_in (bs @ bs') s s''"
proof -
  obtain ds ds' where "length bs = length ds" "s' = s\<lparr>klog := klog s @ mapping_calls bs ds\<rparr>"
    "length bs' = length ds'" "s'' = s'\<lparr>klog := klog s' @ mapping_calls bs' ds'\<rparr>"
    using assms by (auto simp: mapped_in_def)
  then show ?thesis
    unfolding mapped_in_def by (intro exI [of _ "ds @ ds'"]) (simp add: mapping_calls_append)
qed

lemma wp_map_valid:
  assumes "\<forall>l d. answer e l (KDma (Dma_mapping_error d)) = 0" "\<not> invalid_transfer t"
  shows "wp (map_transfer e mapped t) (\<lambda>r s'. r \<noteq> None \<and> mapped_in (buffers_mapped mapped t) s s') s"
proof -
  have one: "mapped_in [(p, n, r)] s
      (s\<lparr>klog := klog s @ [(KDma (Dma_map_single p n r), d), (KDma (Dma_mapping_error d), 0)]\<rparr>)" for p n r d
    unfolding mapped_in_def by (rule exI [of _ "[d]"]) simp
  have two: "mapped_in [(p, n, r), (p', n', r')] s
      (s\<lparr>klog := klog s @ [(KDma (Dma_map_single p n r), d), (KDma (Dma_mapping_error d), 0),
         (KDma (Dma_map_single p' n' r'), d'), (KDma (Dma_mapping_error d'), 0)]\<rparr>)" for p n r d p' n' r' d'
    unfolding mapped_in_def by (rule exI [of _ "[d, d']"]) simp
  have none: "mapped_in [] s s" by (simp add: mapped_in_def)
  show ?thesis
    using assms one two none
    by (auto simp: map_transfer_def map_tx_def map_rx_def buffers_mapped_def wp_simps resp_def)
qed

lemma wp_map_until_invalid:
  assumes "\<forall>l d. answer e l (KDma (Dma_mapping_error d)) = 0" "invalid_transfer t'"
    and "\<forall>t \<in> set ts. \<not> invalid_transfer t"
  shows "wp (map_transfers e mapped (ts @ t' # ts'))
    (\<lambda>r s'. r = None \<and> mapped_in (concat (map (buffers_mapped mapped) ts)) s s') s"
  using assms(3)
proof (induction ts arbitrary: s)
  case Nil
  then show ?case using assms(2) by (simp add: map_transfer_def mapped_in_def wp_simps)
next
  case (Cons t ts)
  have t: "\<not> invalid_transfer t" and ts: "\<forall>t \<in> set ts. \<not> invalid_transfer t" using Cons.prems by simp_all
  show ?case
    by (simp only: append_Cons map_transfers.simps, subst wp_bind, rule wp_mono [OF wp_map_valid [OF assms(1) t]])
      (auto simp: wp_simps intro!: wp_mono [OF Cons.IH [OF ts]] elim: mapped_in_trans)
qed

text \<open>
  A mapping that was made for an earlier transfer stays when a later one is rejected, and nobody is told
  that the message is over.
\<close>

lemma wp_rejected_message:
  assumes "\<forall>l d. answer e l (KDma (Dma_mapping_error d)) = 0" "invalid_transfer t"
    and "transfers m = ts @ t # ts'" "\<forall>t \<in> set ts. \<not> invalid_transfer t"
  shows "wp (omap2_mcspi_transfer_one_message e spi m)
    (\<lambda>r s'. r = (- EINVAL, 0, 0) \<and> mapped_in (concat (map (buffers_mapped (is_dma_mapped m)) ts)) s s') s"
  unfolding omap2_mcspi_transfer_one_message_def assms(3)
  by (simp, subst wp_bind, rule wp_mono [OF wp_map_until_invalid [OF assms(1,2,4)]]) (auto simp: wp_return)

end
