(* ===== verification/Mcspi_Shadow.thy ===== *)
theory Mcspi_Shadow
  imports Mcspi_Bounds
begin

text \<open>
  The driver never reads a channel's configuration register: it keeps a copy, \<open>chconf0\<close>. What it
  relies on is proved here: whatever the device set-ups, messages, power losses and removals, the copy
  is what the register holds, and between messages no chip select is forced active.
\<close>

section \<open>Registers read off the log\<close>

text \<open>What was last written to a register since the event number \<open>n\<close>, when its content was lost.\<close>

definition reg32_step :: "u32 \<Rightarrow> u32 option \<Rightarrow> event \<Rightarrow> u32 option" where
  "reg32_step a x ev = (case fst ev of
     KReg r \<Rightarrow> (case r of Writel v b \<Rightarrow> if b = a then Some v else x | Readl b \<Rightarrow> x) | _ \<Rightarrow> x)"

definition reg32 :: "nat \<Rightarrow> event list \<Rightarrow> u32 \<Rightarrow> u32 option" where
  "reg32 n l a = foldl (reg32_step a) None (drop n l)"

lemma reg32_snoc: "n \<le> length l \<Longrightarrow> reg32 n (l @ [ev]) a = reg32_step a (reg32 n l a) ev"
  by (simp add: reg32_def)

text \<open>Calls that neither write a register nor release memory.\<close>

definition plain :: "kcall \<Rightarrow> bool" where
  "plain c \<longleftrightarrow> (\<forall>v a. c \<noteq> KReg (Writel v a)) \<and> (\<forall>p. c \<noteq> KMem (Kfree p))"

lemma plain_simps [simp]:
  "plain (KReg (Readl a))" "plain (KDma d)" "plain (KPlat p)" "plain (KSpi c)" "plain (UB u)"
  "plain (KMem (Kmalloc n))"
  by (simp_all add: plain_def)

lemma plain_step: "plain c \<Longrightarrow> reg32_step a x (c, r) = x"
  by (auto simp: plain_def reg32_step_def split: kcall.splits reg_call.splits)

lemma released_memory: "released ev = Some (Memory p) \<longleftrightarrow> fst ev = KMem (Kfree p)"
  by (cases ev; cases "fst ev") (auto split: io_call.splits gpiolib_call.splits irq_call.splits
      sched_call.splits timer_call.splits dev_call.splits mem_call.splits lock_call.splits
      spi_call.splits reg_call.splits dma_call.splits plat_call.splits)

lemma memory_held_step:
  assumes "Memory p \<in> held e l" "fst ev \<noteq> KMem (Kfree p)"
  shows "Memory p \<in> held e (l @ [ev])"
proof -
  have "released ev \<noteq> Some (Memory p)" using assms(2) by (simp add: released_memory)
  then show ?thesis using assms(1) by (auto simp: held_step_def split: option.splits)
qed

section \<open>Addresses\<close>

lemma cs_address_eq:
  assumes "c < 65536" "d < 65536" "x < 20" "y < 20"
  shows "(b :: u32) + 0x14 * word_of_nat c + (0x2C + word_of_nat x) =
      b + 0x14 * word_of_nat d + (0x2C + word_of_nat y) \<longleftrightarrow> c = d \<and> x = y"
proof -
  have "b + 0x14 * word_of_nat c + (0x2C + word_of_nat x) = b + 0x2C + word_of_nat (20 * c + x)"
    "b + 0x14 * word_of_nat d + (0x2C + word_of_nat y) = b + 0x2C + word_of_nat (20 * d + y)"
    by simp_all
  then have "?thesis \<longleftrightarrow> ((word_of_nat (20 * c + x) :: u32) = word_of_nat (20 * d + y) \<longleftrightarrow> c = d \<and> x = y)"
    by (simp only: add_left_cancel)
  moreover have "20 * c + x < 2 ^ 32" "20 * d + y < 2 ^ 32" using assms by simp_all
  then have "(word_of_nat (20 * c + x) :: u32) = word_of_nat (20 * d + y) \<longleftrightarrow> 20 * c + x = 20 * d + y"
    by (metis unat_word_of_nat_u32)
  moreover have "20 * c + x = 20 * d + y \<longleftrightarrow> c = d \<and> x = y" using assms(3,4) by presburger
  ultimately show ?thesis by blast
qed

section \<open>The invariant of the configured devices\<close>

text \<open>
  Every structure in the list is allocated, belongs to a chip select of its own, forces that chip select
  if it is the one in \<open>a\<close>, and holds what its register holds, unless it is still to be configured.
\<close>

definition entry_inv :: "kernel \<Rightarrow> nat \<Rightarrow> u32 option \<Rightarrow> 'a mcspi_scheme \<Rightarrow> u32 \<Rightarrow> bool" where
  "entry_inv e n a s p \<longleftrightarrow> (let cs = cs_heap s p in
     p \<noteq> 0 \<and> blocks s p \<noteq> None \<and> Memory p \<in> held e (klog s) \<and>
     (\<exists>c < 65536. cs_base cs = mcspi_base s + 0x14 * word_of_nat c) \<and>
     (bit (chconf0 cs) 20 \<longleftrightarrow> a = Some p) \<and>
     (chconf0 cs = 0 \<or> reg32 n (klog s) (cs_base cs + OMAP2_MCSPI_CHCONF0) = Some (chconf0 cs)))"

definition cs_inv :: "kernel \<Rightarrow> nat \<Rightarrow> u32 option \<Rightarrow> 'a mcspi_scheme \<Rightarrow> bool" where
  "cs_inv e n a s \<longleftrightarrow> n \<le> length (klog s) \<and> distinct (ctx_cs s) \<and>
     inj_on (\<lambda>p. cs_base (cs_heap s p)) (set (ctx_cs s)) \<and> (\<forall>p \<in> set (ctx_cs s). entry_inv e n a s p)"

lemma cs_inv_entry: "cs_inv e n a s \<Longrightarrow> p \<in> set (ctx_cs s) \<Longrightarrow> entry_inv e n a s p"
  by (simp add: cs_inv_def)

lemma cs_inv_length: "cs_inv e n a s \<Longrightarrow> n \<le> length (klog s)"
  by (simp add: cs_inv_def)

lemma entry_inv_slot: "entry_inv e n a s p \<Longrightarrow> \<exists>c < 65536. cs_base (cs_heap s p) = mcspi_base s + 0x14 * word_of_nat c"
  by (simp add: entry_inv_def Let_def)

lemma entry_inv_held: "entry_inv e n a s p \<Longrightarrow> Memory p \<in> held e (klog s)"
  by (simp add: entry_inv_def Let_def)

lemma cs_pointer_put [simp]:
  "cs_pointer spi (s\<lparr>klog := l\<rparr>) = cs_pointer spi s"
  "cs_pointer spi (s\<lparr>cs_heap := h\<rparr>) = cs_pointer spi s"
  by (simp_all add: cs_pointer_def)

lemma cs_register_eq:
  assumes "cs_inv e n a s" "p \<in> set (ctx_cs s)" "q \<in> set (ctx_cs s)" "x < 20"
  shows "cs_base (cs_heap s p) + (0x2C + word_of_nat x) = cs_base (cs_heap s q) + 0x2C \<longleftrightarrow> p = q \<and> x = 0"
proof -
  obtain c d where c: "c < 65536" "cs_base (cs_heap s p) = mcspi_base s + 0x14 * word_of_nat c"
    and d: "d < 65536" "cs_base (cs_heap s q) = mcspi_base s + 0x14 * word_of_nat d"
    using assms(1-3) by (meson cs_inv_entry entry_inv_slot)
  have "cs_base (cs_heap s p) + (0x2C + word_of_nat x) = cs_base (cs_heap s q) + 0x2C \<longleftrightarrow> c = d \<and> x = 0"
    using cs_address_eq [OF c(1) d(1) assms(4), of 0 "mcspi_base s"] unfolding c(2) d(2) by simp
  moreover have "p = q \<longleftrightarrow> c = d"
  proof
    assume "c = d"
    then have "cs_base (cs_heap s p) = cs_base (cs_heap s q)" using c(2) d(2) by simp
    then show "p = q" using assms(1-3) by (auto simp: cs_inv_def dest: inj_onD)
  next
    assume "p = q"
    then show "c = d" using cs_address_eq [OF c(1) d(1), of 0 0 "mcspi_base s"] c(2) d(2) by simp
  qed
  ultimately show ?thesis by blast
qed

text \<open>An event that neither releases a structure nor writes one of the registers.\<close>

lemma cs_inv_event:
  assumes "cs_inv e n a s" "\<forall>p. fst ev \<noteq> KMem (Kfree p)"
    and "\<And>p v. p \<in> set (ctx_cs s) \<Longrightarrow> fst ev \<noteq> KReg (Writel v (cs_base (cs_heap s p) + OMAP2_MCSPI_CHCONF0))"
  shows "cs_inv e n a (s\<lparr>klog := klog s @ [ev]\<rparr>)"
proof -
  have "reg32 n (klog s @ [ev]) (cs_base (cs_heap s p) + OMAP2_MCSPI_CHCONF0) =
      reg32 n (klog s) (cs_base (cs_heap s p) + OMAP2_MCSPI_CHCONF0)" if "p \<in> set (ctx_cs s)" for p
    using assms(1) assms(3) [OF that]
    by (auto simp: cs_inv_def reg32_snoc reg32_step_def split: kcall.splits reg_call.splits)
  moreover have "Memory p \<in> held e (klog s @ [ev])" if "p \<in> set (ctx_cs s)" for p
    using assms(1,2) that by (intro memory_held_step) (auto intro: entry_inv_held cs_inv_entry)
  ultimately show ?thesis
    using assms(1) by (simp add: cs_inv_def entry_inv_def Let_def del: held_from_simps)
qed

lemma cs_inv_plain:
  "cs_inv e n a s \<Longrightarrow> plain c \<Longrightarrow> cs_inv e n a (s\<lparr>klog := klog s @ [(c, r)]\<rparr>)"
  by (rule cs_inv_event) (auto simp: plain_def)

definition forced :: "bool \<Rightarrow> u32 \<Rightarrow> u32 option" where
  "forced on p = (if on then Some p else None)"

lemma forced_eq [simp]: "forced on p = Some q \<longleftrightarrow> on \<and> p = q" "forced False p = None"
  by (simp_all add: forced_def)

text \<open>What only the set-up and the clean-up of a device change.\<close>

definition layout :: "'a mcspi_scheme \<Rightarrow> (u32 \<Rightarrow> u32) \<times> u32 list \<times> u32 \<times> (u32 \<Rightarrow> u32)" where
  "layout s = (controller_state s, ctx_cs s, mcspi_base s, \<lambda>p. cs_base (cs_heap s p))"

lemma layout_put [simp]:
  "layout (s\<lparr>klog := l\<rparr>) = layout s" "layout (s\<lparr>ram := r\<rparr>) = layout s"
  "layout (s\<lparr>dma_table := d\<rparr>) = layout s"
  by (simp_all add: layout_def)

text \<open>A device that is set up, its base address and whether its chip select is forced.\<close>

definition dev_inv :: "kernel \<Rightarrow> nat \<Rightarrow> (u32 \<Rightarrow> u32) \<times> u32 list \<times> u32 \<times> (u32 \<Rightarrow> u32) \<Rightarrow>
    spi_device \<Rightarrow> u32 \<Rightarrow> bool \<Rightarrow> 'a mcspi_scheme \<Rightarrow> bool" where
  "dev_inv e n y spi b on s \<longleftrightarrow> cs_inv e n (forced on (cs_pointer spi s)) s \<and>
     cs_pointer spi s \<in> set (ctx_cs s) \<and> cs_base (cs_heap s (cs_pointer spi s)) = b \<and> layout s = y"

lemma dev_inv_put [simp]:
  "dev_inv e n y spi b on (s\<lparr>ram := r\<rparr>) = dev_inv e n y spi b on s"
  "dev_inv e n y spi b on (s\<lparr>dma_table := d\<rparr>) = dev_inv e n y spi b on s"
  by (simp_all add: dev_inv_def cs_inv_def entry_inv_def cs_pointer_def)

lemma dev_inv_plain:
  "dev_inv e n y spi b on s \<Longrightarrow> plain c \<Longrightarrow> dev_inv e n y spi b on (s\<lparr>klog := klog s @ [(c, r)]\<rparr>)"
  by (simp add: dev_inv_def cs_inv_plain)

lemma dev_inv_facts:
  assumes "dev_inv e n y spi b on s"
  shows "blocks s (cs_pointer spi s) \<noteq> None" "cs_base (cs_heap s (cs_pointer spi s)) = b"
    "bit (chconf0 (cs_heap s (cs_pointer spi s))) 20 = on"
  using assms by (auto simp: dev_inv_def cs_inv_def entry_inv_def Let_def)

lemma keeps_dev_call:
  "plain c \<Longrightarrow> keeps (dev_inv e n y spi b on) (kcall e' c)"
  "plain c \<Longrightarrow> keeps (dev_inv e n y spi b on) (kdo e' c)"
  by (auto intro!: keeps_kcall keeps_kdo dev_inv_plain)

text \<open>A write to another register of a channel.\<close>

lemma keeps_dev_writel:
  assumes "0 < x" "x < 20"
  shows "keeps (dev_inv e n y spi b on) (raw_writel e' v (b + (0x2C + word_of_nat x)))"
proof (rule keepsI)
  fix s :: "'a mcspi_scheme" assume s: "dev_inv e n y spi b on s"
  have "cs_inv e n (forced on (cs_pointer spi s))
      (s\<lparr>klog := klog s @ [(KReg (Writel v (b + (0x2C + word_of_nat x))), r)]\<rparr>)" for r
  proof (rule cs_inv_event)
    fix p w assume "p \<in> set (ctx_cs s)"
    then have "b + (0x2C + word_of_nat x) \<noteq> cs_base (cs_heap s p) + 0x2C"
      using cs_register_eq [of e n _ s "cs_pointer spi s" p x] s assms by (auto simp: dev_inv_def)
    then show "fst (KReg (Writel v (b + (0x2C + word_of_nat x))), r) \<noteq>
        KReg (Writel w (cs_base (cs_heap s p) + OMAP2_MCSPI_CHCONF0))" by auto
  qed (use s in \<open>auto simp: dev_inv_def\<close>)
  then show "wp (raw_writel e' v (b + (0x2C + word_of_nat x))) (\<lambda>_. dev_inv e n y spi b on) s"
    using s by (simp add: raw_writel_def wp_simps dev_inv_def)
qed

lemma keeps_dev_writes:
  "keeps (dev_inv e n y spi b on) (raw_writel e' v (b + OMAP2_MCSPI_TX0))"
  "keeps (dev_inv e n y spi b on) (raw_writel e' v (b + OMAP2_MCSPI_CHCTRL0))"
  using keeps_dev_writel [of 12] keeps_dev_writel [of 8] by simp_all

lemma keeps_dev_get_cs:
  assumes "\<And>cs. cs_base cs = b \<Longrightarrow> keeps (dev_inv e n y spi b on) (f cs)"
  shows "keeps (dev_inv e n y spi b on) (get_cs e' spi \<bind> f)"
proof (rule keepsI)
  fix s :: "'a mcspi_scheme" assume s: "dev_inv e n y spi b on s"
  show "wp (get_cs e' spi \<bind> f) (\<lambda>_. dev_inv e n y spi b on) s"
    using dev_inv_facts(1,2) [OF s] keepsD [OF assms s] by (simp add: get_cs_def cs_at_def wp_simps)
qed

lemma keeps_dev_cached:
  assumes "\<And>l. bit l 20 = on \<Longrightarrow> keeps (dev_inv e n y spi b on) (f l)"
  shows "keeps (dev_inv e n y spi b on) (mcspi_cached_chconf0 e' spi \<bind> f)"
proof (rule keepsI)
  fix s :: "'a mcspi_scheme" assume s: "dev_inv e n y spi b on s"
  show "wp (mcspi_cached_chconf0 e' spi \<bind> f) (\<lambda>_. dev_inv e n y spi b on) s"
    using dev_inv_facts [OF s] keepsD [OF assms s]
    by (simp add: mcspi_cached_chconf0_def get_cs_def cs_at_def wp_simps)
qed

text \<open>The one place that changes the copy changes the register with it.\<close>

lemma wp_write_chconf0:
  assumes "dev_inv e n y spi b on s"
  shows "wp (mcspi_write_chconf0 e' spi v) (\<lambda>_. dev_inv e n y spi b (bit v 20)) s"
proof -
  let ?p = "cs_pointer spi s"
  let ?s = "s\<lparr>cs_heap := (cs_heap s)(?p := cs_heap s ?p\<lparr>chconf0 := v\<rparr>)\<rparr>"
  note facts = dev_inv_facts [OF assms]
  have inv: "cs_inv e n (forced on ?p) s" "?p \<in> set (ctx_cs s)"
    using assms by (simp_all add: dev_inv_def)
  have reg: "reg32 n (klog s @ [(KReg (Writel v (b + OMAP2_MCSPI_CHCONF0)), r)])
      (cs_base (cs_heap s p) + OMAP2_MCSPI_CHCONF0) =
      (if p = ?p then Some v else reg32 n (klog s) (cs_base (cs_heap s p) + OMAP2_MCSPI_CHCONF0))"
    if "p \<in> set (ctx_cs s)" for p r
    using inv cs_register_eq [OF inv(1,2) that, of 0] facts(2)
    by (auto simp: cs_inv_length [OF inv(1)] reg32_snoc reg32_step_def)
  have mem: "Memory p \<in> held e (klog s @ [(KReg (Writel v (b + OMAP2_MCSPI_CHCONF0)), r)])"
    if "p \<in> set (ctx_cs s)" for p r
    using inv(1) that by (intro memory_held_step) (auto intro: entry_inv_held cs_inv_entry)
  have base: "(\<lambda>p. cs_base (cs_heap ?s p)) = (\<lambda>p. cs_base (cs_heap s p))" by auto
  have entry: "entry_inv e n (forced (bit v 20) ?p)
      (?s\<lparr>klog := klog s @ [(KReg (Writel v (b + OMAP2_MCSPI_CHCONF0)), r)]\<rparr>) p" if "p \<in> set (ctx_cs s)" for p r
    using cs_inv_entry [OF inv(1) that] reg [OF that] mem [OF that]
    by (cases "p = ?p") (simp_all add: entry_inv_def Let_def del: held_from_simps split: if_splits)
  have "cs_inv e n (forced (bit v 20) ?p)
      (?s\<lparr>klog := klog s @ [(KReg (Writel v (b + OMAP2_MCSPI_CHCONF0)), r)]\<rparr>)" for r
    using inv(1) entry unfolding cs_inv_def using base by simp
  then have "dev_inv e n y spi b (bit v 20) (?s\<lparr>klog := klog s @ [(KReg (Writel v (b + OMAP2_MCSPI_CHCONF0)), r)]\<rparr>)" for r
    using facts(2) inv(2) assms base by (simp add: dev_inv_def layout_def)
  from dev_inv_plain [OF this, of "KReg (Readl a)" for a] show ?thesis
    using facts
    by (simp add: mcspi_write_chconf0_def get_cs_def cs_at_def set_cs_def mcspi_write_cs_reg_def
        mcspi_read_cs_reg_def raw_writel_def raw_readl_def wp_simps)
qed

lemma keeps_dev_chconf:
  "bit v 20 = on \<Longrightarrow> keeps (dev_inv e n y spi b on) (mcspi_write_chconf0 e' spi v)"
  using wp_write_chconf0 by (fastforce intro: keepsI)

section \<open>Transfers keep it\<close>

lemma keeps_dev_word_len: "keeps (dev_inv e n y spi b on) (set_cs spi (\<lambda>cs. cs\<lparr>cs_word_len := w\<rparr>))"
proof (rule keepsI)
  fix s :: "'a mcspi_scheme"
  let ?h = "(cs_heap s)(cs_pointer spi s := cs_heap s (cs_pointer spi s)\<lparr>cs_word_len := w\<rparr>)"
  assume s: "dev_inv e n y spi b on s"
  have same: "cs_base (?h p) = cs_base (cs_heap s p)" "chconf0 (?h p) = chconf0 (cs_heap s p)" for p by auto
  have "(\<lambda>p. cs_base (?h p)) = (\<lambda>p. cs_base (cs_heap s p))" by auto
  then have "cs_inv e n a (s\<lparr>cs_heap := ?h\<rparr>) = cs_inv e n a s" for a
    by (simp add: cs_inv_def entry_inv_def Let_def same del: fun_upd_apply)
  moreover have "layout (s\<lparr>cs_heap := ?h\<rparr>) = layout s" by (auto simp: layout_def)
  ultimately show "wp (set_cs spi (\<lambda>cs. cs\<lparr>cs_word_len := w\<rparr>)) (\<lambda>_. dev_inv e n y spi b on) s"
    using s by (simp add: set_cs_def wp_simps dev_inv_def)
qed

lemma keeps_dev_set_dma: "keeps (dev_inv e n y spi b on) (set_dma spi' f)"
  unfolding set_dma_def by (rule keeps_wr) simp

lemma keeps_dev_ram: "(\<And>s. \<exists>r. f s = s\<lparr>ram := r\<rparr>) \<Longrightarrow> keeps (dev_inv e n y spi b on) (wr f)"
  by (rule keeps_wr) (metis dev_inv_put(1))

lemma keeps_case_prod: "(\<And>a b. x = (a, b) \<Longrightarrow> keeps I (f a b)) \<Longrightarrow> keeps I (case x of (a, b) \<Rightarrow> f a b)"
  by (cases x) simp

lemmas dev_rules = keeps_dev_get_cs keeps_dev_cached keeps_dev_call keeps_dev_writes keeps_dev_word_len
  keeps_dev_set_dma keeps_return keeps_rd keeps_if keeps_let keeps_case_prod keeps_bind plain_simps

lemma keeps_dev_mcspi_registers:
  "keeps (dev_inv e n y spi b on) (mcspi_read_cs_reg e' spi idx)"
  "keeps (dev_inv e n y spi b on) (omap2_mcspi_set_enable e' spi en)"
proof -
  have "keeps (dev_inv e n y spi b on) (do { cs \<leftarrow> get_cs e' spi; raw_readl e' (cs_base cs + idx) })" for idx
    unfolding raw_readl_def by (rule dev_rules)+
  then show read: "keeps (dev_inv e n y spi b on) (mcspi_read_cs_reg e' spi idx)" for idx
    unfolding mcspi_read_cs_reg_def .
  have "keeps (dev_inv e n y spi b on) (raw_writel e' v (cs_base cs + OMAP2_MCSPI_CHCTRL0))"
    if "cs_base cs = b" for cs v
    unfolding that by (rule keeps_dev_writes)
  then have "keeps (dev_inv e n y spi b on) (mcspi_write_cs_reg e' spi OMAP2_MCSPI_CHCTRL0 v)" for v
    unfolding mcspi_write_cs_reg_def by (intro keeps_dev_get_cs)
  then show "keeps (dev_inv e n y spi b on) (omap2_mcspi_set_enable e' spi en)"
    unfolding omap2_mcspi_set_enable_def by (intro keeps_bind read keeps_return)
qed

lemma keeps_dev_dma_req: "keeps (dev_inv e n y spi b on) (omap2_mcspi_set_dma_req e' spi r en)"
  unfolding omap2_mcspi_set_dma_req_def Let_def
  by (rule keeps_dev_cached, rule keeps_dev_chconf)
    (simp add: bit_MOD_REG_BIT OMAP2_MCSPI_CHCONF_DMAR_def OMAP2_MCSPI_CHCONF_DMAW_def)

lemma keeps_dev_memory:
  "keeps (dev_inv e n y spi b on) (load_word e' w p i)"
  "keeps (dev_inv e n y spi b on) (store_word e' w p i v)"
  "keeps (dev_inv e n y spi b on) (load e' p m)"
  "keeps (dev_inv e n y spi b on) (store e' p bs)"
  unfolding load_word_def store_word_def load_def store_def out_of_bounds_def
  by (rule keeps_dev_ram exI refl dev_rules)+

lemma keeps_dev_rx_bytes: "keeps (dev_inv e n y spi b on) (rx_bytes e' m)"
  by (induction m) (unfold rx_bytes.simps, (rule dev_rules | assumption)+)

lemma keeps_dev_poll: "keeps (dev_inv e n y spi b on) (poll_reg e' reg flag m)"
  by (induction m) (unfold poll_reg.simps raw_readl_def, (rule dev_rules | assumption)+)

lemma keeps_dev_wait: "keeps (dev_inv e n y spi b on) (mcspi_wait_for_reg_bit e' reg flag)"
  unfolding mcspi_wait_for_reg_bit_def by (rule keeps_dev_poll dev_rules)+

lemma keeps_dev_shifted_out: "keeps (dev_inv e n y spi b on) (wait_shifted_out e' reg)"
  unfolding wait_shifted_out_def by (rule keeps_dev_wait dev_rules)+

lemmas dev_parts = keeps_dev_mcspi_registers keeps_dev_dma_req keeps_dev_memory keeps_dev_rx_bytes
  keeps_dev_wait keeps_dev_shifted_out

lemma keeps_dev_turn:
  assumes "pio_base x = b" "pio_dev x = spi"
  shows "keeps (dev_inv e n y spi b on) (pio_turn e' x c i)"
  unfolding pio_turn_def pio_write_def pio_read_def pio_read_word_def pio_wait_rx_def raw_readl_def assms
  by (rule dev_parts dev_rules)+

lemma keeps_dev_loop:
  assumes "pio_base x = b" "pio_dev x = spi"
  shows "keeps (dev_inv e n y spi b on) (pio_loop e' x c i)"
  using assms
proof (induction e' x c i rule: pio_loop.induct)
  case (1 e' x c i)
  show ?case
    unfolding pio_loop.simps [of e' x c i] Let_def
    by (intro keeps_bind keeps_dev_turn [OF 1(2,3)]) (auto intro!: keeps_return 1 split: pio_next.split)
qed

lemma keeps_dev_txrx_pio: "keeps (dev_inv e n y spi b on) (omap2_mcspi_txrx_pio e' spi t)"
proof -
  have "keeps (dev_inv e n y spi b on) (pio_loop e' \<lparr>pio_dev = spi, pio_tx = tx, pio_rx = rx, pio_size = z,
      pio_conf = l, pio_base = cs_base cs\<rparr> c i)" if "cs_base cs = b" for cs tx rx z l c i
    by (rule keeps_dev_loop) (simp_all add: that)
  note loop = this
  show ?thesis
    unfolding omap2_mcspi_txrx_pio_def Let_def
    by (rule loop dev_parts dev_rules | assumption)+
qed

lemma keeps_dev_callbacks:
  "keeps (dev_inv e n y spi b on) (get_dma e' spi)"
  "keeps (dev_inv e n y spi b on) (omap2_mcspi_dma_rx_callback e' spi)"
  "keeps (dev_inv e n y spi b on) (omap2_mcspi_dma_tx_callback e' spi)"
proof -
  show get: "keeps (dev_inv e n y spi b on) (get_dma e' spi)"
    unfolding get_dma_def out_of_bounds_def by (rule dev_rules)+
  show "keeps (dev_inv e n y spi b on) (omap2_mcspi_dma_rx_callback e' spi)"
    "keeps (dev_inv e n y spi b on) (omap2_mcspi_dma_tx_callback e' spi)"
    unfolding omap2_mcspi_dma_rx_callback_def omap2_mcspi_dma_tx_callback_def
    by (rule get dev_parts dev_rules)+
qed

lemma keeps_dev_txrx_dma: "keeps (dev_inv e n y spi b on) (omap2_mcspi_txrx_dma e' spi t)"
  unfolding omap2_mcspi_txrx_dma_def dma_setup_tx_def dma_setup_rx_def dma_start_def dma_rx_finish_def
    dma_rx_rest_def wait_for_dma_tx_def wait_for_dma_rx_def dma_rx_arrives_def receive_def Let_def
  by (rule keeps_dev_callbacks dev_parts dev_rules)+

section \<open>Messages keep it\<close>

lemma bit_chconf_for_force:
  assumes "word_len \<noteq> 0" "d \<le> 15"
  shows "bit (chconf_for l word_len d mode) 20 = bit l 20"
proof -
  have "1 \<le> (ucast word_len :: u32)"
    using assms(1) by (simp add: word_le_nat_alt unat_ucast_u8 Suc_le_eq unat_gt_0)
  then have "unat (ucast word_len - 1 :: u32) = unat word_len - 1"
    by (subst unat_sub) (simp_all add: word_le_nat_alt unat_ucast_u8)
  moreover have "unat word_len < 2 ^ 8" using unsigned_less [of word_len] by simp
  ultimately have "\<not> bit (ucast word_len - 1 :: u32) 13" by (intro bit_small_word [of _ 8]) simp_all
  moreover have "\<not> bit (word_of_nat d :: u32) 18"
    using assms(2) by (intro bit_small_word [of _ 4]) (simp_all add: unat_word_of_nat_u32)
  ultimately show ?thesis
    by (simp add: chconf_for_def Let_def OMAP2_MCSPI_CHCONF_PHA_def OMAP2_MCSPI_CHCONF_POL_def
        OMAP2_MCSPI_CHCONF_EPOL_def bit_MOD_REG_BIT OMAP2_MCSPI_CHCONF_IS_def
        OMAP2_MCSPI_CHCONF_DPE0_def OMAP2_MCSPI_CHCONF_DPE1_def bit_or_iff bit_and_iff bit_not_iff
        bit_masks bit_push_bit_iff)
qed

lemma keeps_dev_setup_transfer:
  assumes "sd_bits_per_word spi \<noteq> 0"
  shows "keeps (dev_inv e n y spi b on) (omap2_mcspi_setup_transfer e' spi t)"
proof -
  have "(case t of None \<Rightarrow> sd_bits_per_word spi
      | Some t \<Rightarrow> if t_bits_per_word t \<noteq> 0 then t_bits_per_word t else sd_bits_per_word spi) \<noteq> 0"
    using assms by (simp split: option.split)
  note force = bit_chconf_for_force [OF this calc_divisor_le]
  show ?thesis
    unfolding omap2_mcspi_setup_transfer_def Let_def
    by (rule dev_rules keeps_dev_chconf | simp only: force)+
qed

lemma wp_dev_force:
  "dev_inv e n y spi b on s \<Longrightarrow> wp (omap2_mcspi_force_cs e' spi act) (\<lambda>_. dev_inv e n y spi b act) s"
  using dev_inv_facts [of e n y spi b on s]
    wp_mono [OF wp_write_chconf0 [of e n y spi b on s e' "MOD_REG_BIT (chconf0 (cs_heap s (cs_pointer spi s))) OMAP2_MCSPI_CHCONF_FORCE act"]]
  by (simp add: omap2_mcspi_force_cs_def mcspi_cached_chconf0_def get_cs_def cs_at_def wp_simps
      bit_MOD_REG_BIT OMAP2_MCSPI_CHCONF_FORCE_def)

lemma bit_chconf_direction: "bit (chconf_direction c spi w t) 20 = bit c 20"
  by (simp add: chconf_direction_def Let_def OMAP2_MCSPI_CHCONF_TURBO_def OMAP2_MCSPI_CHCONF_TRM_RX_ONLY_def
      OMAP2_MCSPI_CHCONF_TRM_TX_ONLY_def bit_or_iff bit_and_iff bit_not_iff bit_masks)

lemma keeps_dev_direction: "keeps (dev_inv e n y spi b on) (work_direction e' spi t)"
  unfolding work_direction_def
  by (rule keeps_dev_cached keeps_dev_get_cs keeps_dev_chconf | simp only: bit_chconf_direction)+

text \<open>The chip select is forced exactly while the driver's variable \<open>cs_active\<close> says so.\<close>

lemma wp_dev_work_transfer:
  assumes "sd_bits_per_word spi \<noteq> 0" "dev_inv e n y spi b (cs_active w) s"
  shows "wp (work_transfer e' spi mapped t w) (\<lambda>r. dev_inv e n y spi b (cs_active (fst r))) s"
proof -
  have override: "wp (work_override e' spi t w) (\<lambda>w'. dev_inv e n y spi b (cs_active w')) s"
    unfolding work_override_def wp_if wp_bind wp_return
    by (intro conjI impI wp_mono [OF keepsD [OF keeps_dev_setup_transfer [OF assms(1)] assms(2)]])
      (use assms(2) in simp_all)
  have activate: "wp (work_activate e' spi w) (\<lambda>w'. dev_inv e n y spi b (cs_active w')) s"
    if "dev_inv e n y spi b (cs_active w) s" for w s
    unfolding work_activate_def wp_if wp_bind wp_return
    by (intro conjI impI wp_mono [OF wp_dev_force [OF that]]) (use that in simp_all)
  have finish: "wp (work_finish e' spi t w) (\<lambda>w'. dev_inv e n y spi b (cs_active w')) s"
    if "dev_inv e n y spi b (cs_active w) s" for w s
  proof -
    have last_step: "wp (if cs_change t then do { omap2_mcspi_force_cs e' spi False; ret (w\<lparr>cs_active := False\<rparr>) }
        else ret w) (\<lambda>w'. dev_inv e n y spi b (cs_active w')) s" if "dev_inv e n y spi b (cs_active w) s" for s
      unfolding wp_if wp_bind wp_return
      by (intro conjI impI wp_mono [OF wp_dev_force [OF that]]) (use that in simp_all)
    show ?thesis
      unfolding work_finish_def
    proof (rule wp_keeps_bind [where I = "dev_inv e n y spi b (cs_active w)", OF _ that])
      show "keeps (dev_inv e n y spi b (cs_active w))
          (if delay_usecs t \<noteq> 0 then kdo e' (KPlat (Udelay (delay_usecs t))) else skip)"
        by (rule dev_rules)+
    qed (rule last_step)
  qed
  have finish_ret: "wp (work_finish e' spi t w) (\<lambda>w'. wp (ret (w', False))
      (\<lambda>r. dev_inv e n y spi b (cs_active (fst r)))) s" if "dev_inv e n y spi b (cs_active w) s" for w s
    by (rule wp_mono [OF finish [OF that]]) (simp add: wp_return)
  have bytes: "wp (work_bytes e' spi mapped t w) (\<lambda>r. dev_inv e n y spi b (cs_active (fst r))) s"
    if "dev_inv e n y spi b (cs_active w) s" for w s
  proof -
    have dummy: "keeps (dev_inv e n y spi b on) (do { cs \<leftarrow> get_cs e' spi; raw_writel e' 0 (cs_base cs + OMAP2_MCSPI_TX0) })" for on
    proof (rule keeps_dev_get_cs)
      show "keeps (dev_inv e n y spi b on) (raw_writel e' 0 (cs_base cs + OMAP2_MCSPI_TX0))" if "cs_base cs = b" for cs
        unfolding that by (rule keeps_dev_writes)
    qed
    show ?thesis
      unfolding work_bytes_def Let_def
      by (intro wp_ifI, simp add: wp_return that,
          intro wp_keeps_bind [where I = "dev_inv e n y spi b (cs_active w)"] that keeps_if dummy keeps_return keeps_dev_txrx_pio keeps_dev_txrx_dma)
        (auto simp: wp_return)
  qed
  show ?thesis
    unfolding work_transfer_def wp_bind
    by (intro wp_ifI, simp add: wp_return assms(2), subst wp_bind, rule wp_mono [OF override], intro wp_ifI,
        simp add: wp_return, subst wp_bind, rule wp_mono [OF activate], assumption,
        rule wp_keeps_bind [OF keeps_dev_direction], assumption, subst wp_bind,
        rule wp_mono [OF bytes], assumption)
      (auto simp: wp_simps intro: finish_ret)
qed

lemma wp_dev_work_transfers:
  assumes "sd_bits_per_word spi \<noteq> 0" "dev_inv e n y spi b (cs_active w) s"
  shows "wp (work_transfers e' spi mapped ts w) (\<lambda>w'. dev_inv e n y spi b (cs_active w')) s"
  using assms(2)
proof (induction ts arbitrary: w s)
  case (Cons t ts)
  show ?case
    unfolding work_transfers.simps wp_bind
    by (rule wp_mono [OF wp_dev_work_transfer [OF assms(1) Cons.prems]]) (auto simp: wp_return Cons.IH)
qed (simp add: wp_return)

lemma keeps_dev_work:
  assumes "sd_bits_per_word spi \<noteq> 0"
  shows "keeps (dev_inv e n y spi b False) (omap2_mcspi_work e' spi m)"
proof (rule keepsI)
  fix s :: "'a mcspi_scheme"
  assume start: "dev_inv e n y spi b False s"
  have loop: "wp (work_transfers e' spi (is_dma_mapped m) (transfers m)
      \<lparr>cs_active = False, par_override = False, work_status = 0, actual_length = 0\<rparr>)
      (\<lambda>w'. dev_inv e n y spi b (cs_active w')) s" if "dev_inv e n y spi b False s" for s :: "'a mcspi_scheme"
    by (rule wp_dev_work_transfers [OF assms]) (use that in simp)
  have restore: "wp (do {
      status \<leftarrow> (if par_override w then omap2_mcspi_setup_transfer e' spi None else ret (work_status w));
      (if cs_active w then omap2_mcspi_force_cs e' spi False else skip);
      omap2_mcspi_set_enable e' spi False;
      ret (status, actual_length w) }) (\<lambda>_. dev_inv e n y spi b False) s"
    if "dev_inv e n y spi b (cs_active w) s" for w and s :: "'a mcspi_scheme"
  proof (rule wp_keeps_bind [where I = "dev_inv e n y spi b (cs_active w)", OF _ that])
    show "keeps (dev_inv e n y spi b (cs_active w))
        (if par_override w then omap2_mcspi_setup_transfer e' spi None else ret (work_status w))"
      by (intro keeps_if keeps_return keeps_dev_setup_transfer assms)
  next
    fix status :: u32 and s :: "'a mcspi_scheme"
    assume s: "dev_inv e n y spi b (cs_active w) s"
    have "wp (if cs_active w then omap2_mcspi_force_cs e' spi False else skip) (\<lambda>_. dev_inv e n y spi b False) s"
      using s wp_dev_force [OF s, of e' False] by (cases "cs_active w") (simp_all add: wp_return)
    then show "wp (do { (if cs_active w then omap2_mcspi_force_cs e' spi False else skip);
        omap2_mcspi_set_enable e' spi False; ret (status, actual_length w) }) (\<lambda>_. dev_inv e n y spi b False) s"
      by (subst wp_bind) (erule wp_mono, intro wp_keeps_bind [OF keeps_dev_mcspi_registers(2)], simp_all add: wp_return)
  qed
  show "wp (omap2_mcspi_work e' spi m) (\<lambda>_. dev_inv e n y spi b False) s"
    unfolding omap2_mcspi_work_def
    by (intro wp_keeps_bind [OF keeps_dev_mcspi_registers(2) start])
      (subst wp_bind, rule wp_mono [OF loop], assumption, rule restore)
qed

lemma keeps_dev_map_transfers: "keeps (dev_inv e n y spi b on) (map_transfers e' mapped ts)"
proof (induction ts)
  case (Cons t ts)
  show ?case
    unfolding map_transfers.simps map_transfer_def map_tx_def map_rx_def
    by (rule Cons dev_rules keeps_case_option)+
qed (simp add: keeps_return)

lemma keeps_dev_message:
  "sd_bits_per_word spi \<noteq> 0 \<Longrightarrow>
     keeps (dev_inv e n y spi b False) (omap2_mcspi_transfer_one_message e' spi m)"
  unfolding omap2_mcspi_transfer_one_message_def
  by (rule keeps_dev_map_transfers keeps_dev_work dev_rules keeps_case_option | assumption)+

end
