(* ===== verification/Mcspi_Machine.thy ===== *)
theory Mcspi_Machine
  imports Mcspi_Shadow
begin

text \<open>
  The controller driver while it is inserted: devices are set up, exchange messages and are cleaned up,
  the controller loses its power and gets it back, in any order. The SPI core gives every device an
  address and a chip select of its own and sends messages only to devices that are set up.
\<close>

section \<open>The machine\<close>

text \<open>\<open>mc_lost\<close> is where in the log power was last lost, \<open>mc_gone\<close> the devices that were cleaned up.\<close>

record mcspi_machine =
  mc_drv :: mcspi
  mc_lost :: nat
  mc_gone :: "u32 set"

datatype mcspi_event =
    Mc_setup spi_device | Mc_message spi_device spi_message | Mc_cleanup spi_device
  | Mc_prepare | Mc_unprepare | Mc_power_cycle | Mc_resume

definition mc_after :: "(mcspi, 'r) state \<Rightarrow> mcspi_machine \<Rightarrow> mcspi_machine" where
  "mc_after f m = m\<lparr>mc_drv := snd (run_state f (mc_drv m))\<rparr>"

definition mc_known :: "spi_device list \<Rightarrow> spi_device \<Rightarrow> mcspi_machine \<Rightarrow> bool" where
  "mc_known devs spi m \<longleftrightarrow> spi \<in> set devs \<and> sd_addr spi \<notin> mc_gone m"

definition mcspi_exec ::
    "kernel \<Rightarrow> spi_device list \<Rightarrow> mcspi_event \<Rightarrow> mcspi_machine \<Rightarrow> mcspi_machine option" where
  "mcspi_exec e devs ev m = (case ev of
     Mc_setup spi \<Rightarrow>
       (if mc_known devs spi m then Some (mc_after (omap2_mcspi_setup e spi) m) else None)
   | Mc_message spi msg \<Rightarrow>
       (if mc_known devs spi m \<and> cs_pointer spi (mc_drv m) \<noteq> 0
        then Some (mc_after (omap2_mcspi_transfer_one_message e spi msg) m) else None)
   | Mc_cleanup spi \<Rightarrow>
       (if mc_known devs spi m
        then Some ((mc_after (omap2_mcspi_cleanup e spi) m)\<lparr>mc_gone := insert (sd_addr spi) (mc_gone m)\<rparr>)
        else None)
   | Mc_prepare \<Rightarrow> Some (mc_after (omap2_prepare_transfer e) m)
   | Mc_unprepare \<Rightarrow> Some (mc_after (omap2_unprepare_transfer e) m)
   | Mc_power_cycle \<Rightarrow>
       Some (mc_after (omap_mcspi_runtime_resume e) (m\<lparr>mc_lost := length (klog (mc_drv m))\<rparr>))
   | Mc_resume \<Rightarrow> Some (mc_after (omap2_mcspi_resume e) m))"

definition mcspi_step ::
    "kernel \<Rightarrow> spi_device list \<Rightarrow> mcspi_machine \<Rightarrow> mcspi_event \<Rightarrow> mcspi_machine \<Rightarrow> bool" where
  "mcspi_step e devs m ev m' \<longleftrightarrow> mcspi_exec e devs ev m = Some m'"

text \<open>After the controller has been probed.\<close>

definition mcspi_start :: "spi_device list \<Rightarrow> mcspi_machine \<Rightarrow> bool" where
  "mcspi_start devs m \<longleftrightarrow> ctx_cs (mc_drv m) = [] \<and> (\<forall>spi \<in> set devs. cs_pointer spi (mc_drv m) = 0) \<and>
     mc_lost m \<le> length (klog (mc_drv m)) \<and> mc_gone m = {}"

abbreviation mcspi_reachable :: "kernel \<Rightarrow> spi_device list \<Rightarrow> mcspi_machine \<Rightarrow> bool" where
  "mcspi_reachable e devs \<equiv> reach (mcspi_start devs) (mcspi_step e devs)"

text \<open>What the SPI core and the allocator guarantee.\<close>

definition separate_devices :: "spi_device list \<Rightarrow> bool" where
  "separate_devices devs \<longleftrightarrow> inj_on sd_addr (set devs) \<and> inj_on chip_select (set devs) \<and>
     (\<forall>spi \<in> set devs. chip_select spi < 65536)"

definition allocates_fresh :: "kernel \<Rightarrow> bool" where
  "allocates_fresh e \<longleftrightarrow> (\<forall>l n. Memory (answer e l (KMem (Kmalloc n))) \<notin> held e l)"

section \<open>Its invariant\<close>

text \<open>Every structure belongs to a device that is not gone, and every such device's to its chip select.\<close>

definition cs_owned :: "spi_device list \<Rightarrow> u32 set \<Rightarrow> 'a mcspi_scheme \<Rightarrow> bool" where
  "cs_owned devs gone s \<longleftrightarrow>
     (\<forall>spi \<in> set devs. sd_addr spi \<notin> gone \<and> cs_pointer spi s \<noteq> 0 \<longrightarrow> cs_pointer spi s \<in> set (ctx_cs s) \<and>
        cs_base (cs_heap s (cs_pointer spi s)) = mcspi_base s + 0x14 * word_of_nat (chip_select spi) \<and>
        4 \<le> sd_bits_per_word spi) \<and>
     (\<forall>p \<in> set (ctx_cs s). \<exists>spi \<in> set devs. sd_addr spi \<notin> gone \<and> cs_pointer spi s = p)"

lemma cs_owned_layout:
  assumes "layout s' = layout s"
  shows "cs_owned devs gone s' = cs_owned devs gone s"
proof -
  have "\<And>p. cs_base (cs_heap s' p) = cs_base (cs_heap s p)"
    using assms by (simp add: layout_def fun_eq_iff)
  then show ?thesis using assms by (simp add: cs_owned_def cs_pointer_def layout_def)
qed

definition mc_inv :: "kernel \<Rightarrow> spi_device list \<Rightarrow> nat \<Rightarrow> u32 set \<Rightarrow> 'a mcspi_scheme \<Rightarrow> bool" where
  "mc_inv e devs n gone s \<longleftrightarrow> cs_inv e n None s \<and> cs_owned devs gone s"

lemma mc_inv_dev:
  assumes "mc_inv e devs n gone s" "spi \<in> set devs" "sd_addr spi \<notin> gone" "cs_pointer spi s \<noteq> 0"
  shows "dev_inv e n (layout s) spi (mcspi_base s + 0x14 * word_of_nat (chip_select spi)) False s"
    "sd_bits_per_word spi \<noteq> 0"
  using assms by (auto simp: mc_inv_def cs_owned_def dev_inv_def)

lemma dev_inv_mc:
  "dev_inv e n (layout s) spi b False s' \<Longrightarrow> cs_owned devs gone s \<Longrightarrow> mc_inv e devs n gone s'"
  using cs_owned_layout [of s' s] by (simp add: mc_inv_def dev_inv_def)

lemma wp_mc_dev:
  assumes "\<And>y b. keeps (dev_inv e n y spi b False) f" "mc_inv e devs n gone s"
    and "spi \<in> set devs" "sd_addr spi \<notin> gone" "cs_pointer spi s \<noteq> 0"
  shows "wp f (\<lambda>_. mc_inv e devs n gone) s"
  by (rule wp_mono [OF keepsD [OF assms(1) mc_inv_dev(1) [OF assms(2-5)]]])
    (rule dev_inv_mc, assumption, use assms(2) in \<open>simp add: mc_inv_def\<close>)

text \<open>Steps that leave the structures alone.\<close>

definition still :: "kernel \<Rightarrow> nat \<Rightarrow> (u32 \<Rightarrow> u32) \<times> u32 list \<times> u32 \<times> (u32 \<Rightarrow> u32) \<Rightarrow> 'a mcspi_scheme \<Rightarrow> bool" where
  "still e n y s \<longleftrightarrow> cs_inv e n None s \<and> layout s = y"

lemma keeps_still_call:
  "plain c \<Longrightarrow> keeps (still e n y) (kcall e' c)" "plain c \<Longrightarrow> keeps (still e n y) (kdo e' c)"
  by (auto intro!: keeps_kcall keeps_kdo simp: still_def cs_inv_plain)

lemma keeps_still_set_dma: "keeps (still e n y) (set_dma spi f)"
  unfolding set_dma_def by (rule keeps_wr) (simp add: still_def cs_inv_def entry_inv_def)

lemmas still_rules = keeps_still_call keeps_still_set_dma keeps_return keeps_rd keeps_if keeps_let
  keeps_bind plain_simps

lemma wp_mc_still:
  assumes "\<And>y. keeps (still e n y) f" "mc_inv e devs n gone s"
  shows "wp f (\<lambda>_. mc_inv e devs n gone) s"
proof -
  have "still e n (layout s) s" using assms(2) by (simp add: still_def mc_inv_def)
  from keepsD [OF assms(1) this] show ?thesis
    by (rule wp_mono) (use assms(2) cs_owned_layout in \<open>auto simp: still_def mc_inv_def\<close>)
qed

lemma keeps_still_clocks:
  "keeps (still e n y) (omap2_mcspi_enable_clocks e')" "keeps (still e n y) (omap2_mcspi_disable_clocks e')"
  "keeps (still e n y) (omap2_prepare_transfer e')" "keeps (still e n y) (omap2_unprepare_transfer e')"
  unfolding omap2_mcspi_enable_clocks_def omap2_mcspi_disable_clocks_def omap2_prepare_transfer_def
    omap2_unprepare_transfer_def
  by (rule still_rules)+

lemma keeps_still_dma:
  "keeps (still e n y) (get_dma e' spi)" "keeps (still e n y) (setup_dma e' spi)"
  "keeps (still e n y) (free_channels e' spi)"
proof -
  show get: "keeps (still e n y) (get_dma e' spi)"
    unfolding get_dma_def out_of_bounds_def by (rule still_rules)+
  show "keeps (still e n y) (setup_dma e' spi)" "keeps (still e n y) (free_channels e' spi)"
    unfolding setup_dma_def omap2_mcspi_request_dma_def free_channels_def by (rule get still_rules)+
qed

section \<open>Setting up\<close>

lemma keeps_dev_setup_rest:
  assumes "sd_bits_per_word spi \<noteq> 0"
  shows "keeps (dev_inv e n y spi b False) (do {
     r \<leftarrow> setup_dma e' spi;
     (if r <s 0 then ret r
      else do {
        r \<leftarrow> omap2_mcspi_enable_clocks e';
        (if r <s 0 then ret r
         else do {
           r \<leftarrow> omap2_mcspi_setup_transfer e' spi None;
           omap2_mcspi_disable_clocks e';
           ret r }) }) })"
  unfolding setup_dma_def omap2_mcspi_request_dma_def omap2_mcspi_enable_clocks_def
    omap2_mcspi_disable_clocks_def
  by (rule keeps_dev_callbacks(1) keeps_dev_setup_transfer [OF assms] dev_rules)+

lemma cs_slot_eq:
  "c < 65536 \<Longrightarrow> d < 65536 \<Longrightarrow> (b :: u32) + 0x14 * word_of_nat c = b + 0x14 * word_of_nat d \<longleftrightarrow> c = d"
  using cs_address_eq [of c d 0 0 b] by simp

text \<open>A new structure \<open>cs\<close> at \<open>p\<close> joins the list: what \<open>new_cs\<close> does to the state.\<close>

definition joins :: "spi_device \<Rightarrow> u32 \<Rightarrow> omap2_mcspi_cs \<Rightarrow> 'a mcspi_scheme \<Rightarrow> 'a mcspi_scheme \<Rightarrow> bool" where
  "joins spi p cs s s' \<longleftrightarrow> (\<exists>k m. klog s' = klog s @ [(KMem (Kmalloc k), p)] \<and>
     blocks s' = (blocks s)(p := Some m)) \<and> cs_heap s' = (cs_heap s)(p := cs) \<and>
     controller_state s' = (controller_state s)(sd_addr spi := p) \<and> ctx_cs s' = ctx_cs s @ [p] \<and>
     mcspi_base s' = mcspi_base s \<and>
     cs_base cs = mcspi_base s + 0x14 * word_of_nat (chip_select spi) \<and> chconf0 cs = 0"

lemma cs_inv_joins:
  assumes "cs_inv e n None s" "joins spi p cs s s'" "p \<noteq> 0" "p \<notin> set (ctx_cs s)" "chip_select spi < 65536"
    and other: "\<And>q. q \<in> set (ctx_cs s) \<Longrightarrow> cs_base (cs_heap s q) \<noteq> cs_base cs"
  shows "cs_inv e n None s'"
proof -
  obtain k m where s': "klog s' = klog s @ [(KMem (Kmalloc k), p)]" "blocks s' = (blocks s)(p := Some m)"
      "cs_heap s' = (cs_heap s)(p := cs)" "ctx_cs s' = ctx_cs s @ [p]" "mcspi_base s' = mcspi_base s"
    and cs: "cs_base cs = mcspi_base s + 0x14 * word_of_nat (chip_select spi)" "chconf0 cs = 0"
    using assms(2) by (auto simp: joins_def)
  have old: "entry_inv e n None s' q" if "q \<in> set (ctx_cs s)" for q
  proof -
    have "Memory q \<in> held e (klog s')"
      unfolding s'(1) using cs_inv_entry [OF assms(1) that]
      by (intro memory_held_step) (simp_all add: entry_inv_held)
    moreover have "q \<noteq> p" using that assms(4) by blast
    ultimately show ?thesis
      using cs_inv_entry [OF assms(1) that] cs_inv_length [OF assms(1)]
      by (simp add: entry_inv_def Let_def s' reg32_snoc reg32_step_def del: held_from_simps)
  qed
  have new: "entry_inv e n None s' p"
    using assms(3,5) cs by (auto simp: entry_inv_def Let_def s' held_step_def)
  have "inj_on (\<lambda>q. cs_base (cs_heap s' q)) (set (ctx_cs s)) = inj_on (\<lambda>q. cs_base (cs_heap s q)) (set (ctx_cs s))"
    using assms(4) by (intro inj_on_cong) (auto simp: s')
  moreover have "cs_base (cs_heap s' p) \<notin> (\<lambda>q. cs_base (cs_heap s' q)) ` (set (ctx_cs s) - {p})"
  proof
    assume "cs_base (cs_heap s' p) \<in> (\<lambda>q. cs_base (cs_heap s' q)) ` (set (ctx_cs s) - {p})"
    then obtain q where "q \<in> set (ctx_cs s)" "cs_base cs = cs_base (cs_heap s q)" by (auto simp: s')
    then show False using other [of q] by simp
  qed
  ultimately have "inj_on (\<lambda>q. cs_base (cs_heap s' q)) (set (ctx_cs s'))"
    using assms(1) by (simp add: s'(4) inj_on_insert cs_inv_def)
  then show ?thesis
    using assms(1,4) old new by (simp add: cs_inv_def s'(1,4) ball_Un)
qed

lemma cs_owned_joins:
  assumes "cs_owned devs gone s" "0 \<notin> set (ctx_cs s)" "joins spi p cs s s'" "p \<notin> set (ctx_cs s)"
    and "separate_devices devs" "spi \<in> set devs" "sd_addr spi \<notin> gone" "cs_pointer spi s = 0"
    and "4 \<le> sd_bits_per_word spi"
  shows "cs_owned devs gone s'"
proof -
  have s': "cs_heap s' = (cs_heap s)(p := cs)" "ctx_cs s' = ctx_cs s @ [p]" "mcspi_base s' = mcspi_base s"
    and ptr: "cs_pointer spi s' = p" using assms(3) by (auto simp: joins_def cs_pointer_def)
  have others: "cs_pointer x s' = cs_pointer x s" if "x \<in> set devs" "x \<noteq> spi" for x
    using that assms(3,5,6) by (auto simp: separate_devices_def cs_pointer_def joins_def dest: inj_onD)
  have "cs_pointer x s' \<in> set (ctx_cs s') \<and>
      cs_base (cs_heap s' (cs_pointer x s')) = mcspi_base s' + 0x14 * word_of_nat (chip_select x) \<and>
      4 \<le> sd_bits_per_word x" if "x \<in> set devs" "sd_addr x \<notin> gone" "cs_pointer x s' \<noteq> 0" for x
  proof (cases "x = spi")
    case True
    then show ?thesis using ptr assms(3,9) by (simp add: s' joins_def)
  next
    case False
    have "cs_pointer x s \<in> set (ctx_cs s)" "cs_pointer x s \<noteq> p"
      using assms(1,4) that others [OF that(1) False] by (auto simp: cs_owned_def)
    then show ?thesis using assms(1) that others [OF that(1) False] by (auto simp: cs_owned_def s')
  qed
  moreover have "\<exists>x \<in> set devs. sd_addr x \<notin> gone \<and> cs_pointer x s' = q" if "q \<in> set (ctx_cs s)" for q
  proof -
    obtain x where x: "x \<in> set devs" "sd_addr x \<notin> gone" "cs_pointer x s = q"
      using assms(1) \<open>q \<in> set (ctx_cs s)\<close> by (auto simp: cs_owned_def)
    moreover have "x \<noteq> spi" using x(3) \<open>q \<in> set (ctx_cs s)\<close> assms(2,8) by auto
    ultimately show ?thesis using others by auto
  qed
  ultimately show ?thesis using ptr assms(6,7) by (auto simp: cs_owned_def s'(2))
qed

lemma mc_inv_joins:
  assumes "mc_inv e devs n gone s" "separate_devices devs" "spi \<in> set devs" "sd_addr spi \<notin> gone"
    and "cs_pointer spi s = 0" "4 \<le> sd_bits_per_word spi" "p \<noteq> 0" "Memory p \<notin> held e (klog s)"
    and "joins spi p cs s s'"
  shows "mc_inv e devs n gone s'"
proof -
  have inv: "cs_inv e n None s" and own: "cs_owned devs gone s" using assms(1) by (simp_all add: mc_inv_def)
  have p: "p \<notin> set (ctx_cs s)" using assms(8) inv by (blast dest: cs_inv_entry entry_inv_held)
  have nz: "q \<noteq> 0" if "q \<in> set (ctx_cs s)" for q
    using cs_inv_entry [OF inv that] by (simp add: entry_inv_def Let_def)
  have other: "cs_base (cs_heap s q) \<noteq> cs_base cs" if q: "q \<in> set (ctx_cs s)" for q
  proof -
    obtain x where x: "x \<in> set devs" "sd_addr x \<notin> gone" "cs_pointer x s = q"
      using own q by (auto simp: cs_owned_def)
    then have "cs_base (cs_heap s q) = mcspi_base s + 0x14 * word_of_nat (chip_select x)" "x \<noteq> spi"
      using own assms(5) nz [OF q] by (auto simp: cs_owned_def)
    then show ?thesis
      using assms(2,3,9) x(1) cs_slot_eq [of "chip_select x" "chip_select spi" "mcspi_base s"]
      by (auto simp: separate_devices_def joins_def dest: inj_onD)
  qed
  have "chip_select spi < 65536" using assms(2,3) by (simp add: separate_devices_def)
  then have "cs_inv e n None s'" using cs_inv_joins [OF inv assms(9,7) p _ other] by blast
  moreover have "cs_owned devs gone s'"
    using cs_owned_joins [OF own _ assms(9) p assms(2-6)] nz by blast
  ultimately show ?thesis by (simp add: mc_inv_def)
qed

lemma mc_inv_plain: "mc_inv e devs n gone s \<Longrightarrow> plain c \<Longrightarrow> mc_inv e devs n gone (s\<lparr>klog := klog s @ [(c, r)]\<rparr>)"
  using cs_owned_layout [of "s\<lparr>klog := klog s @ [(c, r)]\<rparr>" s] by (simp add: mc_inv_def cs_inv_plain)

lemma wp_new_cs:
  assumes "mc_inv e devs n gone s" "separate_devices devs" "allocates_fresh e" "spi \<in> set devs"
    and "sd_addr spi \<notin> gone" "cs_pointer spi s = 0" "4 \<le> sd_bits_per_word spi"
  shows "wp (new_cs e spi) (\<lambda>r s'. mc_inv e devs n gone s' \<and> (\<not> r <s 0 \<longrightarrow> cs_pointer spi s' \<noteq> 0)) s"
proof -
  have fresh: "Memory p \<notin> held e (klog s)" if "resp e (klog s) (KMem (Kmalloc k)) p" for k p
    using assms(3) that by (simp add: allocates_fresh_def resp_def)
  let ?off = "0x14 * word_of_nat (chip_select spi)"
  let ?cs = "\<lparr>cs_base = mcspi_base s + ?off, cs_phys = mcspi_phys s + ?off, cs_word_len = 0, chconf0 = 0\<rparr>"
  have "mc_inv e devs n gone (s\<lparr>klog := klog s @ [(KMem (Kmalloc k), p)], blocks := (blocks s)(p := Some m),
      cs_heap := (cs_heap s)(p := ?cs), controller_state := (controller_state s)(sd_addr spi := p),
      ctx_cs := ctx_cs s @ [p]\<rparr>)" if "resp e (klog s) (KMem (Kmalloc k)) p" "p \<noteq> 0" for k m p
    by (rule mc_inv_joins [OF assms(1,2,4-7) that(2) fresh [OF that(1)], of ?cs]) (auto simp: joins_def)
  then show ?thesis
    unfolding new_cs_def kmalloc_def SIZEOF_CS_def Let_def
    using mc_inv_plain [OF assms(1)]
    by (simp add: wp_simps cs_pointer_def word_sless_alt)
qed

lemma wp_mc_setup:
  assumes "mc_inv e devs n gone s" "separate_devices devs" "allocates_fresh e" "spi \<in> set devs" "sd_addr spi \<notin> gone"
  shows "wp (omap2_mcspi_setup e spi) (\<lambda>_. mc_inv e devs n gone) s"
proof (cases "sd_bits_per_word spi < 4 \<or> 32 < sd_bits_per_word spi")
  case True
  then show ?thesis using assms(1) by (simp add: omap2_mcspi_setup_def wp_return)
next
  case False
  then have bits: "4 \<le> sd_bits_per_word spi" "sd_bits_per_word spi \<noteq> 0" by auto
  note rest = wp_mc_dev [OF keeps_dev_setup_rest [OF bits(2)] _ assms(4,5)]
  have "wp (if cs_pointer spi s = 0 then new_cs e spi else ret 0)
      (\<lambda>r s'. mc_inv e devs n gone s' \<and> (\<not> r <s 0 \<longrightarrow> cs_pointer spi s' \<noteq> 0)) s"
    using wp_new_cs [OF assms _ bits(1)] assms(1) by (simp add: wp_return)
  then show ?thesis
    unfolding omap2_mcspi_setup_def if_not_P [OF False]
    by (subst wp_bind, subst wp_rd, subst wp_bind, rule wp_mono) (auto simp: wp_return intro: rest)
qed

section \<open>Cleaning up\<close>

lemma cs_inv_leaves:
  assumes "cs_inv e n None s" "p \<in> set (ctx_cs s)"
  shows "cs_inv e n None (s\<lparr>ctx_cs := remove1 p (ctx_cs s), klog := klog s @ [(KMem (Kfree p), r)],
    blocks := (blocks s)(p := None)\<rparr>)" (is "cs_inv e n None ?s")
proof -
  have dist: "distinct (ctx_cs s)" using assms(1) by (simp add: cs_inv_def)
  then have set: "set (remove1 p (ctx_cs s)) = set (ctx_cs s) - {p}" by (rule set_remove1_eq)
  have "entry_inv e n None ?s q" if q: "q \<in> set (ctx_cs s)" "q \<noteq> p" for q
  proof -
    have "Memory q \<in> held e (klog s @ [(KMem (Kfree p), r)])"
      using cs_inv_entry [OF assms(1) q(1)] q(2) by (intro memory_held_step) (simp_all add: entry_inv_held)
    then show ?thesis
      using cs_inv_entry [OF assms(1) q(1)] cs_inv_length [OF assms(1)] q(2)
      by (simp add: entry_inv_def Let_def reg32_snoc reg32_step_def del: held_from_simps)
  qed
  then show ?thesis
    using assms(1) dist set by (auto simp: cs_inv_def intro: inj_on_subset)
qed

lemma wp_mc_free_cs:
  assumes "mc_inv e devs n gone s" "separate_devices devs" "spi \<in> set devs" "sd_addr spi \<notin> gone"
  shows "wp (free_cs e' spi) (\<lambda>_. mc_inv e devs n (insert (sd_addr spi) gone)) s"
proof (cases "cs_pointer spi s = 0")
  case True
  have "cs_owned devs (insert (sd_addr spi) gone) s"
    unfolding cs_owned_def
  proof (intro conjI ballI impI)
    fix q assume q: "q \<in> set (ctx_cs s)"
    then obtain x where "x \<in> set devs" "sd_addr x \<notin> gone" "cs_pointer x s = q"
      using assms(1) by (auto simp: mc_inv_def cs_owned_def)
    moreover have "q \<noteq> 0" using assms(1) cs_inv_entry [of e n None s q] q by (auto simp: mc_inv_def entry_inv_def Let_def)
    ultimately show "\<exists>x \<in> set devs. sd_addr x \<notin> insert (sd_addr spi) gone \<and> cs_pointer x s = q"
      using True assms(2,3) by (metis inj_onD insert_iff separate_devices_def)
  qed (use assms(1) in \<open>auto simp: mc_inv_def cs_owned_def\<close>)
  then show ?thesis using True assms(1) by (simp add: free_cs_def wp_simps mc_inv_def)
next
  case False
  let ?p = "cs_pointer spi s"
  have own: "cs_owned devs gone s" and inv: "cs_inv e n None s" using assms(1) by (simp_all add: mc_inv_def)
  have p: "?p \<in> set (ctx_cs s)" using own assms(3,4) False by (auto simp: cs_owned_def)
  have live: "blocks s ?p \<noteq> None" using cs_inv_entry [OF inv p] by (simp add: entry_inv_def Let_def)
  have apart: "cs_pointer x s \<noteq> ?p" if "x \<in> set devs" "sd_addr x \<notin> insert (sd_addr spi) gone" for x
  proof
    assume eq: "cs_pointer x s = ?p"
    have base: "cs_base (cs_heap s (cs_pointer y s)) = mcspi_base s + 0x14 * word_of_nat (chip_select y)"
      if "y \<in> set devs" "sd_addr y \<notin> gone" "cs_pointer y s \<noteq> 0" for y
      using own that by (simp add: cs_owned_def)
    have "mcspi_base s + 0x14 * word_of_nat (chip_select x) = mcspi_base s + 0x14 * word_of_nat (chip_select spi)"
      using base [of x] base [of spi] eq that assms(3,4) False by simp
    then have "chip_select x = chip_select spi"
      using cs_slot_eq assms(2,3) that(1) by (auto simp: separate_devices_def)
    then have "x = spi" using assms(2,3) that(1) by (auto simp: separate_devices_def dest: inj_onD)
    then show False using that(2) by simp
  qed
  have "distinct (ctx_cs s)" using inv by (simp add: cs_inv_def)
  then have set: "set (remove1 ?p (ctx_cs s)) = set (ctx_cs s) - {?p}" by (rule set_remove1_eq)
  have owners: "\<exists>x \<in> set devs. sd_addr x \<notin> insert (sd_addr spi) gone \<and> cs_pointer x s = q"
    if q: "q \<in> set (ctx_cs s) - {?p}" for q
  proof -
    obtain x where "x \<in> set devs" "sd_addr x \<notin> gone" "cs_pointer x s = q"
      using own q by (auto simp: cs_owned_def)
    then show ?thesis using q assms(2,3) by (metis Diff_iff inj_onD insert_iff separate_devices_def)
  qed
  have "cs_owned devs (insert (sd_addr spi) gone) (s\<lparr>ctx_cs := remove1 ?p (ctx_cs s),
      klog := klog s @ [(KMem (Kfree ?p), r)], blocks := (blocks s)(?p := None)\<rparr>)" (is "cs_owned _ _ ?s") for r
  proof -
    have "cs_pointer x ?s = cs_pointer x s" for x by (simp add: cs_pointer_def)
    then show ?thesis using own apart owners unfolding cs_owned_def by (simp add: set)
  qed
  then show ?thesis
    using False live cs_inv_leaves [OF inv p]
    by (auto simp: free_cs_def kfree_def wp_simps mc_inv_def)
qed

lemma wp_mc_cleanup:
  assumes "mc_inv e devs n gone s" "separate_devices devs" "spi \<in> set devs" "sd_addr spi \<notin> gone"
  shows "wp (omap2_mcspi_cleanup e' spi) (\<lambda>_. mc_inv e devs n (insert (sd_addr spi) gone)) s"
proof -
  have "keeps (still e n y) (do { m \<leftarrow> rd num_chipselect;
      if chip_select spi < unat m then free_channels e' spi else skip })" for y
    by (rule keeps_still_dma still_rules)+
  from wp_mc_still [OF this] show ?thesis
    unfolding omap2_mcspi_cleanup_def by (subst wp_bind) (rule wp_mono [OF wp_mc_free_cs [OF assms]])
qed

section \<open>Power\<close>

text \<open>
  When power comes back every register is unknown. The loop over the list writes the copies back; those
  of the entries in \<open>ps\<close> are still to come.
\<close>

definition restoring :: "'a mcspi_scheme \<Rightarrow> u32 list \<Rightarrow> 'a mcspi_scheme \<Rightarrow> bool" where
  "restoring s0 ps s \<longleftrightarrow> (\<exists>l. s = s0\<lparr>klog := klog s0 @ l\<rparr> \<and> (\<forall>ev \<in> set l. \<exists>v a. fst ev = KReg (Writel v a)) \<and>
     set ps \<subseteq> set (ctx_cs s0) \<and>
     (\<forall>p \<in> set (ctx_cs s0) - set ps. reg32 (length (klog s0)) (klog s0 @ l)
        (cs_base (cs_heap s0 p) + OMAP2_MCSPI_CHCONF0) = Some (chconf0 (cs_heap s0 p))))"

lemma memory_held_writes:
  "\<forall>ev \<in> set l. \<exists>v a. fst ev = KReg (Writel v a) \<Longrightarrow> Memory p \<in> held e l' \<Longrightarrow> Memory p \<in> held e (l' @ l)"
proof (induction l arbitrary: l')
  case (Cons ev l)
  then have "Memory p \<in> held e (l' @ [ev])" by (intro memory_held_step) auto
  then show ?case using Cons.IH [of "l' @ [ev]"] Cons.prems(1) by simp
qed simp

lemma restoring_step:
  assumes "cs_inv e n a s0" "restoring s0 (p # ps) s"
  shows "wp (restore_cs e' p) (\<lambda>_. restoring s0 ps) s"
proof -
  obtain l where s: "s = s0\<lparr>klog := klog s0 @ l\<rparr>" and p: "p \<in> set (ctx_cs s0)" "set ps \<subseteq> set (ctx_cs s0)"
    and l: "\<forall>ev \<in> set l. \<exists>v a. fst ev = KReg (Writel v a)"
    and regs: "\<And>q. q \<in> set (ctx_cs s0) - set (p # ps) \<Longrightarrow> reg32 (length (klog s0)) (klog s0 @ l)
        (cs_base (cs_heap s0 q) + OMAP2_MCSPI_CHCONF0) = Some (chconf0 (cs_heap s0 q))"
    using assms(2) by (auto simp: restoring_def)
  have live: "blocks s0 p \<noteq> None" using cs_inv_entry [OF assms(1) p(1)] by (simp add: entry_inv_def Let_def)
  let ?ev = "\<lambda>r. (KReg (Writel (chconf0 (cs_heap s0 p)) (cs_base (cs_heap s0 p) + OMAP2_MCSPI_CHCONF0)), r)"
  have "reg32 (length (klog s0)) ((klog s0 @ l) @ [?ev r]) (cs_base (cs_heap s0 q) + OMAP2_MCSPI_CHCONF0) =
      Some (chconf0 (cs_heap s0 q))" if "q \<in> set (ctx_cs s0) - set ps" for q r
    using regs [of q] that cs_register_eq [OF assms(1) p(1), of q 0]
    by (subst reg32_snoc) (auto simp: reg32_step_def)
  then have "restoring s0 ps (s\<lparr>klog := klog s @ [?ev r]\<rparr>)" for r
    unfolding restoring_def s using l p by (intro exI [of _ "l @ [?ev r]"]) auto
  then show ?thesis
    using live by (simp add: s restore_cs_def cs_at_def raw_writel_def wp_simps)
qed

lemma wp_mc_power_cycle:
  assumes "mc_inv e devs n gone s"
  shows "wp (omap_mcspi_runtime_resume e') (\<lambda>_. mc_inv e devs (length (klog s)) gone) s"
proof -
  have inv: "cs_inv e n None s" using assms by (simp add: mc_inv_def)
  have start: "restoring s (ctx_cs s) (s\<lparr>klog := klog s @ [(KReg (Writel v a), r), (KReg (Writel v' a'), r')]\<rparr>)"
    for v a r v' a' r'
    unfolding restoring_def by (rule exI [of _ "[(KReg (Writel v a), r), (KReg (Writel v' a'), r')]"]) simp
  have finish: "mc_inv e devs (length (klog s)) gone s'" if fin: "restoring s [] s'" for s'
  proof -
    obtain l where s': "s' = s\<lparr>klog := klog s @ l\<rparr>" and l: "\<forall>ev \<in> set l. \<exists>v a. fst ev = KReg (Writel v a)"
      and regs: "\<forall>p \<in> set (ctx_cs s). reg32 (length (klog s)) (klog s @ l)
        (cs_base (cs_heap s p) + OMAP2_MCSPI_CHCONF0) = Some (chconf0 (cs_heap s p))"
      using fin by (auto simp: restoring_def)
    have "entry_inv e (length (klog s)) None s' p" if "p \<in> set (ctx_cs s)" for p
      using cs_inv_entry [OF inv that] memory_held_writes [OF l, of p e "klog s"] regs that
      by (simp add: s' entry_inv_def Let_def del: held_from_simps)
    then have "cs_inv e (length (klog s)) None s'" using inv by (simp add: cs_inv_def s')
    moreover have "cs_owned devs gone s'" using assms cs_owned_layout [of s' s] by (simp add: mc_inv_def s')
    ultimately show ?thesis by (simp add: mc_inv_def)
  qed
  have loop: "wp (do_each (ctx_cs s) (restore_cs e')) (\<lambda>_. restoring s []) s'" if "restoring s (ctx_cs s) s'" for s'
    by (rule wp_do_each [of "restoring s", OF that restoring_step [OF inv]]) assumption
  show ?thesis
    unfolding omap_mcspi_runtime_resume_def omap2_mcspi_restore_ctx_def mcspi_write_reg_def raw_writel_def
    by (simp add: wp_simps) (intro allI impI wp_mono [OF loop] start, simp add: wp_return finish)
qed

text \<open>After a sleep the chip selects are switched on and off; the copies stay as they were.\<close>

lemma force_off:
  "\<not> bit v 20 \<Longrightarrow> MOD_REG_BIT (MOD_REG_BIT v OMAP2_MCSPI_CHCONF_FORCE True) OMAP2_MCSPI_CHCONF_FORCE False = v"
  by (intro bit_eqI) (auto simp: OMAP2_MCSPI_CHCONF_FORCE_def bit_MOD_REG_BIT)

lemma keeps_still_resume_cs:
  assumes "p \<in> set (fst (snd y))"
  shows "keeps (still e n y) (resume_cs e' p)"
proof (rule keepsI)
  fix s :: "'a mcspi_scheme" assume s: "still e n y s"
  have inv: "cs_inv e n None s" and p: "p \<in> set (ctx_cs s)" and y: "layout s = y"
    using s assms by (auto simp: still_def layout_def)
  let ?v = "chconf0 (cs_heap s p)" and ?a = "cs_base (cs_heap s p) + OMAP2_MCSPI_CHCONF0"
  let ?on = "MOD_REG_BIT ?v OMAP2_MCSPI_CHCONF_FORCE True"
  have entry: "blocks s p \<noteq> None" "\<not> bit ?v 20"
    using cs_inv_entry [OF inv p] by (auto simp: entry_inv_def Let_def)
  note off = force_off [OF entry(2)]
  have "still e n y (s\<lparr>klog := klog s @ [(KReg (Writel ?on ?a), r), (KReg (Writel ?v ?a), r')]\<rparr>)" (is "still e n y ?s") for r r'
  proof -
    have n: "n \<le> length (klog s @ [(KReg (Writel ?on ?a), r)])" using cs_inv_length [OF inv] by simp
    have log: "klog s @ [(KReg (Writel ?on ?a), r), (KReg (Writel ?v ?a), r')] =
        (klog s @ [(KReg (Writel ?on ?a), r)]) @ [(KReg (Writel ?v ?a), r')]" by simp
    have "reg32 n (klog ?s) (cs_base (cs_heap s q) + OMAP2_MCSPI_CHCONF0) = (if q = p then Some ?v
        else reg32 n (klog s) (cs_base (cs_heap s q) + OMAP2_MCSPI_CHCONF0))" if "q \<in> set (ctx_cs s)" for q
      using cs_register_eq [OF inv p that, of 0] cs_inv_length [OF inv]
      by (simp add: log reg32_snoc [OF n] del: append_assoc append.simps) (auto simp: reg32_snoc reg32_step_def)
    moreover have "Memory q \<in> held e (klog ?s)" if "q \<in> set (ctx_cs s)" for q
      using cs_inv_entry [OF inv that] memory_held_writes [of _ q e "klog s"] by (simp add: entry_inv_held del: held_from_simps)
    ultimately have "entry_inv e n None ?s q" if "q \<in> set (ctx_cs s)" for q
      using cs_inv_entry [OF inv that] that by (auto simp: entry_inv_def Let_def simp del: held_from_simps)
    then show ?thesis using inv y by (simp add: still_def cs_inv_def)
  qed
  moreover have "(cs_heap s)(p := cs_heap s p\<lparr>chconf0 := ?v\<rparr>) = cs_heap s" by auto
  ultimately show "wp (resume_cs e' p) (\<lambda>_. still e n y) s"
    using entry(1) s by (simp add: resume_cs_def cs_at_def raw_writel_def Let_def off wp_simps)
qed

lemma keeps_still_resume: "keeps (still e n y) (omap2_mcspi_resume e')"
proof -
  have body: "keeps (still e n y) (do_each ps (resume_cs e'))" if "set ps \<subseteq> set (fst (snd y))" for ps
    using that keeps_still_resume_cs by (intro keeps_do_each) blast
  have "wp (do { ps \<leftarrow> rd ctx_cs; do_each ps (resume_cs e'); omap2_mcspi_disable_clocks e'; ret 0 })
      (\<lambda>_. still e n y) s" if st: "still e n y s" for s
  proof -
    have "set (ctx_cs s) \<subseteq> set (fst (snd y))" using st by (auto simp: still_def layout_def)
    from body [OF this] show ?thesis
      by (subst wp_bind, subst wp_rd, intro wp_keeps_bind [where I = "still e n y", OF _ st]
          wp_keeps_bind [where I = "still e n y"] keeps_still_clocks) (simp_all add: wp_return)
  qed
  then show ?thesis
    unfolding omap2_mcspi_resume_def
    by (intro keepsI wp_keeps_bind [OF keeps_still_clocks(1)])
qed

section \<open>Every reachable state\<close>

definition mcspi_inv :: "kernel \<Rightarrow> spi_device list \<Rightarrow> mcspi_machine \<Rightarrow> bool" where
  "mcspi_inv e devs m \<longleftrightarrow> (separate_devices devs \<and> allocates_fresh e \<longrightarrow>
     mc_inv e devs (mc_lost m) (mc_gone m) (mc_drv m))"

lemma mcspi_inv_start: "mcspi_start devs m \<Longrightarrow> mcspi_inv e devs m"
  by (auto simp: mcspi_inv_def mcspi_start_def mc_inv_def cs_inv_def cs_owned_def)

lemma mcspi_inv_step:
  assumes "mcspi_inv e devs m" "mcspi_step e devs m ev m'"
  shows "mcspi_inv e devs m'"
  unfolding mcspi_inv_def
proof (intro impI, elim conjE)
  assume ok: "separate_devices devs" "allocates_fresh e"
  then have inv: "mc_inv e devs (mc_lost m) (mc_gone m) (mc_drv m)" using assms(1) by (simp add: mcspi_inv_def)
  have after: "mc_inv e devs n gone (snd (run_state f (mc_drv m)))"
    if "wp f (\<lambda>_. mc_inv e devs n gone) (mc_drv m)" for f :: "(mcspi, 'r) state" and n gone
    using that by (simp add: wp_fst_snd)
  show "mc_inv e devs (mc_lost m') (mc_gone m') (mc_drv m')"
  proof (cases ev)
    case (Mc_setup spi)
    then show ?thesis
      using assms(2) after [OF wp_mc_setup [OF inv ok, of spi]]
      by (auto simp: mcspi_step_def mcspi_exec_def mc_known_def mc_after_def split: if_splits)
  next
    case (Mc_message spi msg)
    then have known: "spi \<in> set devs" "sd_addr spi \<notin> mc_gone m" "cs_pointer spi (mc_drv m) \<noteq> 0"
      using assms(2) by (auto simp: mcspi_step_def mcspi_exec_def mc_known_def split: if_splits)
    note message = keeps_dev_message [OF mc_inv_dev(2) [OF inv known]]
    then show ?thesis
      using assms(2) Mc_message after [OF wp_mc_dev [OF message inv known]]
      by (auto simp: mcspi_step_def mcspi_exec_def mc_after_def split: if_splits)
  next
    case (Mc_cleanup spi)
    then show ?thesis
      using assms(2) after [OF wp_mc_cleanup [OF inv ok(1), of spi]]
      by (auto simp: mcspi_step_def mcspi_exec_def mc_known_def mc_after_def split: if_splits)
  next
    case Mc_power_cycle
    then show ?thesis
      using assms(2) after [OF wp_mc_power_cycle [OF inv]]
      by (auto simp: mcspi_step_def mcspi_exec_def mc_after_def)
  qed (use assms(2) after [OF wp_mc_still [OF keeps_still_clocks(3) inv]]
      after [OF wp_mc_still [OF keeps_still_clocks(4) inv]] after [OF wp_mc_still [OF keeps_still_resume inv]]
      in \<open>auto simp: mcspi_step_def mcspi_exec_def mc_after_def\<close>)
qed

interpretation mcspi: step_system "mcspi_start devs" "mcspi_step e devs" "mcspi_inv e devs"
  for e devs
  by unfold_locales (blast intro: mcspi_inv_start mcspi_inv_step)+

lemma reachable_mc_inv:
  assumes "mcspi_reachable e devs m" "separate_devices devs" "allocates_fresh e"
  shows "mc_inv e devs (mc_lost m) (mc_gone m) (mc_drv m)"
  using mcspi.reach_inv [OF assms(1)] assms(2,3) by (simp add: mcspi_inv_def)

end
