(* ===== verification/Mcspi_Resources.thy ===== *)
theory Mcspi_Resources
  imports Mcspi_Machine
begin

text \<open>
  What a device and the controller hold: the structure of a device and its two DMA channels, which its
  clean-up gives back whatever the set-up came to, and what is left after a probe.
\<close>

section \<open>Power references\<close>

text \<open>
  References to the controller's power: \<open>pm_runtime_get_sync\<close> takes one even when it fails. Those that a
  failed call has taken are counted too, because no code of the driver gives them back.
\<close>

definition power_refs :: "event list \<Rightarrow> int" where
  "power_refs l = sum_list (map (\<lambda>ev. case fst ev of
     KPlat Pm_get_sync \<Rightarrow> 1 | KPlat Pm_put_autosuspend \<Rightarrow> - 1 | _ \<Rightarrow> 0) l)"

definition failed_power_ups :: "event list \<Rightarrow> int" where
  "failed_power_ups l = sum_list (map (\<lambda>ev. case fst ev of
     KPlat Pm_get_sync \<Rightarrow> if snd ev <s 0 then 1 else 0 | _ \<Rightarrow> 0) l)"

definition power_balance :: "int \<Rightarrow> 'a mcspi_scheme \<Rightarrow> bool" where
  "power_balance n s \<longleftrightarrow> power_refs (klog s) - failed_power_ups (klog s) = n"

lemma power_refs_simps [simp]:
  "power_refs [] = 0" "failed_power_ups [] = 0"
  "power_refs (l @ l') = power_refs l + power_refs l'"
  "failed_power_ups (l @ l') = failed_power_ups l + failed_power_ups l'"
  "power_refs ((c, r) # l) = (case c of KPlat Pm_get_sync \<Rightarrow> 1 | KPlat Pm_put_autosuspend \<Rightarrow> - 1 | _ \<Rightarrow> 0) + power_refs l"
  "failed_power_ups ((c, r) # l) = (case c of KPlat Pm_get_sync \<Rightarrow> if r <s 0 then 1 else 0 | _ \<Rightarrow> 0) + failed_power_ups l"
  by (simp_all add: power_refs_def failed_power_ups_def)

text \<open>A body between the two clock functions.\<close>

lemma keeps_power_around:
  assumes "\<And>n. keeps (power_balance n) X"
  shows "keeps (power_balance n) (do {
    r \<leftarrow> omap2_mcspi_enable_clocks e;
    (if r <s 0 then ret r else do { r \<leftarrow> X; omap2_mcspi_disable_clocks e; ret r }) })"
proof (rule keepsI)
  fix s :: "'a mcspi_scheme" assume s: "power_balance n s"
  have off: "wp (do { omap2_mcspi_disable_clocks e; ret r }) (\<lambda>_. power_balance n) s'"
    if "power_balance (n + 1) s'" for r :: u32 and s' :: "'a mcspi_scheme"
    using that by (simp add: omap2_mcspi_disable_clocks_def wp_simps power_balance_def)
  show "wp (do { r \<leftarrow> omap2_mcspi_enable_clocks e;
      (if r <s 0 then ret r else do { r \<leftarrow> X; omap2_mcspi_disable_clocks e; ret r }) }) (\<lambda>_. power_balance n) s"
    unfolding omap2_mcspi_enable_clocks_def wp_bind [of "kcall e c" for e c] wp_kcall wp_if wp_return
  proof (intro allI impI conjI)
    fix r :: u32
    assume "\<not> r <s 0"
    then have "power_balance (n + 1) (s\<lparr>klog := klog s @ [(KPlat Pm_get_sync, r)]\<rparr>)"
      using s by (simp add: power_balance_def)
    then show "wp (do { r \<leftarrow> X; omap2_mcspi_disable_clocks e; ret r }) (\<lambda>_. power_balance n)
        (s\<lparr>klog := klog s @ [(KPlat Pm_get_sync, r)]\<rparr>)"
      by (rule wp_keeps_bind [OF assms]) (rule off)
  qed (use s in \<open>simp add: power_balance_def\<close>)
qed

lemma keeps_power_device:
  "keeps (power_balance n) (new_cs e spi)" "keeps (power_balance n) (setup_dma e spi)"
  "keeps (power_balance n) (omap2_mcspi_setup_transfer e spi t)" "keeps (power_balance n) (omap2_mcspi_cleanup e spi)"
  unfolding new_cs_def kmalloc_def setup_dma_def get_dma_def omap2_mcspi_request_dma_def
    set_dma_def set_cs_def omap2_mcspi_setup_transfer_def omap2_mcspi_cleanup_def free_cs_def free_channels_def kfree_def
    mcspi_cached_chconf0_def mcspi_write_chconf0_def mcspi_write_cs_reg_def mcspi_read_cs_reg_def raw_readl_def
    raw_writel_def get_cs_def cs_at_def out_of_bounds_def
  by (rule keeps_return keeps_rd keeps_if keeps_let keeps_kcall keeps_kdo keeps_bind keeps_wr |
      (simp add: power_balance_def; fail))+

lemma keeps_power_setup: "keeps (power_balance n) (omap2_mcspi_setup e spi)"
  unfolding omap2_mcspi_setup_def
  by (rule keeps_return keeps_rd keeps_if keeps_power_device keeps_power_around keeps_bind)+

section \<open>A device\<close>

text \<open>A request for a DMA channel that succeeds gives one that nobody holds.\<close>

definition channels_fresh :: "kernel \<Rightarrow> bool" where
  "channels_fresh e \<longleftrightarrow> (\<forall>l d b. answer e l (KDma (Request_dma d b)) = 0 \<longrightarrow>
     (let l = l @ [(KDma (Request_dma d b), 0)]; c = answer e l (KDma Requested_channel) in
        c \<noteq> NO_CHANNEL \<and> Dma_channel c \<notin> held e l))"

definition mem_of :: "u32 \<Rightarrow> resource set" where
  "mem_of p = (if p = 0 then {} else {Memory p})"

definition chan_of :: "u32 \<Rightarrow> resource set" where
  "chan_of c = (if c = NO_CHANNEL then {} else {Dma_channel c})"

text \<open>Beside \<open>R\<close>, what is held is what the device's fields name; it has both channels or none.\<close>

definition device_holds ::
    "kernel \<Rightarrow> resource set \<Rightarrow> resource list \<Rightarrow> spi_device \<Rightarrow> 'a mcspi_scheme \<Rightarrow> bool" where
  "device_holds e R B spi s \<longleftrightarrow> (let p = cs_pointer spi s; d = dma_of spi s;
       X = mem_of p \<union> chan_of (dma_rx_channel d) \<union> chan_of (dma_tx_channel d) in
     held e (klog s) = R \<union> X \<and> R \<inter> X = {} \<and> bad_releases e (klog s) = B \<and> safe_log (klog s) \<and>
     (p \<noteq> 0 \<longrightarrow> blocks s p \<noteq> None) \<and> chip_select spi < length (dma_table s) \<and>
     (dma_rx_channel d = NO_CHANNEL \<longleftrightarrow> dma_tx_channel d = NO_CHANNEL) \<and>
     (dma_rx_channel d = dma_tx_channel d \<longrightarrow> dma_rx_channel d = NO_CHANNEL))"

lemma device_holds_put [simp]:
  "device_holds e R B spi (s\<lparr>cs_heap := h\<rparr>) = device_holds e R B spi s"
  by (simp add: device_holds_def dma_of_def)

lemma device_holds_quiet:
  assumes "device_holds e R B spi s" "acquired e (c, r) = None" "released (c, r) = None" "\<not> is_ub (c, r)"
  shows "device_holds e R B spi (s\<lparr>klog := klog s @ [(c, r)]\<rparr>)"
  using assms by (simp add: device_holds_def Let_def dma_of_def held_step_def del: acquired_pair released_pair is_ub_pair)

lemma keeps_holds_calls:
  "keeps (device_holds e R B spi) (kcall e' (KReg c))" "keeps (device_holds e R B spi) (kdo e' (KReg c))"
  "keeps (device_holds e R B spi) (kcall e' (KPlat Pm_get_sync))"
  "keeps (device_holds e R B spi) (kdo e' (KPlat Pm_mark_last_busy))"
  "keeps (device_holds e R B spi) (kdo e' (KPlat Pm_put_autosuspend))"
  by (auto intro!: keeps_kcall keeps_kdo device_holds_quiet)

lemma keeps_holds_setup_transfer:
  "keeps (\<lambda>s. device_holds e R B spi s \<and> cs_pointer spi s \<noteq> 0) (omap2_mcspi_setup_transfer e' spi t)"
proof -
  let ?I = "\<lambda>s. device_holds e R B spi s \<and> cs_pointer spi s \<noteq> 0"
  have live: "keeps ?I (get_cs e' spi \<bind> f)" if "\<And>cs. keeps ?I (f cs)" for f :: "omap2_mcspi_cs \<Rightarrow> ('a mcspi_scheme, 'r) state"
  proof (rule keepsI)
    fix s :: "'a mcspi_scheme" assume s: "?I s"
    then have "blocks s (cs_pointer spi s) \<noteq> None" by (simp add: device_holds_def Let_def)
    then show "wp (get_cs e' spi \<bind> f) (\<lambda>_. ?I) s"
      using keepsD [OF that s] by (simp add: get_cs_def cs_at_def wp_simps)
  qed
  have call: "keeps ?I (kcall e' (KReg c))" "keeps ?I (kdo e' (KReg c))" for c
    by (auto intro!: keeps_kcall keeps_kdo device_holds_quiet)
  have put: "keeps ?I (set_cs spi f)" for f
    unfolding set_cs_def by (rule keeps_wr) simp
  note rules = live put call keeps_return keeps_let keeps_bind
  show ?thesis
    unfolding omap2_mcspi_setup_transfer_def mcspi_cached_chconf0_def mcspi_write_chconf0_def
      mcspi_write_cs_reg_def mcspi_read_cs_reg_def raw_readl_def raw_writel_def
    by (rule rules)+
qed

lemma wp_holds_request_dma:
  assumes "device_holds e R B spi s" "channels_fresh e" "dma_rx_channel (dma_of spi s) = NO_CHANNEL"
  shows "wp (omap2_mcspi_request_dma e spi) (\<lambda>_ s'. device_holds e R B spi s' \<and> cs_pointer spi s' = cs_pointer spi s) s"
proof -
  have fresh: "c \<noteq> NO_CHANNEL \<and> Dma_channel c \<notin> held e (l @ [(KDma (Request_dma d x), 0)])"
    if "resp e l (KDma (Request_dma d x)) 0"
      "resp e (l @ [(KDma (Request_dma d x), 0)]) (KDma Requested_channel) c" for c d x l
    using assms(2) that by (auto simp: channels_fresh_def resp_def Let_def)
  note fresh2 = fresh [of "l @ [a, b]" for l a b, simplified]
  have s: "held e (klog s) = R \<union> mem_of (cs_pointer spi s)" "R \<inter> mem_of (cs_pointer spi s) = {}"
    "bad_releases e (klog s) = B" "safe_log (klog s)" "cs_pointer spi s \<noteq> 0 \<longrightarrow> blocks s (cs_pointer spi s) \<noteq> None"
    "chip_select spi < length (dma_table s)" "dma_tx_channel (dma_of spi s) = NO_CHANNEL"
    using assms(1,3) by (auto simp: device_holds_def Let_def chan_of_def)
  have m: "Dma_channel c \<notin> mem_of p" for c p by (simp add: mem_of_def)
  show ?thesis
    unfolding omap2_mcspi_request_dma_def get_dma_def
    using s assms(3)
    by (simp add: wp_simps set_dma_def dma_of_def, intro conjI allI impI)
      (auto simp: device_holds_def Let_def dma_of_def chan_of_def cs_pointer_def held_step_def m dest!: fresh [of "klog s"] fresh2)
qed

lemma wp_holds_new_cs:
  assumes "device_holds e R B spi s" "allocates_fresh e" "cs_pointer spi s = 0"
  shows "wp (new_cs e spi) (\<lambda>r s'. device_holds e R B spi s' \<and> (\<not> r <s 0 \<longrightarrow> cs_pointer spi s' \<noteq> 0)) s"
proof -
  have fresh: "Memory p \<notin> held e l" if "resp e l (KMem (Kmalloc n)) p" for p l n
    using assms(2) that by (simp add: allocates_fresh_def resp_def)
  have c: "Memory p \<notin> chan_of c" for c p by (simp add: chan_of_def)
  show ?thesis
    using assms(1,3)
    by (simp add: new_cs_def kmalloc_def wp_simps cs_pointer_def Let_def, intro conjI allI impI)
      (auto simp: device_holds_def Let_def dma_of_def cs_pointer_def mem_of_def held_step_def c word_sless_alt
        dest!: fresh)
qed

lemma wp_holds_setup:
  fixes s :: "'a mcspi_scheme"
  assumes "device_holds e R B spi s" "allocates_fresh e" "channels_fresh e"
  shows "wp (omap2_mcspi_setup e spi) (\<lambda>_. device_holds e R B spi) s"
proof (cases "sd_bits_per_word spi < 4 \<or> 32 < sd_bits_per_word spi")
  case True
  then show ?thesis using assms(1) by (simp add: omap2_mcspi_setup_def wp_return)
next
  case False
  let ?I = "\<lambda>s :: 'a mcspi_scheme. device_holds e R B spi s \<and> cs_pointer spi s \<noteq> 0"
  have cs: "wp (if cs_pointer spi s = 0 then new_cs e spi else ret 0)
      (\<lambda>r s'. device_holds e R B spi s' \<and> (\<not> r <s 0 \<longrightarrow> cs_pointer spi s' \<noteq> 0)) s"
    using wp_holds_new_cs [OF assms(1,2)] assms(1) by (simp add: wp_return)
  have dma: "keeps ?I (setup_dma e spi)"
  proof (rule keepsI)
    fix s :: "'a mcspi_scheme" assume s: "?I s"
    then have d: "chip_select spi < length (dma_table s)"
      "dma_rx_channel (dma_of spi s) = NO_CHANNEL \<longleftrightarrow> dma_tx_channel (dma_of spi s) = NO_CHANNEL"
      by (simp_all add: device_holds_def Let_def)
    have "wp (if dma_rx_channel (dma_of spi s) = NO_CHANNEL \<or> dma_tx_channel (dma_of spi s) = NO_CHANNEL
        then omap2_mcspi_request_dma e spi else ret 0) (\<lambda>_. ?I) s"
      using s d(2) wp_mono [OF wp_holds_request_dma [OF _ assms(3), of R B spi s]] by (simp add: wp_return)
    then show "wp (setup_dma e spi) (\<lambda>_. ?I) s"
      using d(1) by (simp add: setup_dma_def get_dma_def wp_simps)
  qed
  have clocks: "keeps ?I (omap2_mcspi_enable_clocks e)" "keeps ?I (omap2_mcspi_disable_clocks e)"
    unfolding omap2_mcspi_enable_clocks_def omap2_mcspi_disable_clocks_def
    by (auto intro!: keeps_bind keeps_kcall keeps_kdo device_holds_quiet)
  have "wp (do { r \<leftarrow> setup_dma e spi;
      (if r <s 0 then ret r else do {
         r \<leftarrow> omap2_mcspi_enable_clocks e;
         (if r <s 0 then ret r else do {
            r \<leftarrow> omap2_mcspi_setup_transfer e spi None;
            omap2_mcspi_disable_clocks e;
            ret r }) }) }) (\<lambda>_. ?I) s" if "?I s" for s
    by (rule keepsD [where I = ?I, OF _ that]) (intro keeps_bind keeps_if keeps_return dma clocks keeps_holds_setup_transfer)
  then have rest: "wp (do { r \<leftarrow> setup_dma e spi;
      (if r <s 0 then ret r else do {
         r \<leftarrow> omap2_mcspi_enable_clocks e;
         (if r <s 0 then ret r else do {
            r \<leftarrow> omap2_mcspi_setup_transfer e spi None;
            omap2_mcspi_disable_clocks e;
            ret r }) }) }) (\<lambda>_. device_holds e R B spi) s" if "?I s" for s
    by (rule wp_mono) (use that in auto)
  show ?thesis
    unfolding omap2_mcspi_setup_def if_not_P [OF False]
    by (subst wp_bind, subst wp_rd, subst wp_bind, rule wp_mono [OF cs]) (auto simp: wp_return intro: rest)
qed

text \<open>A clean-up gives it all back, first the structure and then the channels.\<close>

definition channels_held ::
    "kernel \<Rightarrow> resource set \<Rightarrow> resource list \<Rightarrow> omap2_mcspi_dma \<Rightarrow> 'a mcspi_scheme \<Rightarrow> bool" where
  "channels_held e R B d s \<longleftrightarrow> held e (klog s) = R \<union> chan_of (dma_rx_channel d) \<union> chan_of (dma_tx_channel d) \<and>
     R \<inter> (chan_of (dma_rx_channel d) \<union> chan_of (dma_tx_channel d)) = {} \<and>
     bad_releases e (klog s) = B \<and> safe_log (klog s)"

lemma wp_holds_free_cs:
  assumes "device_holds e R B spi s"
  shows "wp (free_cs e' spi) (\<lambda>_ s'. channels_held e R B (dma_of spi s) s' \<and> dma_table s' = dma_table s \<and>
    num_chipselect s' = num_chipselect s) s"
proof -
  have m: "Memory p \<notin> chan_of c" for c p by (simp add: chan_of_def)
  have live: "cs_pointer spi s \<noteq> 0 \<Longrightarrow> blocks s (cs_pointer spi s) \<noteq> None"
    using assms by (simp add: device_holds_def Let_def)
  have "channels_held e R B (dma_of spi s) (s\<lparr>ctx_cs := x, klog := klog s @ [(KMem (Kfree p), r)], blocks := y\<rparr>)"
    if "p = cs_pointer spi s" "p \<noteq> 0" for p x y r
    using assms that m [of p] by (auto simp: channels_held_def device_holds_def Let_def mem_of_def held_step_def)
  moreover have "channels_held e R B (dma_of spi s) s" if "cs_pointer spi s = 0"
    using assms that by (auto simp: channels_held_def device_holds_def Let_def mem_of_def)
  ultimately show ?thesis
    using live by (auto simp: free_cs_def kfree_def wp_simps)
qed

lemma wp_holds_free_channels:
  assumes "channels_held e R B (dma_of spi s) s" "chip_select spi < length (dma_table s)"
    and "dma_rx_channel (dma_of spi s) = dma_tx_channel (dma_of spi s) \<longrightarrow> dma_rx_channel (dma_of spi s) = NO_CHANNEL"
  shows "wp (free_channels e' spi) (\<lambda>_ s'. held e (klog s') = R \<and> bad_releases e (klog s') = B \<and>
    safe_log (klog s')) s"
proof -
  obtain rx tx where d: "dma_rx_channel (dma_of spi s) = rx" "dma_tx_channel (dma_of spi s) = tx" by blast
  have c: "held e (klog s) = R \<union> chan_of rx \<union> chan_of tx" "R \<inter> (chan_of rx \<union> chan_of tx) = {}"
    "bad_releases e (klog s) = B" "safe_log (klog s)" "rx = tx \<longrightarrow> rx = NO_CHANNEL"
    using assms(1,3) by (simp_all add: channels_held_def d)
  then show ?thesis
    using assms(2)
    by (auto simp: free_channels_def get_dma_def set_dma_def wp_simps d chan_of_def held_step_def)
qed

lemma wp_holds_cleanup:
  assumes "device_holds e R B spi s" "chip_select spi < unat (num_chipselect s)"
  shows "wp (omap2_mcspi_cleanup e' spi) (\<lambda>_ s'. held e (klog s') = R \<and> bad_releases e (klog s') = B \<and>
    safe_log (klog s')) s"
proof -
  have d: "chip_select spi < length (dma_table s)"
    "dma_rx_channel (dma_of spi s) = dma_tx_channel (dma_of spi s) \<longrightarrow> dma_rx_channel (dma_of spi s) = NO_CHANNEL"
    using assms(1) by (simp_all add: device_holds_def Let_def)
  have "wp (do { n \<leftarrow> rd num_chipselect; if chip_select spi < unat n then free_channels e' spi else skip })
      (\<lambda>_ s'. held e (klog s') = R \<and> bad_releases e (klog s') = B \<and> safe_log (klog s')) s'"
    if "channels_held e R B (dma_of spi s) s' \<and> dma_table s' = dma_table s \<and> num_chipselect s' = num_chipselect s" for s'
  proof -
    have "dma_of spi s' = dma_of spi s" using that by (simp add: dma_of_def)
    then show ?thesis using that assms(2) d wp_holds_free_channels [of e R B spi s'] by (simp add: wp_simps)
  qed
  then show ?thesis
    unfolding omap2_mcspi_cleanup_def by (subst wp_bind) (rule wp_mono [OF wp_holds_free_cs [OF assms(1)]])
qed

section \<open>The controller\<close>

text \<open>What a probe holds on its way, with the master at \<open>m\<close>.\<close>

definition probing :: "kernel \<Rightarrow> resource set \<Rightarrow> u32 \<Rightarrow> 'a mcspi_scheme \<Rightarrow> bool" where
  "probing e R m s \<longleftrightarrow> held e (klog s) = R \<and> mcspi_master s = m"

lemma keeps_probing_call:
  assumes "\<And>r. acquired e (c, r) = None" "\<And>r. released (c, r) = None"
  shows "keeps (probing e R m) (kcall e' c)" "keeps (probing e R m) (kdo e' c)"
  using assms by (auto intro!: keeps_kcall keeps_kdo simp: probing_def held_step_def simp del: acquired_pair released_pair)

lemma keeps_probing_wr:
  "(\<And>s. klog (f s) = klog s) \<Longrightarrow> (\<And>s. mcspi_master (f s) = mcspi_master s) \<Longrightarrow> keeps (probing e R m) (wr f)"
  by (rule keeps_wr) (simp add: probing_def)

lemmas probing_rules = keeps_return keeps_rd keeps_if keeps_let keeps_case_option keeps_for_each
  keeps_probing_call keeps_probing_wr keeps_bind

lemma keeps_probing_parts:
  "keeps (probing e R m) (probe_match e')"
  "keeps (probing e R m) (for_each [0..<n] (probe_channel e'))"
  "keeps (probing e R m) (omap2_mcspi_master_setup e')"
  unfolding probe_match_def probe_channel_def omap2_mcspi_master_setup_def omap2_mcspi_enable_clocks_def
    omap2_mcspi_disable_clocks_def omap2_mcspi_set_master_mode_def mcspi_write_reg_def mcspi_read_reg_def
    raw_readl_def raw_writel_def
  by (rule probing_rules | (simp; fail))+

text \<open>The exits: whatever was allocated is given back, and only that.\<close>

lemma wp_probing_free_master:
  assumes "probing e (insert (Memory m) R) m s" "m \<noteq> 0" "Memory m \<notin> R"
  shows "wp (free_master e' status) (\<lambda>r s'. r = status \<and> held e (klog s') = R) s"
  using assms by (simp add: free_master_def kfree_def wp_simps probing_def held_step_def)

lemma wp_probing_chnl_free:
  fixes s :: "'a mcspi_scheme"
  assumes "probing e (insert (Memory p) (insert (Memory m) R)) m s" "dma_channels s = p"
    and "m \<noteq> 0" "p \<noteq> 0" "p \<noteq> m" "Memory m \<notin> R" "Memory p \<notin> R"
  shows "wp (dma_chnl_free e' status) (\<lambda>r s'. r = status \<and> held e (klog s') = R) s"
proof -
  have "wp (do { p \<leftarrow> rd dma_channels; kfree e' p; free_master e' status }) (\<lambda>r s'. r = status \<and> held e (klog s') = R) s"
    if "probing e (insert (Memory p) (insert (Memory m) R)) m s" "dma_channels s = p" for s :: "'a mcspi_scheme"
  proof -
    have "probing e (insert (Memory m) R) m (s\<lparr>klog := klog s @ [(KMem (Kfree p), r)], blocks := x\<rparr>)"
      "probing e (insert (Memory m) R) m (s\<lparr>klog := klog s @ [(KMem (Kfree p), r), (UB Bad_free, r')]\<rparr>)" for r r' x
      using that(1) assms(5-7) by (auto simp: probing_def held_step_def)
    then show ?thesis
      unfolding kfree_def
      by (auto simp: wp_simps that(2) assms(4) intro!: wp_probing_free_master [OF _ assms(3,6)])
  qed
  note free = this
  have "probing e (insert (Memory p) (insert (Memory m) R)) m (s\<lparr>klog := klog s @ [(UB Out_of_bounds, r)]\<rparr>)" for r
    using assms(1) by (simp add: probing_def held_step_def)
  then show ?thesis
    using assms(1,2)
    unfolding dma_chnl_free_def
    by (subst wp_bind, subst wp_rd, subst wp_bind) (auto simp: wp_if wp_return wp_out_of_bounds intro!: free)
qed

lemma wp_probing_disable_pm:
  assumes "probing e (insert (Memory p) (insert (Memory m) R)) m s" "dma_channels s = p"
    and "m \<noteq> 0" "p \<noteq> 0" "p \<noteq> m" "Memory m \<notin> R" "Memory p \<notin> R"
  shows "wp (disable_pm e' status) (\<lambda>r s'. r = status \<and> held e (klog s') = R) s"
  unfolding disable_pm_def
  by (simp only: wp_bind wp_kdo, intro allI impI wp_probing_chnl_free [OF _ _ assms(3-7)])
    (use assms(1,2) in \<open>simp_all add: probing_def held_step_def\<close>)

lemma wp_probing_err_register:
  assumes "probing e (insert (Memory p) (insert (Memory m) R)) m s" "dma_channels s = p"
    and "m \<noteq> 0" "p \<noteq> 0" "p \<noteq> m" "Memory m \<notin> R" "Memory p \<notin> R"
  shows "wp (err_spi_register e' status) (\<lambda>r s'. r = status \<and> held e (klog s') = R) s"
  unfolding err_spi_register_def spi_master_put_def
  by (simp only: wp_bind wp_rd wp_kdo wp_wr, intro allI impI wp_probing_disable_pm [OF _ _ assms(3-7)])
    (use assms(1,2) in \<open>simp_all add: probing_def held_step_def\<close>)

text \<open>The end of a probe: the controller is registered, or everything is given back.\<close>

definition probe_outcome :: "kernel \<Rightarrow> resource set \<Rightarrow> u32 \<Rightarrow> 'a mcspi_scheme \<Rightarrow> bool" where
  "probe_outcome e R r s \<longleftrightarrow> held e (klog s) = R \<or>
     (\<not> r <s 0 \<and> (let m = mcspi_master s in held e (klog s) =
        {Spi_master m, Memory m, Memory (dma_channels s)} \<union> R))"

definition same_channels :: "u32 \<Rightarrow> 'a mcspi_scheme \<Rightarrow> bool" where
  "same_channels p s \<longleftrightarrow> dma_channels s = p"

lemma keeps_same_channels:
  "keeps (same_channels p) (omap2_mcspi_master_setup e')" "keeps (same_channels p) (for_each [0..<n] (probe_channel e'))"
  unfolding probe_channel_def omap2_mcspi_master_setup_def omap2_mcspi_enable_clocks_def
    omap2_mcspi_disable_clocks_def omap2_mcspi_set_master_mode_def mcspi_write_reg_def mcspi_read_reg_def
    raw_readl_def raw_writel_def
  by (rule keeps_return keeps_rd keeps_if keeps_let keeps_for_each keeps_kcall keeps_kdo keeps_bind keeps_wr |
      (simp add: same_channels_def; fail))+

lemma wp_probe_start:
  fixes s :: "'a mcspi_scheme"
  assumes "probing e (insert (Memory p) (insert (Memory m) R)) m s" "dma_channels s = p"
    and "m \<noteq> 0" "p \<noteq> 0" "p \<noteq> m" "Memory m \<notin> R" "Memory p \<notin> R"
  shows "wp (probe_start e') (probe_outcome e R) s"
proof -
  let ?P = "\<lambda>s :: 'a mcspi_scheme. probing e (insert (Memory p) (insert (Memory m) R)) m s \<and> same_channels p s"
  have out: "wp f (probe_outcome e R) s" if "wp f (\<lambda>r s'. r = v \<and> held e (klog s') = R) s"
    for f and v and s :: "'a mcspi_scheme"
    by (rule wp_mono [OF that]) (simp add: probe_outcome_def)
  have disable: "wp (disable_pm e' v) (probe_outcome e R) s" if "?P s" for s v
    by (rule out [OF wp_probing_disable_pm [OF _ _ assms(3-7)]]) (use that in \<open>auto simp: same_channels_def\<close>)
  have register: "wp (do {
      status \<leftarrow> kcall e' (KPlat (Spi_register_master m));
      (if status <s 0 then err_spi_register e' status else ret status) }) (probe_outcome e R) s" if "?P s" for s
    unfolding wp_bind wp_kcall wp_if wp_return
  proof (intro allI impI conjI)
    fix v :: u32 assume "v <s 0"
    then show "wp (err_spi_register e' v) (probe_outcome e R) (s\<lparr>klog := klog s @ [(KPlat (Spi_register_master m), v)]\<rparr>)"
      using that by (intro out [OF wp_probing_err_register [OF _ _ assms(3-7)]])
        (simp_all add: probing_def same_channels_def held_step_def)
  next
    fix v :: u32 assume "\<not> v <s 0"
    then show "probe_outcome e R v (s\<lparr>klog := klog s @ [(KPlat (Spi_register_master m), v)]\<rparr>)"
      using that by (auto simp: probe_outcome_def probing_def same_channels_def held_step_def Let_def)
  qed
  have mode: "keeps ?P (omap2_mcspi_master_setup e')"
    by (intro keepsI wp_conj) (auto intro: keepsD [OF keeps_probing_parts(3)] keepsD [OF keeps_same_channels(1)])
  have pm: "keeps ?P (kdo e' (KPlat Pm_use_autosuspend))" "keeps ?P (kdo e' (KPlat Pm_enable))"
    "keeps ?P (kdo e' (KPlat (Pm_set_autosuspend_delay x)))" for x
    by (intro keeps_kdo; simp add: probing_def same_channels_def held_step_def)+
  have master: "wp (do {
      master \<leftarrow> rd mcspi_master;
      status \<leftarrow> kcall e' (KPlat (Spi_register_master master));
      (if status <s 0 then err_spi_register e' status else ret status) }) (probe_outcome e R) s" if "?P s" for s
  proof -
    have "mcspi_master s = m" using that by (simp add: probing_def)
    then show ?thesis using register [OF that] by (subst wp_bind) (simp add: wp_rd)
  qed
  show ?thesis
    unfolding probe_start_def
    by (intro wp_keeps_bind [where I = ?P] pm mode wp_ifI disable master)
      (use assms(1,2) in \<open>simp_all add: same_channels_def\<close>)
qed

lemma wp_probe_channels:
  fixes s :: "'a mcspi_scheme"
  assumes "probing e (insert (Memory m) R) m s" "m \<noteq> 0" "Memory m \<notin> R" "allocates_fresh e"
  shows "wp (probe_channels e) (probe_outcome e R) s"
proof -
  have master: "wp (free_master e v) (probe_outcome e R) s" if "probing e (insert (Memory m) R) m s"
    for v and s :: "'a mcspi_scheme"
    by (rule wp_mono [OF wp_probing_free_master [OF that assms(2,3)]]) (simp add: probe_outcome_def)
  have loop: "wp (do {
      failed \<leftarrow> for_each [0..<n] (probe_channel e);
      (case failed of Some status \<Rightarrow> dma_chnl_free e status | None \<Rightarrow> probe_start e) }) (probe_outcome e R) s"
    if s: "probing e (insert (Memory p) (insert (Memory m) R)) m s" "dma_channels s = p"
      and p: "p \<noteq> 0" "p \<noteq> m" "Memory p \<notin> R" for p n and s :: "'a mcspi_scheme"
  proof -
    let ?P = "\<lambda>s :: 'a mcspi_scheme. probing e (insert (Memory p) (insert (Memory m) R)) m s \<and> same_channels p s"
    have each: "keeps ?P (for_each [0..<n] (probe_channel e))"
      by (intro keepsI wp_conj) (auto intro: keepsD [OF keeps_probing_parts(2)] keepsD [OF keeps_same_channels(2)])
    have start: "wp (probe_start e) (probe_outcome e R) s" if "?P s" for s
      by (rule wp_probe_start [OF _ _ assms(2) p(1,2) assms(3) p(3)]) (use that in \<open>auto simp: same_channels_def\<close>)
    have free: "wp (dma_chnl_free e v) (probe_outcome e R) s" if "?P s" for s v
      by (rule wp_mono [OF wp_probing_chnl_free [OF _ _ assms(2) p(1,2) assms(3) p(3)]])
        (use that in \<open>auto simp: same_channels_def probe_outcome_def\<close>)
    show ?thesis
      by (intro wp_keeps_bind [where I = ?P, OF each])
        (use s start free in \<open>auto simp: same_channels_def wp_case_option\<close>)
  qed
  have alloc: "Memory p \<notin> insert (Memory m) R" if "resp e (klog s) (KMem (Kmalloc k)) p" for p k
    using that assms(1,4) by (auto simp: allocates_fresh_def resp_def probing_def)
  show ?thesis
    unfolding probe_channels_def kmalloc_def
    using assms(1) alloc
    by (simp add: wp_bind wp_rd wp_kcall wp_wr wp_return)
      (auto simp: wp_if wp_wr wp_return wp_bind [symmetric] probing_def held_step_def intro!: master loop)
qed

lemma wp_kmallocI:
  assumes "\<And>p. resp e (klog s) (KMem (Kmalloc (word_of_nat n))) p \<Longrightarrow> p \<noteq> 0 \<Longrightarrow>
      Q p (s\<lparr>klog := klog s @ [(KMem (Kmalloc (word_of_nat n)), p)], blocks := (blocks s)(p \<mapsto> n)\<rparr>)"
    and "Q 0 (s\<lparr>klog := klog s @ [(KMem (Kmalloc (word_of_nat n)), 0)]\<rparr>)"
  shows "wp (kmalloc e n) Q s"
  using assms by (auto simp: kmalloc_def wp_simps)

lemma wp_probe:
  fixes s :: "'a mcspi_scheme"
  assumes "allocates_fresh e"
  shows "wp (omap2_mcspi_probe e) (probe_outcome e (held e (klog s))) s"
proof -
  let ?R = "held e (klog s)"
  let ?P = "\<lambda>m s :: 'a mcspi_scheme. probing e (insert (Memory m) ?R) m s"
  let ?H = "\<lambda>m s :: 'a mcspi_scheme. held e (klog s) = insert (Memory m) ?R"
  have fresh: "Memory m \<notin> ?R" if "resp e (klog s) (KMem (Kmalloc k)) m" for m k
    using that assms by (simp add: allocates_fresh_def resp_def)
  have call: "keeps (?H m) (kcall e c)" "keeps (?H m) (kdo e c)"
    if "\<And>r. acquired e (c, r) = None" "\<And>r. released (c, r) = None" for c m
    using that by (auto intro!: keeps_kcall keeps_kdo simp: held_step_def simp del: acquired_pair released_pair)
  have wr: "keeps (?H m) (wr f)" if "\<And>s. klog (f s) = klog s" for f m
    using that by (intro keeps_wr) simp
  have match: "keeps (?H m) (probe_match e)" for m
    unfolding probe_match_def by (rule keeps_return keeps_if call wr keeps_bind | (simp; fail))+
  have master: "wp (free_master e v) (probe_outcome e ?R) s" if "?P m s" "m \<noteq> 0" "Memory m \<notin> ?R" for v m s
    by (rule wp_mono [OF wp_probing_free_master [OF that]]) (simp add: probe_outcome_def)
  note channels = wp_probe_channels [OF _ _ _ assms]
  have rest: "wp (do {
        regs_offset \<leftarrow> kcall e (KPlat Regs_offset);
        kdo e (KPlat (Set_drvdata m));
        wr (\<lambda>s. s\<lparr>mcspi_master := m\<rparr>);
        r \<leftarrow> kcall e (KPlat Get_mem_resource);
        (if r = 0 then free_master e (- ENODEV)
         else do {
           start \<leftarrow> kcall e (KPlat (Resource_start r));
           wr (\<lambda>s. s\<lparr>mcspi_phys := start + regs_offset\<rparr>);
           base \<leftarrow> kcall e (KPlat (Devm_request_and_ioremap (start + regs_offset)));
           wr (\<lambda>s. s\<lparr>mcspi_base := base\<rparr>);
           (if base = 0 then free_master e (- ENOMEM)
            else do {
              wr (\<lambda>s. s\<lparr>ctx_cs := []\<rparr>);
              probe_channels e }) }) }) (probe_outcome e ?R) s"
    if "?H m s" "m \<noteq> 0" "Memory m \<notin> ?R" for m s
    using that
    by (auto simp: wp_simps probing_def held_step_def intro!: master channels)
  show ?thesis
    unfolding omap2_mcspi_probe_def
  proof (subst wp_bind, rule wp_kmallocI)
    fix m assume m: "resp e (klog s) (KMem (Kmalloc (word_of_nat SIZEOF_MASTER))) m" "m \<noteq> 0"
    have "?H m (s\<lparr>klog := klog s @ [(KMem (Kmalloc (word_of_nat SIZEOF_MASTER)), m)],
      blocks := (blocks s)(m \<mapsto> SIZEOF_MASTER)\<rparr>)" using m(2) by (simp add: held_step_def)
    from wp_keeps_bind [where I = "?H m", OF match this rest [OF _ m(2) fresh [OF m(1)]]] m(2)
    show "wp (if m = 0 then ret (- ENOMEM)
      else do {
        probe_match e;
        regs_offset \<leftarrow> kcall e (KPlat Regs_offset);
        kdo e (KPlat (Set_drvdata m));
        wr (\<lambda>s. s\<lparr>mcspi_master := m\<rparr>);
        r \<leftarrow> kcall e (KPlat Get_mem_resource);
        (if r = 0 then free_master e (- ENODEV)
         else do {
           start \<leftarrow> kcall e (KPlat (Resource_start r));
           wr (\<lambda>s. s\<lparr>mcspi_phys := start + regs_offset\<rparr>);
           base \<leftarrow> kcall e (KPlat (Devm_request_and_ioremap (start + regs_offset)));
           wr (\<lambda>s. s\<lparr>mcspi_base := base\<rparr>);
           (if base = 0 then free_master e (- ENOMEM)
            else do {
              wr (\<lambda>s. s\<lparr>ctx_cs := []\<rparr>);
              probe_channels e }) }) }) (probe_outcome e ?R)
      (s\<lparr>klog := klog s @ [(KMem (Kmalloc (word_of_nat SIZEOF_MASTER)), m)],
        blocks := (blocks s)(m \<mapsto> SIZEOF_MASTER)\<rparr>)" by simp
  qed (simp add: wp_return probe_outcome_def held_step_def)
qed

end
