(* ===== verification/Mcspi_Props.thy ===== *)
theory Mcspi_Props
  imports Board Mcspi_Messages Mcspi_Resources
begin

text \<open>
  The properties of the SPI controller driver, with their witnesses on the kernel \<open>mcspi_board\<close>: a
  controller that is always ready, an allocator with the blocks \<open>ms\<close> and a DMA controller with four
  channels; and on \<open>dead_board\<close>, whose controller is never ready.
\<close>

section \<open>Kernels and states for the witnesses\<close>

definition first_free :: "(u32 \<Rightarrow> resource) \<Rightarrow> u32 list \<Rightarrow> event list \<Rightarrow> u32" where
  "first_free f cs l = (case find (\<lambda>c. f c \<notin> held board l) cs of None \<Rightarrow> 0 | Some c \<Rightarrow> c)"

definition mcspi_answer :: "u32 list \<Rightarrow> event list \<Rightarrow> kcall \<Rightarrow> u32" where
  "mcspi_answer ms l c = (case c of
     KMem (Kmalloc n) \<Rightarrow> first_free Memory ms l
   | KDma (Request_dma d b) \<Rightarrow> (if first_free Dma_channel [1, 2, 3, 4] l = 0 then 1 else 0)
   | KDma Requested_channel \<Rightarrow> first_free Dma_channel [1, 2, 3, 4] l
   | KDma (Dma_map_single p n b) \<Rightarrow> p
   | KReg (Readl a) \<Rightarrow> (if a = 0x48098030 then 7 else 0x41)
   | KPlat (Jiffies_left n) \<Rightarrow> 3
   | KPlat Get_mem_resource \<Rightarrow> 1
   | KPlat (Get_dma_resource n) \<Rightarrow> 1
   | KPlat (Resource_start r) \<Rightarrow> 0x48098000
   | KPlat (Devm_request_and_ioremap a) \<Rightarrow> a
   | KPlat Of_match_device \<Rightarrow> 1
   | KPlat Of_num_cs \<Rightarrow> 1
   | _ \<Rightarrow> 0)"

definition mcspi_board :: "u32 list \<Rightarrow> kernel" where
  "mcspi_board ms = board\<lparr>answer := mcspi_answer ms\<rparr>"

definition dead_board :: kernel where
  "dead_board = board\<lparr>answer := (\<lambda>l c. 0)\<rparr>"

lemma mcspi_board_simps [simp]:
  "answer (mcspi_board ms) = mcspi_answer ms" "answer dead_board l c = 0"
  by (simp_all add: mcspi_board_def dead_board_def)

lemma held_mcspi_board: "held_from (mcspi_board ms) R l = held_from board R l"
proof -
  have "k_IS_ERR (mcspi_board ms) = k_IS_ERR board" by (simp add: mcspi_board_def)
  then have "acquired (mcspi_board ms) = acquired board" by (intro ext) (simp only: acquired_def)
  then have "held_step (mcspi_board ms) R ev = held_step board R ev" for R ev by (simp only: held_step_def)
  then show ?thesis by (induction l arbitrary: R) simp_all
qed

lemma memory_0_not_held: "Memory 0 \<notin> held e l"
proof (induction l rule: rev_induct)
  case (snoc ev l)
  then show ?case
    by (cases ev; cases "fst ev") (auto simp: held_step_def split: io_call.splits gpiolib_call.splits
      irq_call.splits sched_call.splits timer_call.splits dev_call.splits mem_call.splits lock_call.splits
      spi_call.splits reg_call.splits dma_call.splits plat_call.splits if_splits)
qed simp

lemma mcspi_board_fresh: "allocates_fresh (mcspi_board ms)"
  unfolding allocates_fresh_def
proof (intro allI)
  fix l n
  show "Memory (answer (mcspi_board ms) l (KMem (Kmalloc n))) \<notin> held (mcspi_board ms) l"
    using memory_0_not_held [of board l]
    by (auto simp: held_mcspi_board mcspi_answer_def first_free_def find_Some_iff split: option.split)
qed

lemma first_free_found:
  "first_free f cs l \<noteq> 0 \<Longrightarrow> first_free f cs l \<in> set cs \<and> f (first_free f cs l) \<notin> held board l"
proof (cases "find (\<lambda>c. f c \<notin> held board l) cs")
  case (Some c)
  then have "c \<in> set cs" "f c \<notin> held board l" by (auto simp: find_Some_iff)
  then show ?thesis using Some by (simp add: first_free_def)
qed (simp add: first_free_def)

lemma mcspi_board_channels: "channels_fresh (mcspi_board ms)"
  unfolding channels_fresh_def Let_def
proof (intro allI impI)
  fix l d b
  let ?l = "l @ [(KDma (Request_dma d b), 0)]" and ?c = "first_free Dma_channel [1, 2, 3, 4] l"
  assume "answer (mcspi_board ms) l (KDma (Request_dma d b)) = 0"
  then have c: "?c \<noteq> 0" by (simp add: mcspi_answer_def split: if_splits)
  have held: "held board ?l = held board l" by (simp add: held_step_def)
  then have "answer (mcspi_board ms) ?l (KDma Requested_channel) = ?c"
    by (simp only: mcspi_board_simps mcspi_answer_def kcall.case dma_call.case first_free_def)
  moreover have "?c \<noteq> NO_CHANNEL" "Dma_channel ?c \<notin> held board l"
    using first_free_found [OF c] by (auto simp: NO_CHANNEL_def)
  ultimately show "answer (mcspi_board ms) ?l (KDma Requested_channel) \<noteq> NO_CHANNEL \<and>
      Dma_channel (answer (mcspi_board ms) ?l (KDma Requested_channel)) \<notin> held (mcspi_board ms) ?l"
    by (simp only: held_mcspi_board held) simp
qed

lemma mcspi_board_ready: "always_ready (mcspi_board ms) 0x48098000"
  by (simp add: always_ready_def mcspi_answer_def OMAP2_MCSPI_CHSTAT_RXS_def OMAP2_MCSPI_CHSTAT_TXS_def
      OMAP2_MCSPI_CHSTAT_EOT_def BIT_def)

lemma dead_board_never: "never_ready dead_board b"
  by (simp add: never_ready_def)

text \<open>A device with words of 8 bits, before it is set up and afterwards.\<close>

definition dev0 :: spi_device where
  "dev0 = \<lparr>sd_addr = 0x500, chip_select = 0, sd_mode = 0, sd_bits_per_word = 8,
     sd_max_speed_hz = 1000000, turbo_mode = False\<rparr>"

definition probed :: mcspi where
  "probed = \<lparr>klog = [], blocks = (\<lambda>_. None), ram = (\<lambda>_. 0), mcspi_base = 0x48098000,
     mcspi_phys = 0x48098000, mcspi_master = 0, dma_channels = 0,
     dma_table = [\<lparr>dma_tx_channel = NO_CHANNEL, dma_rx_channel = NO_CHANNEL, dma_tx_sync_dev = 35,
       dma_rx_sync_dev = 36, dma_tx_done = 0, dma_rx_done = 0\<rparr>],
     ctx_modulctrl = 1, ctx_wakeupenable = 1, ctx_cs = [], cs_heap = (\<lambda>_. \<lparr>cs_base = 0, cs_phys = 0,
       cs_word_len = 0, chconf0 = 0\<rparr>), controller_state = (\<lambda>_. 0), num_chipselect = 1, bus_num = 1,
     master_bus_num = 0\<rparr>"

definition configured :: mcspi where
  "configured = probed\<lparr>blocks := (\<lambda>_. None)(0x1000 := Some 24, 0x2000 := Some 2, 0x3000 := Some 2),
     ram := (\<lambda>_. 0)(0x2000 := 0x12, 0x2001 := 0x34), ctx_cs := [0x1000],
     cs_heap := (\<lambda>_. \<lparr>cs_base = 0x48098000, cs_phys = 0x48098000, cs_word_len = 8, chconf0 = 0x10000\<rparr>),
     controller_state := (\<lambda>_. 0x1000)\<rparr>"

lemmas state_defs = dev0_def probed_def configured_def

lemma dev0_simps:
  "sd_addr dev0 = 0x500" "chip_select dev0 = 0" "sd_bits_per_word dev0 = 8" "sd_mode dev0 = 0"
  by (simp_all add: dev0_def)

text \<open>Two bytes out and in.\<close>

definition two_bytes :: spi_transfer where
  "two_bytes = \<lparr>tx_buf = 0x2000, rx_buf = 0x3000, t_len = 2, tx_dma = 0, rx_dma = 0, t_speed_hz = 0,
     t_bits_per_word = 0, delay_usecs = 0, cs_change = False\<rparr>"

lemmas setup_run = omap2_mcspi_setup_def new_cs_def kmalloc_def setup_dma_def get_dma_def dma_of_def
  omap2_mcspi_request_dma_def set_dma_def omap2_mcspi_enable_clocks_def omap2_mcspi_disable_clocks_def
  omap2_mcspi_setup_transfer_def mcspi_cached_chconf0_def mcspi_write_chconf0_def mcspi_write_cs_reg_def
  mcspi_read_cs_reg_def raw_readl_def raw_writel_def get_cs_def cs_at_def set_cs_def cs_pointer_def
  mcspi_answer_def first_free_def held_step_def word_sless_alt Let_def

section \<open>Registers\<close>

text \<open>C32: The driver's copy of a channel's configuration register is the register. In every state that
  set-ups, messages, clean-ups, power losses and resumes lead to, in any order and whatever the kernel
  answers, every structure in the driver's list is allocated and belongs to a device that is still there, its
  register holds what its copy says unless it has never been configured, and no chip select is forced active
  between messages.\<close>

theorem shadow_register_agrees:
  assumes "mcspi_reachable e devs m" "separate_devices devs" "allocates_fresh e"
    and "p \<in> set (ctx_cs (mc_drv m))"
  shows "let s = mc_drv m; cs = cs_heap s p in
     blocks s p \<noteq> None \<and> (\<exists>spi \<in> set devs. sd_addr spi \<notin> mc_gone m \<and> cs_pointer spi s = p) \<and>
     (chconf0 cs = 0 \<or> reg32 (mc_lost m) (klog s) (cs_base cs + OMAP2_MCSPI_CHCONF0) = Some (chconf0 cs)) \<and>
     \<not> bit (chconf0 cs) 20"
proof -
  have inv: "cs_inv e (mc_lost m) None (mc_drv m)" and own: "cs_owned devs (mc_gone m) (mc_drv m)"
    using reachable_mc_inv [OF assms(1-3)] by (simp_all add: mc_inv_def)
  have "\<exists>spi \<in> set devs. sd_addr spi \<notin> mc_gone m \<and> cs_pointer spi (mc_drv m) = p"
    using own assms(4) by (simp add: cs_owned_def)
  then show ?thesis
    using cs_inv_entry [OF inv assms(4)] by (simp add: entry_inv_def Let_def)
qed

text \<open>C33: Configuring a device takes the word length and the speed of the transfer, or the device's own where
  the transfer leaves them 0, and writes the configuration register and its copy: the clock divisor is the
  smallest power of two that brings 48 MHz down to the speed asked for (at most 2 ^ 15), word length, clock
  phase, clock and chip select polarity are in their fields, data goes out on one line and comes in on the other,
  and every other bit is as it was.\<close>

theorem setup_transfer_configures:
  assumes "blocks s (cs_pointer spi s) \<noteq> None" "bits_of spi t \<noteq> 0" "bits_of spi t \<le> 32"
  shows "wp (omap2_mcspi_setup_transfer e spi t) (\<lambda>r s'.
    let p = cs_pointer spi s; old = chconf0 (cs_heap s p); cs = cs_heap s' p;
        hz = min (unat (speed_of spi t)) 48000000; d = (LEAST k. k = 15 \<or> 48000000 div 2 ^ k \<le> hz) in
    r = 0 \<and> cs_word_len cs = ucast (bits_of spi t) \<and>
    reg32 0 (klog s') (cs_base cs + OMAP2_MCSPI_CHCONF0) = Some (chconf0 cs) \<and>
    (\<forall>i. bit (chconf0 cs) i \<longleftrightarrow>
      (if i = 0 then sd_mode spi AND SPI_CPHA \<noteq> 0
       else if i = 1 then sd_mode spi AND SPI_CPOL \<noteq> 0
       else if i < 6 then bit d (i - 2)
       else if i = 6 then sd_mode spi AND SPI_CS_HIGH = 0
       else if i < 12 then bit (unat (bits_of spi t) - 1) (i - 7)
       else if i = 16 then True
       else if i = 17 \<or> i = 18 then False
       else bit old i))) s"
proof -
  have "1 \<le> bits_of spi t" using assms(2) by (simp add: word_le_nat_alt Suc_le_eq unat_gt_0)
  note bits = bit_chconf_for [OF this assms(3)
    calc_divisor_le [of "min (speed_of spi t) OMAP2_MCSPI_MAX_FREQ"], unfolded calc_divisor_least unat_min_speed]
  show ?thesis
  proof (rule wp_mono [OF wp_setup_transfer_exact [OF assms(1), of e t]])
    fix r s'
    let ?p = "cs_pointer spi s"
    let ?v = "chconf_for (chconf0 (cs_heap s ?p)) (bits_of spi t)
      (LEAST k. k = 15 \<or> 48000000 div 2 ^ k \<le> min (unat (speed_of spi t)) 48000000) (sd_mode spi)"
    assume "let p = ?p; cs = cs_heap s p; v = chconf_for (chconf0 cs) (bits_of spi t)
        (omap2_mcspi_calc_divisor (min (speed_of spi t) OMAP2_MCSPI_MAX_FREQ)) (sd_mode spi) in
      r = 0 \<and> cs_heap s' = (cs_heap s)(p := cs\<lparr>cs_word_len := ucast (bits_of spi t), chconf0 := v\<rparr>) \<and>
      (\<exists>a b. klog s' = klog s @ [(KReg (Writel v (cs_base cs + OMAP2_MCSPI_CHCONF0)), a),
        (KReg (Readl (cs_base cs + OMAP2_MCSPI_CHCONF0)), b)])"
    then have s': "r = 0" "cs_word_len (cs_heap s' ?p) = ucast (bits_of spi t)" "chconf0 (cs_heap s' ?p) = ?v"
      "cs_base (cs_heap s' ?p) = cs_base (cs_heap s ?p)"
      "reg32 0 (klog s') (cs_base (cs_heap s ?p) + OMAP2_MCSPI_CHCONF0) = Some ?v"
      by (auto simp: Let_def calc_divisor_least unat_min_speed reg32_def reg32_step_def)
    show "let p = ?p; old = chconf0 (cs_heap s p); cs = cs_heap s' p;
        hz = min (unat (speed_of spi t)) 48000000; d = (LEAST k. k = 15 \<or> 48000000 div 2 ^ k \<le> hz) in
      r = 0 \<and> cs_word_len cs = ucast (bits_of spi t) \<and>
      reg32 0 (klog s') (cs_base cs + OMAP2_MCSPI_CHCONF0) = Some (chconf0 cs) \<and>
      (\<forall>i. bit (chconf0 cs) i \<longleftrightarrow>
        (if i = 0 then sd_mode spi AND SPI_CPHA \<noteq> 0
         else if i = 1 then sd_mode spi AND SPI_CPOL \<noteq> 0
         else if i < 6 then bit d (i - 2)
         else if i = 6 then sd_mode spi AND SPI_CS_HIGH = 0
         else if i < 12 then bit (unat (bits_of spi t) - 1) (i - 7)
         else if i = 16 then True
         else if i = 17 \<or> i = 18 then False
         else bit old i))"
      unfolding Let_def s'(2-4) by (intro conjI allI bits s'(1,5) refl)
  qed
qed

text \<open>The board's device is configured for 8 bits, at 48 MHz / 2 ^ 6.\<close>

theorem setup_transfer_configures_witness:
  "wp (omap2_mcspi_setup_transfer (mcspi_board []) dev0 None) (\<lambda>r s'. r = 0 \<and>
     cs_word_len (cs_heap s' 0x1000) = 8 \<and> bit (chconf0 (cs_heap s' 0x1000)) 16 \<and>
     \<not> bit (chconf0 (cs_heap s' 0x1000)) 18) configured"
  by (rule wp_mono [OF setup_transfer_configures]) (simp_all add: state_defs cs_pointer_def bits_of_def Let_def)

theorem shadow_register_agrees_witness:
  "\<exists>s p. run_state (omap2_mcspi_setup (mcspi_board [0x1000]) dev0) probed = (0, s) \<and> ctx_cs s = [p] \<and>
     (chconf0 (cs_heap s p) = 0 \<or> reg32 0 (klog s) (cs_base (cs_heap s p) + 0x2C) = Some (chconf0 (cs_heap s p)))"
proof -
  let ?e = "mcspi_board [0x1000]"
  obtain r s where run: "run_state (omap2_mcspi_setup ?e dev0) probed = (r, s)" by fastforce
  have rs: "r = 0" "ctx_cs s = [0x1000]"
    using run by (auto simp: state_defs setup_run)
  let ?m = "\<lparr>mc_drv = probed, mc_lost = 0, mc_gone = {}\<rparr>"
  have "mcspi_start [dev0] ?m" by (simp add: mcspi_start_def state_defs cs_pointer_def)
  moreover have "mcspi_step ?e [dev0] ?m (Mc_setup dev0) (?m\<lparr>mc_drv := s\<rparr>)"
    using run by (simp add: mcspi_step_def mcspi_exec_def mc_known_def mc_after_def)
  ultimately have "mcspi_reachable ?e [dev0] (?m\<lparr>mc_drv := s\<rparr>)" by (blast intro: reach.intros)
  moreover have "separate_devices [dev0]" by (simp add: separate_devices_def dev0_def)
  ultimately show ?thesis
    using shadow_register_agrees [where e = ?e and devs = "[dev0]" and m = "?m\<lparr>mc_drv := s\<rparr>" and p = "0x1000"] mcspi_board_fresh rs run
    by (auto simp: Let_def)
qed

section \<open>Transfers by the processor\<close>

text \<open>C34: On a controller that is always ready, a transfer of k whole words by the processor moves every word
  exactly once and in order: it returns its length, the words of the transmit buffer are what is written to the
  transmit register, the words read from the receive register fill the receive buffer, no other byte of the
  memory changes and there is no access outside the buffers. This holds for 8, 16 and 32 bit words, with one
  buffer or both, in turbo mode or not.\<close>

theorem pio_transfer_moves_every_word:
  assumes "always_ready e (pio_base (pio_of spi t s))" "pio_ready (pio_of spi t s) k s"
    and "cs_word_len (cs_heap s (cs_pointer spi s)) \<le> 32"
    and "t_len t = word_of_nat (width (pio_size (pio_of spi t s)) * k)"
  shows "wp (omap2_mcspi_txrx_pio e spi t) (\<lambda>n s'.
    let cs = cs_heap s (cs_pointer spi s); w = width (size_of_word (cs_word_len cs)) in
    n = t_len t \<and> (\<exists>l. klog s' = klog s @ l \<and> safe_log l \<and>
      (tx_buf t \<noteq> 0 \<longrightarrow> writes_at (cs_base cs + OMAP2_MCSPI_TX0) l =
         map (\<lambda>j. of_le_bytes (bytes_at (tx_buf t + word_of_nat (w * j)) w s)) [0..<k]) \<and>
      (rx_buf t \<noteq> 0 \<longrightarrow> length (reads_at (cs_base cs + OMAP2_MCSPI_RX0) l) = k \<and>
         bytes_at (rx_buf t) (w * k) s' = concat (map (le_bytes w) (reads_at (cs_base cs + OMAP2_MCSPI_RX0) l)))) \<and>
    (\<forall>a. (rx_buf t \<noteq> 0 \<longrightarrow> w * k \<le> unat (a - rx_buf t)) \<longrightarrow> ram s' a = ram s a)) s"
  by (rule wp_mono [OF wp_txrx_pio [OF assms]])
    (auto simp: Let_def pio_done_def pio_of_def intro: neutral_log_safe)

lemma configured_at:
  "cs_pointer dev0 configured = 0x1000"
  "cs_heap configured p = \<lparr>cs_base = 0x48098000, cs_phys = 0x48098000, cs_word_len = 8, chconf0 = 0x10000\<rparr>"
  "klog configured = []" "blocks configured 0x1000 = Some 24" "blocks configured 0x2000 = Some 2"
  "blocks configured 0x3000 = Some 2" "size_of_word 8 = W8" "dma_table configured \<noteq> []"
  by (simp_all add: configured_def cs_pointer_def probed_def size_of_word_def)

theorem pio_transfer_moves_every_word_witness:
  "wp (omap2_mcspi_txrx_pio (mcspi_board []) dev0 two_bytes) (\<lambda>n s'. n = 2 \<and> (\<exists>l. klog s' = klog configured @ l \<and>
     safe_log l \<and> writes_at 0x48098038 l = [0x12, 0x34])) configured"
proof -
  have x: "pio_of dev0 two_bytes configured = \<lparr>pio_dev = dev0, pio_tx = 0x2000, pio_rx = 0x3000, pio_size = W8,
      pio_conf = 0x10000, pio_base = 0x48098000\<rparr>"
    by (simp add: pio_of_def two_bytes_def configured_at)
  have ready: "pio_ready (pio_of dev0 two_bytes configured) 2 configured"
  proof -
    have "2 \<le> unat (0x2000 + word_of_nat i - 0x3000 :: u32)" if "i < 2" for i
      using that by (auto simp: less_2_cases_iff)
    moreover have "fits 0x2000 2 configured" "fits 0x3000 2 configured"
      unfolding fits_def configured_at by simp_all
    ultimately show ?thesis
      unfolding x pio_ready_def Let_def pio.simps width.simps configured_at by simp
  qed
  have words: "map (\<lambda>j. of_le_bytes (bytes_at (0x2000 + word_of_nat (1 * j)) 1 configured)) [0..<2] = [0x12, 0x34]"
    by (simp add: bytes_at_def configured_def upt_rec)
  show ?thesis
  proof (rule wp_mono [OF pio_transfer_moves_every_word [OF _ ready]])
    fix n s'
    let ?cs = "cs_heap configured (cs_pointer dev0 configured)"
    let ?w = "width (size_of_word (cs_word_len ?cs))"
    assume "let cs = ?cs; w = width (size_of_word (cs_word_len cs)) in
      n = t_len two_bytes \<and> (\<exists>l. klog s' = klog configured @ l \<and> safe_log l \<and>
        (tx_buf two_bytes \<noteq> 0 \<longrightarrow> writes_at (cs_base cs + OMAP2_MCSPI_TX0) l =
           map (\<lambda>j. of_le_bytes (bytes_at (tx_buf two_bytes + word_of_nat (w * j)) w configured)) [0..<2]) \<and>
        (rx_buf two_bytes \<noteq> 0 \<longrightarrow> length (reads_at (cs_base cs + OMAP2_MCSPI_RX0) l) = 2 \<and>
           bytes_at (rx_buf two_bytes) (w * 2) s' = concat (map (le_bytes w) (reads_at (cs_base cs + OMAP2_MCSPI_RX0) l)))) \<and>
      (\<forall>a. (rx_buf two_bytes \<noteq> 0 \<longrightarrow> w * 2 \<le> unat (a - rx_buf two_bytes)) \<longrightarrow> ram s' a = ram configured a)"
    then obtain l where "n = t_len two_bytes" "klog s' = klog configured @ l" "safe_log l"
      "tx_buf two_bytes \<noteq> 0 \<longrightarrow> writes_at (cs_base ?cs + OMAP2_MCSPI_TX0) l =
        map (\<lambda>j. of_le_bytes (bytes_at (tx_buf two_bytes + word_of_nat (?w * j)) ?w configured)) [0..<2]"
      unfolding Let_def by (elim conjE exE) (rule that)
    then show "n = 2 \<and> (\<exists>l. klog s' = klog configured @ l \<and> safe_log l \<and> writes_at 0x48098038 l = [0x12, 0x34])"
      using words by (simp add: configured_at two_bytes_def)
  qed (simp_all add: x mcspi_board_ready configured_at, simp_all add: two_bytes_def)
qed

text \<open>C35: Whatever the controller answers, a transfer by the processor that holds at least a word stays within
  buffers of its length and reports at most its length as transferred. A length below an eighth of the word length is
  refused; but the driver rounds that bound down, so a length between it and the size of a word (one byte
  of 9 to 15 bits, two or three of 17 to 31) makes the count wrap around, and on a controller that is ready the transfer
  leaves its buffers.\<close>

theorem pio_stays_in_buffers:
  assumes "exact_buffers spi t s" "safe_log (klog s)" "cs_word_len (cs_heap s (cs_pointer spi s)) \<le> 32"
  shows "let cs = cs_heap s (cs_pointer spi s); w = word_of_nat (width (size_of_word (cs_word_len cs))) in
    (if t_len t < drop_bit 3 (cs_word_len cs) then run_state (omap2_mcspi_txrx_pio e spi t) s = (0, s)
     else wp (omap2_mcspi_txrx_pio e spi t) (\<lambda>n s'.
       (w \<le> t_len t \<longrightarrow> n \<le> t_len t \<and> safe_log (klog s')) \<and>
       (t_len t < w \<and> always_ready e (cs_base cs) \<longrightarrow> \<not> safe_log (klog s'))) s)"
proof -
  let ?cs = "cs_heap s (cs_pointer spi s)"
  let ?w = "word_of_nat (width (size_of_word (cs_word_len ?cs))) :: u32"
  have size: "pio_size (pio_of spi t s) = size_of_word (cs_word_len ?cs)" by (simp add: pio_of_def Let_def)
  have "blocks s (cs_pointer spi s) \<noteq> None" using assms(1) by (simp add: exact_buffers_def)
  note refused = wp_pio_refused [OF this]
  have "wp (omap2_mcspi_txrx_pio e spi t) (\<lambda>n s'. (?w \<le> t_len t \<longrightarrow> n \<le> t_len t \<and> safe_log (klog s')) \<and>
      (t_len t < ?w \<and> always_ready e (cs_base ?cs) \<longrightarrow> \<not> safe_log (klog s'))) s"
    if "drop_bit 3 (cs_word_len ?cs) \<le> t_len t"
  proof (intro wp_conj)
    show "wp (omap2_mcspi_txrx_pio e spi t) (\<lambda>n s'. ?w \<le> t_len t \<longrightarrow> n \<le> t_len t \<and> safe_log (klog s')) s"
    proof (cases "?w \<le> t_len t")
      case True
      then have "word_of_nat (width (pio_size (pio_of spi t s))) \<le> t_len t" by (simp only: size)
      from wp_pio_whole_words [OF assms(1-3) this] show ?thesis by (rule wp_mono) blast
    next
      case False
      then show ?thesis by (simp add: wp_fst_snd)
    qed
    show "wp (omap2_mcspi_txrx_pio e spi t)
        (\<lambda>n s'. t_len t < ?w \<and> always_ready e (cs_base ?cs) \<longrightarrow> \<not> safe_log (klog s')) s"
    proof (cases "t_len t < ?w \<and> always_ready e (cs_base ?cs)")
      case True
      then have "t_len t < word_of_nat (width (pio_size (pio_of spi t s)))" by (simp only: size)
      from wp_pio_overruns [OF assms(1,3) conjunct2 [OF True] that this] show ?thesis by (rule wp_mono) blast
    next
      case False
      then show ?thesis by (auto simp: wp_fst_snd)
    qed
  qed
  then show ?thesis using refused by (simp add: Let_def not_less)
qed

text \<open>One byte of 12 bits.\<close>

theorem pio_stays_in_buffers_witness:
  "wp (omap2_mcspi_txrx_pio (mcspi_board []) dev0 (two_bytes\<lparr>t_len := 1, rx_buf := 0\<rparr>)) (\<lambda>n s'. \<not> safe_log (klog s'))
     (configured\<lparr>blocks := (blocks configured)(0x2000 := Some 1),
        cs_heap := (\<lambda>_. (cs_heap configured 0x1000)\<lparr>cs_word_len := 12\<rparr>)\<rparr>)"
  (is "wp (omap2_mcspi_txrx_pio ?e ?spi ?t) _ ?s")
proof -
  have at: "cs_pointer ?spi ?s = 0x1000" "cs_heap ?s 0x1000 = \<lparr>cs_base = 0x48098000, cs_phys = 0x48098000,
      cs_word_len = 12, chconf0 = 0x10000\<rparr>" "blocks ?s 0x1000 = Some 24" "blocks ?s 0x2000 = Some 1" "klog ?s = []"
    by (simp_all add: configured_def cs_pointer_def probed_def)
  have "exact_buffers ?spi ?t ?s" unfolding exact_buffers_def at(1) using at(3,4) by (auto simp: two_bytes_def)
  from pio_stays_in_buffers [OF this, of ?e] show ?thesis
    unfolding at(1,2,5)
    by (simp add: Let_def two_bytes_def size_of_word_def mcspi_board_ready wp_fst_snd drop_bit_eq_div)
qed

section \<open>Messages\<close>

text \<open>C36: On a controller that is always ready, a message whose transfers are valid, whole words of their own length
  and within their buffers is transferred completely, the short transfers by the processor and the long ones by DMA:
  its status is 0, its actual length the sum of the lengths, whatever word lengths and speeds the transfers ask
  for and wherever they release the chip select. The device is set up, no mapping fails, and the message does not
  come with mappings of its sender's. No access is out of bounds, every DMA mapping that is made is
  undone, and the message is reported as finished, last of all.\<close>

theorem message_completes:
  assumes "always_ready e (cs_base (cs_heap s (cs_pointer spi s)))" "\<forall>l d. answer e l (KDma (Dma_mapping_error d)) = 0"
    and "blocks s (cs_pointer spi s) \<noteq> None" "chip_select spi < length (dma_table s)"
    and "cs_word_len (cs_heap s (cs_pointer spi s)) = ucast (sd_bits_per_word spi)" "sd_bits_per_word spi \<le> 32"
    and "transfers m \<noteq> []" "\<not> is_dma_mapped m" "\<forall>t \<in> set (transfers m). transfer_ok spi (blocks s) t"
  shows "wp (omap2_mcspi_transfer_one_message e spi m) (\<lambda>r s'. r = (0, 0, sum_list (map t_len (transfers m))) \<and>
    (\<exists>l. klog s' = klog s @ l \<and> safe_log l \<and> dma_made l = dma_undone l) \<and>
    fst (List.last (klog s')) = KPlat Finalize_current_message) s"
proof -
  have "dev_at spi (cs_pointer spi s) (cs_base (cs_heap s (cs_pointer spi s))) (blocks s) (pending (klog s) {#})
      (ucast (sd_bits_per_word spi)) s"
    using assms(3-5) by (simp add: dev_at_def pending_def)
  from wp_message_completes [OF assms(1,2,6,9,8) this assms(7)] show ?thesis
    by (rule wp_mono) (simp add: pending_def)
qed

text \<open>Two transfers of two bytes, the second with words of 16 bits, and one of 200 bytes by DMA.\<close>

theorem message_completes_witness:
  "wp (omap2_mcspi_transfer_one_message (mcspi_board []) dev0 \<lparr>transfers = [two_bytes,
       two_bytes\<lparr>t_bits_per_word := 16\<rparr>, two_bytes\<lparr>tx_buf := 0x4000, rx_buf := 0, t_len := 200\<rparr>], is_dma_mapped = False\<rparr>)
     (\<lambda>r s'. r = (0, 0, 204) \<and> dma_made (klog s') = dma_undone (klog s'))
     (configured\<lparr>blocks := (blocks configured)(0x4000 := Some 200)\<rparr>)"
  (is "wp _ _ ?s")
proof -
  have at: "cs_pointer dev0 ?s = 0x1000" "dma_table ?s = dma_table configured" "length (dma_table configured) = 1"
    by (simp_all add: configured_def cs_pointer_def probed_def)
  have apart: "2 \<le> unat (0x2000 + word_of_nat i - 0x3000 :: u32)" if "i < 2" for i
    using that by (auto simp: less_2_cases_iff)
  have ok: "transfer_ok dev0 (blocks ?s) (two_bytes\<lparr>t_bits_per_word := b\<rparr>)" if "b \<in> {0, 16}" for b
    using that apart
    by (auto simp: transfer_ok_def Let_def two_bytes_def invalid_transfer_def bits_of_def dev0_simps
        size_of_word_def configured_at room_def)
  have long: "transfer_ok dev0 (blocks ?s) (two_bytes\<lparr>tx_buf := 0x4000, rx_buf := 0, t_len := 200\<rparr>)"
    by (auto simp: transfer_ok_def Let_def two_bytes_def invalid_transfer_def bits_of_def dev0_simps
        size_of_word_def room_def)
  have ok0: "transfer_ok dev0 (blocks ?s) two_bytes" using ok [of 0] by (simp add: two_bytes_def)
  show ?thesis
    by (rule wp_mono [OF message_completes])
      (use ok [of 16] ok0 long in \<open>simp_all add: configured_at at mcspi_board_ready dev0_simps mcspi_answer_def\<close>,
        auto simp: two_bytes_def)
qed

text \<open>C37: The word that the driver waits for when the controller stops answering counts as transferred. A
  transfer of one word to a controller that is never ready is reported as a success, with its full length,
  though nothing was sent; with more words one is counted, and the status is \<open>-EIO\<close>, unless the transfer has a word
  length or a speed of its own: then restoring the device's configuration overwrites it with 0.\<close>

theorem timeout_counts_a_word:
  fixes s :: "'a mcspi_scheme"
  assumes "never_ready e (cs_base (cs_heap s (cs_pointer spi s)))" "blocks s (cs_pointer spi s) \<noteq> None"
    and "cs_word_len (cs_heap s (cs_pointer spi s)) = ucast (sd_bits_per_word spi)" "sd_bits_per_word spi \<le> 32"
    and "\<not> invalid_transfer t" "tx_buf t \<noteq> 0 \<or> rx_buf t \<noteq> 0" "t_len t < DMA_MIN_BYTES"
    and "word_of_nat (width (size_of_word (ucast (bits_of spi (Some t))))) \<le> t_len t"
    and "chip_select spi < length (dma_table s)"
  shows "wp (omap2_mcspi_transfer_one_message e spi \<lparr>transfers = [t], is_dma_mapped = False\<rparr>) (\<lambda>r s'.
    let n = word_of_nat (width (size_of_word (ucast (bits_of spi (Some t)))));
        reg = cs_base (cs_heap s (cs_pointer spi s)) + OMAP2_MCSPI_TX0 in
    r = (0, if overrides t \<or> n = t_len t then 0 else - EIO, n) \<and>
    (tx_buf t \<noteq> 0 \<longrightarrow> writes_at reg (klog s') = writes_at reg (klog s))) s"
proof -
  let ?b = "cs_base (cs_heap s (cs_pointer spi s))"
  let ?ws = "writes_at (?b + OMAP2_MCSPI_TX0) (klog s)"
  have at: "dev_at spi (cs_pointer spi s) ?b (blocks s) (unsent ?b t ?ws) (ucast (sd_bits_per_word spi)) s"
    using assms(2,3,9) by (simp add: dev_at_def unsent_def)
  note work = wp_work_never [OF assms(1) at assms(6) bits_of_range [OF assms(5,4)] assms(7,8)]
  have map: "map_transfers e False [t] = (ret (Some [t]) :: ('a mcspi_scheme, _) state)"
    using assms(5,7) by (intro wp_map_transfers_pio) simp
  show ?thesis
    by (simp add: omap2_mcspi_transfer_one_message_def map wp_bind wp_return del: map_transfers.simps)
      (rule wp_mono [OF work], auto simp: wp_simps Let_def unsent_def writes_at_def)
qed

theorem timeout_counts_a_word_witness:
  "wp (omap2_mcspi_transfer_one_message dead_board dev0 \<lparr>transfers = [two_bytes\<lparr>t_len := 1\<rparr>], is_dma_mapped = False\<rparr>)
     (\<lambda>r s'. r = (0, 0, 1) \<and> writes_at 0x48098038 (klog s') = []) configured"
  by (rule wp_mono [OF timeout_counts_a_word [OF dead_board_never]])
    (simp_all add: configured_at two_bytes_def dev0_simps invalid_transfer_def bits_of_def writes_at_def)

section \<open>What is held\<close>

text \<open>Whatever set-ups of a device came to, the number of chip selects is as it was.\<close>

lemma keeps_num_chipselect_setup: "keeps (\<lambda>s :: 'a mcspi_scheme. num_chipselect s = n) (omap2_mcspi_setup e spi)"
  unfolding omap2_mcspi_setup_def new_cs_def kmalloc_def setup_dma_def get_dma_def omap2_mcspi_request_dma_def
    set_dma_def set_cs_def omap2_mcspi_enable_clocks_def omap2_mcspi_disable_clocks_def omap2_mcspi_setup_transfer_def
    mcspi_cached_chconf0_def mcspi_write_chconf0_def mcspi_write_cs_reg_def mcspi_read_cs_reg_def raw_readl_def
    raw_writel_def get_cs_def cs_at_def out_of_bounds_def
  by (rule keeps_return keeps_rd keeps_if keeps_let keeps_kcall keeps_kdo keeps_bind keeps_wr | (simp; fail))+

lemma device_holds_same_slot:
  "sd_addr d = sd_addr spi \<Longrightarrow> chip_select d = chip_select spi \<Longrightarrow> device_holds e R B d = device_holds e R B spi"
  by (intro ext) (simp add: device_holds_def cs_pointer_def dma_of_def)

text \<open>C38: A device may be set up any number of times, with other modes, word lengths and speeds and whether or not
  a set-up fails on its way: the clean-up gives back its structure and its DMA channels, so that what is held, what
  has been given back wrongly and the absence of undefined behaviour are as before the first set-up. The
  references to the power of the controller, which are counted apart from what is held, are not: every set-up
  that could not switch the clocks on leaves one.\<close>

theorem setup_cleanup_round_trip:
  assumes "allocates_fresh e" "channels_fresh e" "\<forall>d \<in> set ds. sd_addr d = sd_addr spi \<and> chip_select d = chip_select spi"
    and "cs_pointer spi s = 0" "dma_rx_channel (dma_of spi s) = NO_CHANNEL" "dma_tx_channel (dma_of spi s) = NO_CHANNEL"
    and "chip_select spi < unat (num_chipselect s)" "chip_select spi < length (dma_table s)" "safe_log (klog s)"
  shows "wp (do { do_each ds (\<lambda>d. do { omap2_mcspi_setup e d; skip }); omap2_mcspi_cleanup e spi })
    (\<lambda>_ (s' :: 'a mcspi_scheme). held e (klog s') = held e (klog s) \<and> bad_releases e (klog s') = bad_releases e (klog s) \<and> safe_log (klog s') \<and>
    power_refs (klog s') - power_refs (klog s) = failed_power_ups (klog s') - failed_power_ups (klog s)) s"
proof -
  let ?R = "held e (klog s)" and ?B = "bad_releases e (klog s)"
  let ?P = "power_balance (power_refs (klog s) - failed_power_ups (klog s)) :: 'a mcspi_scheme \<Rightarrow> bool"
  let ?I = "\<lambda>s'. device_holds e ?R ?B spi s' \<and> num_chipselect s' = num_chipselect s \<and> ?P s'"
  have "keeps ?I (omap2_mcspi_setup e d)" if "d \<in> set ds" for d
  proof (rule keepsI)
    fix s' assume s': "?I s'"
    have d: "device_holds e ?R ?B d = device_holds e ?R ?B spi"
      using assms(3) that by (intro device_holds_same_slot) auto
    show "wp (omap2_mcspi_setup e d) (\<lambda>_. ?I) s'"
      using wp_holds_setup [of e ?R ?B d s'] assms(1,2) s'
      by (intro wp_conj keepsD [OF keeps_num_chipselect_setup] keepsD [OF keeps_power_setup]) (simp_all add: d)
  qed
  then have each: "keeps ?I (do_each ds (\<lambda>d. do { omap2_mcspi_setup e d; skip }))"
    by (intro keeps_do_each keeps_bind keeps_return) auto
  have "?I s"
    using assms(4-9) by (simp add: device_holds_def Let_def mem_of_def chan_of_def power_balance_def)
  then show ?thesis
  proof (rule wp_keeps_bind [where I = ?I, OF each])
    fix s' :: "'a mcspi_scheme" assume s': "?I s'"
    then have "wp (omap2_mcspi_cleanup e spi) (\<lambda>_ s'. (held e (klog s') = ?R \<and> bad_releases e (klog s') = ?B \<and>
        safe_log (klog s')) \<and> ?P s') s'"
      using assms(7) by (intro wp_conj wp_holds_cleanup keepsD [OF keeps_power_device(4)]) simp_all
    then show "wp (omap2_mcspi_cleanup e spi) (\<lambda>_ s'. held e (klog s') = ?R \<and> bad_releases e (klog s') = ?B \<and>
        safe_log (klog s') \<and>
        power_refs (klog s') - power_refs (klog s) = failed_power_ups (klog s') - failed_power_ups (klog s)) s'"
      by (rule wp_mono) (simp add: power_balance_def)
  qed
qed

text \<open>The device of the board, set up for 8 and then for 16 bits.\<close>

theorem setup_cleanup_round_trip_witness:
  "wp (do { do_each [dev0, dev0\<lparr>sd_bits_per_word := 16\<rparr>] (\<lambda>d. do { omap2_mcspi_setup (mcspi_board [0x1000]) d; skip });
       omap2_mcspi_cleanup (mcspi_board [0x1000]) dev0 })
     (\<lambda>_ s'. held (mcspi_board [0x1000]) (klog s') = {} \<and> safe_log (klog s') \<and>
        power_refs (klog s') = failed_power_ups (klog s')) probed"
  by (rule wp_mono [OF setup_cleanup_round_trip [OF mcspi_board_fresh mcspi_board_channels]])
    (simp_all add: dev0_def probed_def cs_pointer_def dma_of_def)

text \<open>C39: A message is rejected as a whole when a transfer of it is invalid. If no mapping fails, all that the
  driver does before it returns is to map, in order, the buffers of the transfers before the invalid one:
  both directions, of the transfers that are long enough for DMA, unless the message came with its mappings.
  None of these mappings is undone, they are all still held besides what was held before, and the message is
  not reported as finished.\<close>

theorem rejected_message_keeps_mapping:
  assumes "\<forall>l d. answer e l (KDma (Dma_mapping_error d)) = 0" "invalid_transfer t"
    and "transfers m = ts @ t # ts'" "\<forall>t \<in> set ts. \<not> invalid_transfer t"
  shows "wp (omap2_mcspi_transfer_one_message e spi m)
    (\<lambda>r (s' :: 'a mcspi_scheme). r = (- EINVAL, 0, 0) \<and>
       (\<exists>ds l. length ds = length (concat (map (buffers_mapped (is_dma_mapped m)) ts)) \<and>
          l = mapping_calls (concat (map (buffers_mapped (is_dma_mapped m)) ts)) ds \<and>
          s' = s\<lparr>klog := klog s @ l\<rparr> \<and> dma_made l = mset ds \<and> dma_undone l = {#} \<and>
          held e (klog s') = Dma_mapping ` set ds \<union> held e (klog s) \<and>
          KPlat Finalize_current_message \<notin> fst ` set l)) s"
proof (rule wp_mono [OF wp_rejected_message [OF assms]], elim conjE, intro conjI)
  fix r and s' :: "'a mcspi_scheme"
  let ?bs = "concat (map (buffers_mapped (is_dma_mapped m)) ts)"
  assume "mapped_in ?bs s s'"
  then obtain ds where ds: "length ?bs = length ds" and s': "s' = s\<lparr>klog := klog s @ mapping_calls ?bs ds\<rparr>"
    unfolding mapped_in_def by blast
  have log: "klog s' = klog s @ mapping_calls ?bs ds" by (simp only: s') simp
  show "\<exists>ds l. length ds = length ?bs \<and> l = mapping_calls ?bs ds \<and> s' = s\<lparr>klog := klog s @ l\<rparr> \<and>
      dma_made l = mset ds \<and> dma_undone l = {#} \<and>
      held e (klog s') = Dma_mapping ` set ds \<union> held e (klog s) \<and> KPlat Finalize_current_message \<notin> fst ` set l"
    by (intro exI [of _ ds] exI conjI, rule ds [symmetric], rule refl, rule s',
        simp_all only: mapping_calls_facts [OF ds] log held_from_simps not_False_eq_True)
qed

text \<open>Two buffers of the first and one of the third transfer are mapped; the fourth is too fast.\<close>

theorem rejected_message_keeps_mapping_witness:
  "wp (omap2_mcspi_transfer_one_message (mcspi_board []) dev0
       \<lparr>transfers = [two_bytes\<lparr>t_len := 200\<rparr>, two_bytes, two_bytes\<lparr>t_len := 160, tx_buf := 0\<rparr>,
          two_bytes\<lparr>t_speed_hz := 50000000\<rparr>, two_bytes], is_dma_mapped = False\<rparr>)
     (\<lambda>r s'. \<exists>ds. r = (- EINVAL, 0, 0) \<and> length ds = 3 \<and>
        held (mcspi_board []) (klog s') = Dma_mapping ` set ds \<union> held (mcspi_board []) (klog configured)) configured"
  by (rule wp_mono [OF rejected_message_keeps_mapping [where
        ts = "[two_bytes\<lparr>t_len := 200\<rparr>, two_bytes, two_bytes\<lparr>t_len := 160, tx_buf := 0\<rparr>]"
        and t = "two_bytes\<lparr>t_speed_hz := 50000000\<rparr>" and ts' = "[two_bytes]"]],
      simp_all add: mcspi_answer_def two_bytes_def invalid_transfer_def buffers_mapped_def numeral_3_eq_3, elim exE conjE)
    (rule exI, rule conjI)

text \<open>C40: A probe gives back what it has allocated, or the controller is registered and it holds the master, its
  structure and the table of the DMA channels besides what was held before. A negative result means the
  first; the converse does not hold.\<close>

theorem probe_all_or_nothing:
  assumes "allocates_fresh e"
  shows "wp (omap2_mcspi_probe e) (\<lambda>r s'. held e (klog s') = held e (klog s) \<or>
    (\<not> r <s 0 \<and> held e (klog s') =
       {Spi_master (mcspi_master s'), Memory (mcspi_master s'), Memory (dma_channels s')} \<union> held e (klog s))) s"
  by (rule wp_mono [OF wp_probe [OF assms]]) (auto simp: probe_outcome_def Let_def)

text \<open>With one block the table cannot be allocated: the probe reports success and holds nothing.\<close>

theorem probe_all_or_nothing_witness:
  "wp (omap2_mcspi_probe (mcspi_board [0x1000])) (\<lambda>r s'. r = 0 \<and> held (mcspi_board [0x1000]) (klog s') = {}) probed"
proof -
  let ?e = "mcspi_board [0x1000]"
  have "wp (omap2_mcspi_probe ?e) (\<lambda>r s'. r = 0 \<and> dma_channels s' = 0) probed"
    by (simp add: omap2_mcspi_probe_def kmalloc_def probe_match_def probe_channels_def free_master_def kfree_def
        wp_simps resp_def mcspi_answer_def first_free_def held_step_def probed_def)
  from wp_conj [OF this probe_all_or_nothing [OF mcspi_board_fresh]] show ?thesis
  proof (rule wp_mono)
    fix r :: u32 and s' :: mcspi
    have empty: "held ?e (klog probed) = {}" by (simp add: probed_def)
    have outcome: "r = 0 \<and> H = {}"
      if "(r = 0 \<and> d = 0) \<and> (H = {} \<or> \<not> r <s 0 \<and> H = {m, m', Memory d} \<union> {})" "Memory 0 \<notin> H"
      for H m m' d and r :: u32
      using that by blast
    assume "(r = 0 \<and> dma_channels s' = 0) \<and> (held ?e (klog s') = held ?e (klog probed) \<or>
      \<not> r <s 0 \<and> held ?e (klog s') =
        {Spi_master (mcspi_master s'), Memory (mcspi_master s'), Memory (dma_channels s')} \<union> held ?e (klog probed))"
    then show "r = 0 \<and> held ?e (klog s') = {}"
      unfolding empty by (rule outcome) (rule memory_0_not_held)
  qed
qed

end
