(* ===== verification/Spec2Isabelle.thy ===== *)
theory Spec2Isabelle
  imports Sync_Props Gpio_Props Spi_Props Mcspi_Props
begin

text \<open>
  A verification library for the Linux drivers of the Gumstix board in this repository.

  \<^bold>\<open>The program.\<close> The board dates and controls roadside equipment. Its own code are kernel modules
  in C: the synchronization driver (\<open>ifsttar-synchronization-drv.c\<close>) keeps the official time from
  the pulse of a GPS and, while that is switched off, from a relay timer; the GPIO driver
  (\<open>ifsttar-gpio-drv.c\<close>) gives 192 lines to user space and asks the synchronization driver to date
  their interrupts; \<open>ifsttar_can_spi.c\<close> samples a CAN board over the SPI bus and \<open>spike.c\<close> reads a
  temperature sensor over it. Below these two is the driver of the SPI controller,
  \<open>omap2_mcspi.c\<close> (the version in \<open>new/\<close>), which turns the messages that the SPI core hands it into
  accesses to the controller's registers and DMA transfers.

  \<^bold>\<open>How it is modelled.\<close> A driver function is a function in the state monad over a record of the
  file's globals. The kernel is a parameter: \<open>Kernel\<close> logs every call a driver makes, in order,
  with the answer, which a function \<open>answer\<close> of the log chooses. Nothing is assumed of it; where a
  property relies on documented behaviour (a register keeps what is written, \<open>gpio_request\<close> refuses
  a line in use, a semaphore excludes) that is a named hypothesis. \<open>held\<close> and \<open>bad_releases\<close> read
  the resources off the log; a call that gives up a resource releases it although the caller does not hold it,
  so that a class that is unregistered and then destroyed is released twice. \<open>UB\<close> events mark undefined
  behaviour: a division by zero, an index or a pointer out of bounds, a bad free, and the use of an error
  pointer (\<open>use_pointer\<close>); \<open>faults\<close> are the kinds of them in a log. \<open>wp\<close> in \<open>Prelude\<close> is the
  weakest precondition that the proofs use; \<open>keeps\<close> says that a step keeps an invariant. A driver in
  use is a step relation over the events that reach it (interrupts, every file operation, wake-ups, the
  thread of the synchronization driver), in any order; the GPIO machine has the events of both drivers,
  as the two run together. A run starts with the insertion of the module, for which the value of the
  parameter \<open>m_bThreadLaunching\<close> is an argument (\<open>sync_loaded\<close>) where it matters. \<open>step_system\<close> is
  the locale of reachability and invariants, interpreted for the machines of the synchronization, GPIO,
  CAN and controller drivers.

  \<^bold>\<open>Theories.\<close>
  \<^item> \<open>Prelude\<close>, \<open>Headers\<close>, \<open>Kernel\<close>, \<open>Board\<close>: the monad and its rules, error and ioctl numbers, the
    kernel, and a concrete kernel for the witnesses.
  \<^item> Synchronization driver: \<open>Ring_Buffer\<close> (the circular tables and their history, a locale
    interpreted for both), \<open>Sync_State\<close>, \<open>Sync_Timers\<close>, \<open>Sync_Irq\<close>, \<open>Sync_Fops\<close>, \<open>Sync_Setup\<close> (the
    code), \<open>Sync_Inv\<close>, \<open>Sync_Machine\<close> (invariant, reachability), \<open>Sync_Spec\<close> (the automaton it
    refines), \<open>Sync_Resources\<close> (what an insertion, a run and a removal hold and give back, exactly), \<open>Sync_Props\<close>.
  \<^item> GPIO driver: \<open>Gpio_State\<close>, \<open>Gpio_Mux\<close>, \<open>Gpio_Fops\<close>, \<open>Gpio_Setup\<close> (the code), \<open>Gpio_Pads\<close> (the
    table of pad registers), \<open>Gpio_Inv\<close>, \<open>Gpio_Machine\<close>, \<open>Gpio_Restore\<close> (pad modes come back),
    \<open>Gpio_Owned\<close> (lines and what they hold), \<open>Gpio_Board\<close>, \<open>Gpio_Behaviour\<close>, \<open>Gpio_Props\<close>. Its state
    extends that of the synchronization driver, whose exported function it calls.
  \<^item> SPI drivers: \<open>Memory\<close> (blocks of bytes, \<open>kmalloc\<close>), \<open>Can_Spi\<close> and \<open>Spike\<close> (the code),
    \<open>Can_Machine\<close>, \<open>Spike_Facts\<close>, \<open>Spi_Props\<close>.
  \<^item> SPI controller driver: \<open>Mcspi_State\<close> (registers, clocks), \<open>Mcspi_Transfer\<close> (transfers by the
    processor and by DMA, messages), \<open>Mcspi_Setup\<close> (devices, power, probe and removal), the code;
    \<open>Mcspi_Config\<close> (the bits of the configuration register), \<open>Mcspi_Pio\<close> and \<open>Mcspi_Bounds\<close> (which words
    are moved and which memory is touched), \<open>Mcspi_Steps\<close> and \<open>Mcspi_Dma\<close> (what the steps of a message
    leave, DMA mappings), \<open>Mcspi_Messages\<close> (messages to a controller that is ready
    and to one that never is), \<open>Mcspi_Shadow\<close> and \<open>Mcspi_Machine\<close> (the driver's copies of the registers,
    through set-ups, messages, clean-ups and power losses), \<open>Mcspi_Resources\<close> (what a device and a
    probe hold, and the references to the controller's power, which are counted and not in \<open>held\<close>, a
    set), \<open>Mcspi_Props\<close>.

  \<^bold>\<open>Conventions and bounds.\<close> Integers are 32-bit words as on the ARM processor, with C's wrap-around and
  signed comparisons. An interrupt handler and a system call run to their end without interruption,
  except where a call sleeps: a blocking read is split there into the part before and the part after
  the wake-up, and every other event may come in between. \<open>goto\<close> labels are definitions of their
  own. The only loop that may not end, in \<open>Gpio_initialize\<close>, is a \<open>partial_function\<close> whose
  result \<open>None\<close> means that it never returns; no definition uses fuel. The controller driver polls a
  register for a second: how many polls fit into it is an answer of the kernel, so the loop ends. The
  transfer loop counts down modulo \<open>2 ^ 32\<close> and ends by the measure \<open>pio_left\<close>. A loss of power is an event of
  the machine; what the registers hold is read off the log from there on. The callbacks of a DMA
  transfer run while the driver waits for it, the first of them as an answer says; that one of them runs
  earlier, between the two starts of the channels, is left out.

  \<^bold>\<open>Not modelled.\<close> Messages to the kernel log; preemption inside a handler; floating point (the
  position is kept as bit patterns). The SPI core between the SPI drivers and the controller driver is not part
  of the repository: the former call it, the latter is called by it. The sizes of the structures that are
  allocated are constants, and that of the master, which the kernel chooses, stands for any. The older copy of
  \<open>omap2_mcspi.c\<close> does not compile (it defines \<open>omap2_mcspi_work\<close> twice and calls a function it does not have).
  The C++ classes of user space, the test programs and the sysroot \<open>overo\<close> are outside the library.
\<close>

end
